(* ===== verification/Prelude.thy ===== *)
theory Prelude
  imports Main "HOL-Library.Word" "HOL-Library.Sublist"
begin

text \<open>
  Shared vocabulary of the development: outcomes of Rust code (a value, a panic), the
  character and string operations of the Rust standard library that the sources use, and
  generic lemmas about lists.

  A Rust \<open>str\<close> is its sequence of UTF-8 bytes, a \<open>string\<close> whose characters are bytes.
  A Rust \<open>char\<close> is modelled where the code only ever builds characters from single
  bytes (\<open>bytes[i] as char\<close>): such a character is one of U+0000 to U+00FF and is again an
  Isabelle \<open>char\<close>.
\<close>

named_theorems run_simps \<open>equations of the outcome monad\<close>
named_theorems rust_str \<open>equations of the string operations\<close>

section \<open>Outcomes\<close>

text \<open>A Rust computation returns a value or panics.\<close>

datatype 'a run = Ret 'a | Panic

fun rbind :: "'a run \<Rightarrow> ('a \<Rightarrow> 'b run) \<Rightarrow> 'b run" where
  "rbind (Ret x) f = f x"
| "rbind Panic f = Panic"

lemma rbind_Ret_iff [run_simps]: "rbind m f = Ret y \<longleftrightarrow> (\<exists>x. m = Ret x \<and> f x = Ret y)"
  by (cases m) auto

lemma rbind_Panic_iff [run_simps]:
  "rbind m f = Panic \<longleftrightarrow> m = Panic \<or> (\<exists>x. m = Ret x \<and> f x = Panic)"
  by (cases m) auto

definition run_map :: "('a \<Rightarrow> 'b) \<Rightarrow> 'a run \<Rightarrow> 'b run" where
  "run_map f m = rbind m (\<lambda>x. Ret (f x))"

lemma run_map_simps [simp]: "run_map f (Ret x) = Ret (f x)" "run_map f Panic = Panic"
  by (simp_all add: run_map_def)

text \<open>The \<open>?\<close> operator on a \<open>Result\<close>: continue with the value or return the error.\<close>

fun try_ok :: "'e + 'a \<Rightarrow> ('a \<Rightarrow> 'e + 'b) \<Rightarrow> 'e + 'b" where
  "try_ok (Inl e) f = Inl e"
| "try_ok (Inr x) f = f x"

lemma try_ok_Inr_iff [run_simps]: "try_ok m f = Inr y \<longleftrightarrow> (\<exists>x. m = Inr x \<and> f x = Inr y)"
  by (cases m) auto

definition ok_or :: "'e \<Rightarrow> 'a option \<Rightarrow> 'e + 'a" where
  "ok_or e m = (case m of None \<Rightarrow> Inl e | Some x \<Rightarrow> Inr x)"

lemma ok_or_simps [simp]: "ok_or e None = Inl e" "ok_or e (Some x) = Inr x"
  by (simp_all add: ok_or_def)

section \<open>Characters\<close>

definition byte :: "char \<Rightarrow> nat" where
  "byte c = of_char c"

definition ascii :: "char \<Rightarrow> bool" where
  "ascii c \<longleftrightarrow> byte c < 128"

text \<open>\<open>char::is_whitespace\<close> on U+0000 to U+00FF.\<close>

definition is_ws :: "char \<Rightarrow> bool" where
  "is_ws c \<longleftrightarrow> 9 \<le> byte c \<and> byte c \<le> 13 \<or> byte c = 32 \<or> byte c = 133 \<or> byte c = 160"

definition is_digit :: "char \<Rightarrow> bool" where
  "is_digit c \<longleftrightarrow> 48 \<le> byte c \<and> byte c \<le> 57"

definition is_lower :: "char \<Rightarrow> bool" where
  "is_lower c \<longleftrightarrow> 97 \<le> byte c \<and> byte c \<le> 122"

definition is_upper :: "char \<Rightarrow> bool" where
  "is_upper c \<longleftrightarrow> 65 \<le> byte c \<and> byte c \<le> 90"

text \<open>\<open>char::is_ascii_alphanumeric\<close>.\<close>

definition is_ascii_alnum :: "char \<Rightarrow> bool" where
  "is_ascii_alnum c \<longleftrightarrow> is_digit c \<or> is_lower c \<or> is_upper c"

text \<open>
  \<open>char::is_alphanumeric\<close> on U+0000 to U+00FF: the ASCII letters and digits, the letters
  U+00AA, U+00B5, U+00BA, U+00C0 to U+00FF but U+00D7 and U+00F7, and the numeric
  characters U+00B2, U+00B3, U+00B9, U+00BC to U+00BE.
\<close>

definition is_alnum :: "char \<Rightarrow> bool" where
  "is_alnum c \<longleftrightarrow> is_ascii_alnum c
     \<or> byte c \<in> {170, 178, 179, 181, 185, 186, 188, 189, 190}
     \<or> 192 \<le> byte c \<and> byte c \<noteq> 215 \<and> byte c \<noteq> 247"

text \<open>\<open>u8::is_ascii_whitespace\<close>: space, tab, line feed, form feed, carriage return.\<close>

definition is_ascii_ws :: "char \<Rightarrow> bool" where
  "is_ascii_ws c \<longleftrightarrow> byte c \<in> {32, 9, 10, 12, 13}"

lemmas char_class_defs =
  is_ws_def is_alnum_def is_ascii_alnum_def is_digit_def is_lower_def is_upper_def
  is_ascii_ws_def ascii_def byte_def

lemma byte_less [simp]: "byte c < 256"
  using nat_of_char_less_256 [of c] by (simp add: byte_def)

lemma char_of_byte [simp]: "char_of (byte c) = c"
  by (simp add: byte_def)

lemma byte_char_of [simp]: "byte (char_of n) = n mod 256"
  by (simp add: byte_def)

lemma byte_eq_iff: "byte c = byte d \<longleftrightarrow> c = d"
  by (auto simp: byte_def)

definition to_lower :: "char \<Rightarrow> char" where
  "to_lower c = (if is_upper c then char_of (byte c + 32) else c)"

definition to_upper :: "char \<Rightarrow> char" where
  "to_upper c = (if is_lower c then char_of (byte c - 32) else c)"

definition to_ascii_lowercase :: "string \<Rightarrow> string" where
  "to_ascii_lowercase s = map to_lower s"

definition to_ascii_uppercase :: "string \<Rightarrow> string" where
  "to_ascii_uppercase s = map to_upper s"

definition eq_ignore_ascii_case :: "string \<Rightarrow> string \<Rightarrow> bool" where
  "eq_ignore_ascii_case s t \<longleftrightarrow> to_ascii_lowercase s = to_ascii_lowercase t"

lemma byte_to_lower: "byte (to_lower c) = (if is_upper c then byte c + 32 else byte c)"
  by (auto simp: to_lower_def is_upper_def)

lemma byte_to_upper: "byte (to_upper c) = (if is_lower c then byte c - 32 else byte c)"
  by (auto simp: to_upper_def is_lower_def)

lemma to_upper_of_lower [simp]: "to_upper (to_lower c) = to_upper c"
  by (simp add: byte_eq_iff [symmetric] byte_to_lower byte_to_upper is_lower_def is_upper_def)

lemma to_lower_of_upper [simp]: "to_lower (to_upper c) = to_lower c"
  by (simp add: byte_eq_iff [symmetric] byte_to_lower byte_to_upper is_lower_def is_upper_def)
    arith

lemma to_lower_idem [simp]: "to_lower (to_lower c) = to_lower c"
  by (simp add: byte_eq_iff [symmetric] byte_to_lower is_upper_def)

lemma to_lower_eq_iff_upper: "to_lower c = to_lower d \<longleftrightarrow> to_upper c = to_upper d"
  by (metis to_lower_of_upper to_upper_of_lower)

lemma map_upper_of_lower: "map to_upper (map to_lower s) = map to_upper s"
  and map_lower_of_upper: "map to_lower (map to_upper s) = map to_lower s"
  by (simp_all add: comp_def)

lemma eq_ignore_case_upper:
  "eq_ignore_ascii_case s t \<longleftrightarrow> to_ascii_uppercase s = to_ascii_uppercase t"
  unfolding eq_ignore_ascii_case_def to_ascii_lowercase_def to_ascii_uppercase_def
  by (metis map_lower_of_upper map_upper_of_lower)

lemma eq_ignore_case_refl [simp]: "eq_ignore_ascii_case s s"
  by (simp add: eq_ignore_ascii_case_def)

lemma eq_ignore_case_sym: "eq_ignore_ascii_case s t \<Longrightarrow> eq_ignore_ascii_case t s"
  by (simp add: eq_ignore_ascii_case_def)

lemma length_to_ascii_lowercase [simp]: "length (to_ascii_lowercase s) = length s"
  by (simp add: to_ascii_lowercase_def)

lemma ascii_to_lower [simp]: "ascii (to_lower c) = ascii c"
  by (auto simp: ascii_def byte_to_lower is_upper_def)

section \<open>UTF-8\<close>

text \<open>The UTF-8 encoding of a character U+0000 to U+00FF.\<close>

definition utf8_char :: "char \<Rightarrow> string" where
  "utf8_char c = (if byte c < 128 then [c]
     else [char_of (192 + byte c div 64), char_of (128 + byte c mod 64)])"

text \<open>The bytes of a \<open>String\<close> that was built by pushing such characters.\<close>

definition utf8 :: "string \<Rightarrow> string" where
  "utf8 s = concat (map utf8_char s)"

lemma utf8_simps [simp]:
  "utf8 [] = []" "utf8 (c # s) = utf8_char c @ utf8 s" "utf8 (s @ t) = utf8 s @ utf8 t"
  by (simp_all add: utf8_def)

lemma utf8_char_ascii [simp]: "ascii c \<Longrightarrow> utf8_char c = [c]"
  by (simp add: utf8_char_def ascii_def)

lemma utf8_ascii: "list_all ascii s \<Longrightarrow> utf8 s = s"
  by (induction s) auto

text \<open>
  \<open>str::is_char_boundary\<close>: a slice \<open>&s[i..]\<close> panics when the byte at \<open>i\<close> continues a
  character. \<open>boundary rest\<close> says so of the bytes that follow the cut.
\<close>

definition is_cont :: "char \<Rightarrow> bool" where
  "is_cont c \<longleftrightarrow> 128 \<le> byte c \<and> byte c < 192"

definition boundary :: "string \<Rightarrow> bool" where
  "boundary rest \<longleftrightarrow> (case rest of [] \<Rightarrow> True | c # _ \<Rightarrow> \<not> is_cont c)"

lemma boundary_simps [simp]: "boundary []" "boundary (c # s) = (\<not> is_cont c)"
  by (simp_all add: boundary_def)

lemma ascii_not_cont [simp]: "ascii c \<Longrightarrow> \<not> is_cont c"
  by (simp add: ascii_def is_cont_def)

text \<open>
  The UTF-8 encodings of the Unicode white space characters, for \<open>str::trim\<close>.
\<close>

definition ws_codes :: "string list" where
  "ws_codes = map (\<lambda>n. [char_of n]) [9, 10, 11, 12, 13, 32 :: nat]
     @ map (map char_of) [[194, 133], [194, 160], [225, 154, 128 :: nat]]
     @ map (\<lambda>n. map char_of [226, 128, n])
         [128, 129, 130, 131, 132, 133, 134, 135, 136, 137, 138, 168, 169, 175 :: nat]
     @ map (map char_of) [[226, 129, 159], [227, 128, 128 :: nat]]"

fun strip_any :: "string list \<Rightarrow> string \<Rightarrow> string option" where
  "strip_any [] s = None"
| "strip_any (w # ws) s = (if w \<noteq> [] \<and> prefix w s then Some (drop (length w) s) else strip_any ws s)"

lemma strip_any_shorter: "strip_any ws s = Some t \<Longrightarrow> length t < length s"
  by (induction ws) (auto split: if_splits simp: prefix_def)

function trim_codes :: "string list \<Rightarrow> string \<Rightarrow> string" where
  "trim_codes ws s = (case strip_any ws s of None \<Rightarrow> s | Some t \<Rightarrow> trim_codes ws t)"
  by pat_completeness auto
termination
  by (relation "measure (\<lambda>(ws, s). length s)") (auto dest: strip_any_shorter)

declare trim_codes.simps [simp del]

definition trim_start :: "string \<Rightarrow> string" where
  "trim_start s = trim_codes ws_codes s"

definition trim_end :: "string \<Rightarrow> string" where
  "trim_end s = rev (trim_codes (map rev ws_codes) (rev s))"

definition trim :: "string \<Rightarrow> string" where
  "trim s = trim_end (trim_start s)"

text \<open>
  \<open>str::to_uppercase\<close> as far as ASCII letters come out: the ASCII letters, and the other characters
  whose upper case starts with one (U+00DF, U+0131, U+017F, U+01F0, U+1E96 to U+1E9A and the ligatures
  U+FB00 to U+FB06). Every other character stays, as its upper case has no ASCII letter in front.
\<close>

definition upper_codes :: "(string \<times> string) list" where
  "upper_codes =
     [(map char_of [195, 159 :: nat], ''SS''), (map char_of [196, 177 :: nat], ''I''),
      (map char_of [197, 191 :: nat], ''S''), (map char_of [199, 176 :: nat], CHR ''J'' # map char_of [204, 140 :: nat])]
     @ map (\<lambda>(n, u, m). (map char_of [225, 186, n], u # map char_of (m :: nat list)))
         [(150, CHR ''H'', [204, 177]), (151, CHR ''T'', [204, 136]), (152, CHR ''W'', [204, 138]),
          (153, CHR ''Y'', [204, 138]), (154 :: nat, CHR ''A'', [202, 190])]
     @ map (\<lambda>(n, u). (map char_of [239, 172, n], u))
         [(128, ''FF''), (129, ''FI''), (130, ''FL''), (131, ''FFI''), (132, ''FFL''),
          (133, ''ST''), (134 :: nat, ''ST'')]"

fun upper_code :: "(string \<times> string) list \<Rightarrow> string \<Rightarrow> (string \<times> nat) option" where
  "upper_code [] s = None"
| "upper_code ((w, u) # ws) s = (if prefix w s then Some (u, length w) else upper_code ws s)"

fun to_uppercase :: "string \<Rightarrow> string" where
  "to_uppercase [] = []"
| "to_uppercase (c # s) =
     (if ascii c then to_upper c # to_uppercase s
      else (case upper_code upper_codes (c # s) of
          Some (u, n) \<Rightarrow> u @ to_uppercase (drop (n - 1) s)
        | None \<Rightarrow> c # to_uppercase s))"

text \<open>
  \<open>str::to_lowercase\<close> as far as ASCII letters come out: the Kelvin sign U+212A and U+0130 are the other
  characters whose lower case starts with one.
\<close>

fun to_lowercase :: "string \<Rightarrow> string" where
  "to_lowercase [] = []"
| "to_lowercase (c # s) =
     (if ascii c then to_lower c # to_lowercase s
      else if prefix (map char_of [226, 132, 170 :: nat]) (c # s) then CHR ''k'' # to_lowercase (drop 2 s)
      else if prefix (map char_of [196, 176 :: nat]) (c # s)
        then CHR ''i'' # map char_of [204, 135 :: nat] @ to_lowercase (drop 1 s)
      else c # to_lowercase s)"

text \<open>Trimming leaves a text alone that starts and ends with an ASCII character that is not white space.\<close>

lemma strip_any_solid: "ascii c \<Longrightarrow> \<not> is_ws c \<Longrightarrow> (\<And>w. w \<in> set ws \<Longrightarrow> w = [] \<or> \<not> ascii (hd w) \<or> is_ws (hd w)) \<Longrightarrow>
    strip_any ws (c # s) = None"
proof (induction ws)
  case (Cons w ws)
  from Cons.prems(3) [of w] Cons.prems(1,2) have "w = [] \<or> hd w \<noteq> c" by auto
  with Cons.IH Cons.prems show ?case by (cases w) auto
qed simp

lemma ws_codes_heads: "w \<in> set ws_codes \<union> set (map rev ws_codes) \<Longrightarrow> \<not> ascii (hd w) \<or> is_ws (hd w)"
  by (auto simp: ws_codes_def ascii_def is_ws_def)

lemma trim_solid:
  assumes "s \<noteq> []" "ascii (hd s)" "\<not> is_ws (hd s)" "ascii (last s)" "\<not> is_ws (last s)"
  shows "trim s = s"
proof -
  have "strip_any ws_codes s = None"
    using assms ws_codes_heads by (cases s) (auto intro!: strip_any_solid)
  moreover have "strip_any (map rev ws_codes) (rev s) = None"
    using assms ws_codes_heads by (cases s rule: rev_cases) (auto intro!: strip_any_solid)
  ultimately show ?thesis
    by (simp add: trim_def trim_start_def trim_end_def trim_codes.simps [of _ s] trim_codes.simps [of _ "rev s"])
qed

section \<open>String searching and joining\<close>

text \<open>\<open>[T]::join\<close> with a separator.\<close>

fun join :: "string \<Rightarrow> string list \<Rightarrow> string" where
  "join sep [] = []"
| "join sep [x] = x"
| "join sep (x # y # xs) = x @ sep @ join sep (y # xs)"

lemma join_Cons [rust_str]: "xs \<noteq> [] \<Longrightarrow> join sep (x # xs) = x @ sep @ join sep xs"
  by (cases xs) auto

lemma join_snoc [rust_str]: "xs \<noteq> [] \<Longrightarrow> join sep (xs @ [x]) = join sep xs @ sep @ x"
  by (induction sep xs rule: join.induct) (auto simp: join_Cons)

text \<open>\<open>str::replace\<close> of one ASCII character by a string.\<close>

definition replace_char :: "char \<Rightarrow> string \<Rightarrow> string \<Rightarrow> string" where
  "replace_char c r s = concat (map (\<lambda>d. if d = c then r else [d]) s)"

lemma replace_char_simps [simp]:
  "replace_char c r [] = []"
  "replace_char c r (d # s) = (if d = c then r else [d]) @ replace_char c r s"
  by (simp_all add: replace_char_def)

text \<open>\<open>str::replace\<close> of a doubled ASCII character by the single one, left to right.\<close>

fun undouble :: "char \<Rightarrow> string \<Rightarrow> string" where
  "undouble q [] = []"
| "undouble q [c] = [c]"
| "undouble q (c # d # s) = (if c = q \<and> d = q then q # undouble q s else c # undouble q (d # s))"

lemma undouble_replace [rust_str]: "undouble q (replace_char q [q, q] s) = s"
proof (induction s)
  case Nil
  then show ?case by simp
next
  case (Cons c s)
  show ?case
  proof (cases "c = q")
    case True
    with Cons show ?thesis by simp
  next
    case False
    then have "undouble q (c # replace_char q [q, q] s) = c # undouble q (replace_char q [q, q] s)"
      by (cases "replace_char q [q, q] s") auto
    with False Cons show ?thesis by simp
  qed
qed

text \<open>\<open>str::contains\<close>.\<close>

fun contains_str :: "string \<Rightarrow> string \<Rightarrow> bool" where
  "contains_str pat [] = (pat = [])"
| "contains_str pat (c # s) = (prefix pat (c # s) \<or> contains_str pat s)"

lemma contains_str_iff: "contains_str pat s \<longleftrightarrow> sublist pat s"
proof (induction s)
  case Nil
  then show ?case by simp
next
  case (Cons c s)
  then show ?case by (auto simp: sublist_Cons_right)
qed

section \<open>Lists\<close>

lemma length_dropWhile_Cons [simp]: "length (dropWhile P s) < Suc (length s)"
  by (simp add: le_imp_less_Suc length_dropWhile_le)

section \<open>Steps\<close>

text \<open>
  An operation of a component with state: it returns a result or an error, and the state after it,
  or it panics. \<open>sbind\<close> is the \<open>?\<close> operator between two such operations.
\<close>

type_synonym ('s, 'e, 'a) step = "'s \<Rightarrow> (('e + 'a) \<times> 's) run"

definition sret :: "'a \<Rightarrow> ('s, 'e, 'a) step" where
  "sret x s = Ret (Inr x, s)"

definition sfail :: "'e \<Rightarrow> ('s, 'e, 'a) step" where
  "sfail e s = Ret (Inl e, s)"

definition smodify :: "('s \<Rightarrow> 's) \<Rightarrow> ('s, 'e, unit) step" where
  "smodify f s = Ret (Inr (), f s)"

definition sbind :: "('s, 'e, 'a) step \<Rightarrow> ('a \<Rightarrow> ('s, 'e, 'b) step) \<Rightarrow> ('s, 'e, 'b) step" where
  "sbind m f s = rbind (m s) (\<lambda>(r, s'). case r of Inl e \<Rightarrow> Ret (Inl e, s') | Inr x \<Rightarrow> f x s')"

definition sthen :: "('s, 'e, 'a) step \<Rightarrow> ('s, 'e, 'b) step \<Rightarrow> ('s, 'e, 'b) step" where
  "sthen m n = sbind m (\<lambda>_. n)"

lemma sbind_Ret_iff [run_simps]:
  "sbind m f s = Ret (r, s') \<longleftrightarrow>
    (\<exists>e. m s = Ret (Inl e, s') \<and> r = Inl e) \<or> (\<exists>x t. m s = Ret (Inr x, t) \<and> f x t = Ret (r, s'))"
proof (cases "m s")
  case (Ret p)
  then show ?thesis by (cases "fst p"; cases p) (auto simp: sbind_def)
qed (simp add: sbind_def)

lemma sthen_cases [consumes 1, case_names error ok]:
  assumes "sthen m n s = Ret (r, s')"
  obtains e where "m s = Ret (Inl e, s')" "r = Inl e"
  | x t where "m s = Ret (Inr x, t)" "n t = Ret (r, s')"
  using assms unfolding sthen_def sbind_Ret_iff by blast

lemma sbind_cases [consumes 1, case_names error ok]:
  assumes "sbind m f s = Ret (r, s')"
  obtains e where "m s = Ret (Inl e, s')" "r = Inl e"
  | x t where "m s = Ret (Inr x, t)" "f x t = Ret (r, s')"
  using assms unfolding sbind_Ret_iff by blast

text \<open>A triple: from a state with \<open>P\<close>, a value comes with \<open>Q\<close> and an error with \<open>R\<close>.\<close>

definition triple :: "('s \<Rightarrow> bool) \<Rightarrow> ('s, 'e, 'a) step \<Rightarrow> ('a \<Rightarrow> 's \<Rightarrow> bool) \<Rightarrow> ('s \<Rightarrow> bool) \<Rightarrow> bool" where
  "triple P m Q R \<longleftrightarrow> (\<forall>s r s'. P s \<and> m s = Ret (r, s') \<longrightarrow> (case r of Inl _ \<Rightarrow> R s' | Inr x \<Rightarrow> Q x s'))"

named_theorems triple_intros \<open>rules for triples\<close>

lemma tripleI:
  "(\<And>s e s'. P s \<Longrightarrow> m s = Ret (Inl e, s') \<Longrightarrow> R s') \<Longrightarrow>
   (\<And>s x s'. P s \<Longrightarrow> m s = Ret (Inr x, s') \<Longrightarrow> Q x s') \<Longrightarrow> triple P m Q R"
  by (auto simp: triple_def split: sum.splits)

lemma triple_value: "triple P m Q R \<Longrightarrow> P s \<Longrightarrow> m s = Ret (Inr x, s') \<Longrightarrow> Q x s'"
  and triple_error: "triple P m Q R \<Longrightarrow> P s \<Longrightarrow> m s = Ret (Inl e, s') \<Longrightarrow> R s'"
  by (force simp: triple_def)+

lemma triple_state: "triple P m (\<lambda>_. Q) Q \<Longrightarrow> P s \<Longrightarrow> m s = Ret (r, s') \<Longrightarrow> Q s'"
  by (cases r) (auto dest: triple_value triple_error)

lemma triple_bind [triple_intros]:
  assumes "triple P m Q R" "\<And>x. triple (Q x) (f x) Q' R"
  shows "triple P (sbind m f) Q' R"
  using assms unfolding sbind_Ret_iff triple_def by (fastforce split: sum.splits)

lemma triple_then [triple_intros]:
  "triple P m (\<lambda>_. Q) R \<Longrightarrow> triple Q n Q' R \<Longrightarrow> triple P (sthen m n) Q' R"
  unfolding sthen_def by (rule triple_bind)

lemma triple_ret [triple_intros]: "(\<And>s. P s \<Longrightarrow> Q x s) \<Longrightarrow> triple P (sret x) Q R"
  by (auto simp: triple_def sret_def)

lemma triple_fail [triple_intros]: "(\<And>s. P s \<Longrightarrow> R s) \<Longrightarrow> triple P (sfail e) Q R"
  by (auto simp: triple_def sfail_def)

lemma triple_modify [triple_intros]: "(\<And>s. P s \<Longrightarrow> Q () (f s)) \<Longrightarrow> triple P (smodify f) Q R"
  by (auto simp: triple_def smodify_def)

lemma triple_if [triple_intros]:
  "(b \<Longrightarrow> triple P m Q R) \<Longrightarrow> (\<not> b \<Longrightarrow> triple P n Q R) \<Longrightarrow> triple P (if b then m else n) Q R"
  by simp

lemma triple_weaken: "triple P m Q R \<Longrightarrow> (\<And>s. P' s \<Longrightarrow> P s) \<Longrightarrow> triple P' m Q R"
  by (auto simp: triple_def)

lemma triple_conseq:
  "triple P m Q R \<Longrightarrow> (\<And>s. P' s \<Longrightarrow> P s) \<Longrightarrow> (\<And>x s. Q x s \<Longrightarrow> Q' x s) \<Longrightarrow> (\<And>s. R s \<Longrightarrow> R' s) \<Longrightarrow>
    triple P' m Q' R'"
  unfolding triple_def by (fastforce split: sum.splits)

lemma triple_conj:
  "triple P m Q R \<Longrightarrow> triple P' m Q' R' \<Longrightarrow>
    triple (\<lambda>s. P s \<and> P' s) m (\<lambda>x s. Q x s \<and> Q' x s) (\<lambda>s. R s \<and> R' s)"
  unfolding triple_def by (fastforce split: sum.splits)

text \<open>\<open>Iterator::filter_map\<close> of an iterator that has been mapped to options.\<close>

fun somes :: "'a option list \<Rightarrow> 'a list" where
  "somes [] = []"
| "somes (None # xs) = somes xs"
| "somes (Some x # xs) = x # somes xs"

lemma somes_Nil_iff: "somes xs = [] \<longleftrightarrow> set xs \<subseteq> {None}"
  by (induction xs rule: somes.induct) auto

lemma somes_append [simp]: "somes (xs @ ys) = somes xs @ somes ys"
  by (induction xs rule: somes.induct) auto

lemma set_somes: "set (somes xs) = {x. Some x \<in> set xs}"
  by (induction xs rule: somes.induct) auto

lemma somes_map_Some [simp]: "somes (map Some xs) = xs"
  by (induction xs) auto

text \<open>\<open>str::split\<close> on a character, \<open>str::strip_prefix\<close>, and \<open>Iterator::find_map\<close>.\<close>

fun split_char :: "char \<Rightarrow> string \<Rightarrow> string list" where
  "split_char c [] = [[]]"
| "split_char c (d # s) =
     (if d = c then [] # split_char c s
      else (case split_char c s of [] \<Rightarrow> [[d]] | p # ps \<Rightarrow> (d # p) # ps))"

definition strip_prefix :: "string \<Rightarrow> string \<Rightarrow> string option" where
  "strip_prefix p s = (if prefix p s then Some (drop (length p) s) else None)"

text \<open>\<open>str::parse::<u64>\<close>: an optional plus sign and at least one digit, below \<open>2 ^ 64\<close>.\<close>

definition digit_value :: "char \<Rightarrow> nat" where
  "digit_value c = byte c - 48"

definition parse_u64 :: "string \<Rightarrow> nat option" where
  "parse_u64 s =
     (let ds = (if prefix ''+'' s then tl s else s); n = foldl (\<lambda>a c. 10 * a + digit_value c) 0 ds in
      if ds \<noteq> [] \<and> list_all is_digit ds \<and> n < 2 ^ 64 then Some n else None)"

fun first_some :: "('a \<Rightarrow> 'b option) \<Rightarrow> 'a list \<Rightarrow> 'b option" where
  "first_some f [] = None"
| "first_some f (x # xs) = (case f x of None \<Rightarrow> first_some f xs | Some y \<Rightarrow> Some y)"

text \<open>\<open>usize::to_string\<close>.\<close>

fun show_nat :: "nat \<Rightarrow> string" where
  "show_nat n = (if n < 10 then [char_of (48 + n)] else show_nat (n div 10) @ [char_of (48 + n mod 10)])"

declare show_nat.simps [simp del]

definition decimal :: "string \<Rightarrow> nat" where
  "decimal ds = foldl (\<lambda>a c. 10 * a + digit_value c) 0 ds"

lemma decimal_snoc: "decimal (ds @ [c]) = 10 * decimal ds + digit_value c"
  by (simp add: decimal_def)

lemma digit_of: "k < 10 \<Longrightarrow> is_digit (char_of (48 + k)) \<and> digit_value (char_of (48 + k)) = k"
  by (simp add: is_digit_def digit_value_def)

lemma show_nat_decimal: "show_nat n \<noteq> [] \<and> list_all is_digit (show_nat n) \<and> decimal (show_nat n) = n"
proof (induction n rule: show_nat.induct)
  case (1 n)
  show ?case
  proof (cases "n < 10")
    case True
    with digit_of [of n] show ?thesis by (simp add: show_nat.simps [of n] decimal_def)
  next
    case False
    with 1 digit_of [of "n mod 10"] show ?thesis by (simp add: show_nat.simps [of n] decimal_snoc)
  qed
qed

lemma show_nat_not_signed: "is_digit (hd (show_nat n))" "hd (show_nat n) \<noteq> CHR ''+''" "hd (show_nat n) \<noteq> CHR ''$''"
  using show_nat_decimal [of n] by (cases "show_nat n"; auto simp: is_digit_def byte_def)+

lemma parse_show_nat: "n < 2 ^ 64 \<Longrightarrow> parse_u64 (show_nat n) = Some n"
  using show_nat_decimal [of n] show_nat_not_signed [of n]
  by (cases "show_nat n") (auto simp: parse_u64_def Let_def decimal_def)

end
