(* ===== verification/Sql_Text.thy ===== *)
theory Sql_Text
  imports Prelude
begin

text \<open>
  The quote- and comment-aware SQL text routines of
  \<^verbatim>\<open>swanlake-core/src/duckvis/attach.rs\<close>: the statement splitter, the leading keyword, comment
  stripping, the two tokenizers and their small helpers. The scanning loops over a byte index
  are recursions over the bytes that are left. A loop that pushes \<open>bytes[i] as char\<close> builds a
  list of characters U+0000 to U+00FF; \<open>utf8\<close> gives the bytes of the \<open>String\<close> it is.
  A slice that may cut a character in two is a panic. What they compute is stated in Sql_Lexer.
\<close>

section \<open>Scanning loops\<close>

definition is_quote :: "char \<Rightarrow> bool" where
  "is_quote c \<longleftrightarrow> c = CHR 0x27 \<or> c = CHR 0x22"

definition newline :: char where
  "newline = CHR 0x0A"

definition starts_with_char :: "char \<Rightarrow> string \<Rightarrow> bool" where
  "starts_with_char c s \<longleftrightarrow> (case s of [] \<Rightarrow> False | d # _ \<Rightarrow> d = c)"

lemma starts_with_char_simps [simp]:
  "\<not> starts_with_char c []" "starts_with_char c (d # s) = (d = c)"
  by (simp_all add: starts_with_char_def)

text \<open>
  The inner loop over a quoted string, after its opening quote: the characters up to and with
  the closing quote (a doubled quote does not close), and the bytes after it.
\<close>

fun quoted :: "char \<Rightarrow> string \<Rightarrow> string \<times> string" where
  "quoted q [] = ([], [])"
| "quoted q [c] = ([c], [])"
| "quoted q (c # d # cs) =
     (if c = q then
        (if d = q then (let (t, r) = quoted q cs in (c # d # t, r)) else ([c], d # cs))
      else (let (t, r) = quoted q (d # cs) in (c # t, r)))"

fun through_newline :: "string \<Rightarrow> string \<times> string" where
  "through_newline [] = ([], [])"
| "through_newline (c # cs) =
     (if c = newline then ([c], cs) else (let (t, r) = through_newline cs in (c # t, r)))"

fun through_close :: "string \<Rightarrow> string \<times> string" where
  "through_close [] = ([], [])"
| "through_close [c] = ([c], [])"
| "through_close (c # d # cs) =
     (if c = CHR ''*'' \<and> d = CHR ''/'' then ([c, d], cs)
      else (let (t, r) = through_close (d # cs) in (c # t, r)))"

lemma quoted_append: "quoted q s = (t, r) \<Longrightarrow> s = t @ r"
  by (induction q s arbitrary: t r rule: quoted.induct) (auto split: if_splits prod.splits)

lemma through_newline_append: "through_newline s = (t, r) \<Longrightarrow> s = t @ r"
  by (induction s arbitrary: t r rule: through_newline.induct) (auto split: if_splits prod.splits)

lemma through_close_append: "through_close s = (t, r) \<Longrightarrow> s = t @ r"
  by (induction s arbitrary: t r rule: through_close.induct) (auto split: if_splits prod.splits)

lemma quoted_shorter: "quoted q s = (t, r) \<Longrightarrow> length r \<le> length s"
  and through_newline_shorter: "through_newline s = (t, r) \<Longrightarrow> length r \<le> length s"
  and through_close_shorter: "through_close s = (t, r) \<Longrightarrow> length r \<le> length s"
  by (auto dest: quoted_append through_newline_append through_close_append)

section \<open>Splitting into statements\<close>

function split_go :: "string \<Rightarrow> string \<Rightarrow> string list" where
  "split_go cur [] = (if cur = [] then [] else [cur])"
| "split_go cur (c # cs) =
     (if is_quote c then (let (t, r) = quoted c cs in split_go (cur @ c # t) r)
      else if c = CHR ''-'' \<and> starts_with_char (CHR ''-'') cs then
        (let (t, r) = through_newline (tl cs) in split_go (cur @ c # CHR ''-'' # t) r)
      else if c = CHR ''/'' \<and> starts_with_char (CHR ''*'') cs then
        (let (t, r) = through_close (tl cs) in split_go (cur @ c # CHR ''*'' # t) r)
      else if c = CHR '';'' then cur # split_go [] cs
      else split_go (cur @ [c]) cs)"
  by pat_completeness auto
termination
  by (relation "measure (\<lambda>(cur, s). length s)")
    (auto dest!: quoted_shorter through_newline_shorter through_close_shorter sym [of "(_, _)"])

declare split_go.simps(2) [simp del]

definition split_top_level_statements :: "string \<Rightarrow> string list" where
  "split_top_level_statements sql = map utf8 (split_go [] sql)"

section \<open>The leading keyword\<close>

definition skip_line :: "string \<Rightarrow> string" where
  "skip_line s = dropWhile (\<lambda>c. c \<noteq> newline) s"

fun skip_block :: "string \<Rightarrow> string" where
  "skip_block [] = []"
| "skip_block (c # cs) =
     (if c = CHR ''*'' \<and> starts_with_char (CHR ''/'') cs then tl cs else skip_block cs)"

lemma skip_line_shorter: "length (skip_line s) \<le> length s"
  by (simp add: skip_line_def length_dropWhile_le)

lemma skip_block_shorter: "length (skip_block s) \<le> length s"
  by (induction s) auto

text \<open>
  The loop that skips white space and comments: the statement's bytes from its first other
  byte on, \<open>None\<close> when there is none.
\<close>

function skip_leading :: "string \<Rightarrow> string option" where
  "skip_leading s =
     (case dropWhile is_ws s of [] \<Rightarrow> None
      | c # cs \<Rightarrow>
          if c = CHR ''-'' \<and> starts_with_char (CHR ''-'') cs then skip_leading (skip_line (tl cs))
          else if c = CHR ''/'' \<and> starts_with_char (CHR ''*'') cs
          then skip_leading (skip_block (tl cs))
          else Some (c # cs))"
  by pat_completeness auto
termination
proof (relation "measure length", goal_cases)
  case 1
  show ?case by simp
next
  case (2 s c cs)
  then have "length (c # cs) \<le> length s" by (metis length_dropWhile_le)
  with skip_line_shorter [of "tl cs"] show ?case by simp
next
  case (3 s c cs)
  then have "length (c # cs) \<le> length s" by (metis length_dropWhile_le)
  with skip_block_shorter [of "tl cs"] show ?case by simp
qed

declare skip_leading.simps [simp del]

definition kw_char :: "char \<Rightarrow> bool" where
  "kw_char c \<longleftrightarrow> is_alnum c \<or> c = CHR ''_''"

text \<open>
  \<open>to_uppercase\<close> is written on the ASCII letters only; the keyword is compared with ASCII
  keywords, and no sequence of bytes that \<open>kw_char\<close> accepts encodes a non-ASCII character
  whose upper case is ASCII.
\<close>

definition leading_keyword :: "string \<Rightarrow> string option run" where
  "leading_keyword statement =
     (case skip_leading statement of None \<Rightarrow> Ret None
      | Some s \<Rightarrow>
          (let w = takeWhile kw_char s; r = dropWhile kw_char s in
           if w = [] then Ret None
           else if boundary s \<and> boundary r then Ret (Some (to_ascii_uppercase w))
           else Panic))"

section \<open>Stripping comments\<close>

function strip_comments :: "string \<Rightarrow> string" where
  "strip_comments [] = []"
| "strip_comments (c # cs) =
     (if is_quote c then (let (t, r) = quoted c cs in c # t @ strip_comments r)
      else if c = CHR ''-'' \<and> starts_with_char (CHR ''-'') cs then
        CHR '' '' # strip_comments (skip_line (tl cs))
      else if c = CHR ''/'' \<and> starts_with_char (CHR ''*'') cs then
        CHR '' '' # strip_comments (skip_block (tl cs))
      else c # strip_comments cs)"
  by pat_completeness auto
termination
proof (relation "measure length", goal_cases)
  case 1
  show ?case by simp
next
  case (2 c cs x t r)
  then show ?case by (auto dest!: quoted_shorter sym [of "(_, _)"])
next
  case (3 c cs)
  with skip_line_shorter [of "tl cs"] show ?case by (cases cs) auto
next
  case (4 c cs)
  with skip_block_shorter [of "tl cs"] show ?case by (cases cs) auto
qed simp

declare strip_comments.simps(2) [simp del]

section \<open>The tokenizers\<close>

definition word_end :: "char \<Rightarrow> bool" where
  "word_end c \<longleftrightarrow> is_ws c \<or> c = CHR ''('' \<or> c = CHR '')'' \<or> c = CHR '','' \<or> is_quote c"

text \<open>
  \<open>tokenize\<close> walks the bytes of the text; a bare word is a slice of them and a quoted token a
  pushed string.
\<close>

function tokenize :: "string \<Rightarrow> string list run" where
  "tokenize [] = Ret []"
| "tokenize (c # cs) =
     (if is_ws c then tokenize cs
      else if is_quote c then
        (let (t, r) = quoted c cs in run_map (Cons (utf8 (c # t))) (tokenize r))
      else if c = CHR ''('' \<or> c = CHR '')'' \<or> c = CHR '','' then run_map (Cons [c]) (tokenize cs)
      else (let w = takeWhile (\<lambda>d. \<not> word_end d) cs; r = dropWhile (\<lambda>d. \<not> word_end d) cs in
            if boundary (c # cs) \<and> boundary r then run_map (Cons (c # w)) (tokenize r)
            else Panic))"
  by pat_completeness auto
termination
proof (relation "measure length", goal_cases)
  case (3 c cs x t r)
  then show ?case by (auto dest!: quoted_shorter sym [of "(_, _)"])
qed auto

declare tokenize.simps(2) [simp del]

text \<open>\<open>Scanned\<close>: a word (bare, or double-quoted), a literal, one punctuation character.\<close>

datatype scanned = ScWord string bool | ScLiteral string | ScPunct char

fun scan_quoted :: "char \<Rightarrow> string \<Rightarrow> string \<times> string" where
  "scan_quoted q [] = ([], [])"
| "scan_quoted q [c] = (if c = q then ([], []) else ([c], []))"
| "scan_quoted q (c # d # cs) =
     (if c = q then
        (if d = q then (let (t, r) = scan_quoted q cs in (c # t, r)) else ([], d # cs))
      else (let (t, r) = scan_quoted q (d # cs) in (c # t, r)))"

lemma scan_quoted_rest: "snd (scan_quoted q s) = snd (quoted q s)"
  by (induction q s rule: quoted.induct) (auto split: prod.splits)

lemma scan_quoted_shorter: "scan_quoted q s = (t, r) \<Longrightarrow> length r \<le> length s"
  by (metis quoted_shorter scan_quoted_rest prod.collapse snd_conv)

definition word_char :: "char \<Rightarrow> bool" where
  "word_char c \<longleftrightarrow> is_alnum c \<or> c = CHR ''_'' \<or> c = CHR ''$''"

function scan :: "string \<Rightarrow> scanned list" where
  "scan [] = []"
| "scan (c # cs) =
     (if is_ws c then scan cs
      else if is_quote c then
        (let (t, r) = scan_quoted c cs in
         (if c = CHR 0x22 then ScWord t True else ScLiteral t) # scan r)
      else if is_alnum c \<or> c = CHR ''_'' then
        ScWord (c # takeWhile word_char cs) False # scan (dropWhile word_char cs)
      else ScPunct c # scan cs)"
  by pat_completeness auto
termination
proof (relation "measure length", goal_cases)
  case (3 c cs x t r)
  then show ?case by (auto dest!: scan_quoted_shorter sym [of "(_, _)"])
qed auto

declare scan.simps(2) [simp del]

section \<open>Quoting helpers\<close>

definition unquote :: "string \<Rightarrow> string" where
  "unquote token =
     (if 2 \<le> length token \<and> is_quote (hd token) \<and> last token = hd token
      then undouble (hd token) (butlast (tl token)) else token)"

definition quote_identifier :: "string \<Rightarrow> string" where
  "quote_identifier name =
     CHR 0x22 # replace_char (CHR 0x22) [CHR 0x22, CHR 0x22] name @ [CHR 0x22]"

text \<open>\<open>escape_sql_literal\<close> of \<^verbatim>\<open>session/mod.rs\<close>, and the literal a caller writes around it.\<close>

definition escape_sql_literal :: "string \<Rightarrow> string" where
  "escape_sql_literal v = replace_char (CHR 0x27) [CHR 0x27, CHR 0x27] v"

definition sql_literal :: "string \<Rightarrow> string" where
  "sql_literal v = CHR 0x27 # escape_sql_literal v @ [CHR 0x27]"

end
