(* ===== verification/Scrub.thy ===== *)
theory Scrub
  imports Sql_Text
begin

text \<open>
  Redaction of \<open>password=<value>\<close> in error text: \<^verbatim>\<open>swanlake-core/src/scrub.rs\<close>. The three
  indices of the loop (\<open>emitted\<close>, \<open>search\<close> and the cursor) become the text that is scanned but
  not yet emitted and the text that is left.
\<close>

definition password_key :: string where
  "password_key = ''password''"

text \<open>\<open>lower[search..].find(KEY)\<close>: the text before the key, the key as written, the text after.\<close>

fun find_key :: "string \<Rightarrow> (string \<times> string \<times> string) option" where
  "find_key [] = None"
| "find_key (c # cs) =
     (if prefix password_key (to_ascii_lowercase (c # cs))
      then Some ([], take (length password_key) (c # cs), drop (length password_key) (c # cs))
      else (case find_key cs of None \<Rightarrow> None | Some (pre, k, post) \<Rightarrow> Some (c # pre, k, post)))"

definition value_stop :: "char \<Rightarrow> bool" where
  "value_stop c \<longleftrightarrow> is_ascii_ws c \<or> c = CHR 0x27 \<or> c = CHR 0x22"

text \<open>The text after the value: a quoted string with doubled quotes, or a bare run.\<close>

definition after_value :: "string \<Rightarrow> string" where
  "after_value s =
     (case s of c # cs \<Rightarrow> if c = CHR 0x27 then snd (quoted c cs)
                          else dropWhile (\<lambda>d. \<not> value_stop d) s
      | [] \<Rightarrow> [])"

lemma find_key_append: "find_key s = Some (pre, k, post) \<Longrightarrow> s = pre @ k @ post \<and> k \<noteq> []"
proof (induction s arbitrary: pre)
  case (Cons c cs)
  then show ?case
    by (auto split: if_splits option.splits prod.splits simp: password_key_def)
qed simp

lemma after_value_shorter: "length (after_value s) \<le> length s"
proof (cases s)
  case (Cons c cs)
  obtain t r where "quoted c cs = (t, r)" by fastforce
  with Cons quoted_shorter [of c cs t r] length_dropWhile_le [of "\<lambda>d. \<not> value_stop d" s]
  show ?thesis by (cases "c = CHR 0x27") (auto simp: after_value_def)
qed (simp add: after_value_def)

lemma dropWhile_Cons_length: "dropWhile P s = c # t \<Longrightarrow> length t < length s"
  by (metis length_Cons length_dropWhile_le less_eq_Suc_le)

function scrub_go :: "string \<Rightarrow> string \<Rightarrow> string" where
  "scrub_go pending s =
     (case find_key s of None \<Rightarrow> pending @ s
      | Some (pre, k, post) \<Rightarrow>
          (case dropWhile is_ascii_ws post of
             [] \<Rightarrow> scrub_go (pending @ pre @ k) post
           | c # v \<Rightarrow>
               if c \<noteq> CHR ''='' then scrub_go (pending @ pre @ k) post
               else pending @ pre @ k @ ''=[redacted]''
                      @ scrub_go [] (after_value (dropWhile is_ascii_ws v))))"
  by pat_completeness auto
termination
proof (relation "measure (\<lambda>(pending, s). length s)", goal_cases)
  case (2 pending s x pre y k post)
  then show ?case by (auto dest: find_key_append)
next
  case (3 pending s x pre y k post c v)
  then show ?case by (auto dest: find_key_append)
next
  case (4 pending s x pre y k post c v)
  then have "s = pre @ k @ post" by (auto dest: find_key_append)
  moreover have "length v < length post" using 4 by (auto dest: dropWhile_Cons_length)
  moreover have "length (after_value (dropWhile is_ascii_ws v)) \<le> length v"
    using after_value_shorter [of "dropWhile is_ascii_ws v"] length_dropWhile_le [of is_ascii_ws v]
    by linarith
  ultimately show ?case by simp
qed simp

declare scrub_go.simps [simp del]

definition scrub_error_text :: "string \<Rightarrow> string" where
  "scrub_error_text text = scrub_go [] text"

section \<open>Functional behaviour\<close>

lemma scrub_none: "find_key s = None \<Longrightarrow> scrub_go p s = p @ s"
  by (simp add: scrub_go.simps)

lemma scrub_skip:
  "find_key s = Some (pre, k, post) \<Longrightarrow> \<not> starts_with_char (CHR ''='') (dropWhile is_ascii_ws post) \<Longrightarrow>
    scrub_go p s = scrub_go (p @ pre @ k) post"
  by (auto simp: scrub_go.simps [of p s] split: list.splits)

lemma scrub_hit:
  "find_key s = Some (pre, k, post) \<Longrightarrow> dropWhile is_ascii_ws post = CHR ''='' # v \<Longrightarrow>
    scrub_go p s = p @ pre @ k @ ''=[redacted]'' @ scrub_go [] (after_value (dropWhile is_ascii_ws v))"
  by (simp add: scrub_go.simps [of p s])

lemmas scrub_eqs = scrub_none scrub_skip scrub_hit

lemma scrub_go_pending: "scrub_go p s = p @ scrub_go [] s"
proof (induction s arbitrary: p rule: length_induct)
  case (1 s)
  show ?case
  proof (cases "find_key s")
    case None
    then show ?thesis by (simp add: scrub_none)
  next
    case (Some x)
    then obtain pre k post where f: "find_key s = Some (pre, k, post)" by (cases x) auto
    show ?thesis
    proof (cases "starts_with_char (CHR ''='') (dropWhile is_ascii_ws post)")
      case True
      then obtain v where "dropWhile is_ascii_ws post = CHR ''='' # v"
        by (cases "dropWhile is_ascii_ws post") auto
      with f show ?thesis by (simp add: scrub_hit)
    next
      case False
      from find_key_append [OF f] have "length post < length s" by auto
      with 1 have "scrub_go (p @ pre @ k) post = (p @ pre @ k) @ scrub_go [] post"
        "scrub_go (pre @ k) post = (pre @ k) @ scrub_go [] post" by blast+
      with scrub_skip [OF f False] show ?thesis by simp
    qed
  qed
qed

text \<open>The key has no proper border, so its first occurrence cannot overlap another one.\<close>

lemma key_p_only_first: "j < length password_key \<Longrightarrow> 0 < j \<Longrightarrow> password_key ! j \<noteq> CHR ''p''"
  by (auto simp: password_key_def less_Suc_eq numeral_eq_Suc)

lemma find_key_first:
  assumes "to_ascii_lowercase kw = password_key"
  shows "find_key a = None \<Longrightarrow> find_key (a @ kw @ post) = Some (a, kw, post)"
proof (induction a)
  case Nil
  from assms obtain c cs where kw: "kw = c # cs" by (cases kw) (auto simp: password_key_def to_ascii_lowercase_def)
  have l: "length kw = length password_key" using assms by (metis length_to_ascii_lowercase)
  have "prefix password_key (to_ascii_lowercase (kw @ post))"
    using assms by (simp add: to_ascii_lowercase_def)
  moreover have "take (length password_key) (kw @ post) = kw" "drop (length password_key) (kw @ post) = post"
    by (simp_all flip: l)
  ultimately show ?case using kw by simp
next
  case (Cons c a)
  let ?s = "to_ascii_lowercase ((c # a) @ kw @ post)"
  have "\<not> prefix password_key ?s"
  proof
    assume p: "prefix password_key ?s"
    show False
    proof (cases "length password_key \<le> length (c # a)")
      case True
      then have "prefix password_key (to_ascii_lowercase (c # a))"
        using prefix_length_prefix [OF p, of "to_ascii_lowercase (c # a)"]
        by (simp add: to_ascii_lowercase_def)
      with Cons.prems show False by simp
    next
      case False
      then have lt: "length (c # a) < length password_key" by simp
      have "password_key ! length (c # a) = ?s ! length (c # a)"
        using p lt by (auto simp: prefix_def nth_append)
      also have "\<dots> = to_ascii_lowercase kw ! 0"
        using assms by (cases kw) (auto simp: to_ascii_lowercase_def nth_append password_key_def)
      also have "\<dots> = CHR ''p''" by (simp add: assms, simp add: password_key_def)
      finally show False using key_p_only_first [OF lt] by simp
    qed
  qed
  with Cons show ?case by (auto split: if_splits option.splits)
qed

text \<open>Text that names no key is unchanged; the first \<open>password = value\<close> is replaced as a whole.\<close>

lemma dropWhile_ws_append:
  "list_all is_ascii_ws w \<Longrightarrow> dropWhile is_ascii_ws (w @ c # s) = dropWhile is_ascii_ws (c # s)"
  by (simp add: list_all_iff)

lemma equals_not_ws [simp]: "\<not> is_ascii_ws (CHR ''='')"
  and quote_not_ws [simp]: "\<not> is_ascii_ws (CHR 0x27)"
  by (simp_all add: is_ascii_ws_def byte_def)

lemma after_bare:
  "list_all (\<lambda>c. \<not> value_stop c) v \<Longrightarrow> v \<noteq> [] \<Longrightarrow> (rest = [] \<or> value_stop (hd rest)) \<Longrightarrow>
    after_value (dropWhile is_ascii_ws (v @ rest)) = rest"
  by (cases v; cases rest)
    (auto simp: after_value_def list_all_iff value_stop_def dropWhile_append)

lemma quoted_escaped:
  "\<not> starts_with_char q rest \<Longrightarrow>
    quoted q (replace_char q [q, q] v @ q # rest) = (replace_char q [q, q] v @ [q], rest)"
proof (induction v)
  case Nil
  then show ?case by (cases rest) auto
next
  case (Cons c v)
  show ?case
  proof (cases "c = q")
    case False
    obtain d ds where "replace_char q [q, q] v @ q # rest = d # ds"
      by (cases "replace_char q [q, q] v @ q # rest") auto
    with False Cons show ?thesis by simp
  qed (use Cons in simp)
qed

lemma after_quoted:
  "\<not> starts_with_char (CHR 0x27) rest \<Longrightarrow>
    after_value (dropWhile is_ascii_ws (sql_literal v @ rest)) = rest"
  by (simp add: sql_literal_def escape_sql_literal_def after_value_def quoted_escaped)

lemma scrub_first:
  assumes "to_ascii_lowercase kw = password_key" "find_key a = None"
    "list_all is_ascii_ws w" "list_all is_ascii_ws w'"
    "after_value (dropWhile is_ascii_ws (v @ rest)) = rest"
  shows "scrub_error_text (a @ kw @ w @ ''='' @ w' @ v @ rest)
      = a @ kw @ ''=[redacted]'' @ scrub_error_text rest"
proof -
  have "dropWhile is_ascii_ws (w @ ''='' @ w' @ v @ rest) = CHR ''='' # w' @ v @ rest"
    using assms(3) by (simp add: dropWhile_ws_append)
  moreover have "dropWhile is_ascii_ws (w' @ v @ rest) = dropWhile is_ascii_ws (v @ rest)"
    using assms(4) by (simp add: dropWhile_append list_all_iff)
  ultimately show ?thesis
    using scrub_hit [OF find_key_first [OF assms(1,2)]] assms(5) by (simp add: scrub_error_text_def)
qed

section \<open>The value does not reach the output\<close>

text \<open>
  Whatever stands before it, a bare value that follows \<open>password=\<close> directly has no influence on
  the output: either this occurrence is redacted, or it lies inside an earlier redacted value.
\<close>

definition bare_value :: "string \<Rightarrow> bool" where
  "bare_value v \<longleftrightarrow> v \<noteq> [] \<and> list_all (\<lambda>c. \<not> value_stop c) v"

lemma snd_quoted_Cons:
  "snd (quoted q (c # cs)) =
     (if c \<noteq> q then snd (quoted q cs)
      else if starts_with_char q cs then snd (quoted q (tl cs)) else cs)"
  by (cases cs) (auto split: prod.splits)

lemma quoted_no_quote: "q \<notin> set u \<Longrightarrow> snd (quoted q (u @ rest)) = snd (quoted q rest)"
  by (induction u) (auto simp: snd_quoted_Cons)

text \<open>A quoted string that is open at \<open>y\<close> closes in it, or not before the text that follows.\<close>

lemma quoted_open_or_closed:
  "(\<exists>y2. length y2 \<le> length y \<and>
      (\<forall>u. u \<noteq> [] \<and> q \<noteq> hd u \<longrightarrow> snd (quoted q (y @ u)) = y2 @ u))
   \<or> (\<forall>u rest. q \<notin> set u \<longrightarrow> snd (quoted q (y @ u @ rest)) = snd (quoted q rest))"
proof (induction y rule: length_induct)
  case (1 y)
  consider (nil) "y = []" | (inside) c ys where "y = c # ys" "c \<noteq> q" | (last) "y = [q]"
    | (esc) ys where "y = q # q # ys" | (close) d ys where "y = q # d # ys" "d \<noteq> q"
    by (cases y; cases "tl y") fastforce+
  then show ?case
  proof cases
    case nil
    then show ?thesis by (simp add: quoted_no_quote)
  next
    case inside
    with 1 [rule_format, of ys] show ?thesis by (auto simp: snd_quoted_Cons intro: le_SucI)
  next
    case last
    have "snd (quoted q ([q] @ u)) = [] @ u" if "u \<noteq> []" "q \<noteq> hd u" for u
      using that by (cases u) (auto simp: snd_quoted_Cons)
    with last show ?thesis by (intro disjI1 exI [of _ "[]"]) auto
  next
    case esc
    with 1 [rule_format, of ys] show ?thesis
      by (auto simp: snd_quoted_Cons intro: le_SucI simp del: quoted.simps)
  next
    case close
    then show ?thesis by (intro disjI1 exI [of _ "d # ys"]) (simp add: snd_quoted_Cons)
  qed
qed

lemma after_value_cases:
  assumes "y \<noteq> []" "\<not> is_ascii_ws (hd y)"
  shows "(\<exists>y2. length y2 \<le> length y \<and>
      (\<forall>u. bare_value u \<longrightarrow> (\<forall>rest. rest = [] \<or> value_stop (hd rest) \<longrightarrow>
          after_value (y @ u @ rest) = y2 @ u @ rest)))
    \<or> (\<forall>u u' rest. bare_value u \<and> bare_value u' \<and> (rest = [] \<or> value_stop (hd rest)) \<longrightarrow>
          after_value (y @ u @ rest) = after_value (y @ u' @ rest))"
proof -
  from assms obtain c ys where y: "y = c # ys" by (cases y) auto
  show ?thesis
  proof (cases "c = CHR 0x27")
    case True
    have nq: "CHR 0x27 \<notin> set u \<and> u \<noteq> [] \<and> CHR 0x27 \<noteq> hd u" if "bare_value u" for u
      using that by (cases u) (auto simp: bare_value_def list_all_iff value_stop_def)
    from quoted_open_or_closed [of ys "CHR 0x27"] show ?thesis
    proof (elim disjE exE conjE)
      fix y2 assume "length y2 \<le> length ys"
        and "\<forall>u. u \<noteq> [] \<and> CHR 0x27 \<noteq> hd u \<longrightarrow> snd (quoted (CHR 0x27) (ys @ u)) = y2 @ u"
      with nq y True show ?thesis
        by (intro disjI1 exI [of _ y2]) (auto simp: after_value_def)
    next
      assume "\<forall>u rest. CHR 0x27 \<notin> set u \<longrightarrow>
        snd (quoted (CHR 0x27) (ys @ u @ rest)) = snd (quoted (CHR 0x27) rest)"
      with nq y True show ?thesis by (auto simp: after_value_def)
    qed
  next
    case False
    show ?thesis
    proof (cases "list_all (\<lambda>d. \<not> value_stop d) y")
      case True
      have "after_value (y @ u @ rest) = rest"
        if "bare_value u" "rest = [] \<or> value_stop (hd rest)" for u rest
        using that True y False
        by (cases rest) (auto simp: after_value_def bare_value_def list_all_iff dropWhile_append)
      then show ?thesis by auto
    next
      case stop: False
      then have "after_value (y @ z) = dropWhile (\<lambda>d. \<not> value_stop d) y @ z" for z
        using y False by (auto simp: after_value_def list_all_iff dropWhile_append)
      then show ?thesis
        by (intro disjI1 exI [of _ "dropWhile (\<lambda>d. \<not> value_stop d) y"]) (simp add: length_dropWhile_le)
    qed
  qed
qed

lemma find_key_more: "find_key a = Some (pre, k, post) \<Longrightarrow> find_key (a @ z) = Some (pre, k, post @ z)"
proof (induction a arbitrary: pre)
  case (Cons c a)
  show ?case
  proof (cases "prefix password_key (to_ascii_lowercase (c # a))")
    case True
    then have p: "prefix password_key (to_ascii_lowercase ((c # a) @ z))"
      using prefix_prefix [OF True, of "to_ascii_lowercase z"] by (simp add: to_ascii_lowercase_def)
    have "length password_key \<le> length (c # a)"
      using prefix_length_le [OF True] by simp
    then have "take (length password_key) ((c # a) @ z) = take (length password_key) (c # a)"
      "drop (length password_key) ((c # a) @ z) = drop (length password_key) (c # a) @ z"
      unfolding take_append drop_append by simp_all
    with True p Cons.prems show ?thesis by auto
  next
    case False
    then obtain pre' where f: "find_key a = Some (pre', k, post)" "pre = c # pre'"
      using Cons.prems by (auto split: option.splits)
    moreover have "\<not> prefix password_key (to_ascii_lowercase ((c # a) @ z))"
    proof
      assume p: "prefix password_key (to_ascii_lowercase ((c # a) @ z))"
      from find_key_append [OF f(1)] have "length k \<le> length a" by auto
      moreover have "length k = length password_key"
        using f(1)
      proof (induction a arbitrary: pre')
        case (Cons d a)
        then show ?case
          by (auto split: if_splits option.splits dest!: prefix_length_le)
      qed simp
      ultimately have "length password_key \<le> length (to_ascii_lowercase (c # a))" by simp
      with p have "prefix password_key (to_ascii_lowercase (c # a))"
        using prefix_length_prefix [OF p, of "to_ascii_lowercase (c # a)"]
        by (simp add: to_ascii_lowercase_def)
      with False show False by simp
    qed
    ultimately show ?thesis using Cons.IH by simp
  qed
qed simp

lemma bare_value_key:
  assumes "to_ascii_lowercase kw = password_key" "bare_value v"
  shows "bare_value (kw @ ''='' @ v)"
proof -
  have "\<not> value_stop c" if "c \<in> set kw" for c
  proof
    assume s: "value_stop c"
    then have "to_lower c = c" by (auto simp: value_stop_def char_class_defs to_lower_def)
    moreover have "to_lower c \<in> set (to_ascii_lowercase kw)"
      using that by (simp add: to_ascii_lowercase_def)
    ultimately have "c \<in> set password_key" using assms(1) by simp
    with s show False by (auto simp: password_key_def value_stop_def char_class_defs)
  qed
  with assms(2) show ?thesis
    by (auto simp: bare_value_def list_all_iff value_stop_def char_class_defs)
qed

lemma dropWhile_append_nonempty: "dropWhile P a = c # v \<Longrightarrow> dropWhile P (a @ z) = c # v @ z"
  by (induction a) (auto split: if_splits)

lemma dropWhile_append_empty: "dropWhile P a = [] \<Longrightarrow> dropWhile P (a @ z) = dropWhile P z"
  by (induction a) (auto split: if_splits)

lemma bare_value_start: "bare_value u \<Longrightarrow> dropWhile is_ascii_ws (u @ z) = u @ z"
  by (cases u) (auto simp: bare_value_def value_stop_def)

lemma after_value_bare:
  "(\<exists>y2. length y2 \<le> length y \<and>
      (\<forall>u rest. bare_value u \<and> (rest = [] \<or> value_stop (hd rest)) \<longrightarrow>
          after_value (dropWhile is_ascii_ws (y @ u @ rest)) = y2 @ u @ rest))
    \<or> (\<forall>u u' rest. bare_value u \<and> bare_value u' \<and> (rest = [] \<or> value_stop (hd rest)) \<longrightarrow>
          after_value (dropWhile is_ascii_ws (y @ u @ rest))
          = after_value (dropWhile is_ascii_ws (y @ u' @ rest)))"
proof (cases "dropWhile is_ascii_ws y")
  case Nil
  then show ?thesis by (simp add: dropWhile_append_empty after_bare bare_value_def)
next
  case (Cons d ys)
  have dw: "dropWhile is_ascii_ws (y @ z) = (d # ys) @ z" for z
    using dropWhile_append_nonempty [OF Cons] by simp
  have "length (d # ys) \<le> length y" by (metis Cons length_dropWhile_le)
  moreover have "\<not> is_ascii_ws (hd (d # ys))" using hd_dropWhile [of is_ascii_ws y] Cons by simp
  ultimately show ?thesis
    using after_value_cases [of "d # ys"] unfolding dw by (blast intro: order.trans)
qed

lemma scrub_bare_independent:
  assumes kw: "to_ascii_lowercase kw = password_key"
    and v: "bare_value v" "bare_value v'" and rest: "rest = [] \<or> value_stop (hd rest)"
  shows "scrub_go [] (a @ kw @ ''='' @ v @ rest) = scrub_go [] (a @ kw @ ''='' @ v' @ rest)"
proof (induction a rule: length_induct)
  case (1 a)
  let ?z = "\<lambda>v. kw @ ''='' @ v @ rest"
  have z: "bare_value (kw @ ''='' @ v)" "bare_value (kw @ ''='' @ v')"
    using bare_value_key [OF kw] v by auto
  have key_head: "\<not> starts_with_char (CHR ''='') (dropWhile is_ascii_ws (?z x))" for x
    using kw by (cases kw) (auto simp: password_key_def to_ascii_lowercase_def to_lower_def char_class_defs)
  show ?case
  proof (cases "find_key a")
    case None
    with scrub_first [OF kw None, of "[]" "[]"] after_bare [of v rest] after_bare [of v' rest] v rest
    show ?thesis by (simp add: scrub_error_text_def bare_value_def)
  next
    case (Some p)
    then obtain pre k post where f: "find_key a = Some (pre, k, post)" by (cases p) auto
    note fz = find_key_more [OF f]
    from find_key_append [OF f] have shorter: "length post < length a" by auto
    show ?thesis
    proof (cases "starts_with_char (CHR ''='') (dropWhile is_ascii_ws post)")
      case False
      then have "\<not> starts_with_char (CHR ''='') (dropWhile is_ascii_ws (post @ ?z x))" for x
        using key_head [of x] dropWhile_append_empty [of is_ascii_ws post "?z x"]
          dropWhile_append_nonempty [of is_ascii_ws post _ _ "?z x"]
        by (cases "dropWhile is_ascii_ws post") auto
      then have "scrub_go [] (a @ ?z x) = pre @ k @ scrub_go [] (post @ ?z x)" for x
        using scrub_skip [OF fz] scrub_go_pending [of "pre @ k"] by simp
      with 1 shorter show ?thesis by simp
    next
      case True
      then obtain v0 where v0: "dropWhile is_ascii_ws post = CHR ''='' # v0"
        by (cases "dropWhile is_ascii_ws post") auto
      have hit: "scrub_go [] (a @ ?z x) = pre @ k @ ''=[redacted]''
          @ scrub_go [] (after_value (dropWhile is_ascii_ws (v0 @ ?z x)))" for x
        using scrub_hit [OF fz dropWhile_append_nonempty [OF v0]] by simp
      have lv: "length v0 < length a" using dropWhile_Cons_length [OF v0] shorter by simp
      show ?thesis using after_value_bare [of v0]
      proof (elim disjE exE conjE)
        fix y2 assume y2: "length y2 \<le> length v0" and H: "\<forall>u rest. bare_value u \<and>
          (rest = [] \<or> value_stop (hd rest)) \<longrightarrow>
            after_value (dropWhile is_ascii_ws (v0 @ u @ rest)) = y2 @ u @ rest"
        have "after_value (dropWhile is_ascii_ws (v0 @ ?z v)) = y2 @ ?z v"
          "after_value (dropWhile is_ascii_ws (v0 @ ?z v')) = y2 @ ?z v'"
          using H [rule_format, of "kw @ ''='' @ v" rest] H [rule_format, of "kw @ ''='' @ v'" rest] z rest
          by simp_all
        moreover have "length y2 < length a" using y2 lv by simp
        ultimately show ?thesis using hit 1 by simp
      next
        assume H: "\<forall>u u' rest. bare_value u \<and> bare_value u' \<and> (rest = [] \<or> value_stop (hd rest)) \<longrightarrow>
          after_value (dropWhile is_ascii_ws (v0 @ u @ rest))
          = after_value (dropWhile is_ascii_ws (v0 @ u' @ rest))"
        show ?thesis
          using H [rule_format, of "kw @ ''='' @ v" "kw @ ''='' @ v'" rest] z rest hit by simp
      qed
    qed
  qed
qed

end
