(* ===== verification/Errors.thy ===== *)
theory Errors
  imports Scrub
begin

text \<open>
  The error types and their wire form: \<open>ServerError\<close> of \<^verbatim>\<open>error.rs\<close>, \<open>DuckvisError\<close> of
  \<^verbatim>\<open>duckvis/mod.rs\<close>, and their mapping to a gRPC status (\<open>status_from_error\<close> of
  \<^verbatim>\<open>service/mod.rs\<close>, \<open>into_status\<close>). An engine or Arrow error is the text it displays.
\<close>

datatype server_error =
    Cancelled
  | DuckDb string
  | ArrowError string
  | TransactionAborted
  | TransactionNotFound
  | PreparedStatementNotFound
  | MaxSessionsReached
  | UnsupportedParameter string
  | InternalError string
  | AttachNotPermitted
  | AttachmentRequiresSessionRecreation
  | WriteNotPermitted string
  | PersistentSecretNotPermitted
  | ReservedNameNotPermitted

fun display_error :: "server_error \<Rightarrow> string" where
  "display_error Cancelled = ''query cancelled''"
| "display_error (DuckDb e) = ''duckdb error: '' @ scrub_error_text e"
| "display_error (ArrowError e) = ''arrow error: '' @ e"
| "display_error TransactionAborted = ''transaction was aborted and rolled back''"
| "display_error TransactionNotFound = ''transaction not found''"
| "display_error PreparedStatementNotFound = ''prepared statement not found''"
| "display_error MaxSessionsReached = ''maximum number of sessions reached''"
| "display_error (UnsupportedParameter p) = ''unsupported parameter type: '' @ p"
| "display_error (InternalError m) = ''internal error: '' @ scrub_error_text m"
| "display_error AttachNotPermitted =
     ''ATTACH is managed by duckvis; use the duckvis_attach action''"
| "display_error AttachmentRequiresSessionRecreation =
     ''session recreation required: new attachment after lockdown''"
| "display_error (WriteNotPermitted what) = what @ '' requires the project's write permission''"
| "display_error PersistentSecretNotPermitted =
     ''persistent secrets are not available in this session''"
| "display_error ReservedNameNotPermitted =
     ''names starting with __duckvis_ are reserved for attachment secrets''"

datatype code = CodeCancelled | CodeInvalidArgument | CodePermissionDenied | CodeResourceExhausted
  | CodeFailedPrecondition | CodeInternal | CodeUnavailable | CodeUnauthenticated
  | CodeUnimplemented

record status =
  st_code :: code
  st_message :: string

definition mk_status :: "code \<Rightarrow> string \<Rightarrow> status" where
  "mk_status c m = \<lparr>st_code = c, st_message = m\<rparr>"

fun status_from_error :: "server_error \<Rightarrow> status" where
  "status_from_error Cancelled = mk_status CodeCancelled ''query cancelled''"
| "status_from_error (DuckDb e) = mk_status CodeInternal (''duckdb error: '' @ scrub_error_text e)"
| "status_from_error (ArrowError e) = mk_status CodeInternal (''arrow error: '' @ e)"
| "status_from_error TransactionAborted =
     mk_status CodeFailedPrecondition ''transaction aborted and rolled back; start a new transaction''"
| "status_from_error TransactionNotFound = mk_status CodeInvalidArgument ''unknown transaction''"
| "status_from_error PreparedStatementNotFound =
     mk_status CodeInvalidArgument ''unknown prepared statement''"
| "status_from_error MaxSessionsReached =
     mk_status CodeResourceExhausted ''maximum number of sessions reached''"
| "status_from_error (UnsupportedParameter p) =
     mk_status CodeInvalidArgument (''unsupported parameter type: '' @ p)"
| "status_from_error (InternalError m) =
     mk_status CodeInternal (''internal error: '' @ scrub_error_text m)"
| "status_from_error AttachNotPermitted =
     mk_status CodePermissionDenied ''ATTACH is managed by duckvis; use the duckvis_attach action''"
| "status_from_error AttachmentRequiresSessionRecreation =
     mk_status CodeFailedPrecondition ''session recreation required: new attachment after lockdown''"
| "status_from_error (WriteNotPermitted what) =
     mk_status CodePermissionDenied (what @ '' requires the project's write permission'')"
| "status_from_error PersistentSecretNotPermitted =
     mk_status CodePermissionDenied ''persistent secrets are not available in this session''"
| "status_from_error ReservedNameNotPermitted =
     mk_status CodePermissionDenied
       ''names starting with __duckvis_ are reserved for attachment secrets''"

datatype duckvis_error = Unauthenticated | PermissionDenied | SessionSubjectMismatch
  | SessionProjectMismatch | SessionBindRace | AttachmentNotResolvable | InvalidArgument
  | AttachInvalid | Unavailable

fun into_status :: "duckvis_error \<Rightarrow> status" where
  "into_status Unauthenticated = mk_status CodeUnauthenticated ''authentication required''"
| "into_status PermissionDenied = mk_status CodePermissionDenied ''permission denied''"
| "into_status SessionSubjectMismatch =
     mk_status CodePermissionDenied ''session is bound to a different subject''"
| "into_status SessionProjectMismatch =
     mk_status CodePermissionDenied ''session is bound to a different project''"
| "into_status SessionBindRace =
     mk_status CodePermissionDenied ''session bind lost a race with another client''"
| "into_status AttachmentNotResolvable =
     mk_status CodePermissionDenied ''attachment is not allowlisted for this project''"
| "into_status InvalidArgument = mk_status CodeInvalidArgument ''invalid argument''"
| "into_status AttachInvalid = mk_status CodeInvalidArgument ''invalid attachment configuration''"
| "into_status Unavailable = mk_status CodeUnavailable ''authorization service unavailable''"

lemma st_code_mk [simp]: "st_code (mk_status c m) = c"
  and st_message_mk [simp]: "st_message (mk_status c m) = m"
  by (simp_all add: mk_status_def)

text \<open>Both renderings of an error go through the same redaction.\<close>

definition engine_text :: "server_error \<Rightarrow> string option" where
  "engine_text e = (case e of DuckDb t \<Rightarrow> Some t | InternalError t \<Rightarrow> Some t | _ \<Rightarrow> None)"

lemma into_status_message_inj: "st_message (into_status a) = st_message (into_status b) \<Longrightarrow> a = b"
  by (cases a; cases b) simp_all

section \<open>Properties\<close>



text \<open>
  Redaction keeps the rest. The first password of a text, with white space around its equals
  sign, is replaced by the marker, whether the value is bare or a quoted literal with doubled
  quotes; what precedes it is kept and what follows it is redacted in turn.
\<close>

theorem scrub_replaces_value:
  assumes "to_ascii_lowercase kw = password_key" "find_key a = None"
    and "list_all is_ascii_ws w" "list_all is_ascii_ws w'"
    and "bare_value v \<and> (rest = [] \<or> value_stop (hd rest))
      \<or> (\<exists>u. v = sql_literal u) \<and> \<not> starts_with_char (CHR 0x27) rest"
  shows "scrub_error_text (a @ kw @ w @ ''='' @ w' @ v @ rest)
      = a @ kw @ ''=[redacted]'' @ scrub_error_text rest"
  using assms(5) after_quoted after_bare [of v rest]
  by (intro scrub_first [OF assms(1-4)]) (auto simp: bare_value_def)

lemma scrub_replaces_value_witness:
  "scrub_error_text (''a '' @ ''password'' @ '' '' @ ''='' @ [] @ sql_literal ''x y'' @ '' b'')
      = ''a '' @ ''password'' @ ''=[redacted]'' @ scrub_error_text '' b''"
proof (rule scrub_replaces_value)
  show "bare_value (sql_literal ''x y'') \<and> ('' b'' = [] \<or> value_stop (hd '' b''))
      \<or> (\<exists>u. sql_literal ''x y'' = sql_literal u) \<and> \<not> starts_with_char (CHR 0x27) '' b''"
    by (intro disjI2 conjI exI [of _ "''x y''"]) simp_all
qed code_simp+

end
