(* ===== verification/Sql_Lexer.thy ===== *)
theory Sql_Lexer
  imports Sql_Text
begin

text \<open>
  What a top-level statement is, independently of the scanning loops: a lexical automaton reads
  the text one character at a time and a semicolon separates statements where the automaton is
  in code. The splitter of \<^verbatim>\<open>attach.rs\<close> is proved to be the split at those semicolons, and the
  comment stripper to produce text on which the automaton never sees a comment.
\<close>

section \<open>The automaton\<close>

datatype mode = Code | Dash | Slash | InQuote char | QuoteEnd char | LineComment | BlockComment
  | BlockStar

definition code_step :: "char \<Rightarrow> mode" where
  "code_step c =
     (if is_quote c then InQuote c else if c = CHR ''-'' then Dash
      else if c = CHR ''/'' then Slash else Code)"

fun lex_step :: "mode \<Rightarrow> char \<Rightarrow> mode" where
  "lex_step Code c = code_step c"
| "lex_step Dash c = (if c = CHR ''-'' then LineComment else code_step c)"
| "lex_step Slash c = (if c = CHR ''*'' then BlockComment else code_step c)"
| "lex_step (InQuote q) c = (if c = q then QuoteEnd q else InQuote q)"
| "lex_step (QuoteEnd q) c = (if c = q then InQuote q else code_step c)"
| "lex_step LineComment c = (if c = newline then Code else LineComment)"
| "lex_step BlockComment c = (if c = CHR ''*'' then BlockStar else BlockComment)"
| "lex_step BlockStar c =
     (if c = CHR ''/'' then Code else if c = CHR ''*'' then BlockStar else BlockComment)"

fun top_level :: "mode \<Rightarrow> bool" where
  "top_level (InQuote q) = False"
| "top_level LineComment = False"
| "top_level BlockComment = False"
| "top_level BlockStar = False"
| "top_level m = True"

abbreviation lex_run :: "mode \<Rightarrow> string \<Rightarrow> mode" where
  "lex_run \<equiv> foldl lex_step"

text \<open>The text cut at the top-level semicolons; an empty last segment is dropped.\<close>

fun ref_split :: "mode \<Rightarrow> string \<Rightarrow> string \<Rightarrow> string list" where
  "ref_split m cur [] = (if cur = [] then [] else [cur])"
| "ref_split m cur (c # cs) =
     (if top_level m \<and> c = CHR '';'' then cur # ref_split Code [] cs
      else ref_split (lex_step m c) (cur @ [c]) cs)"

section \<open>The splitter agrees with the automaton\<close>

lemma not_quote_chars [simp]:
  "\<not> is_quote (CHR ''-'')" "\<not> is_quote (CHR ''/'')" "\<not> is_quote (CHR '';'')" "\<not> is_quote (CHR ''*'')"
  by (simp_all add: is_quote_def)

lemma is_quote_cases: "is_quote q \<Longrightarrow> q \<noteq> CHR '';'' \<and> q \<noteq> CHR ''-'' \<and> q \<noteq> CHR ''/''"
  by (auto simp: is_quote_def)

text \<open>Before a character that cannot complete a longer token, a pending mode is code.\<close>

lemma ref_split_quote_end:
  "\<not> starts_with_char q s \<Longrightarrow> ref_split (QuoteEnd q) cur s = ref_split Code cur s"
  by (cases s) auto

lemma ref_split_dash:
  "\<not> starts_with_char (CHR ''-'') s \<Longrightarrow> ref_split Dash cur s = ref_split Code cur s"
  by (cases s) auto

lemma ref_split_slash:
  "\<not> starts_with_char (CHR ''*'') s \<Longrightarrow> ref_split Slash cur s = ref_split Code cur s"
  by (cases s) auto

lemma ref_split_quoted:
  "quoted q s = (t, r) \<Longrightarrow> q \<noteq> CHR '';'' \<Longrightarrow>
    ref_split (InQuote q) cur s = ref_split Code (cur @ t) r"
proof (induction q s arbitrary: cur t r rule: quoted.induct)
  case (3 q c d cs)
  consider (esc) "c = q" "d = q" | (close) "c = q" "d \<noteq> q" | (inside) "c \<noteq> q" by blast
  then show ?case
  proof cases
    case esc
    then obtain t' where t': "quoted q cs = (t', r)" and t: "t = q # q # t'"
      using "3.prems" by (auto split: prod.splits)
    from "3.IH"(1) [OF esc t' "3.prems"(2), of "cur @ [q, q]"] esc t "3.prems"(2)
    show ?thesis by simp
  next
    case close
    with "3.prems" show ?thesis by (auto simp: ref_split_quote_end)
  next
    case inside
    then obtain t' where t': "quoted q (d # cs) = (t', r)" and t: "t = c # t'"
      using "3.prems" by (auto split: prod.splits)
    from "3.IH"(2) [OF inside t' "3.prems"(2), of "cur @ [c]"] inside t show ?thesis by simp
  qed
qed auto

lemma ref_split_line:
  "through_newline s = (t, r) \<Longrightarrow> ref_split LineComment cur s = ref_split Code (cur @ t) r"
  by (induction s arbitrary: cur t r rule: through_newline.induct) (auto split: if_splits prod.splits)

lemma ref_split_block:
  "through_close s = (t, r) \<Longrightarrow>
    ref_split BlockComment cur s = ref_split Code (cur @ t) r
    \<and> (\<not> starts_with_char (CHR ''/'') s \<longrightarrow> ref_split BlockStar cur s = ref_split Code (cur @ t) r)"
proof (induction s arbitrary: cur t r rule: through_close.induct)
  case (3 c d cs)
  show ?case
  proof (cases "c = CHR ''*'' \<and> d = CHR ''/''")
    case True
    with "3.prems" show ?thesis by auto
  next
    case False
    then obtain t' where t': "through_close (d # cs) = (t', r)" and t: "t = c # t'"
      using "3.prems" by (auto split: prod.splits if_splits)
    from "3.IH" [OF False t', of "cur @ [c]"] False t show ?thesis by auto
  qed
qed auto

lemma split_go_cons:
  assumes "\<not> is_quote c" "\<not> (c = CHR ''-'' \<and> starts_with_char (CHR ''-'') cs)"
    "\<not> (c = CHR ''/'' \<and> starts_with_char (CHR ''*'') cs)" "c \<noteq> CHR '';''"
  shows "split_go cur (c # cs) = split_go (cur @ [c]) cs"
  using assms by (simp only: split_go.simps(2) if_False)

lemma split_go_ref: "split_go cur s = ref_split Code cur s"
proof (induction cur s rule: split_go.induct)
  case (2 cur c cs)
  consider (quote) "is_quote c"
    | (line) "c = CHR ''-''" "starts_with_char (CHR ''-'') cs"
    | (block) "c = CHR ''/''" "starts_with_char (CHR ''*'') cs"
    | (semi) "c = CHR '';''"
    | (other) "\<not> is_quote c" "\<not> (c = CHR ''-'' \<and> starts_with_char (CHR ''-'') cs)"
        "\<not> (c = CHR ''/'' \<and> starts_with_char (CHR ''*'') cs)" "c \<noteq> CHR '';''"
    by blast
  then show ?case
  proof cases
    case quote
    obtain t r where q: "quoted c cs = (t, r)" by fastforce
    from quote is_quote_cases [OF quote] have "ref_split Code cur (c # cs) = ref_split (InQuote c) (cur @ [c]) cs"
      by (simp add: code_step_def)
    with "2.IH"(1) [OF quote q [symmetric] refl] quote q ref_split_quoted [OF q, of "cur @ [c]"] is_quote_cases [OF quote]
    show ?thesis by (simp add: split_go.simps(2))
  next
    case line
    then obtain cs' where cs: "cs = CHR ''-'' # cs'" by (cases cs) auto
    obtain t r where n: "through_newline cs' = (t, r)" by fastforce
    from "2.IH"(2) [OF _ _ n [symmetric, folded list.sel(3) [of "CHR ''-''" cs', folded cs]] refl]
      line n ref_split_line [OF n, of "cur @ ''--''"] cs
    show ?thesis by (simp add: split_go.simps(2) code_step_def)
  next
    case block
    then obtain cs' where cs: "cs = CHR ''*'' # cs'" by (cases cs) auto
    obtain t r where n: "through_close cs' = (t, r)" by fastforce
    from "2.IH"(3) [OF _ _ _ n [symmetric, folded list.sel(3) [of "CHR ''*''" cs', folded cs]] refl]
      block n ref_split_block [OF n, of "cur @ ''/*''"] cs
    show ?thesis by (simp add: split_go.simps(2) code_step_def)
  next
    case semi
    with "2.IH"(4) show ?thesis by (simp add: split_go.simps(2))
  next
    case other
    with "2.IH"(5) have "split_go cur (c # cs) = ref_split Code (cur @ [c]) cs"
      by (simp add: split_go_cons)
    with other show ?thesis
      by (auto simp: code_step_def ref_split_dash ref_split_slash)
  qed
qed simp

section \<open>Nothing is lost\<close>

lemma ref_split_cur_nonempty: "cur \<noteq> [] \<Longrightarrow> ref_split m cur s \<noteq> []"
  by (induction s arbitrary: m cur) auto

text \<open>
  The segments joined by semicolons are the text again, up to one closing semicolon.
\<close>

lemma ref_split_join:
  "join '';'' (ref_split m cur s) = cur @ s
   \<or> join '';'' (ref_split m cur s) @ '';'' = cur @ s"
proof (induction s arbitrary: m cur)
  case (Cons c s)
  show ?case
  proof (cases "top_level m \<and> c = CHR '';''")
    case False
    with Cons.IH [of "lex_step m c" "cur @ [c]"] show ?thesis by auto
  next
    case True
    show ?thesis
    proof (cases "ref_split Code [] s = []")
      case True
      then have "s = []"
        using Cons.IH [of Code "[]"] by (cases s) (auto dest: ref_split_cur_nonempty split: if_splits)
      with \<open>top_level m \<and> c = CHR '';''\<close> show ?thesis by simp
    next
      case False
      with True Cons.IH [of Code "[]"] show ?thesis by (auto simp: join_Cons)
    qed
  qed
qed simp

section \<open>Comment-free text\<close>

fun no_comment :: "mode \<Rightarrow> string \<Rightarrow> bool" where
  "no_comment m [] = True"
| "no_comment m (c # cs) =
     (lex_step m c \<noteq> LineComment \<and> lex_step m c \<noteq> BlockComment \<and> no_comment (lex_step m c) cs)"

lemma no_comment_quote_end:
  "\<not> starts_with_char q s \<Longrightarrow> no_comment (QuoteEnd q) s = no_comment Code s"
  and no_comment_dash:
  "\<not> starts_with_char (CHR ''-'') s \<Longrightarrow> no_comment Dash s = no_comment Code s"
  and no_comment_slash:
  "\<not> starts_with_char (CHR ''*'') s \<Longrightarrow> no_comment Slash s = no_comment Code s"
  by (cases s; auto)+

lemma no_comment_quoted:
  "quoted q s = (t, r) \<Longrightarrow> (r = [] \<or> \<not> starts_with_char q u) \<Longrightarrow> (r = [] \<Longrightarrow> u = []) \<Longrightarrow>
    no_comment Code u \<Longrightarrow> no_comment (InQuote q) (t @ u)"
proof (induction q s arbitrary: t r rule: quoted.induct)
  case (3 q c d cs)
  consider (esc) "c = q" "d = q" | (close) "c = q" "d \<noteq> q" | (inside) "c \<noteq> q" by blast
  then show ?case
  proof cases
    case esc
    then obtain t' where "quoted q cs = (t', r)" "t = q # q # t'"
      using "3.prems" by (auto split: prod.splits)
    with esc "3.prems" "3.IH"(1) show ?thesis by simp
  next
    case close
    with "3.prems" show ?thesis by (auto simp: no_comment_quote_end)
  next
    case inside
    then obtain t' where "quoted q (d # cs) = (t', r)" "t = c # t'"
      using "3.prems" by (auto split: prod.splits)
    with inside "3.prems" "3.IH"(2) show ?thesis by simp
  qed
qed auto

lemma quoted_closed: "quoted q s = (t, r) \<Longrightarrow> \<not> starts_with_char q r"
  by (induction q s arbitrary: t r rule: quoted.induct) (auto split: if_splits prod.splits)

lemma strip_comments_first:
  "starts_with_char c (strip_comments (x # xs)) \<Longrightarrow> c = x \<or> c = CHR '' ''"
  by (auto simp: strip_comments.simps(2) split: if_splits prod.splits)

lemma strip_comments_not_first:
  "\<not> starts_with_char c s \<Longrightarrow> c \<noteq> CHR '' '' \<Longrightarrow> \<not> starts_with_char c (strip_comments s)"
  by (cases s) (auto dest: strip_comments_first)

lemma is_quote_not_space: "is_quote q \<Longrightarrow> q \<noteq> CHR '' ''"
  by (auto simp: is_quote_def)

lemma strip_comments_no_comment: "no_comment Code (strip_comments s)"
proof (induction s rule: strip_comments.induct)
  case (2 c cs)
  consider (quote) "is_quote c"
    | (line) "c = CHR ''-''" "starts_with_char (CHR ''-'') cs"
    | (block) "c = CHR ''/''" "starts_with_char (CHR ''*'') cs"
    | (other) "\<not> is_quote c" "\<not> (c = CHR ''-'' \<and> starts_with_char (CHR ''-'') cs)"
        "\<not> (c = CHR ''/'' \<and> starts_with_char (CHR ''*'') cs)"
    by blast
  then show ?case
  proof cases
    case quote
    obtain t r where q: "quoted c cs = (t, r)" by fastforce
    have "no_comment (InQuote c) (t @ strip_comments r)"
      using no_comment_quoted [OF q] "2.IH"(1) [OF quote q [symmetric] refl]
        strip_comments_not_first [OF quoted_closed [OF q] is_quote_not_space [OF quote]]
      by auto
    with quote q show ?thesis by (simp add: strip_comments.simps(2) code_step_def)
  next
    case line
    with "2.IH"(2) show ?thesis by (simp add: strip_comments.simps(2) code_step_def is_quote_def)
  next
    case block
    with "2.IH"(3) show ?thesis by (simp add: strip_comments.simps(2) code_step_def is_quote_def)
  next
    case other
    then have "strip_comments (c # cs) = c # strip_comments cs"
      by (simp only: strip_comments.simps(2) if_False)
    with other "2.IH"(4) show ?thesis
      by (auto simp: code_step_def no_comment_dash no_comment_slash strip_comments_not_first)
  qed
qed simp

lemma no_comment_quoted_rest:
  "quoted q s = (t, r) \<Longrightarrow> no_comment (InQuote q) s \<Longrightarrow> no_comment Code r"
proof (induction q s arbitrary: t r rule: quoted.induct)
  case (3 q c d cs)
  then show ?case
    by (auto split: if_splits prod.splits simp: no_comment_quote_end)
qed auto

text \<open>Text without comments is left alone.\<close>

lemma strip_comments_id: "no_comment Code s \<Longrightarrow> strip_comments s = s"
proof (induction s rule: strip_comments.induct)
  case (2 c cs)
  show ?case
  proof (cases "is_quote c")
    case True
    obtain t r where q: "quoted c cs = (t, r)" by fastforce
    from True "2.prems" have "no_comment (InQuote c) cs" by (simp add: code_step_def)
    from "2.IH"(1) [OF True q [symmetric] refl] no_comment_quoted_rest [OF q this]
    show ?thesis using True q quoted_append [OF q] by (simp add: strip_comments.simps(2))
  next
    case False
    have nl: "\<not> (c = CHR ''-'' \<and> starts_with_char (CHR ''-'') cs)"
      and nb: "\<not> (c = CHR ''/'' \<and> starts_with_char (CHR ''*'') cs)"
      using "2.prems" False by (cases cs; auto simp: code_step_def)+
    then have "no_comment Code cs"
      using "2.prems" False by (auto simp: code_step_def no_comment_dash no_comment_slash split: if_splits)
    with "2.IH"(4) [OF False nl nb] show ?thesis
      using False nl nb by (simp only: strip_comments.simps(2) if_False)
  qed
qed simp

section \<open>Leading trivia\<close>

text \<open>
  White space, line comments and block comments, in any order and number: what may stand in
  front of a statement without changing it.
\<close>

inductive trivia :: "string \<Rightarrow> bool" where
  trivia_nil: "trivia []"
| trivia_ws: "ascii c \<Longrightarrow> is_ws c \<Longrightarrow> trivia t \<Longrightarrow> trivia (c # t)"
| trivia_line: "newline \<notin> set b \<Longrightarrow> trivia t \<Longrightarrow> trivia (''--'' @ b @ newline # t)"
| trivia_block: "\<not> contains_str ''*/'' b \<Longrightarrow> trivia t \<Longrightarrow> trivia (''/*'' @ b @ ''*/'' @ t)"

lemma ascii_newline [simp]: "ascii newline"
  by (simp add: ascii_def newline_def byte_def)

lemma byte_0x80: "\<not> ascii c \<Longrightarrow> 194 \<le> byte (hd (utf8_char c)) \<and> utf8_char c = [hd (utf8_char c), hd (tl (utf8_char c))]
    \<and> 128 \<le> byte (hd (tl (utf8_char c)))"
  using byte_less [of c] by (simp add: utf8_char_def ascii_def del: byte_less)

lemma not_ascii_utf8E:
  assumes "\<not> ascii c"
  obtains x y where "utf8_char c = [x, y]" "194 \<le> byte x" "128 \<le> byte y"
  using byte_0x80 [OF assms] by blast

lemma ascii_neq_high: "ascii c \<Longrightarrow> 128 \<le> byte d \<Longrightarrow> d \<noteq> c"
  by (auto simp: ascii_def)

lemma set_utf8_ascii: "ascii c \<Longrightarrow> c \<in> set (utf8 s) \<Longrightarrow> c \<in> set s"
proof (induction s)
  case (Cons d s)
  show ?case
  proof (cases "ascii d")
    case False
    then obtain x y where "utf8_char d = [x, y]" "194 \<le> byte x" "128 \<le> byte y"
      by (rule not_ascii_utf8E)
    with Cons show ?thesis by (auto simp: ascii_def)
  qed (use Cons in auto)
qed simp

lemma star_slash_ascii [simp]: "ascii (CHR ''*'')" "ascii (CHR ''/'')" "ascii (CHR ''-'')"
  "ascii (CHR '';'')" "ascii (CHR 0x27)" "ascii (CHR 0x22)"
  by (simp_all add: ascii_def byte_def)

lemma starts_with_utf8: "ascii c \<Longrightarrow> starts_with_char c (utf8 s) = starts_with_char c s"
proof (cases s)
  case (Cons d t)
  assume c: "ascii c"
  show ?thesis
  proof (cases "ascii d")
    case False
    then obtain x y where "utf8_char d = [x, y]" "194 \<le> byte x" by (rule not_ascii_utf8E)
    with c False Cons show ?thesis by (auto simp: ascii_def)
  qed (simp add: Cons)
qed simp

lemma contains_star_slash_Cons:
  "contains_str ''*/'' (c # s) \<longleftrightarrow>
     c = CHR ''*'' \<and> starts_with_char (CHR ''/'') s \<or> contains_str ''*/'' s"
  by (cases s) auto

lemma contains_utf8: "contains_str ''*/'' (utf8 s) = contains_str ''*/'' s"
proof (induction s)
  case (Cons d s)
  show ?case
  proof (cases "ascii d")
    case True
    with Cons show ?thesis by (simp add: contains_star_slash_Cons starts_with_utf8 del: contains_str.simps)
  next
    case False
    then obtain x y where xy: "utf8_char d = [x, y]" "194 \<le> byte x" "128 \<le> byte y"
      by (rule not_ascii_utf8E)
    moreover from False have "d \<noteq> CHR ''*''" by auto
    ultimately show ?thesis using Cons ascii_neq_high [of "CHR ''*''" y] ascii_neq_high [of "CHR ''*''" x]
      by (auto simp: contains_star_slash_Cons simp del: contains_str.simps)
  qed
qed simp

lemma utf8_trivia: "trivia t \<Longrightarrow> trivia (utf8 t)"
proof (induction rule: trivia.induct)
  case (trivia_line b t)
  have "newline \<notin> set (utf8 b)" using trivia_line(1) set_utf8_ascii by auto
  with trivia.trivia_line [OF this trivia_line.IH] show ?case by simp
next
  case (trivia_block b t)
  with trivia.trivia_block [of "utf8 b" "utf8 t"] show ?case by (simp add: contains_utf8)
qed (auto intro: trivia.intros)

text \<open>The loop of \<open>leading_keyword\<close> skips exactly the trivia.\<close>

lemma skip_line_append: "newline \<notin> set b \<Longrightarrow> skip_line (b @ newline # t) = newline # t"
  by (induction b) (auto simp: skip_line_def)

lemma skip_block_append: "\<not> contains_str ''*/'' b \<Longrightarrow> skip_block (b @ ''*/'' @ t) = t"
proof (induction b)
  case (Cons c b)
  then have "\<not> (c = CHR ''*'' \<and> starts_with_char (CHR ''/'') (b @ ''*/'' @ t))"
    by (cases b) (auto simp: contains_star_slash_Cons simp del: contains_str.simps)
  with Cons show ?case by (auto simp: contains_star_slash_Cons simp del: contains_str.simps)
qed simp

lemma not_ws_comment [simp]: "\<not> is_ws (CHR ''-'')" "\<not> is_ws (CHR ''/'')"
  by (simp_all add: is_ws_def byte_def)

lemma is_ws_newline [simp]: "is_ws newline"
  by (simp add: is_ws_def newline_def byte_def)

lemma skip_leading_ws: "is_ws c \<Longrightarrow> skip_leading (c # s) = skip_leading s"
  by (subst (1 2) skip_leading.simps) simp

lemma skip_leading_line: "skip_leading (''--'' @ s) = skip_leading (skip_line s)"
  by (subst skip_leading.simps) simp

lemma skip_leading_block: "skip_leading (''/*'' @ s) = skip_leading (skip_block s)"
  by (subst skip_leading.simps) simp

lemma skip_leading_trivia: "trivia t \<Longrightarrow> skip_leading (t @ s) = skip_leading s"
proof (induction rule: trivia.induct)
  case (trivia_line b t)
  then show ?case
    using skip_leading_line [of "b @ newline # t @ s"] by (simp add: skip_line_append skip_leading_ws)
next
  case (trivia_block b t)
  then show ?case
    using skip_leading_block [of "b @ ''*/'' @ t @ s"] skip_block_append [of b "t @ s"] by simp
qed (auto simp: skip_leading_ws)

text \<open>The automaton is in code after trivia and meets no top-level semicolon in it.\<close>

lemma ref_split_in_line:
  "newline \<notin> set b \<Longrightarrow> ref_split LineComment cur (b @ s) = ref_split LineComment (cur @ b) s"
  by (induction b arbitrary: cur) auto

lemma ref_split_in_block:
  "\<not> contains_str ''*/'' b \<Longrightarrow>
    ref_split BlockComment cur (b @ ''*/'' @ s) = ref_split Code (cur @ b @ ''*/'') s
    \<and> (\<not> starts_with_char (CHR ''/'') b \<longrightarrow>
        ref_split BlockStar cur (b @ ''*/'' @ s) = ref_split Code (cur @ b @ ''*/'') s)"
proof (induction b arbitrary: cur)
  case (Cons c b)
  then have nc: "\<not> contains_str ''*/'' b"
    and st: "c = CHR ''*'' \<longrightarrow> \<not> starts_with_char (CHR ''/'') b"
    by (auto simp: contains_star_slash_Cons simp del: contains_str.simps)
  from Cons.IH [OF nc, of "cur @ [c]"] st show ?case by auto
qed simp

lemma ascii_ws_not_special:
  "is_ws c \<Longrightarrow> \<not> is_quote c \<and> c \<noteq> CHR ''-'' \<and> c \<noteq> CHR ''/'' \<and> c \<noteq> CHR '';''"
  by (auto simp: is_ws_def is_quote_def byte_def)

lemma ref_split_trivia: "trivia t \<Longrightarrow> ref_split Code cur (t @ s) = ref_split Code (cur @ t) s"
proof (induction arbitrary: cur rule: trivia.induct)
  case (trivia_ws c t)
  with trivia_ws.IH [of "cur @ [c]"] ascii_ws_not_special [of c] show ?case by (simp add: code_step_def)
next
  case (trivia_line b t)
  with trivia_line.IH [of "cur @ ''--'' @ b @ [newline]"] show ?case
    by (simp add: code_step_def ref_split_in_line)
next
  case (trivia_block b t)
  with trivia_block.IH [of "cur @ ''/*'' @ b @ ''*/''"] ref_split_in_block [of b "cur @ ''/*''" "t @ s"]
  show ?case by (simp add: code_step_def)
qed simp

fun quote_mode :: "mode \<Rightarrow> bool" where
  "quote_mode (InQuote q) = is_quote q"
| "quote_mode (QuoteEnd q) = is_quote q"
| "quote_mode m = True"

lemma quote_mode_step: "quote_mode m \<Longrightarrow> quote_mode (lex_step m c)"
  by (cases m) (auto simp: code_step_def)

lemma lex_step_separator: "top_level m \<Longrightarrow> quote_mode m \<Longrightarrow> lex_step m (CHR '';'') = Code"
  by (cases m) (auto simp: code_step_def is_quote_def)

lemma ref_split_append:
  "top_level (lex_run m p) \<Longrightarrow> quote_mode m \<Longrightarrow>
    \<exists>xs. ref_split m cur (p @ '';'' @ s) = xs @ ref_split Code [] s"
proof (induction p arbitrary: m cur)
  case (Cons c p)
  show ?case
  proof (cases "top_level m \<and> c = CHR '';''")
    case True
    then have "lex_step m c = Code" using lex_step_separator Cons.prems(2) by simp
    with True Cons.IH [of Code "[]"] Cons.prems obtain xs
      where "ref_split Code [] (p @ '';'' @ s) = xs @ ref_split Code [] s" by auto
    with True show ?thesis by (intro exI [of _ "cur # xs"]) simp
  next
    case False
    with Cons.IH [of "lex_step m c" "cur @ [c]"] Cons.prems quote_mode_step show ?thesis by auto
  qed
qed auto

lemma ref_split_first:
  "cur \<noteq> [] \<Longrightarrow> \<exists>s' xs. ref_split m cur s = (cur @ s') # xs \<and> prefix s' s"
proof (induction s arbitrary: m cur)
  case (Cons c s)
  show ?case
  proof (cases "top_level m \<and> c = CHR '';''")
    case False
    with Cons.IH [of "cur @ [c]" "lex_step m c"] obtain s' xs
      where "ref_split (lex_step m c) (cur @ [c]) s = (cur @ [c] @ s') # xs" "prefix s' s" by auto
    with False show ?thesis by (intro exI [of _ "c # s'"]) auto
  qed auto
qed auto

section \<open>Properties\<close>

text \<open>
  C13: \<open>split_top_level_statements\<close>, which jumps over quoted strings and comments with an index,
  computes the split of a one-pass lexical automaton: it cuts exactly at the semicolons met outside
  quotes and comments. A doubled quote, an unterminated quote and an unterminated comment are
  treated the same by both, at every position of the text.
\<close>

theorem splitter_is_automaton:
  "split_top_level_statements sql = map utf8 (ref_split Code [] sql)"
  by (simp add: split_top_level_statements_def split_go_ref)

text \<open>
  No byte of the SQL text escapes the splitter. Joined by semicolons, the segments that it
  builds are the text again, up to one closing semicolon, so every byte a client sends is in a
  segment that is checked.
\<close>

theorem splitter_loses_nothing:
  "join '';'' (split_go [] sql) = sql \<or> join '';'' (split_go [] sql) @ '';'' = sql"
  using ref_split_join [of Code "[]" sql] by (simp add: split_go_ref)

text \<open>
  \<open>strip_comments\<close> leaves no comment behind. On its output the automaton never enters a
  comment, even where removing one brings two characters together, and stripping again changes
  nothing.
\<close>

theorem strip_comments_complete:
  "no_comment Code (strip_comments s) \<and> strip_comments (strip_comments s) = strip_comments s"
  using strip_comments_no_comment [of s] strip_comments_id by blast

end
