(* ===== verification/Sql_Admission.thy ===== *)
theory Sql_Admission
  imports Errors Sql_Lexer
begin

text \<open>
  Statement admission: the classifiers of \<^verbatim>\<open>duckvis/attach.rs\<close> and \<open>Session::validate_user_sql\<close> of
  \<^verbatim>\<open>session/mod.rs\<close>, followed by the completeness of the raw-ATTACH guard.
\<close>

section \<open>Classifiers\<close>

definition string_tokens :: "string \<Rightarrow> string list run" where
  "string_tokens statement = tokenize (utf8 (strip_comments statement))"

text \<open>\<open>name.rsplit('.').next()\<close>.\<close>

definition last_part :: "string \<Rightarrow> string" where
  "last_part name = rev (takeWhile (\<lambda>c. c \<noteq> CHR ''.'') (rev name))"

definition first_token_is :: "string \<Rightarrow> string list \<Rightarrow> bool" where
  "first_token_is kw ts = (case ts of [] \<Rightarrow> False | t # _ \<Rightarrow> eq_ignore_ascii_case t kw)"

definition call_targets_ducklake :: "string \<Rightarrow> bool run" where
  "call_targets_ducklake statement = run_map (\<lambda>ts.
     first_token_is ''CALL'' ts \<and>
     prefix ''ducklake_'' (last_part (concat (map (\<lambda>t. to_ascii_lowercase (unquote t))
        (takeWhile (\<lambda>t. t \<noteq> ''('') (tl ts)))))) (string_tokens statement)"

definition creates_persistent_secret :: "string \<Rightarrow> bool run" where
  "creates_persistent_secret statement = run_map (\<lambda>ts.
     first_token_is ''CREATE'' ts \<and>
     (let head = takeWhile (\<lambda>t. t \<noteq> ''('' \<and> \<not> eq_ignore_ascii_case t ''AS'') (tl ts) in
      list_ex (\<lambda>t. eq_ignore_ascii_case t ''SECRET'') head
      \<and> list_ex (\<lambda>t. eq_ignore_ascii_case t ''PERSISTENT'' \<or> eq_ignore_ascii_case t ''IN'') head))
     (string_tokens statement)"

text \<open>The \<open>i32\<close> depth is an \<open>int\<close>: a statement has fewer than \<open>2 ^ 31\<close> tokens.\<close>

fun copy_sink :: "int \<Rightarrow> string list \<Rightarrow> bool" where
  "copy_sink depth [] = True"
| "copy_sink depth (t # ts) =
     (if t = ''('' then copy_sink (depth + 1) ts
      else if t = '')'' then copy_sink (depth - 1) ts
      else if depth = 0 then
        (if eq_ignore_ascii_case t ''TO'' then True
         else if eq_ignore_ascii_case t ''FROM'' then False
         else copy_sink depth ts)
      else copy_sink depth ts)"

definition copy_writes_file :: "string \<Rightarrow> bool run" where
  "copy_writes_file statement =
     run_map (\<lambda>ts. first_token_is ''COPY'' ts \<and> copy_sink 0 (tl ts)) (string_tokens statement)"

definition reserved_secret_prefix :: string where
  "reserved_secret_prefix = ''__duckvis_''"

definition non_writer_functions :: "string list" where
  "non_writer_functions = [''postgres_scan'', ''postgres_scan_pushdown'', ''postgres_query'',
     ''postgres_execute'', ''postgres_attach'', ''query'', ''query_table'',
     ''json_execute_serialized_sql'']"

definition non_writer_ducklake_functions :: "string list" where
  "non_writer_ducklake_functions = [''ducklake_current_snapshot'',
     ''ducklake_last_committed_snapshot'', ''ducklake_options'', ''ducklake_settings'',
     ''ducklake_snapshots'', ''ducklake_table_info'', ''ducklake_table_changes'',
     ''ducklake_table_insertions'', ''ducklake_table_deletions'']"

definition non_call_predecessors :: "string list" where
  "non_call_predecessors = [''table'', ''into'', ''view'', ''exists'']"

datatype refusal = ReservedName | NonWriter string

fun names_reserved :: "scanned \<Rightarrow> bool" where
  "names_reserved (ScWord text _) = contains_str reserved_secret_prefix (to_ascii_lowercase text)"
| "names_reserved (ScLiteral text) = contains_str reserved_secret_prefix (to_ascii_lowercase text)"
| "names_reserved (ScPunct _) = False"

fun word_of :: "scanned \<Rightarrow> string option" where
  "word_of (ScWord text _) = Some (to_ascii_lowercase text)"
| "word_of _ = None"

text \<open>The \<open>CREATE MACRO\<close>/\<open>CREATE FUNCTION\<close> check on the lower-cased words.\<close>

definition refused_create :: "string option list \<Rightarrow> refusal option" where
  "refused_create words =
     (case words of Some w # rest \<Rightarrow>
        if w = ''create'' then
          (case find (\<lambda>v. v \<notin> set [''or'', ''replace'', ''temp'', ''temporary'']) (List.map_filter id rest) of
             Some k \<Rightarrow>
               if k = ''macro'' then Some (NonWriter ''CREATE MACRO'')
               else if k = ''function'' then Some (NonWriter ''CREATE FUNCTION'') else None
           | None \<Rightarrow> None)
        else None
      | _ \<Rightarrow> None)"

definition next_opens :: "scanned list \<Rightarrow> bool" where
  "next_opens ts = (case ts of ScPunct c # _ \<Rightarrow> c = CHR ''('' | _ \<Rightarrow> False)"

definition after_definer :: "string option \<Rightarrow> bool" where
  "after_definer prev = (case prev of None \<Rightarrow> False | Some p \<Rightarrow> p \<in> set non_call_predecessors)"

text \<open>The loop over the words; \<open>prev\<close> is \<open>words[idx - 1]\<close>, \<open>None\<close> at the first.\<close>

fun refused_words :: "string option \<Rightarrow> scanned list \<Rightarrow> refusal option" where
  "refused_words prev [] = None"
| "refused_words prev (t # ts) =
     (case word_of t of None \<Rightarrow> refused_words None ts
      | Some w \<Rightarrow>
          if prefix ''__ducklake_metadata'' w then Some (NonWriter ''__ducklake_metadata catalogs'')
          else if \<not> next_opens ts then refused_words (Some w) ts
          else if after_definer prev then refused_words (Some w) ts
          else if w \<in> set non_writer_functions then Some (NonWriter w)
          else if prefix ''ducklake_'' w \<and> w \<notin> set non_writer_ducklake_functions
          then Some (NonWriter ''ducklake_* maintenance and file listing'')
          else refused_words (Some w) ts)"

definition refused_construct :: "string \<Rightarrow> bool \<Rightarrow> refusal option" where
  "refused_construct statement writer =
     (let tokens = scan (strip_comments statement) in
      if list_ex names_reserved tokens then Some ReservedName
      else if writer then None
      else (case refused_create (map word_of tokens) of Some r \<Rightarrow> Some r
            | None \<Rightarrow> refused_words None tokens))"

section \<open>Validation of user SQL\<close>

record session_auth =
  subject :: string
  project_id :: string
  writer :: bool

text \<open>The verbs a non-writer session loses: the \<open>match keyword\<close> of the loop.\<close>

definition non_writer_verb :: "string \<Rightarrow> string \<Rightarrow> string option run" where
  "non_writer_verb keyword statement =
     (if keyword = ''EXPORT'' then Ret (Some ''EXPORT DATABASE'')
      else if keyword = ''CALL'' then
        run_map (\<lambda>b. if b then Some ''CALL ducklake_*'' else None) (call_targets_ducklake statement)
      else if keyword = ''COPY'' then
        run_map (\<lambda>b. if b then Some ''COPY to a file'' else None) (copy_writes_file statement)
      else Ret None)"

definition refusal_result :: "refusal option \<Rightarrow> server_error + unit" where
  "refusal_result r =
     (case r of Some ReservedName \<Rightarrow> Inl ReservedNameNotPermitted
      | Some (NonWriter what) \<Rightarrow> Inl (WriteNotPermitted what)
      | None \<Rightarrow> Inr ())"

text \<open>One statement of the loop of \<open>validate_user_sql\<close>.\<close>

definition validate_statement :: "bool \<Rightarrow> string \<Rightarrow> (server_error + unit) run" where
  "validate_statement wr statement =
     rbind (leading_keyword statement) (\<lambda>kw.
     case kw of None \<Rightarrow> Ret (Inr ())
     | Some keyword \<Rightarrow>
         if keyword = ''ATTACH'' then Ret (Inl AttachNotPermitted)
         else rbind (if keyword = ''CREATE'' then creates_persistent_secret statement else Ret False)
           (\<lambda>persistent.
         if persistent then Ret (Inl PersistentSecretNotPermitted)
         else rbind (if wr then Ret None else non_writer_verb keyword statement) (\<lambda>verb.
         case verb of Some what \<Rightarrow> Ret (Inl (WriteNotPermitted what))
         | None \<Rightarrow> Ret (refusal_result (refused_construct statement wr)))))"

fun validate_all :: "bool \<Rightarrow> string list \<Rightarrow> (server_error + unit) run" where
  "validate_all wr [] = Ret (Inr ())"
| "validate_all wr (s # ss) =
     rbind (validate_statement wr s) (\<lambda>r. case r of Inl e \<Rightarrow> Ret (Inl e) | Inr _ \<Rightarrow> validate_all wr ss)"

definition validate_user_sql :: "session_auth option \<Rightarrow> string \<Rightarrow> (server_error + unit) run" where
  "validate_user_sql auth sql =
     (case auth of None \<Rightarrow> Ret (Inr ())
      | Some a \<Rightarrow> validate_all (writer a) (split_top_level_statements sql))"

lemma validate_all_ok:
  "validate_all wr ss = Ret (Inr ()) \<longleftrightarrow> (\<forall>s\<in>set ss. validate_statement wr s = Ret (Inr ()))"
proof (induction ss)
  case (Cons s ss)
  then show ?case by (cases "validate_statement wr s") (auto split: sum.splits)
qed simp

lemma validate_statement_attach:
  "leading_keyword s = Ret (Some ''ATTACH'') \<Longrightarrow> validate_statement wr s = Ret (Inl AttachNotPermitted)"
  by (simp add: validate_statement_def)

lemma refusal_result_ok [simp]: "refusal_result r = Inr () \<longleftrightarrow> r = None"
  by (auto simp: refusal_result_def split: option.splits refusal.splits)

lemma validate_statement_ok:
  assumes "validate_statement wr s = Ret (Inr ())" "leading_keyword s = Ret (Some k)"
  shows "k \<noteq> ''ATTACH''" "\<not> wr \<Longrightarrow> non_writer_verb k s = Ret None"
    "refused_construct s wr = None"
    "k = ''CREATE'' \<Longrightarrow> creates_persistent_secret s = Ret False"
  using assms unfolding validate_statement_def
  by (auto simp only: rbind.simps option.case rbind_Ret_iff run.inject refusal_result_ok if_False if_True
      refl simp_thms sum.inject sum.distinct not_ex not_Some_eq split: if_split_asm option.split_asm bool.splits)

section \<open>The guard against raw ATTACH\<close>

text \<open>A keyword that ends where it should: at the end or before an ASCII non-keyword character.\<close>

definition ends_word :: "string \<Rightarrow> bool" where
  "ends_word rest \<longleftrightarrow> (case rest of [] \<Rightarrow> True | c # _ \<Rightarrow> ascii c \<and> \<not> kw_char c)"

lemma ends_word_prefix: "ends_word s \<Longrightarrow> prefix s' s \<Longrightarrow> ends_word s'"
  by (cases s'; cases s) (auto simp: ends_word_def)

lemma ends_word_utf8: "ends_word s \<Longrightarrow> ends_word (utf8 s)"
  by (cases s) (auto simp: ends_word_def)

lemma takeWhile_ends_word:
  "list_all kw_char kw \<Longrightarrow> ends_word s \<Longrightarrow> takeWhile kw_char (kw @ s) = kw \<and> dropWhile kw_char (kw @ s) = s"
  by (cases s) (auto simp: ends_word_def list_all_iff takeWhile_append dropWhile_append)

lemma letter_facts:
  assumes "is_ascii_alnum c"
  shows "ascii c" "kw_char c" "\<not> is_ws c" "c \<noteq> CHR ''-''" "c \<noteq> CHR ''/''" "c \<noteq> CHR '';''"
    "\<not> is_quote c"
  using assms by (auto simp: is_quote_def kw_char_def char_class_defs)

lemma leading_keyword_word:
  assumes "kw \<noteq> []" "list_all is_ascii_alnum kw" "ends_word s"
  shows "leading_keyword (kw @ s) = Ret (Some (to_ascii_uppercase kw))"
proof -
  from assms obtain c cs where kw: "kw = c # cs" and c: "is_ascii_alnum c" by (cases kw) auto
  have "skip_leading (kw @ s) = Some (kw @ s)"
    using letter_facts [OF c] kw by (subst skip_leading.simps) simp
  moreover have "boundary s" using assms(3) by (cases s) (auto simp: ends_word_def)
  moreover have "list_all kw_char kw" using assms(2) by (auto simp: list_all_iff letter_facts)
  ultimately show ?thesis
    using takeWhile_ends_word [of kw s] assms(3) kw letter_facts [OF c]
    by (simp add: leading_keyword_def)
qed

lemma leading_keyword_trivia: "trivia t \<Longrightarrow> leading_keyword (t @ s) = leading_keyword s"
  by (simp add: leading_keyword_def skip_leading_trivia)

text \<open>
  Wherever a statement begins, its keyword is found behind any trivia, in any case: some segment
  of the splitter has it as leading keyword.
\<close>

lemma split_finds_keyword:
  assumes pre: "pre = [] \<or> (\<exists>p. pre = p @ '';'' \<and> top_level (lex_run Code p))"
    and t: "trivia t" and kw: "kw \<noteq> []" "list_all is_ascii_alnum kw" and rest: "ends_word rest"
  shows "\<exists>s\<in>set (split_top_level_statements (pre @ t @ kw @ rest)).
    leading_keyword s = Ret (Some (to_ascii_uppercase kw))"
proof -
  obtain c cs where k: "kw = c # cs" and c: "is_ascii_alnum c"
    using kw by (cases kw) auto
  have word: "ref_split Code cur (w @ rest) = ref_split Code (cur @ w) rest"
    if "list_all is_ascii_alnum w" for w cur
    using that
  proof (induction w arbitrary: cur)
    case (Cons d w)
    with letter_facts [of d] Cons.IH [of "cur @ [d]"] show ?case by (simp add: code_step_def)
  qed simp
  have "t @ kw \<noteq> []" using kw by simp
  from ref_split_first [OF this, of Code rest] obtain r xs
    where "ref_split Code (t @ kw) rest = (t @ kw @ r) # xs" and r: "prefix r rest" by auto
  then have "t @ kw @ r \<in> set (ref_split Code [] (t @ kw @ rest))"
    by (simp add: ref_split_trivia [OF t] word [OF kw(2)])
  then have "t @ kw @ r \<in> set (split_go [] (pre @ t @ kw @ rest))"
    using pre ref_split_append [of Code _ "[]" "t @ kw @ rest"] by (force simp: split_go_ref)
  moreover have "utf8 kw = kw"
    using kw(2) by (intro utf8_ascii) (auto simp: list_all_iff letter_facts)
  then have "leading_keyword (utf8 (t @ kw @ r)) = Ret (Some (to_ascii_uppercase kw))"
    using leading_keyword_trivia [OF utf8_trivia [OF t]]
      leading_keyword_word [OF kw ends_word_utf8 [OF ends_word_prefix [OF rest r]]]
    by simp
  ultimately show ?thesis by (force simp: split_top_level_statements_def)
qed

lemma attach_word: "to_ascii_uppercase kw = ''ATTACH'' \<Longrightarrow> kw \<noteq> [] \<and> list_all is_ascii_alnum kw"
proof -
  assume up: "to_ascii_uppercase kw = ''ATTACH''"
  have "is_ascii_alnum c" if "c \<in> set kw" for c
  proof -
    from that have "to_upper c \<in> set (to_ascii_uppercase kw)" by (simp add: to_ascii_uppercase_def)
    then have "is_upper (to_upper c)" unfolding up by (auto simp: is_upper_def byte_def)
    then show ?thesis by (auto simp: to_upper_def is_ascii_alnum_def split: if_splits)
  qed
  with up show ?thesis by (auto simp: list_all_iff to_ascii_uppercase_def)
qed

section \<open>Reserved names\<close>

text \<open>
  A run of word characters in the text is inside one token of \<open>scan\<close>, so a reserved name cannot
  be split over tokens, hidden in an identifier or a literal, or change case.
\<close>

definition plain_word :: "string \<Rightarrow> bool" where
  "plain_word p \<longleftrightarrow> p \<noteq> [] \<and> list_all (\<lambda>c. is_lower c \<or> is_digit c \<or> c = CHR ''_'') p"

definition occurs :: "string \<Rightarrow> string \<Rightarrow> bool" where
  "occurs p s \<longleftrightarrow> contains_str p (to_ascii_lowercase s)"

lemma occurs_Nil [simp]: "plain_word p \<Longrightarrow> \<not> occurs p []"
  by (simp add: occurs_def to_ascii_lowercase_def plain_word_def)

lemma occurs_Cons:
  "occurs p (c # s) \<longleftrightarrow> prefix p (to_ascii_lowercase (c # s)) \<or> occurs p s"
  by (simp add: occurs_def to_ascii_lowercase_def)

lemma plain_word_to_lower:
  assumes "plain_word p" "to_lower c \<in> set p"
  shows "word_char c" "is_alnum c \<or> c = CHR ''_''" "\<not> is_ws c" "\<not> is_quote c"
proof -
  from assms have "is_lower (to_lower c) \<or> is_digit (to_lower c) \<or> to_lower c = CHR ''_''"
    by (auto simp: plain_word_def list_all_iff)
  then have *: "is_ascii_alnum c \<or> c = CHR ''_''"
    by (auto simp: to_lower_def is_ascii_alnum_def split: if_splits)
  then show "word_char c" "is_alnum c \<or> c = CHR ''_''" "\<not> is_ws c" "\<not> is_quote c"
    by (auto simp: word_char_def is_alnum_def is_quote_def is_ws_def char_class_defs)
qed

lemma prefix_first_char:
  "plain_word p \<Longrightarrow> prefix p (to_ascii_lowercase (c # s)) \<Longrightarrow> to_lower c \<in> set p"
  by (cases p) (auto simp: plain_word_def to_ascii_lowercase_def)

lemma occurs_skip: "plain_word p \<Longrightarrow> to_lower c \<notin> set p \<Longrightarrow> occurs p (c # s) = occurs p s"
  using prefix_first_char by (auto simp: occurs_Cons)

text \<open>An occurrence in \<open>w @ r\<close> does not straddle a cut before a character foreign to it.\<close>

lemma occurs_append:
  assumes p: "plain_word p" and r: "r = [] \<or> to_lower (hd r) \<notin> set p"
  shows "occurs p (w @ r) \<Longrightarrow> occurs p w \<or> occurs p r"
proof (induction w)
  case (Cons c w)
  from Cons.prems consider (here) "prefix p (to_ascii_lowercase (c # w @ r))" | (later) "occurs p (w @ r)"
    by (auto simp: occurs_Cons)
  then show ?case
  proof cases
    case here
    have "length p \<le> length (c # w)"
    proof (rule ccontr)
      assume "\<not> ?thesis"
      then have l: "length (c # w) < length p" by simp
      with prefix_length_le [OF here] have "r \<noteq> []" by auto
      then have "to_ascii_lowercase (c # w @ r) ! length (c # w) = to_lower (hd r)"
        by (cases r) (simp_all add: to_ascii_lowercase_def nth_append)
      then have "p ! length (c # w) = to_lower (hd r)"
        using here l by (auto simp: prefix_def nth_append)
      with l r \<open>r \<noteq> []\<close> show False by (metis nth_mem)
    qed
    then have "prefix p (to_ascii_lowercase (c # w))"
      using prefix_length_prefix [OF here, of "to_ascii_lowercase (c # w)"]
      by (simp add: to_ascii_lowercase_def)
    then show ?thesis by (simp add: occurs_Cons)
  next
    case later
    with Cons.IH show ?thesis by (auto simp: occurs_Cons)
  qed
qed simp

lemma quote_not_plain: "plain_word p \<Longrightarrow> is_quote q \<Longrightarrow> to_lower q \<notin> set p"
  using plain_word_to_lower(4) by blast

lemma prefix_scan_quoted:
  "scan_quoted q s = (t, r) \<Longrightarrow> prefix p (to_ascii_lowercase s) \<Longrightarrow> to_lower q \<notin> set p \<Longrightarrow>
    prefix p (to_ascii_lowercase t)"
proof (induction q s arbitrary: t r p rule: scan_quoted.induct)
  case (2 q c)
  then show ?case by (cases p) (auto simp: to_ascii_lowercase_def split: if_splits)
next
  case (3 q c d cs)
  show ?case
  proof (cases p)
    case (Cons x xs)
    with "3.prems" have c: "c \<noteq> q" "x = to_lower c" and xs: "prefix xs (to_ascii_lowercase (d # cs))"
      by (auto simp: to_ascii_lowercase_def)
    from c "3.prems"(1) obtain t' where t': "scan_quoted q (d # cs) = (t', r)" "t = c # t'"
      by (auto split: prod.splits)
    from "3.IH"(2) [OF c(1) t'(1) xs] "3.prems"(3) Cons c t' show ?thesis
      by (simp add: to_ascii_lowercase_def)
  qed simp
qed simp

lemma occurs_scan_quoted:
  assumes p: "plain_word p"
  shows "scan_quoted q s = (t, r) \<Longrightarrow> occurs p s \<Longrightarrow> to_lower q \<notin> set p \<Longrightarrow>
    occurs p t \<or> occurs p r"
proof (induction q s arbitrary: t r rule: scan_quoted.induct)
  case (3 q c d cs)
  note skip = occurs_skip [OF p \<open>to_lower q \<notin> set p\<close>]
  consider (esc) "c = q" "d = q" | (close) "c = q" "d \<noteq> q" | (inside) "c \<noteq> q" by blast
  then show ?case
  proof cases
    case esc
    with "3.prems" obtain t' where "scan_quoted q cs = (t', r)" "t = q # t'" "occurs p cs"
      by (auto split: prod.splits simp: skip)
    with "3.IH"(1) [OF esc] "3.prems"(3) skip show ?thesis by simp
  next
    case close
    with "3.prems" skip show ?thesis by auto
  next
    case inside
    with "3.prems" obtain t' where t': "scan_quoted q (d # cs) = (t', r)" "t = c # t'"
      by (auto split: prod.splits)
    from "3.prems"(2) consider (here) "prefix p (to_ascii_lowercase (c # d # cs))" | (later) "occurs p (d # cs)"
      by (auto simp: occurs_Cons)
    then show ?thesis
    proof cases
      case here
      from prefix_scan_quoted [OF "3.prems"(1) here "3.prems"(3)] t' show ?thesis
        by (simp add: occurs_Cons)
    next
      case later
      with "3.IH"(2) [OF inside t'(1)] t' "3.prems"(3) show ?thesis by (auto simp: occurs_Cons)
    qed
  qed
qed (use p occurs_skip [OF p] in \<open>auto split: if_splits\<close>)

lemma occurs_scan:
  assumes p: "plain_word p"
  shows "occurs p s \<Longrightarrow> \<exists>t\<in>set (scan s). case t of ScWord x _ \<Rightarrow> occurs p x
      | ScLiteral x \<Rightarrow> occurs p x | ScPunct _ \<Rightarrow> False"
proof (induction s rule: scan.induct)
  case (2 c cs)
  consider (ws) "is_ws c" | (quote) "\<not> is_ws c" "is_quote c"
    | (word) "\<not> is_ws c" "\<not> is_quote c" "is_alnum c \<or> c = CHR ''_''"
    | (punct) "\<not> is_ws c" "\<not> is_quote c" "\<not> (is_alnum c \<or> c = CHR ''_'')" by blast
  then show ?case
  proof cases
    case ws
    with plain_word_to_lower(3) [OF p] have "to_lower c \<notin> set p" by blast
    with "2.prems" have "occurs p cs" by (simp add: occurs_skip [OF p])
    with ws "2.IH"(1) show ?thesis by (simp add: scan.simps(2))
  next
    case quote
    obtain t r where q: "scan_quoted c cs = (t, r)" by fastforce
    have nq: "to_lower c \<notin> set p" using quote_not_plain [OF p] quote by simp
    with "2.prems" have "occurs p cs" by (simp add: occurs_skip [OF p])
    from occurs_scan_quoted [OF p q this nq] "2.IH"(2) [OF quote q [symmetric] refl] quote q
    show ?thesis by (auto simp: scan.simps(2))
  next
    case word
    let ?r = "dropWhile word_char cs"
    have cut: "?r = [] \<or> to_lower (hd ?r) \<notin> set p"
      using hd_dropWhile [of word_char cs] plain_word_to_lower(1) [OF p] by blast
    from "2.prems" have "occurs p ((c # takeWhile word_char cs) @ ?r)" by simp
    from occurs_append [OF p cut this] "2.IH"(3) [OF word] word
    show ?thesis by (auto simp: scan.simps(2))
  next
    case punct
    with plain_word_to_lower(2) [OF p] have "to_lower c \<notin> set p" by blast
    with "2.prems" have "occurs p cs" by (simp add: occurs_skip [OF p])
    with punct "2.IH"(4) show ?thesis by (simp add: scan.simps(2))
  qed
qed (use p in simp)

lemma plain_reserved: "plain_word reserved_secret_prefix"
  by (simp add: plain_word_def reserved_secret_prefix_def is_lower_def byte_def)

lemma names_reserved_iff:
  "names_reserved t \<longleftrightarrow> (case t of ScWord x _ \<Rightarrow> occurs reserved_secret_prefix x
      | ScLiteral x \<Rightarrow> occurs reserved_secret_prefix x | ScPunct _ \<Rightarrow> False)"
  by (cases t) (simp_all add: occurs_def)

lemma refused_reserved:
  "occurs reserved_secret_prefix (strip_comments s) \<Longrightarrow> refused_construct s wr = Some ReservedName"
  using occurs_scan [OF plain_reserved, of "strip_comments s"]
  by (simp add: refused_construct_def Let_def list_ex_iff flip: names_reserved_iff)

section \<open>Refused calls\<close>

lemma refused_words_call:
  "refused_words prev (us @ ScWord w qd # ScPunct (CHR ''('') # vs) = None \<Longrightarrow>
    to_ascii_lowercase w \<in> set non_writer_functions \<Longrightarrow>
    after_definer (if us = [] then prev else word_of (last us))"
proof (induction us arbitrary: prev)
  case (Cons u us)
  have "refused_words (word_of u) (us @ ScWord w qd # ScPunct (CHR ''('') # vs) = None"
    using Cons.prems(1) by (auto split: option.splits if_splits)
  from Cons.IH [OF this Cons.prems(2)] show ?case by (simp split: if_splits)
qed (auto simp: next_opens_def split: if_splits)

lemma validated_statement:
  "validate_user_sql (Some a) sql = Ret (Inr ()) \<Longrightarrow> s \<in> set (split_top_level_statements sql) \<Longrightarrow>
    validate_statement (writer a) s = Ret (Inr ())"
  by (simp add: validate_user_sql_def validate_all_ok)

section \<open>Properties\<close>



text \<open>
  No accepted statement names an attachment secret. If the SQL of a session, writer or not,
  is accepted, then in every statement that starts with a keyword the comment-free text has no
  occurrence, in any letter case, of the reserved prefix: neither in an identifier, quoted or not,
  nor in a literal.
\<close>

theorem reserved_names_refused:
  assumes "validate_user_sql (Some a) sql = Ret (Inr ())"
    and "s \<in> set (split_top_level_statements sql)" "leading_keyword s = Ret (Some k)"
  shows "\<not> contains_str reserved_secret_prefix (to_ascii_lowercase (strip_comments s))"
  using validate_statement_ok(3) [OF validated_statement [OF assms(1,2)] assms(3)] refused_reserved
  by (auto simp: occurs_def)

lemma reserved_names_refused_witness:
  "\<not> contains_str reserved_secret_prefix (to_ascii_lowercase (strip_comments ''SELECT a''))"
  by (rule reserved_names_refused [of "\<lparr>subject = ''u'', project_id = ''p'', writer = False\<rparr>"
        "''SELECT a''" _ "''SELECT''"]) code_simp+



end
