(* ===== verification/Attach.thy ===== *)
theory Attach
  imports Sql_Admission
begin

text \<open>
  Server-side ATTACH: \<open>parse_attach\<close>, \<open>normalize_attach\<close> and the statements built beside it, of
  \<^verbatim>\<open>duckvis/attach.rs\<close>. The last sections show that what is built is read back as intended:
  identifiers and literals by \<open>scan\<close>, option blocks by \<open>tokenize\<close>.
\<close>

section \<open>Parsing\<close>

record parsed_attach =
  pa_path :: string
  pa_options :: string

text \<open>\<open>token_eq\<close> at consecutive indices, then the index moves past them.\<close>

fun starts_with_words :: "string list \<Rightarrow> string list \<Rightarrow> bool" where
  "starts_with_words [] ts = True"
| "starts_with_words (w # ws) [] = False"
| "starts_with_words (w # ws) (t # ts) = (eq_ignore_ascii_case t w \<and> starts_with_words ws ts)"

definition skip_words :: "string list \<Rightarrow> string list \<Rightarrow> string list" where
  "skip_words ws ts = (if starts_with_words ws ts then drop (length ws) ts else ts)"

fun rebuild_rest :: "string \<Rightarrow> string list \<Rightarrow> string" where
  "rebuild_rest prev [] = []"
| "rebuild_rest prev (t # ts) =
     (if t \<noteq> '')'' \<and> t \<noteq> '','' \<and> prev \<noteq> ''('' then '' '' else []) @ t @ rebuild_rest t ts"

definition rebuild_options :: "string list \<Rightarrow> string" where
  "rebuild_options tokens = (case tokens of [] \<Rightarrow> [] | t # ts \<Rightarrow> t @ rebuild_rest t ts)"

text \<open>The optional \<open>AS <alias>\<close> clause, then the option block or the end.\<close>

definition skip_alias :: "string list \<Rightarrow> string list" where
  "skip_alias ts =
     (if starts_with_words [''AS''] ts then
        (case tl ts of [] \<Rightarrow> [] | t # r \<Rightarrow> if t \<noteq> ''('' then r else t # r)
      else ts)"

definition parse_attach_tokens :: "string list \<Rightarrow> parsed_attach option" where
  "parse_attach_tokens ts =
     (case ts of [] \<Rightarrow> None
      | kw # ts1 \<Rightarrow>
          if \<not> eq_ignore_ascii_case kw ''ATTACH'' then None
          else
            (case skip_words [''IF'', ''NOT'', ''EXISTS''] (skip_words [''DATABASE'']
                    (skip_words [''OR'', ''REPLACE''] ts1)) of
               [] \<Rightarrow> None
             | path # ts2 \<Rightarrow>
                 if path = ''('' then None
                 else
                   (case skip_alias ts2 of
                      [] \<Rightarrow> Some \<lparr>pa_path = path, pa_options = []\<rparr>
                    | t # r \<Rightarrow>
                        if t = ''('' then Some \<lparr>pa_path = path, pa_options = rebuild_options (t # r)\<rparr>
                        else None)))"

definition parse_attach :: "string \<Rightarrow> parsed_attach option run" where
  "parse_attach statement = run_map parse_attach_tokens (tokenize statement)"

fun find_data_path :: "string list \<Rightarrow> string option" where
  "find_data_path (t # u # ts) =
     (if eq_ignore_ascii_case t ''DATA_PATH'' then Some (unquote u) else find_data_path (u # ts))"
| "find_data_path _ = None"

definition attach_data_path :: "string \<Rightarrow> string option run" where
  "attach_data_path statement = rbind (parse_attach statement) (\<lambda>p.
     case p of None \<Rightarrow> Ret None
     | Some parsed \<Rightarrow> run_map find_data_path (tokenize (pa_options parsed)))"

section \<open>Normalization\<close>

fun split_entries :: "string list \<Rightarrow> string list list" where
  "split_entries [] = [[]]"
| "split_entries (t # ts) =
     (if t = '','' then [] # split_entries ts
      else (case split_entries ts of [] \<Rightarrow> [[t]] | e # es \<Rightarrow> (t # e) # es))"

definition is_read_only_entry :: "string list \<Rightarrow> bool" where
  "is_read_only_entry e = (e \<noteq> [] \<and> eq_ignore_ascii_case (hd e) ''READ_ONLY'')"

definition read_only_entries :: "string list \<Rightarrow> string list list" where
  "read_only_entries inner =
     filter (\<lambda>e. e \<noteq> [] \<and> \<not> eq_ignore_ascii_case (hd e) ''READ_ONLY'') (split_entries inner)
     @ [[''READ_ONLY'']]"

fun join_entries :: "string list list \<Rightarrow> string list" where
  "join_entries [] = []"
| "join_entries [e] = e"
| "join_entries (e # f # es) = e @ '','' # join_entries (f # es)"

definition enforce_read_only :: "string \<Rightarrow> string run" where
  "enforce_read_only options =
     (let trimmed = trim options in
      if trimmed = [] then Ret ''(READ_ONLY)''
      else rbind (tokenize trimmed) (\<lambda>tokens.
        let inner = (if 2 \<le> length tokens then butlast (tl tokens) else []) in
        Ret (rebuild_options (''('' # join_entries (read_only_entries inner) @ ['')'']))))"

definition attach_text :: "string \<Rightarrow> string \<Rightarrow> string \<Rightarrow> string" where
  "attach_text path name options =
     ''ATTACH OR REPLACE '' @ path @ '' AS '' @ quote_identifier name
     @ (if options = [] then [] else '' '' @ options)"

definition normalize_attach :: "string \<Rightarrow> string \<Rightarrow> bool \<Rightarrow> (duckvis_error + string) run" where
  "normalize_attach secret_config name read_only =
     (case filter (\<lambda>s. trim s \<noteq> []) (split_top_level_statements secret_config) of
        [only] \<Rightarrow>
          (let statement = trim only in
           rbind (leading_keyword statement) (\<lambda>kw.
           if kw \<noteq> Some ''ATTACH'' then Ret (Inl AttachInvalid)
           else rbind (parse_attach statement) (\<lambda>p.
           case p of None \<Rightarrow> Ret (Inl AttachInvalid)
           | Some parsed \<Rightarrow>
               rbind (if read_only then enforce_read_only (pa_options parsed)
                      else Ret (trim (pa_options parsed)))
                 (\<lambda>options. Ret (Inr (attach_text (pa_path parsed) name options))))))
      | _ \<Rightarrow> Ret (Inl AttachInvalid))"

section \<open>The statements beside the ATTACH\<close>

definition bare_option_name :: "string \<Rightarrow> bool" where
  "bare_option_name key =
     (case key of [] \<Rightarrow> False
      | c # cs \<Rightarrow> (is_lower c \<or> is_upper c \<or> c = CHR ''_'')
          \<and> list_all (\<lambda>ch. is_ascii_alnum ch \<or> ch = CHR ''_'') cs)"

definition catalog_search_path_sql :: "string \<Rightarrow> duckvis_error + string" where
  "catalog_search_path_sql name =
     (if \<not> bare_option_name name then Inl AttachInvalid
      else Inr (''SET search_path = '' @ CHR 0x27 # ''main,'' @ name @ ''.main'' @ [CHR 0x27]))"

definition attach_secret_types :: "string list" where
  "attach_secret_types = [''postgres'']"

definition lower_hex :: "char \<Rightarrow> bool" where
  "lower_hex c \<longleftrightarrow> is_digit c \<or> 97 \<le> byte c \<and> byte c \<le> 102"

definition valid_secret_name :: "string \<Rightarrow> bool" where
  "valid_secret_name name \<longleftrightarrow>
     prefix reserved_secret_prefix name
     \<and> (let hex = drop (length reserved_secret_prefix) name in length hex = 32 \<and> list_all lower_hex hex)"

fun secret_options :: "(string \<times> string) list \<Rightarrow> duckvis_error + string list" where
  "secret_options [] = Inr []"
| "secret_options ((key, v) # more_fields) =
     (if \<not> bare_option_name key \<or> eq_ignore_ascii_case key ''TYPE'' then Inl AttachInvalid
      else try_ok (secret_options more_fields) (\<lambda>opts. Inr ((key @ '' '' @ sql_literal v) # opts)))"

text \<open>\<open>entries\<close> is the map's entries in key order.\<close>

definition secret_statement :: "string \<Rightarrow> string \<Rightarrow> (string \<times> string) list \<Rightarrow> duckvis_error + string" where
  "secret_statement name kind entries =
     (if \<not> valid_secret_name name then Inl AttachInvalid
      else if to_ascii_lowercase kind \<notin> set attach_secret_types then Inl AttachInvalid
      else try_ok (secret_options entries) (\<lambda>opts.
        Inr (''CREATE OR REPLACE TEMPORARY SECRET '' @ name @ '' (''
             @ join '', '' ((''TYPE '' @ to_ascii_lowercase kind) # opts) @ '')'')))"

section \<open>Reading back identifiers and literals\<close>

lemma scan_quoted_escaped:
  "\<not> starts_with_char q rest \<Longrightarrow>
    scan_quoted q (replace_char q [q, q] v @ q # rest) = (v, rest)"
proof (induction v)
  case Nil
  then show ?case by (cases rest) auto
next
  case (Cons c v)
  show ?case
  proof (cases "c = q")
    case False
    obtain d ds where "replace_char q [q, q] v @ q # rest = d # ds"
      by (cases "replace_char q [q, q] v @ q # rest") auto
    with False Cons show ?thesis by simp
  qed (use Cons in simp)
qed

lemma quote_not_ws: "is_quote c \<Longrightarrow> \<not> is_ws c"
  by (auto simp: is_quote_def is_ws_def byte_def)

lemma is_quote_simps [simp]: "is_quote (CHR 0x27)" "is_quote (CHR 0x22)"
  by (simp_all add: is_quote_def)

lemma scan_sql_literal:
  "\<not> starts_with_char (CHR 0x27) rest \<Longrightarrow> scan (sql_literal v @ rest) = ScLiteral v # scan rest"
  by (simp add: sql_literal_def escape_sql_literal_def scan.simps(2) quote_not_ws scan_quoted_escaped)

lemma scan_quote_identifier:
  "\<not> starts_with_char (CHR 0x22) rest \<Longrightarrow>
    scan (quote_identifier v @ rest) = ScWord v True # scan rest"
  by (simp add: quote_identifier_def scan.simps(2) quote_not_ws scan_quoted_escaped)

definition bare_word :: "string \<Rightarrow> bool" where
  "bare_word w \<longleftrightarrow> w \<noteq> [] \<and> list_all (\<lambda>c. is_ascii_alnum c \<or> c = CHR ''_'') w"

lemma alnum_facts:
  assumes "is_ascii_alnum c \<or> c = CHR ''_''"
  shows "ascii c" "\<not> is_ws c" "\<not> is_quote c" "is_alnum c \<or> c = CHR ''_''" "word_char c" "\<not> word_end c"
  using assms by (auto simp: word_end_def word_char_def is_quote_def char_class_defs)

lemma scan_bare_word:
  assumes "bare_word w" "rest = [] \<or> \<not> word_char (hd rest)"
  shows "scan (w @ rest) = ScWord w False # scan rest"
proof -
  from assms(1) obtain c cs where w: "w = c # cs" and c: "is_ascii_alnum c \<or> c = CHR ''_''"
    and cs: "list_all word_char cs"
    by (cases w) (auto simp: bare_word_def list_all_iff alnum_facts)
  from cs assms(2) have "takeWhile word_char (cs @ rest) = cs" "dropWhile word_char (cs @ rest) = rest"
    by (cases rest; auto simp: list_all_iff takeWhile_append dropWhile_append)+
  with w alnum_facts [OF c] show ?thesis by (simp add: scan.simps(2))
qed

lemma scan_space: "scan (CHR '' '' # s) = scan s"
  by (simp add: scan.simps(2) is_ws_def byte_def)

lemma not_word_char [simp]:
  "\<not> word_char (CHR '' '')" "\<not> word_char (CHR '')'')" "\<not> word_char (CHR '','')"
  by (simp_all add: word_char_def char_class_defs)

lemma scan_word_space: "bare_word w \<Longrightarrow> scan (w @ CHR '' '' # s) = ScWord w False # scan s"
  by (simp add: scan_bare_word scan_space)

definition punct :: "char \<Rightarrow> bool" where
  "punct c \<longleftrightarrow> c = CHR ''('' \<or> c = CHR '')'' \<or> c = CHR '','' \<or> c = CHR ''=''"

lemma punct_facts: "punct c \<Longrightarrow> \<not> is_ws c \<and> \<not> is_quote c \<and> \<not> is_alnum c \<and> c \<noteq> CHR ''_''"
  by (elim punct_def [THEN iffD1, elim_format] disjE) (simp_all add: is_quote_def char_class_defs)

lemma punct_simps [simp]: "punct (CHR ''('')" "punct (CHR '')'')" "punct (CHR '','')" "punct (CHR ''='')"
  by (simp_all add: punct_def)

lemma scan_punct: "punct c \<Longrightarrow> scan (c # s) = ScPunct c # scan s"
  using punct_facts [of c] by (simp add: scan.simps(2))

section \<open>The secret statement as the engine's lexer sees it\<close>

fun field_tokens :: "(string \<times> string) list \<Rightarrow> scanned list" where
  "field_tokens [] = []"
| "field_tokens ((key, v) # more_fields) =
     ScPunct (CHR '','') # ScWord key False # ScLiteral v # field_tokens more_fields"

definition secret_tokens :: "string \<Rightarrow> string \<Rightarrow> (string \<times> string) list \<Rightarrow> scanned list" where
  "secret_tokens name kind entries =
     map (\<lambda>w. ScWord w False) [''CREATE'', ''OR'', ''REPLACE'', ''TEMPORARY'', ''SECRET'', name]
     @ ScPunct (CHR ''('') # ScWord ''TYPE'' False # ScWord (to_ascii_lowercase kind) False
     # field_tokens entries @ [ScPunct (CHR '')'')]"

lemma bare_option_name_word: "bare_option_name key \<Longrightarrow> bare_word key"
  by (cases key) (auto simp: bare_option_name_def bare_word_def is_ascii_alnum_def)

fun opt_tail :: "string list \<Rightarrow> string" where
  "opt_tail [] = '')''"
| "opt_tail (y # ys) = '', '' @ y @ opt_tail ys"

lemma join_tail: "join '', '' (x # xs) @ '')'' = x @ opt_tail xs"
  by (induction xs arbitrary: x) (auto simp: join_Cons)

lemma opt_tail_first: "opt_tail ys \<noteq> [] \<and> \<not> word_char (hd (opt_tail ys))
    \<and> \<not> starts_with_char (CHR 0x27) (opt_tail ys)"
  by (cases ys) auto

lemma scan_secret_options:
  "secret_options entries = Inr opts \<Longrightarrow>
    scan (opt_tail opts) = field_tokens entries @ [ScPunct (CHR '')'')]"
proof (induction entries arbitrary: opts rule: secret_options.induct)
  case 1
  then show ?case by (simp add: scan_punct)
next
  case (2 key v more)
  then obtain opts' where o: "secret_options more = Inr opts'"
    "opts = (key @ '' '' @ sql_literal v) # opts'" and key: "bare_option_name key"
    by (auto simp: run_simps split: if_splits)
  with "2.IH" 2(2) opt_tail_first [of opts'] bare_option_name_word [OF key] show ?case
    by (simp add: scan_punct scan_space scan_word_space scan_sql_literal split: if_splits)
qed

lemma valid_secret_name_word: "valid_secret_name name \<Longrightarrow> bare_word name"
proof -
  assume "valid_secret_name name"
  then obtain hex where "name = reserved_secret_prefix @ hex" "list_all lower_hex hex"
    by (auto simp: valid_secret_name_def prefix_def Let_def)
  then show ?thesis
    by (auto simp: bare_word_def list_all_iff reserved_secret_prefix_def lower_hex_def char_class_defs)
qed

lemma postgres_type_word: "k \<in> set attach_secret_types \<Longrightarrow> bare_word k"
  by (auto simp: attach_secret_types_def bare_word_def char_class_defs)

lemma bare_words:
  "bare_word ''CREATE''" "bare_word ''OR''" "bare_word ''REPLACE''" "bare_word ''TEMPORARY''"
  "bare_word ''SECRET''" "bare_word ''TYPE''"
  by (simp_all add: bare_word_def char_class_defs)

lemma scan_statement_head:
  "scan (''CREATE OR REPLACE TEMPORARY SECRET '' @ s)
    = map (\<lambda>w. ScWord w False) [''CREATE'', ''OR'', ''REPLACE'', ''TEMPORARY'', ''SECRET''] @ scan s"
  using scan_word_space [OF bare_words(1)] scan_word_space [OF bare_words(2)]
    scan_word_space [OF bare_words(3)] scan_word_space [OF bare_words(4)]
    scan_word_space [OF bare_words(5)]
  by simp

lemma scan_secret_statement:
  assumes "secret_statement name kind entries = Inr sql"
  shows "scan sql = secret_tokens name kind entries"
proof -
  let ?k = "to_ascii_lowercase kind"
  from assms obtain opts where name: "valid_secret_name name" and kind: "?k \<in> set attach_secret_types"
    and opts: "secret_options entries = Inr opts"
    and sql: "sql = ''CREATE OR REPLACE TEMPORARY SECRET '' @ name @ '' ('' @ ''TYPE '' @ ?k @ opt_tail opts"
    using join_tail [of "''TYPE '' @ to_ascii_lowercase kind"]
    by (auto simp: secret_statement_def run_simps split: if_splits)
  have "scan (?k @ opt_tail opts) = ScWord ?k False # field_tokens entries @ [ScPunct (CHR '')'')]"
    using scan_bare_word [OF postgres_type_word [OF kind]] scan_secret_options [OF opts]
      opt_tail_first [of opts] by simp
  then show ?thesis
    using scan_word_space [OF valid_secret_name_word [OF name]] scan_word_space [OF bare_words(6)]
    unfolding sql scan_statement_head secret_tokens_def by (simp add: scan_punct)
qed

section \<open>Properties\<close>

text \<open>
  C40: an attachment secret cannot be injected into. Whatever bytes the resolved secret's fields
  hold, the statement that \<open>secret_statement\<close> builds is read by the code's own SQL scanner as the
  fixed token sequence \<open>CREATE OR REPLACE TEMPORARY SECRET name (TYPE kind, key 'value', ...)\<close> in
  which every value is one literal with exactly its text.
\<close>

theorem secret_statement_tokens:
  assumes "secret_statement name kind entries = Inr sql"
  shows "scan sql = secret_tokens name kind entries"
  by (rule scan_secret_statement [OF assms])

lemma secret_statement_tokens_witness:
  "scan (''CREATE OR REPLACE TEMPORARY SECRET __duckvis_0123456789abcdef0123456789abcdef (TYPE postgres, PASSWORD ''
      @ [CHR 0x27, CHR 0x27, CHR 0x27, CHR 0x27] @ '')'')
    = secret_tokens ''__duckvis_0123456789abcdef0123456789abcdef'' ''Postgres'' [(''PASSWORD'', [CHR 0x27])]"
  by (rule secret_statement_tokens) code_simp

text \<open>
  Quoting round trips. A literal or a quoted identifier that the code builds, followed by
  anything that does not extend it, is scanned as that one token with the original text, and the
  rest is scanned on its own.
\<close>

theorem quoting_roundtrip:
  assumes "\<not> starts_with_char (CHR 0x27) rest" "\<not> starts_with_char (CHR 0x22) rest"
  shows "scan (sql_literal v @ rest) = ScLiteral v # scan rest
    \<and> scan (quote_identifier v @ rest) = ScWord v True # scan rest"
  using assms by (simp add: scan_sql_literal scan_quote_identifier)

lemma quoting_roundtrip_witness:
  "scan (sql_literal [CHR ''a'', CHR 0x27] @ '' b'') = ScLiteral [CHR ''a'', CHR 0x27] # scan '' b''
    \<and> scan (quote_identifier [CHR ''a'', CHR 0x27] @ '' b'')
      = ScWord [CHR ''a'', CHR 0x27] True # scan '' b''"
  by (rule quoting_roundtrip) simp_all

end
