(* ===== verification/Attach_Read_Only.thy ===== *)
theory Attach_Read_Only
  imports Attach
begin

text \<open>
  The option block of a normalized ATTACH: \<open>tokenize\<close> reads back what \<open>rebuild_options\<close> writes,
  so the block that \<open>enforce_read_only\<close> builds has one \<open>READ_ONLY\<close> entry, the bare flag,
  whatever the configuration said.
\<close>

section \<open>Tokens that stand for themselves\<close>

definition bracket :: "string \<Rightarrow> bool" where
  "bracket t \<longleftrightarrow> t = ''('' \<or> t = '')'' \<or> t = '',''"

definition plain_token :: "string \<Rightarrow> bool" where
  "plain_token t \<longleftrightarrow> t \<noteq> [] \<and> list_all (\<lambda>c. ascii c \<and> \<not> word_end c) t"

text \<open>A terminated quoted string: a space after it is not part of it.\<close>

definition closed_quote :: "string \<Rightarrow> bool" where
  "closed_quote t =
     (case t of [] \<Rightarrow> False
      | q # u \<Rightarrow> is_quote q \<and> list_all ascii u \<and> quoted q (u @ '' '') = (u, '' ''))"

definition good_token :: "string \<Rightarrow> bool" where
  "good_token t \<longleftrightarrow> bracket t \<or> plain_token t \<or> closed_quote t"

definition delimited :: "string \<Rightarrow> bool" where
  "delimited r = (case r of [] \<Rightarrow> True | c # _ \<Rightarrow> c = CHR '' '' \<or> c = CHR '')'' \<or> c = CHR '','')"

lemma quoted_terminated:
  "quoted q (u @ '' '') = (u, '' '') \<Longrightarrow> q \<noteq> CHR '' '' \<Longrightarrow> \<not> starts_with_char q r \<Longrightarrow>
    quoted q (u @ r) = (u, r)"
proof (induction q u rule: quoted.induct)
  case (2 q c)
  then show ?case by (cases r) (auto split: if_splits)
next
  case (3 q c d cs)
  show ?case
  proof (cases "c = q")
    case True
    with "3.prems" "3.IH"(1) show ?thesis by (auto split: if_splits prod.splits)
  next
    case False
    with "3.prems" have "quoted q ((d # cs) @ '' '') = (d # cs, '' '')" by (auto split: prod.splits)
    with "3.IH"(2) [OF False] "3.prems" False show ?thesis by simp
  qed
qed simp

lemma quoted_good:
  "quoted q s = (t, r) \<Longrightarrow> q \<noteq> CHR '' '' \<Longrightarrow> r \<noteq> [] \<Longrightarrow> quoted q (t @ '' '') = (t, '' '')"
proof (induction q s arbitrary: t r rule: quoted.induct)
  case (3 q c d cs)
  consider (esc) "c = q" "d = q" | (close) "c = q" "d \<noteq> q" | (inside) "c \<noteq> q" by blast
  then show ?case
  proof cases
    case esc
    with "3.prems" obtain t' where t': "quoted q cs = (t', r)" "t = q # q # t'"
      by (auto split: prod.splits)
    with "3.IH"(1) [OF esc t'(1)] "3.prems" show ?thesis by simp
  next
    case close
    with "3.prems" show ?thesis by auto
  next
    case inside
    with "3.prems" obtain t' where t': "quoted q (d # cs) = (t', r)" "t = c # t'"
      by (auto split: prod.splits)
    from "3.IH"(2) [OF inside t'(1)] "3.prems" have "quoted q (t' @ '' '') = (t', '' '')" by simp
    with inside t' show ?thesis by (cases t') auto
  qed
qed auto

lemma tokenize_space: "tokenize (CHR '' '' # s) = tokenize s"
  by (simp add: tokenize.simps(2) is_ws_def byte_def)

lemma tokenize_bracket: "bracket t \<Longrightarrow> tokenize (t @ s) = run_map (Cons t) (tokenize s)"
  using not_ws_comment
  by (elim bracket_def [THEN iffD1, elim_format] disjE)
    (simp_all add: tokenize.simps(2) is_quote_def is_ws_def byte_def)

lemma delimited_word_end: "delimited (c # r) \<Longrightarrow> word_end c \<and> ascii c \<and> \<not> is_quote c"
  by (auto simp: delimited_def word_end_def is_quote_def is_ws_def ascii_def byte_def)

lemma tokenize_plain:
  assumes "plain_token t" "delimited s"
  shows "tokenize (t @ s) = run_map (Cons t) (tokenize s)"
proof -
  from assms(1) obtain c cs where t: "t = c # cs" and c: "ascii c" "\<not> word_end c"
    and cs: "list_all (\<lambda>d. \<not> word_end d) cs"
    by (cases t) (auto simp: plain_token_def list_all_iff)
  have "takeWhile (\<lambda>d. \<not> word_end d) (cs @ s) = cs" "dropWhile (\<lambda>d. \<not> word_end d) (cs @ s) = s"
    using cs assms(2) delimited_word_end
    by (cases s; auto simp: list_all_iff takeWhile_append dropWhile_append)+
  moreover have "boundary s" using assms(2) delimited_word_end by (cases s) auto
  ultimately show ?thesis using t c by (simp add: tokenize.simps(2) word_end_def)
qed

lemma tokenize_closed:
  assumes "closed_quote t" "delimited s"
  shows "tokenize (t @ s) = run_map (Cons t) (tokenize s)"
proof -
  from assms(1) obtain q u where t: "t = q # u" and q: "is_quote q" and u: "list_all ascii u"
    "quoted q (u @ '' '') = (u, '' '')"
    by (cases t) (auto simp: closed_quote_def)
  have "\<not> starts_with_char q s" using q assms(2) delimited_word_end by (cases s) auto
  from quoted_terminated [OF u(2) is_quote_not_space [OF q] this]
  have "quoted q (u @ s) = (u, s)" .
  moreover have "ascii q" using q by (auto simp: is_quote_def)
  ultimately show ?thesis using t q u(1) utf8_ascii [of "q # u"] quote_not_ws [OF q]
    by (simp add: tokenize.simps(2))
qed

lemma tokenize_good:
  "good_token t \<Longrightarrow> bracket t \<or> delimited s \<Longrightarrow> tokenize (t @ s) = run_map (Cons t) (tokenize s)"
  by (auto simp: good_token_def tokenize_bracket tokenize_plain tokenize_closed)

text \<open>On ASCII text no slice panics, and every token but the last is good.\<close>

lemma tokenize_ascii:
  "list_all ascii s \<Longrightarrow> \<exists>ts. tokenize s = Ret ts \<and> list_all good_token (butlast ts)"
proof (induction s rule: tokenize.induct)
  case (2 c cs)
  then have a: "ascii c" "list_all ascii cs" by auto
  have good: "list_all good_token (butlast (t # ts))"
    if "ts \<noteq> [] \<longrightarrow> good_token t" "list_all good_token (butlast ts)" for t ts
    using that by auto
  consider (ws) "is_ws c" | (quote) "\<not> is_ws c" "is_quote c"
    | (br) "\<not> is_ws c" "\<not> is_quote c" "c = CHR ''('' \<or> c = CHR '')'' \<or> c = CHR '',''"
    | (word) "\<not> is_ws c" "\<not> is_quote c" "\<not> (c = CHR ''('' \<or> c = CHR '')'' \<or> c = CHR '','')"
    by blast
  then show ?case
  proof cases
    case ws
    with 2(1) a show ?thesis by (simp add: tokenize.simps(2))
  next
    case quote
    obtain t r where q: "quoted c cs = (t, r)" by fastforce
    from quoted_append [OF q] a have tr: "list_all ascii t" "list_all ascii r" by auto
    from "2.IH"(2) [OF quote q [symmetric] refl tr(2)] obtain ts
      where ts: "tokenize r = Ret ts" "list_all good_token (butlast ts)" by blast
    have "ts \<noteq> [] \<longrightarrow> r \<noteq> []" using ts(1) by auto
    then have "ts \<noteq> [] \<longrightarrow> good_token (c # t)"
      using quoted_good [OF q is_quote_not_space [OF quote(2)]] quote(2) tr(1)
      by (auto simp: good_token_def closed_quote_def)
    with good [OF this ts(2)] quote q ts(1) a tr utf8_ascii [of "c # t"] show ?thesis
      by (simp add: tokenize.simps(2))
  next
    case br
    with "2.IH"(3) [OF br(1,2) br(3) a(2)] obtain ts
      where ts: "tokenize cs = Ret ts" "list_all good_token (butlast ts)" by blast
    from br have "good_token [c]" by (auto simp: good_token_def bracket_def)
    with good [of ts "[c]"] ts br show ?thesis by (auto simp: tokenize.simps(2))
  next
    case word
    let ?w = "takeWhile (\<lambda>d. \<not> word_end d) cs" and ?r = "dropWhile (\<lambda>d. \<not> word_end d) cs"
    have r: "list_all ascii ?r" using a by (auto simp: list_all_iff dest: set_dropWhileD)
    have "list_all ascii u \<Longrightarrow> boundary u" for u by (cases u) auto
    then have b: "boundary (c # cs)" "boundary ?r" using a r by simp_all
    from "2.IH"(4) [OF word refl refl _ r] b obtain ts
      where ts: "tokenize ?r = Ret ts" "list_all good_token (butlast ts)" by blast
    have "good_token (c # ?w)"
      using word a by (auto simp: good_token_def plain_token_def word_end_def list_all_iff
          dest: set_takeWhileD)
    with good [of ts "c # ?w"] ts word b show ?thesis by (simp add: tokenize.simps(2))
  qed
qed simp

section \<open>Reading back an option block\<close>

lemma bracket_simps [simp]: "bracket ''(''" "bracket '')''" "bracket '',''"
  by (simp_all add: bracket_def)

lemma bracket_good [simp]: "bracket t \<Longrightarrow> good_token t"
  by (simp add: good_token_def)

lemma rebuild_rest_delimited: "p \<noteq> ''('' \<Longrightarrow> delimited (rebuild_rest p ts)"
  by (cases ts) (auto simp: delimited_def)

lemma tokenize_rebuild_rest: "list_all good_token ts \<Longrightarrow> tokenize (rebuild_rest p ts) = Ret ts"
proof (induction ts arbitrary: p)
  case (Cons t ts)
  have "bracket t \<or> delimited (rebuild_rest t ts)"
    using rebuild_rest_delimited [of t ts] by (auto simp: bracket_def)
  with Cons have "tokenize (t @ rebuild_rest t ts) = Ret (t # ts)"
    using tokenize_good [of t "rebuild_rest t ts"] by simp
  then show ?case by (simp add: tokenize_space)
qed simp

lemma tokenize_rebuild: "list_all good_token ts \<Longrightarrow> tokenize (rebuild_options ts) = Ret ts"
  using tokenize_rebuild_rest [of ts "''(''"]
proof (cases ts)
  case (Cons t us)
  assume "list_all good_token ts"
  with Cons have "bracket t \<or> delimited (rebuild_rest t us)"
    using rebuild_rest_delimited [of t us] by (auto simp: bracket_def)
  with Cons \<open>list_all good_token ts\<close> tokenize_good [of t] tokenize_rebuild_rest [of us t] show ?thesis
    by (simp add: rebuild_options_def)
qed (simp add: rebuild_options_def)

lemma split_entries_ne [simp]: "split_entries ts \<noteq> []"
  by (induction ts) (auto split: list.splits)

lemma split_entries_tokens:
  "e \<in> set (split_entries ts) \<Longrightarrow> set e \<subseteq> set ts \<and> '','' \<notin> set e"
proof (induction ts arbitrary: e)
  case (Cons t ts)
  from Cons.IH have IH: "\<And>x. x \<in> set (split_entries ts) \<Longrightarrow> set x \<subseteq> set ts \<and> '','' \<notin> set x"
    by blast
  show ?case
  proof (cases "split_entries ts")
    case (Cons a es)
    have "set a \<subseteq> set ts \<and> '','' \<notin> set a" using IH Cons by simp
    moreover have "x \<in> set es \<Longrightarrow> set x \<subseteq> set ts \<and> '','' \<notin> set x" for x using IH Cons by simp
    ultimately show ?thesis using Cons.prems Cons by (auto split: if_splits)
  qed simp
qed simp

lemma split_entries_append:
  "'','' \<notin> set e \<Longrightarrow> split_entries (e @ '','' # ts) = e # split_entries ts"
  by (induction e) auto

lemma split_entries_single: "'','' \<notin> set e \<Longrightarrow> split_entries e = [e]"
  by (induction e) auto

lemma split_join_entries:
  "es \<noteq> [] \<Longrightarrow> \<forall>e\<in>set es. '','' \<notin> set e \<Longrightarrow> split_entries (join_entries es) = es"
  by (induction es rule: join_entries.induct) (auto simp: split_entries_append split_entries_single)

lemma set_join_entries: "set (join_entries es) \<subseteq> insert '','' (\<Union>e\<in>set es. set e)"
  by (induction es rule: join_entries.induct) auto

lemma read_only_plain: "plain_token ''READ_ONLY''"
  by (simp add: plain_token_def word_end_def is_quote_def is_ws_def ascii_def byte_def)

lemma read_only_entries_split:
  "split_entries (join_entries (read_only_entries inner)) = read_only_entries inner"
  by (rule split_join_entries) (auto simp: read_only_entries_def dest: split_entries_tokens)

lemma read_only_entries_flag:
  "filter is_read_only_entry (read_only_entries inner) = [[''READ_ONLY'']]"
  by (auto simp: read_only_entries_def is_read_only_entry_def filter_empty_conv)

lemma read_only_entries_good:
  "list_all good_token inner \<Longrightarrow> list_all good_token (join_entries (read_only_entries inner))"
  using set_join_entries [of "read_only_entries inner"] read_only_plain
  by (fastforce simp: list_all_iff read_only_entries_def good_token_def dest: split_entries_tokens)

text \<open>The tokens of the enforced block, for any ASCII option text.\<close>

lemma trim_codes_suffix: "suffix (trim_codes ws s) s"
proof (induction ws s rule: trim_codes.induct)
  case (1 ws s)
  have "strip_any ws s = Some t \<Longrightarrow> suffix t s" for t
    by (induction ws) (auto split: if_splits simp: suffix_drop)
  with 1 show ?case
    by (subst trim_codes.simps) (auto split: option.splits intro: suffix_order.trans)
qed

lemma trim_ascii: "list_all ascii s \<Longrightarrow> list_all ascii (trim s)"
proof -
  have *: "list_all ascii (trim_codes ws u)" if "list_all ascii u" for ws u
    using that trim_codes_suffix [of ws u] by (metis list_all_append suffix_def)
  show "list_all ascii s \<Longrightarrow> list_all ascii (trim s)"
    unfolding trim_def trim_end_def trim_start_def by (simp add: *)
qed

definition flagged_block :: "string \<Rightarrow> bool" where
  "flagged_block options =
     (case tokenize options of Panic \<Rightarrow> False
      | Ret ts \<Rightarrow> 2 \<le> length ts \<and> hd ts = ''('' \<and> last ts = '')''
          \<and> filter is_read_only_entry (split_entries (butlast (tl ts))) = [[''READ_ONLY'']])"

lemma flagged_blockI:
  "tokenize options = Ret (''('' # join_entries (read_only_entries inner) @ ['')'']) \<Longrightarrow>
    flagged_block options"
  by (simp add: flagged_block_def read_only_entries_split read_only_entries_flag butlast_append)

lemma enforce_read_only_tokens:
  assumes "list_all ascii options"
  shows "\<exists>inner. list_all good_token inner \<and>
    enforce_read_only options = Ret (rebuild_options (''('' # join_entries (read_only_entries inner) @ ['')'']))"
proof (cases "trim options = []")
  case True
  have "''(READ_ONLY)'' = rebuild_options (''('' # join_entries (read_only_entries []) @ ['')''])"
    by (simp add: read_only_entries_def rebuild_options_def)
  with True show ?thesis by (intro exI [of _ "[]"]) (simp add: enforce_read_only_def)
next
  case False
  from tokenize_ascii [OF trim_ascii [OF assms]] obtain ts
    where ts: "tokenize (trim options) = Ret ts" "list_all good_token (butlast ts)" by blast
  have "list_all good_token (if 2 \<le> length ts then butlast (tl ts) else [])"
    using ts(2) by (auto simp: list_all_iff) (metis butlast_tl in_set_butlastD list.set_sel(2) tl_Nil butlast.simps(1))
  with False ts(1) show ?thesis by (auto simp: enforce_read_only_def Let_def)
qed

lemma enforce_read_only_flagged:
  assumes "list_all ascii options" "enforce_read_only options = Ret out"
  shows "flagged_block out"
proof -
  from enforce_read_only_tokens [OF assms(1)] assms(2) obtain inner
    where "list_all good_token inner"
      and "out = rebuild_options (''('' # join_entries (read_only_entries inner) @ ['')''])" by auto
  then show ?thesis
    using tokenize_rebuild [of "''('' # join_entries (read_only_entries inner) @ ['')'']"]
      read_only_entries_good [of inner] by (intro flagged_blockI) simp
qed

section \<open>ASCII configurations\<close>

lemma ref_split_ascii:
  "list_all ascii cur \<Longrightarrow> list_all ascii s \<Longrightarrow> x \<in> set (ref_split m cur s) \<Longrightarrow> list_all ascii x"
proof (induction s arbitrary: m cur)
  case (Cons c s)
  from Cons.IH [of "[]" Code] Cons.IH [of "cur @ [c]" "lex_step m c"] Cons.prems
  show ?case by (auto split: if_splits)
qed (auto split: if_splits)

lemma split_statements_ascii:
  "list_all ascii s \<Longrightarrow> x \<in> set (split_top_level_statements s) \<Longrightarrow> list_all ascii x"
  using ref_split_ascii [of "[]" s] by (auto simp: split_top_level_statements_def split_go_ref utf8_ascii)

lemma tokenize_chars:
  "list_all ascii s \<Longrightarrow> tokenize s = Ret ts \<Longrightarrow> list_all (list_all ascii) ts"
proof (induction s arbitrary: ts rule: tokenize.induct)
  case (2 c cs)
  then have a: "ascii c" "list_all ascii cs" by auto
  obtain t r where q: "quoted c cs = (t, r)" by fastforce
  from quoted_append [OF q] a have tr: "list_all ascii t" "list_all ascii r" by auto
  let ?w = "takeWhile (\<lambda>d. \<not> word_end d) cs" and ?r = "dropWhile (\<lambda>d. \<not> word_end d) cs"
  have w: "list_all ascii ?w" "list_all ascii ?r"
    using a by (auto simp: list_all_iff dest: set_takeWhileD set_dropWhileD)
  show ?case
    using "2.prems"(2) "2.IH"(1) "2.IH"(2) [OF _ _ q [symmetric] refl tr(2)] "2.IH"(3)
      "2.IH"(4) [OF _ _ _ refl refl _ w(2)] a tr w q utf8_ascii [of "c # t"]
    by (auto simp: tokenize.simps(2) run_map_def run_simps Let_def split: if_splits)
qed simp

lemma rebuild_rest_ascii: "list_all (list_all ascii) ts \<Longrightarrow> list_all ascii (rebuild_rest p ts)"
  by (induction ts arbitrary: p) (auto simp: ascii_def byte_def)

lemma rebuild_options_ascii: "list_all (list_all ascii) ts \<Longrightarrow> list_all ascii (rebuild_options ts)"
  by (cases ts) (auto simp: rebuild_options_def rebuild_rest_ascii)

lemma set_skip_words: "set (skip_words ws ts) \<subseteq> set ts"
  by (auto simp: skip_words_def dest: in_set_dropD)

lemma set_skip_alias: "set (skip_alias ts) \<subseteq> set ts"
  by (cases ts) (auto simp: skip_alias_def split: list.splits)

lemma parse_attach_tokens_options:
  assumes "parse_attach_tokens ts = Some p"
  shows "pa_options p = [] \<or> (\<exists>us. set us \<subseteq> set ts \<and> pa_options p = rebuild_options us)"
proof -
  from assms obtain kw ts1 path ts2 where ts: "ts = kw # ts1"
    and sk: "skip_words [''IF'', ''NOT'', ''EXISTS''] (skip_words [''DATABASE'']
                    (skip_words [''OR'', ''REPLACE''] ts1)) = path # ts2"
    and p: "pa_options p = [] \<or> pa_options p = rebuild_options (skip_alias ts2)"
    by (auto simp: parse_attach_tokens_def split: list.splits if_splits)
  have "set (path # ts2) \<subseteq> set ts1" unfolding sk [symmetric] by (meson set_skip_words subset_trans)
  then have "set (skip_alias ts2) \<subseteq> set ts" using set_skip_alias [of ts2] ts by auto
  with p show ?thesis by blast
qed

lemma parse_attach_ascii:
  assumes "list_all ascii s" "parse_attach s = Ret (Some p)"
  shows "list_all ascii (pa_options p)"
proof -
  from assms obtain ts where ts: "tokenize s = Ret ts" "parse_attach_tokens ts = Some p"
    by (auto simp: parse_attach_def run_map_def run_simps)
  from tokenize_chars [OF assms(1) ts(1)] parse_attach_tokens_options [OF ts(2)] show ?thesis
    unfolding list_all_iff [of "list_all ascii"]
    by (metis list.pred_inject(1) list_all_iff rebuild_options_ascii subsetD)
qed

section \<open>Reading back a normalized ATTACH\<close>

lemma words_plain: "plain_token ''ATTACH''" "plain_token ''OR''" "plain_token ''REPLACE''" "plain_token ''AS''"
  by (simp_all add: plain_token_def word_end_def is_quote_def is_ws_def ascii_def byte_def)

lemma tokenize_word_space:
  "plain_token t \<Longrightarrow> tokenize (t @ CHR '' '' # s) = run_map (Cons t) (tokenize s)"
  by (simp add: tokenize_plain delimited_def tokenize_space)

lemma tokenize_identifier:
  "delimited s \<Longrightarrow> tokenize (quote_identifier v @ s)
    = run_map (Cons (utf8 (quote_identifier v))) (tokenize s)"
proof -
  assume "delimited s"
  then have "\<not> starts_with_char (CHR 0x22) s" using delimited_word_end [of "CHR 0x22"] by (cases s) auto
  from quoted_escaped [OF this] show ?thesis
    by (simp add: quote_identifier_def tokenize.simps(2) quote_not_ws)
qed

lemma quote_not_upper: "is_quote q \<Longrightarrow> is_upper u \<Longrightarrow> to_lower q \<noteq> to_lower u"
  unfolding byte_eq_iff [symmetric] byte_to_lower by (auto simp: is_quote_def is_upper_def byte_def)

lemma closed_quote_no_word:
  "closed_quote path \<Longrightarrow> w \<noteq> [] \<Longrightarrow> is_upper (hd w) \<Longrightarrow> \<not> eq_ignore_ascii_case path w"
  by (cases path; cases w)
    (simp_all add: closed_quote_def eq_ignore_ascii_case_def to_ascii_lowercase_def quote_not_upper)

lemma parse_attach_text:
  assumes path: "closed_quote path" and ts: "list_all good_token (''('' # ts)"
  shows "parse_attach (attach_text path name (rebuild_options (''('' # ts)))
    = Ret (Some \<lparr>pa_path = path, pa_options = rebuild_options (''('' # ts)\<rparr>)"
proof -
  let ?o = "rebuild_options (''('' # ts)"
  have o: "?o \<noteq> []" "delimited (CHR '' '' # ?o)" by (simp_all add: rebuild_options_def delimited_def)
  have word: "\<not> eq_ignore_ascii_case path w" if "w \<in> {''OR'', ''DATABASE'', ''IF''}" for w
    using closed_quote_no_word [OF path, of w] that by (auto simp: is_upper_def byte_def)
  have np: "path \<noteq> ''(''" using path by (auto simp: closed_quote_def is_quote_def)
  have id: "utf8 (quote_identifier name) \<noteq> ''(''"
    by (simp add: quote_identifier_def ascii_def byte_def)
  have "attach_text path name ?o
      = ''ATTACH'' @ CHR '' '' # ''OR'' @ CHR '' '' # ''REPLACE'' @ CHR '' '' # path @ CHR '' '' # ''AS'' @
        CHR '' '' # quote_identifier name @ CHR '' '' # ?o"
    using o(1) by (simp add: attach_text_def)
  then have "tokenize (attach_text path name ?o)
      = Ret ([''ATTACH'', ''OR'', ''REPLACE'', path, ''AS'', utf8 (quote_identifier name)] @ ''('' # ts)"
    using tokenize_identifier [OF o(2)] tokenize_closed [OF path, of "CHR '' '' # u" for u]
      tokenize_rebuild [OF ts]
    by (simp only: tokenize_word_space words_plain tokenize_space delimited_def list.case simp_thms) simp
  then show ?thesis
    using word np id
    by (simp add: parse_attach_def parse_attach_tokens_def skip_words_def skip_alias_def)
qed

lemma normalize_parts:
  assumes "normalize_attach cfg name ro = Ret (Inr out)"
  obtains only parsed where
    "filter (\<lambda>s. trim s \<noteq> []) (split_top_level_statements cfg) = [only]"
    "leading_keyword (trim only) = Ret (Some ''ATTACH'')"
    "parse_attach (trim only) = Ret (Some parsed)"
    "if ro then (\<exists>opts. enforce_read_only (pa_options parsed) = Ret opts
          \<and> out = attach_text (pa_path parsed) name opts)
     else out = attach_text (pa_path parsed) name (trim (pa_options parsed))"
  using assms
  by (auto simp: normalize_attach_def Let_def run_simps split: list.splits option.splits if_splits)

text \<open>
  C5: a non-writer's attachment is read-only. Whatever the (ASCII) configuration says, the
  statement that \<open>normalize_attach\<close> builds with \<open>read_only\<close> set parses, with the code's own
  parser, to the configuration's path and an option block whose only \<open>READ_ONLY\<close> entry is the bare
  flag: entries that set it to false are gone, and no other option or alias can hide it. The path
  is a terminated string literal, as every path with a scheme or a space is.
\<close>

theorem normalize_attach_read_only:
  assumes "list_all ascii cfg" "normalize_attach cfg name True = Ret (Inr out)"
  shows "\<exists>only parsed attached.
    filter (\<lambda>s. trim s \<noteq> []) (split_top_level_statements cfg) = [only]
    \<and> parse_attach (trim only) = Ret (Some parsed)
    \<and> (closed_quote (pa_path parsed) \<longrightarrow>
         parse_attach out = Ret (Some attached) \<and> pa_path attached = pa_path parsed
         \<and> flagged_block (pa_options attached))"
proof -
  obtain only parsed opts
    where only: "filter (\<lambda>s. trim s \<noteq> []) (split_top_level_statements cfg) = [only]"
      and parsed: "parse_attach (trim only) = Ret (Some parsed)"
      and opts: "enforce_read_only (pa_options parsed) = Ret opts"
      and out: "out = attach_text (pa_path parsed) name opts"
    by (rule normalize_parts [OF assms(2)]) auto
  have "only \<in> set (split_top_level_statements cfg)" using only by (metis filter_eq_ConsD in_set_conv_decomp)
  from trim_ascii [OF split_statements_ascii [OF assms(1) this]]
  have a: "list_all ascii (pa_options parsed)" using parse_attach_ascii parsed by blast
  from enforce_read_only_tokens [OF a] opts obtain inner
    where inner: "list_all good_token inner"
      and o: "opts = rebuild_options (''('' # join_entries (read_only_entries inner) @ ['')''])" by auto
  have "list_all good_token (''('' # join_entries (read_only_entries inner) @ ['')''])"
    using read_only_entries_good [OF inner] by simp
  from parse_attach_text [OF _ this] have "closed_quote (pa_path parsed) \<Longrightarrow>
      parse_attach out = Ret (Some \<lparr>pa_path = pa_path parsed, pa_options = opts\<rparr>)"
    unfolding out o by blast
  with enforce_read_only_flagged [OF a opts] show ?thesis
    using only parsed
    by (intro exI [of _ only] exI [of _ parsed] exI [of _ "\<lparr>pa_path = pa_path parsed, pa_options = opts\<rparr>"]) simp
qed

lemma normalize_attach_read_only_witness:
  "\<exists>only parsed attached.
    filter (\<lambda>s. trim s \<noteq> [])
      (split_top_level_statements (''attach '' @ sql_literal ''p'' @ '' AS x (read_only false, B 1);'')) = [only]
    \<and> parse_attach (trim only) = Ret (Some parsed)
    \<and> (closed_quote (pa_path parsed) \<longrightarrow>
         parse_attach (''ATTACH OR REPLACE '' @ sql_literal ''p'' @ '' AS '' @ quote_identifier ''db''
            @ '' (B 1, READ_ONLY)'') = Ret (Some attached)
         \<and> pa_path attached = pa_path parsed \<and> flagged_block (pa_options attached))"
  by (rule normalize_attach_read_only [of _ "''db''"]) code_simp+

end
