(* ===== verification/Ids.thy ===== *)
theory Ids
  imports Prelude
begin

text \<open>
  \<^verbatim>\<open>session/id.rs\<close>: prepared-statement handles and transaction ids, their wire form and their
  generators. The \<open>define_id_type!\<close> macro is instantiated twice in the source and modelled for each
  of the two types. A \<open>codec\<close> is what the handlers rely on when an id travels to a client and back.
\<close>

unbundle bit_operations_syntax

type_synonym u8 = "8 word"
type_synonym u64 = "64 word"

section \<open>Big-endian bytes\<close>

text \<open>\<open>u64::to_be_bytes\<close> and \<open>u64::from_be_bytes\<close>.\<close>

definition to_be_bytes :: "u64 \<Rightarrow> u8 list" where
  "to_be_bytes w = rev (map (\<lambda>i. ucast (drop_bit (8 * i) w)) [0..<8])"

definition from_be_bytes :: "u8 list \<Rightarrow> u64" where
  "from_be_bytes bs = word_rcat bs"

lemma length_to_be_bytes [simp]: "length (to_be_bytes w) = 8"
  by (simp add: to_be_bytes_def)

lemma bit_from_be_bytes:
  "length bs = 8 \<Longrightarrow> n < 64 \<Longrightarrow> bit (from_be_bytes bs) n \<longleftrightarrow> bit (rev bs ! (n div 8)) (n mod 8)"
  using bit_horner_sum_uint_exp_iff [where 'a = 8, of "rev bs" n]
  by (simp add: from_be_bytes_def word_rcat_def bit_word_of_int_iff less_mult_imp_div_less)

lemma from_to_be_bytes [simp]: "from_be_bytes (to_be_bytes w) = w"
proof (rule bit_word_eqI)
  fix n assume "n < LENGTH(64)"
  then show "bit (from_be_bytes (to_be_bytes w)) n = bit w n"
    by (subst bit_from_be_bytes) (auto simp: to_be_bytes_def bit_simps)
qed

lemma to_from_be_bytes: "length bs = 8 \<Longrightarrow> to_be_bytes (from_be_bytes bs) = bs"
proof (rule nth_equalityI)
  assume l: "length bs = 8"
  fix i assume "i < length (to_be_bytes (from_be_bytes bs))"
  then have i: "i < 8" by simp
  show "to_be_bytes (from_be_bytes bs) ! i = bs ! i"
  proof (rule bit_word_eqI)
    fix n assume n: "n < LENGTH(8)"
    then have "8 * (7 - i) + n < 64" "(8 * (7 - i) + n) div 8 = 7 - i" "(8 * (7 - i) + n) mod 8 = n"
      using i by auto
    with l i n bit_from_be_bytes [OF l, of "8 * (7 - i) + n"]
    show "bit (to_be_bytes (from_be_bytes bs) ! i) n = bit (bs ! i) n"
      by (auto simp: to_be_bytes_def bit_simps rev_nth)
  qed
qed simp

section \<open>Handles\<close>

datatype statement_handle = StatementHandle u64

datatype transaction_id = TransactionId u64

definition handle_to_bytes :: "statement_handle \<Rightarrow> u8 list" where
  "handle_to_bytes h = (case h of StatementHandle w \<Rightarrow> to_be_bytes w)"

definition handle_from_bytes :: "u8 list \<Rightarrow> statement_handle option" where
  "handle_from_bytes bs = (if length bs = 8 then Some (StatementHandle (from_be_bytes bs)) else None)"

definition tx_to_bytes :: "transaction_id \<Rightarrow> u8 list" where
  "tx_to_bytes t = (case t of TransactionId w \<Rightarrow> to_be_bytes w)"

definition tx_from_bytes :: "u8 list \<Rightarrow> transaction_id option" where
  "tx_from_bytes bs = (if length bs = 8 then Some (TransactionId (from_be_bytes bs)) else None)"

section \<open>The codec interface\<close>

text \<open>
  What a handler that sends an id and later parses a client's bytes needs: every id comes back, and
  only the bytes of an id parse to it.
\<close>

locale codec =
  fixes enc :: "'a \<Rightarrow> u8 list" and dec :: "u8 list \<Rightarrow> 'a option"
  assumes dec_enc: "dec (enc x) = Some x"
    and enc_dec: "dec bs = Some x \<Longrightarrow> enc x = bs"
begin

lemma enc_inj: "enc x = enc y \<longleftrightarrow> x = y"
  by (metis dec_enc option.inject)

lemma dec_iff: "dec bs = Some x \<longleftrightarrow> enc x = bs"
  using dec_enc enc_dec by blast

lemma dec_inj: "dec bs = Some x \<Longrightarrow> dec cs = Some x \<Longrightarrow> bs = cs"
  using enc_dec by metis

end

interpretation handle_codec: codec handle_to_bytes handle_from_bytes
  by unfold_locales
    (auto simp: handle_to_bytes_def handle_from_bytes_def to_from_be_bytes
      split: statement_handle.splits if_splits)

interpretation tx_codec: codec tx_to_bytes tx_from_bytes
  by unfold_locales
    (auto simp: tx_to_bytes_def tx_from_bytes_def to_from_be_bytes
      split: transaction_id.splits if_splits)

section \<open>Generators\<close>

text \<open>\<open>AtomicU64::fetch_add(1)\<close> wraps; both generators start at 1.\<close>

definition generator_start :: u64 where
  "generator_start = 1"

definition next_handle :: "u64 \<Rightarrow> statement_handle \<times> u64" where
  "next_handle g = (StatementHandle g, g + 1)"

definition next_transaction :: "u64 \<Rightarrow> transaction_id \<times> u64" where
  "next_transaction g = (TransactionId g, g + 1)"

text \<open>Ids are ordered as they are given out.\<close>

instantiation statement_handle :: linorder
begin

definition less_eq_statement_handle :: "statement_handle \<Rightarrow> statement_handle \<Rightarrow> bool" where
  "less_eq_statement_handle h k = (case (h, k) of (StatementHandle a, StatementHandle b) \<Rightarrow> a \<le> b)"

definition less_statement_handle :: "statement_handle \<Rightarrow> statement_handle \<Rightarrow> bool" where
  "less_statement_handle h k = (case (h, k) of (StatementHandle a, StatementHandle b) \<Rightarrow> a < b)"

instance
  by standard (auto simp: less_eq_statement_handle_def less_statement_handle_def split: statement_handle.splits)

end

instantiation transaction_id :: linorder
begin

definition less_eq_transaction_id :: "transaction_id \<Rightarrow> transaction_id \<Rightarrow> bool" where
  "less_eq_transaction_id t u = (case (t, u) of (TransactionId a, TransactionId b) \<Rightarrow> a \<le> b)"

definition less_transaction_id :: "transaction_id \<Rightarrow> transaction_id \<Rightarrow> bool" where
  "less_transaction_id t u = (case (t, u) of (TransactionId a, TransactionId b) \<Rightarrow> a < b)"

instance
  by standard (auto simp: less_eq_transaction_id_def less_transaction_id_def split: transaction_id.splits)

end

text \<open>
  Every id given out so far is below the generator, until it wraps. \<open>below\<close> is what a table keyed by
  ids keeps of its generator.
\<close>

lemma unat_next:
  fixes g :: u64
  shows "g \<noteq> - 1 \<Longrightarrow> unat (g + 1) = Suc (unat g)"
proof -
  assume "g \<noteq> - 1"
  then have "1 + g \<noteq> 0" by (simp add: add_eq_0_iff)
  then show ?thesis using unatSuc [of g] by (simp add: add.commute)
qed

lemma below_next:
  fixes g :: u64
  shows "g \<noteq> - 1 \<Longrightarrow> x \<le> g \<Longrightarrow> x < g + 1"
  by (simp add: word_less_nat_alt word_le_nat_alt unat_next)

text \<open>The ids of \<open>n\<close> calls of a generator, which ascend strictly while it does not wrap.\<close>

fun handles_from :: "u64 \<Rightarrow> nat \<Rightarrow> statement_handle list" where
  "handles_from g 0 = []"
| "handles_from g (Suc n) = (case next_handle g of (h, g') \<Rightarrow> h # handles_from g' n)"

lemma not_last: "unat (g :: u64) + Suc n < 2 ^ 64 \<Longrightarrow> g \<noteq> - 1"
  by (auto simp: unsigned_minus_1_eq_mask mask_eq_exp_minus_1)

lemma handles_from_above:
  "unat g + n < 2 ^ 64 \<Longrightarrow> h \<in> set (handles_from g n) \<Longrightarrow> StatementHandle g \<le> h"
proof (induction n arbitrary: g)
  case (Suc n)
  then have g: "g \<noteq> - 1" by (simp add: not_last)
  show ?case
  proof (cases "h = StatementHandle g")
    case False
    with Suc.prems have "h \<in> set (handles_from (g + 1) n)" by (simp add: next_handle_def)
    with Suc.IH [of "g + 1"] Suc.prems(1) g have "StatementHandle (g + 1) \<le> h" by (simp add: unat_next)
    moreover have "StatementHandle g \<le> StatementHandle (g + 1)"
      using below_next [OF g, of g] by (simp add: less_eq_statement_handle_def)
    ultimately show ?thesis by (rule order_trans [rotated])
  qed simp
qed simp

lemma handles_ascend: "unat g + n < 2 ^ 64 \<Longrightarrow> sorted_wrt (<) (handles_from g n)"
proof (induction n arbitrary: g)
  case (Suc n)
  then have g: "g \<noteq> - 1" by (simp add: not_last)
  have l: "StatementHandle g < StatementHandle (g + 1)"
    using below_next [OF g, of g] by (simp add: less_statement_handle_def)
  have "StatementHandle g < h" if "h \<in> set (handles_from (g + 1) n)" for h
    using handles_from_above [OF _ that] Suc.prems g by (intro less_le_trans [OF l]) (simp add: unat_next)
  with Suc.IH [of "g + 1"] Suc.prems g show ?case by (simp add: next_handle_def unat_next)
qed simp

section \<open>Properties\<close>

text \<open>
  Ids survive the wire. For prepared-statement handles and transaction ids alike, parsing what
  \<open>to_bytes\<close> writes gives the id back, a byte string parses exactly when it has eight bytes, and it
  parses to an id only if it is that id's encoding, so two ids never share an encoding.
\<close>

theorem id_roundtrip:
  "(handle_from_bytes bs = Some h \<longleftrightarrow> handle_to_bytes h = bs)
    \<and> (tx_from_bytes bs = Some t \<longleftrightarrow> tx_to_bytes t = bs)
    \<and> (handle_from_bytes bs = None \<longleftrightarrow> length bs \<noteq> 8)
    \<and> (tx_from_bytes bs = None \<longleftrightarrow> length bs \<noteq> 8)"
  by (simp add: handle_codec.dec_iff tx_codec.dec_iff) (simp add: handle_from_bytes_def tx_from_bytes_def)

end
