(* ===== verification/Schema_Cache.thy ===== *)
theory Schema_Cache
  imports Prelude
begin

text \<open>
  \<open>SchemaCache\<close> of \<^verbatim>\<open>session/mod.rs\<close>: at most 128 schemas by normalized SQL text, the least recently
  used evicted first. The \<open>HashMap\<close> is a map, the \<open>VecDeque\<close> of keys a list, oldest first.
\<close>

definition schema_cache_capacity :: nat where
  "schema_cache_capacity = 128"

record 's schema_cache =
  entries :: "string \<rightharpoonup> 's"
  order :: "string list"

definition cache_new :: "'s schema_cache" where
  "cache_new = \<lparr>entries = Map.empty, order = []\<rparr>"

definition touch_key :: "string \<Rightarrow> 's schema_cache \<Rightarrow> 's schema_cache" where
  "touch_key key c = c\<lparr>order := filter (\<lambda>k. k \<noteq> key) (order c) @ [key]\<rparr>"

definition cache_get :: "string \<Rightarrow> 's schema_cache \<Rightarrow> 's option \<times> 's schema_cache" where
  "cache_get key c = (case entries c key of None \<Rightarrow> (None, c) | Some schema \<Rightarrow> (Some schema, touch_key key c))"

text \<open>The eviction loop: \<open>len\<close> is the number of entries of the map.\<close>

fun evict_order :: "string list \<Rightarrow> (string \<rightharpoonup> 's) \<Rightarrow> 's schema_cache" where
  "evict_order ks m =
     (if schema_cache_capacity < card (dom m) then
        (case ks of [] \<Rightarrow> \<lparr>entries = m, order = []\<rparr> | k # rest \<Rightarrow> evict_order rest (m(k := None)))
      else \<lparr>entries = m, order = ks\<rparr>)"

declare evict_order.simps [simp del]

definition evict_if_needed :: "'s schema_cache \<Rightarrow> 's schema_cache" where
  "evict_if_needed c = evict_order (order c) (entries c)"

definition cache_insert :: "string \<Rightarrow> 's \<Rightarrow> 's schema_cache \<Rightarrow> 's schema_cache" where
  "cache_insert key schema c = evict_if_needed (touch_key key (c\<lparr>entries := (entries c)(key \<mapsto> schema)\<rparr>))"

definition cache_clear :: "'s schema_cache \<Rightarrow> 's schema_cache" where
  "cache_clear c = c\<lparr>entries := Map.empty, order := []\<rparr>"

section \<open>The invariant\<close>

definition cache_inv :: "'s schema_cache \<Rightarrow> bool" where
  "cache_inv c \<longleftrightarrow> distinct (order c) \<and> set (order c) = dom (entries c)
     \<and> length (order c) \<le> schema_cache_capacity"

lemma card_order: "distinct (order c) \<Longrightarrow> set (order c) = dom (entries c) \<Longrightarrow>
    card (dom (entries c)) = length (order c)"
  by (metis distinct_card)

lemma cache_inv_new [simp]: "cache_inv cache_new"
  by (simp add: cache_inv_def cache_new_def)

lemma cache_inv_clear [simp]: "cache_inv (cache_clear c)"
  by (simp add: cache_inv_def cache_clear_def)

lemma length_filter_distinct:
  "distinct xs \<Longrightarrow> x \<in> set xs \<Longrightarrow> Suc (length (filter (\<lambda>k. k \<noteq> x) xs)) = length xs"
  using length_remove1 [of x xs] length_pos_if_in_set [of x xs]
  by (simp add: distinct_remove1_removeAll removeAll_filter_not_eq neq_commute)

lemma cache_inv_get: "cache_inv c \<Longrightarrow> cache_inv (snd (cache_get key c))"
  using length_filter_distinct [of "order c" key]
  by (cases "entries c key") (auto simp: cache_inv_def cache_get_def touch_key_def domI)

text \<open>One eviction at most: an insertion into a full cache drops the head of the order.\<close>

lemma cache_insert_eq:
  assumes "cache_inv c"
  shows "cache_insert key schema c =
    (let ks = filter (\<lambda>k. k \<noteq> key) (order c) @ [key]; m = (entries c)(key \<mapsto> schema) in
     if length ks \<le> schema_cache_capacity then \<lparr>entries = m, order = ks\<rparr>
     else \<lparr>entries = m(hd ks := None), order = tl ks\<rparr>)"
proof -
  let ?ks = "filter (\<lambda>k. k \<noteq> key) (order c) @ [key]" and ?m = "(entries c)(key \<mapsto> schema)"
  have d: "distinct ?ks" "set ?ks = dom ?m" using assms by (auto simp: cache_inv_def)
  then have n: "card (dom ?m) = length ?ks" by (metis distinct_card)
  obtain k rest where ks: "?ks = k # rest" by (cases ?ks) auto
  have "dom (?m(k := None)) = set rest" using d ks by auto
  then have m: "card (dom (?m(k := None))) = length rest" using d ks by (metis distinct.simps(2) distinct_card)
  have l: "length ?ks \<le> Suc schema_cache_capacity"
    using assms le_trans [OF length_filter_le [of "\<lambda>k. k \<noteq> key" "order c"]] by (auto simp: cache_inv_def)
  have "cache_insert key schema c = evict_order ?ks ?m"
    by (simp add: cache_insert_def evict_if_needed_def touch_key_def)
  also have "\<dots> = (if length ?ks \<le> schema_cache_capacity then \<lparr>entries = ?m, order = ?ks\<rparr>
      else \<lparr>entries = ?m(hd ?ks := None), order = tl ?ks\<rparr>)"
    using n m l unfolding ks by (subst evict_order.simps) (auto simp: evict_order.simps [of rest])
  finally show ?thesis by (simp add: Let_def)
qed

lemma cache_inv_insert: "cache_inv c \<Longrightarrow> cache_inv (cache_insert key schema c)"
proof -
  assume inv: "cache_inv c"
  let ?ks = "filter (\<lambda>k. k \<noteq> key) (order c) @ [key]" and ?m = "(entries c)(key \<mapsto> schema)"
  have d: "distinct ?ks" "set ?ks = dom ?m" "length ?ks \<le> Suc schema_cache_capacity"
    using inv le_trans [OF length_filter_le [of "\<lambda>k. k \<noteq> key" "order c"]] by (auto simp: cache_inv_def)
  obtain k rest where ks: "?ks = k # rest" by (cases ?ks) auto
  with d have "dom (?m(k := None)) = set rest" by auto
  with d ks inv show ?thesis by (simp add: cache_insert_eq cache_inv_def Let_def)
qed

lemma cache_insert_lookup:
  assumes "cache_inv c"
  shows "entries (cache_insert key schema c) key = Some schema"
proof -
  have "schema_cache_capacity < Suc (length (filter (\<lambda>k. k \<noteq> key) (order c))) \<Longrightarrow>
      hd (filter (\<lambda>k. k \<noteq> key) (order c) @ [key]) \<noteq> key"
    by (cases "filter (\<lambda>k. k \<noteq> key) (order c)") (auto simp: schema_cache_capacity_def dest!: filter_eq_ConsD)
  then show ?thesis using assms by (auto simp: cache_insert_eq Let_def not_le)
qed

lemma cache_insert_other:
  assumes "cache_inv c" "k \<noteq> key"
  shows "entries (cache_insert key schema c) k \<in> {None, entries c k}"
  using assms by (auto simp: cache_insert_eq Let_def)

section \<open>The cache interface\<close>

text \<open>
  What a client of a cache may rely on: a lookup reports an entry or nothing, an insertion is found
  again and never invents another entry, a cleared cache is empty, and every operation keeps the
  invariant. Whatever was inserted for a key last is all that a lookup can return.
\<close>

locale cache =
  fixes get :: "'k \<Rightarrow> 'c \<Rightarrow> 'v option \<times> 'c"
    and insert :: "'k \<Rightarrow> 'v \<Rightarrow> 'c \<Rightarrow> 'c"
    and clear :: "'c \<Rightarrow> 'c"
    and inv :: "'c \<Rightarrow> bool"
    and view :: "'c \<Rightarrow> 'k \<rightharpoonup> 'v"
  assumes get_view: "inv c \<Longrightarrow> fst (get k c) = view c k"
    and get_state: "inv c \<Longrightarrow> view (snd (get k c)) = view c \<and> inv (snd (get k c))"
    and insert_same: "inv c \<Longrightarrow> view (insert k v c) k = Some v \<and> inv (insert k v c)"
    and insert_other: "inv c \<Longrightarrow> k' \<noteq> k \<Longrightarrow> view (insert k v c) k' \<in> {None, view c k'}"
    and clear_view: "view (clear c) = Map.empty \<and> inv (clear c)"
begin

definition holds :: "('k \<Rightarrow> 'v \<Rightarrow> bool) \<Rightarrow> 'c \<Rightarrow> bool" where
  "holds P c \<longleftrightarrow> inv c \<and> (\<forall>k v. view c k = Some v \<longrightarrow> P k v)"

lemma holds_inv: "holds P c \<Longrightarrow> inv c"
  by (simp add: holds_def)

lemma holds_get: "holds P c \<Longrightarrow> fst (get k c) = Some v \<Longrightarrow> P k v"
  using get_view by (auto simp: holds_def)

lemma holds_get_state: "holds P c \<Longrightarrow> holds P (snd (get k c))"
  using get_state by (auto simp: holds_def)

lemma holds_insert:
  assumes "holds P c" "P k v"
  shows "holds P (insert k v c)"
proof -
  have "P k' v'" if "view (insert k v c) k' = Some v'" for k' v'
  proof (cases "k' = k")
    case True
    with that insert_same [of c k v] assms show ?thesis by (simp add: holds_def)
  next
    case False
    with that insert_other [of c k' k v] assms(1) show ?thesis by (auto simp: holds_def)
  qed
  with insert_same [of c k v] assms(1) show ?thesis by (simp add: holds_def)
qed

lemma holds_clear: "holds P (clear c)"
  by (simp add: holds_def clear_view)

lemma holds_mono: "holds P c \<Longrightarrow> (\<And>k v. P k v \<Longrightarrow> Q k v) \<Longrightarrow> holds Q c"
  by (auto simp: holds_def)

end

interpretation schema_cache: cache cache_get cache_insert cache_clear cache_inv entries
proof unfold_locales
  fix c :: "'s schema_cache" and k
  show "entries (cache_clear c) = Map.empty \<and> cache_inv (cache_clear c)" by (simp add: cache_clear_def cache_inv_def)
  assume inv: "cache_inv c"
  show "fst (cache_get k c) = entries c k" by (simp add: cache_get_def split: option.splits)
  show "entries (snd (cache_get k c)) = entries c \<and> cache_inv (snd (cache_get k c))"
    using cache_inv_get [OF inv] by (simp add: cache_get_def touch_key_def split: option.splits)
  fix v k'
  show "entries (cache_insert k v c) k = Some v \<and> cache_inv (cache_insert k v c)"
    by (simp add: cache_insert_lookup cache_inv_insert inv)
  assume "k' \<noteq> k"
  then show "entries (cache_insert k v c) k' \<in> {None, entries c k'}" by (rule cache_insert_other [OF inv])
qed

section \<open>Properties\<close>

text \<open>Any sequence of cache operations.\<close>

datatype 's cache_op = CacheGet string | CacheInsert string 's | CacheClear

fun cache_step :: "'s schema_cache \<Rightarrow> 's cache_op \<Rightarrow> 's schema_cache" where
  "cache_step c (CacheGet k) = snd (cache_get k c)"
| "cache_step c (CacheInsert k s) = cache_insert k s c"
| "cache_step c CacheClear = cache_clear c"

lemma cache_inv_run: "cache_inv c \<Longrightarrow> cache_inv (foldl cache_step c ops)"
proof (induction ops arbitrary: c)
  case (Cons p ops)
  have "cache_inv (cache_step c p)"
    using Cons.prems by (cases p) (simp_all add: cache_inv_get cache_inv_insert)
  with Cons.IH show ?case by simp
qed simp

text \<open>
  The schema cache stays bounded and consistent. After any sequence of lookups, insertions and
  clears from the empty cache, the recency list has no duplicates, lists exactly the keys of the
  map, and has at most 128 of them.
\<close>

theorem cache_bounded:
  "let c = foldl cache_step cache_new ops in
    distinct (order c) \<and> set (order c) = dom (entries c) \<and> card (dom (entries c)) \<le> 128"
  using cache_inv_run [OF cache_inv_new, of ops] card_order [of "foldl cache_step cache_new ops"]
  by (simp add: cache_inv_def schema_cache_capacity_def Let_def)

text \<open>
  Eviction is least recently used. An insertion into a full cache of a key it does not hold
  drops exactly the key that has been neither looked up nor inserted for the longest time, and a hit
  moves its key to the recent end.
\<close>

theorem cache_evicts_oldest:
  assumes "cache_inv c" "order c = old # rest" "length (order c) = 128" "entries c key = None"
  shows "cache_insert key s c = \<lparr>entries = (entries c)(key \<mapsto> s, old := None), order = rest @ [key]\<rparr>
    \<and> order (snd (cache_get old c)) = rest @ [old]"
proof -
  have "key \<notin> set (order c)" "old \<notin> set rest" "entries c old \<noteq> None"
    using assms by (auto simp: cache_inv_def)
  then have "filter (\<lambda>k. k \<noteq> key) (order c) = order c" "filter (\<lambda>k. k \<noteq> old) rest = rest"
    by (auto simp: filter_id_conv)
  with assms \<open>entries c old \<noteq> None\<close> show ?thesis
    by (auto simp: cache_insert_eq Let_def schema_cache_capacity_def cache_get_def touch_key_def)
qed

lemma cache_evicts_oldest_witness:
  "\<exists>c old rest. cache_insert ''k'' (0 :: nat) c
     = \<lparr>entries = (entries c)(''k'' \<mapsto> 0, old := None), order = rest @ [''k'']\<rparr>
     \<and> order (snd (cache_get old c)) = rest @ [old]"
proof -
  define ks where "ks = map (\<lambda>n. replicate n (CHR ''a'')) [0..<128]"
  define c where "c = \<lparr>entries = (\<lambda>k. if k \<in> set ks then Some (0 :: nat) else None), order = ks\<rparr>"
  have d: "distinct ks" unfolding ks_def distinct_map inj_on_def
    by (metis distinct_upt length_replicate)
  have len: "length ks = 128" by (simp add: ks_def)
  have "CHR ''k'' \<notin> set x" if "x \<in> set ks" for x using that by (auto simp: ks_def)
  then have k: "''k'' \<notin> set ks" by force
  have "cache_inv c"
    using d len by (simp add: cache_inv_def c_def schema_cache_capacity_def dom_def)
  moreover have "order c = hd ks # tl ks" using len by (cases ks) (simp_all add: c_def)
  moreover have "length (order c) = 128" "entries c ''k'' = None" using len k by (simp_all add: c_def)
  ultimately show ?thesis using cache_evicts_oldest [of c "hd ks" "tl ks" "''k''" 0] by blast
qed

end
