(* ===== verification/Session.thy ===== *)
theory Session
  imports Sql_Admission Attach Ids Schema_Cache "HOL-Library.List_Lexorder" "HOL-Library.Char_ord"
begin

text \<open>
  A client session, \<^verbatim>\<open>session/mod.rs\<close>: the write-hardening lockdown, transaction recovery, the
  schema cache, prepared statements and transactions. The connection is an interface here: every
  call on it is appended to the session's log, and its answer is a function of the calls before it
  (the \<open>engine\<close>), so that a property of all engines is a property of all behaviours of the
  connection, and what reached it can be stated of the log. An operation runs atomically; the clock
  reading that \<open>touch\<close> takes is an argument.
\<close>

section \<open>The connection\<close>

datatype origin = User | Server

text \<open>
  Calls on the connection, and the creation of the scratch directory. \<open>CallStatement Server\<close> is the
  privileged path of the attach action.
\<close>

datatype ('v, 'b) call =
    CallBatch string
  | CallQuery string "'v list option"
  | CallStatement origin string
  | CallStatementTelemetry string "string option"
  | CallStatementParams string "'v list"
  | CallParameterCount string
  | CallSchema string
  | CallAppender string string "'b list"
  | CallTableSchema string
  | CallCurrentCatalog
  | CallAttached string
  | CallDataRoots string
  | CallCreateDir string

record ('v, 'b, 's, 'q) engine =
  e_batch :: "('v, 'b) call list \<Rightarrow> string \<Rightarrow> server_error + unit"
  e_query :: "('v, 'b) call list \<Rightarrow> string \<Rightarrow> 'v list option \<Rightarrow> server_error + 'q"
  e_statement :: "('v, 'b) call list \<Rightarrow> string \<Rightarrow> server_error + int"
  e_statement_params :: "('v, 'b) call list \<Rightarrow> string \<Rightarrow> 'v list \<Rightarrow> server_error + nat"
  e_parameter_count :: "('v, 'b) call list \<Rightarrow> string \<Rightarrow> server_error + nat"
  e_schema :: "('v, 'b) call list \<Rightarrow> string \<Rightarrow> server_error + 's"
  e_appender :: "('v, 'b) call list \<Rightarrow> string \<Rightarrow> string \<Rightarrow> 'b list \<Rightarrow> server_error + nat"
  e_table_schema :: "('v, 'b) call list \<Rightarrow> string \<Rightarrow> server_error + 's"
  e_current_catalog :: "('v, 'b) call list \<Rightarrow> server_error + string"
  e_attached :: "('v, 'b) call list \<Rightarrow> string \<Rightarrow> server_error + bool"
  e_data_roots :: "('v, 'b) call list \<Rightarrow> string \<Rightarrow> server_error + string list"
  e_create_dir :: "('v, 'b) call list \<Rightarrow> string \<Rightarrow> string + unit"

section \<open>State\<close>

record lockdown_template =
  scratch_directory :: string
  scratch_max_size :: string

record 's prepared_meta =
  pm_sql :: string
  pm_is_query :: bool
  pm_schema :: "'s option"
  pm_ephemeral :: bool

record ('v, 's) prepared_state =
  ps_meta :: "'s prepared_meta"
  ps_pending :: "'v list option"

record ('v, 'b, 's) session =
  s_auth :: "session_auth option"
  s_template :: "lockdown_template option"
  applied :: bool
  roots :: "string set"
  log :: "('v, 'b) call list"
  transactions :: "transaction_id set"
  aborted :: "transaction_id set"
  prepared :: "statement_handle \<rightharpoonup> ('v, 's) prepared_state"
  last_prepared :: "statement_handle option"
  tx_gen :: u64
  handle_gen :: u64
  last_activity :: nat
  cache :: "'s schema_cache"
  executions :: "string \<rightharpoonup> nat"

type_synonym ('v, 'b, 's, 'a) session_step = "(('v, 'b, 's) session, server_error, 'a) step"

definition new_session :: "session_auth option \<Rightarrow> lockdown_template option \<Rightarrow> nat \<Rightarrow> ('v, 'b, 's) session" where
  "new_session auth template now =
     \<lparr>s_auth = auth, s_template = template, applied = False, roots = {}, log = [], transactions = {},
      aborted = {}, prepared = Map.empty, last_prepared = None, tx_gen = generator_start,
      handle_gen = generator_start, last_activity = now, cache = cache_new, executions = Map.empty\<rparr>"

definition touch :: "nat \<Rightarrow> ('v, 'b, 's, unit) session_step" where
  "touch now = smodify (\<lambda>s. s\<lparr>last_activity := now\<rparr>)"

text \<open>A call on the connection.\<close>

definition ask :: "('v, 'b) call \<Rightarrow> (('v, 'b) call list \<Rightarrow> server_error + 'a) \<Rightarrow> ('v, 'b, 's, 'a) session_step" where
  "ask c answer s = Ret (answer (log s), s\<lparr>log := log s @ [c]\<rparr>)"

section \<open>Lockdown\<close>

definition profiling_settings :: string where \<open>
  profiling_settings = ''{"OPERATOR_CPU_TIME": "true", "CPU_TIME_ACTUAL": "true"}''\<close>

definition lockdown_sql :: "lockdown_template \<Rightarrow> bool \<Rightarrow> string set \<Rightarrow> string" where
  "lockdown_sql template wr rs = join ('';'' @ [newline])
     ([''SET enable_profiling = '' @ sql_literal ''no_output'',
       ''SET custom_profiling_settings = '' @ sql_literal profiling_settings,
       ''SET autoinstall_known_extensions = false'',
       ''SET autoload_known_extensions = false'',
       ''SET allow_community_extensions = false'']
      @ (if wr then []
         else [''SET temp_directory = '' @ sql_literal (scratch_directory template),
               ''SET max_temp_directory_size = '' @ sql_literal (scratch_max_size template),
               ''SET allowed_directories = ['' @ join '', '' (map sql_literal
                  (sorted_list_of_set rs @ [scratch_directory template])) @ '']'',
               ''SET enable_external_access = false''])
      @ [''SET lock_configuration = true''])"

definition ensure_lockdown :: "('v, 'b, 's, 'q) engine \<Rightarrow> ('v, 'b, 's, unit) session_step" where
  "ensure_lockdown eng s =
     (case (s_template s, s_auth s) of
        (Some template, Some auth) \<Rightarrow>
          if applied s then sret () s
          else sthen
            (ask (CallCreateDir (scratch_directory template))
              (\<lambda>l. case e_create_dir eng l (scratch_directory template) of
                 Inl e \<Rightarrow> Inl (InternalError (''failed to create session scratch directory: '' @ e))
               | Inr u \<Rightarrow> Inr u))
            (sthen
              (ask (CallBatch (lockdown_sql template (writer auth) (roots s)))
                (\<lambda>l. e_batch eng l (lockdown_sql template (writer auth) (roots s))))
              (smodify (\<lambda>t. t\<lparr>applied := True\<rparr>))) s
      | _ \<Rightarrow> sret () s)"

section \<open>Transaction recovery\<close>

fun is_transaction_abort_error :: "server_error \<Rightarrow> bool" where
  "is_transaction_abort_error (DuckDb msg) =
     (contains_str ''Current transaction is aborted'' msg \<or> contains_str ''TransactionContext Error'' msg)"
| "is_transaction_abort_error _ = False"

definition recover_from_transaction_abort ::
    "('v, 'b, 's, 'q) engine \<Rightarrow> server_error \<Rightarrow> ('v, 'b, 's) session \<Rightarrow> ('v, 'b, 's) session" where
  "recover_from_transaction_abort eng err s =
     (if \<not> is_transaction_abort_error err then s
      else (let s' = s\<lparr>log := log s @ [CallBatch ''ROLLBACK'']\<rparr> in
        case e_batch eng (log s) ''ROLLBACK'' of
          Inr _ \<Rightarrow> s'\<lparr>transactions := {}, aborted := aborted s \<union> transactions s\<rparr>
        | Inl _ \<Rightarrow> s'))"

definition with_transaction_recovery ::
    "('v, 'b, 's, 'q) engine \<Rightarrow> ('v, 'b, 's, 'a) session_step \<Rightarrow> bool \<Rightarrow> ('v, 'b, 's, 'a) session_step" where
  "with_transaction_recovery eng act retry_on_abort s =
     rbind (act s) (\<lambda>(r, s'). case r of Inr x \<Rightarrow> Ret (Inr x, s')
       | Inl err \<Rightarrow>
           if is_transaction_abort_error err then
             (let t = recover_from_transaction_abort eng err s' in
              if retry_on_abort then act t else Ret (Inl err, t))
           else Ret (Inl err, s'))"

definition transaction_absent :: "transaction_id \<Rightarrow> ('v, 'b, 's, unit) session_step" where
  "transaction_absent t s =
     (if t \<in> aborted s then sfail TransactionAborted (s\<lparr>aborted := aborted s - {t}\<rparr>) else sret () s)"

section \<open>Admission in front of the connection\<close>

definition admit :: "string \<Rightarrow> ('v, 'b, 's, unit) session_step" where
  "admit sql s = run_map (\<lambda>r. (r, s)) (validate_user_sql (s_auth s) sql)"

text \<open>\<open>validate_user_sql\<close>, \<open>ensure_lockdown\<close>, \<open>touch\<close>: the head of the execute operations.\<close>

definition enter :: "('v, 'b, 's, 'q) engine \<Rightarrow> nat \<Rightarrow> string \<Rightarrow> ('v, 'b, 's, unit) session_step" where
  "enter eng now sql = sthen (admit sql) (sthen (ensure_lockdown eng) (touch now))"

definition clear_schema_cache :: "('v, 'b, 's, unit) session_step" where
  "clear_schema_cache = smodify (\<lambda>s. s\<lparr>cache := cache_clear (cache s)\<rparr>)"

text \<open>
  \<open>to_uppercase\<close> is written on the ASCII letters. A keyword written with one of the few other
  letters whose upper case is ASCII (U+017F for S, say) is no keyword for the engine; the code
  would clear the cache once more.
\<close>

definition should_invalidate_schema_cache :: "string \<Rightarrow> bool" where
  "should_invalidate_schema_cache sql =
     list_ex (\<lambda>w. prefix w (to_uppercase (trim_start sql)))
       [''CREATE'', ''ALTER'', ''DROP'', ''TRUNCATE'', ''RENAME'', ''USE'', ''ATTACH'', ''DETACH'']"

text \<open>What follows a statement that succeeded.\<close>

definition invalidating :: "string \<Rightarrow> ('v, 'b, 's, 'a) session_step \<Rightarrow> ('v, 'b, 's, 'a) session_step" where
  "invalidating sql m = sbind m (\<lambda>x. if should_invalidate_schema_cache sql
     then sthen clear_schema_cache (sret x) else sret x)"

section \<open>Executing\<close>

definition execute_query :: "('v, 'b, 's, 'q) engine \<Rightarrow> nat \<Rightarrow> string \<Rightarrow> ('v, 'b, 's, 'q) session_step" where
  "execute_query eng now sql = sthen (enter eng now sql)
     (with_transaction_recovery eng (ask (CallQuery sql None) (\<lambda>l. e_query eng l sql None)) True)"

definition execute_query_with_params ::
    "('v, 'b, 's, 'q) engine \<Rightarrow> nat \<Rightarrow> string \<Rightarrow> 'v list \<Rightarrow> ('v, 'b, 's, 'q) session_step" where
  "execute_query_with_params eng now sql ps = sthen (enter eng now sql)
     (with_transaction_recovery eng (ask (CallQuery sql (Some ps)) (\<lambda>l. e_query eng l sql (Some ps))) True)"

definition parameter_count :: "('v, 'b, 's, 'q) engine \<Rightarrow> nat \<Rightarrow> string \<Rightarrow> ('v, 'b, 's, nat) session_step" where
  "parameter_count eng now sql = sthen (ensure_lockdown eng) (sthen (touch now)
     (with_transaction_recovery eng (ask (CallParameterCount sql) (\<lambda>l. e_parameter_count eng l sql)) True))"

definition execute_statement_inner ::
    "('v, 'b, 's, 'q) engine \<Rightarrow> nat \<Rightarrow> origin \<Rightarrow> string \<Rightarrow> ('v, 'b, 's, int) session_step" where
  "execute_statement_inner eng now o' sql = sthen (touch now) (invalidating sql
     (with_transaction_recovery eng (ask (CallStatement o' sql) (\<lambda>l. e_statement eng l sql)) True))"

definition execute_statement :: "('v, 'b, 's, 'q) engine \<Rightarrow> nat \<Rightarrow> string \<Rightarrow> ('v, 'b, 's, int) session_step" where
  "execute_statement eng now sql =
     sthen (admit sql) (sthen (ensure_lockdown eng) (execute_statement_inner eng now User sql))"

definition execute_statement_privileged ::
    "('v, 'b, 's, 'q) engine \<Rightarrow> nat \<Rightarrow> string \<Rightarrow> ('v, 'b, 's, int) session_step" where
  "execute_statement_privileged eng now sql = execute_statement_inner eng now Server sql"

definition execute_statement_with_telemetry ::
    "('v, 'b, 's, 'q) engine \<Rightarrow> nat \<Rightarrow> string \<Rightarrow> string option \<Rightarrow> ('v, 'b, 's, int) session_step" where
  "execute_statement_with_telemetry eng now sql execution = sthen (enter eng now sql) (invalidating sql
     (with_transaction_recovery eng
       (ask (CallStatementTelemetry sql execution) (\<lambda>l. e_statement eng l sql)) True))"

definition execute_statement_with_params ::
    "('v, 'b, 's, 'q) engine \<Rightarrow> nat \<Rightarrow> string \<Rightarrow> 'v list \<Rightarrow> ('v, 'b, 's, nat) session_step" where
  "execute_statement_with_params eng now sql ps = sthen (enter eng now sql) (invalidating sql
     (with_transaction_recovery eng
       (ask (CallStatementParams sql ps) (\<lambda>l. e_statement_params eng l sql ps)) True))"

definition insert_with_appender ::
    "('v, 'b, 's, 'q) engine \<Rightarrow> nat \<Rightarrow> string \<Rightarrow> string \<Rightarrow> 'b list \<Rightarrow> ('v, 'b, 's, nat) session_step" where
  "insert_with_appender eng now catalog table batches = sthen (ensure_lockdown eng) (sthen (touch now)
     (with_transaction_recovery eng
       (ask (CallAppender catalog table batches) (\<lambda>l. e_appender eng l catalog table batches)) False))"

definition table_schema :: "('v, 'b, 's, 'q) engine \<Rightarrow> string \<Rightarrow> ('v, 'b, 's, 's) session_step" where
  "table_schema eng table =
     with_transaction_recovery eng (ask (CallTableSchema table) (\<lambda>l. e_table_schema eng l table)) True"

definition current_catalog :: "('v, 'b, 's, 'q) engine \<Rightarrow> ('v, 'b, 's, string) session_step" where
  "current_catalog eng =
     with_transaction_recovery eng (ask CallCurrentCatalog (\<lambda>l. e_current_catalog eng l)) True"

section \<open>Query schemas\<close>

definition schema_cache_key :: "string \<Rightarrow> string" where
  "schema_cache_key sql = trim (rev (dropWhile (\<lambda>c. c = CHR '';'') (rev sql)))"

text \<open>\<open>cancelled\<close> is the state of the request's cancellation, when it has one.\<close>

definition check_cancelled :: "bool option \<Rightarrow> ('v, 'b, 's, unit) session_step" where
  "check_cancelled cancelled = (if cancelled = Some True then sfail Cancelled else sret ())"

definition cache_lookup :: "string \<Rightarrow> ('v, 'b, 's, 's option) session_step" where
  "cache_lookup key s =
     (if key = [] then sret None s
      else (case cache_get key (cache s) of (hit, c) \<Rightarrow> Ret (Inr hit, s\<lparr>cache := c\<rparr>)))"

definition cache_store :: "string \<Rightarrow> 's \<Rightarrow> ('v, 'b, 's, unit) session_step" where
  "cache_store key schema =
     (if key = [] then sret () else smodify (\<lambda>s. s\<lparr>cache := cache_insert key schema (cache s)\<rparr>))"

definition schema_for_query_cancellable ::
    "('v, 'b, 's, 'q) engine \<Rightarrow> nat \<Rightarrow> string \<Rightarrow> bool option \<Rightarrow> ('v, 'b, 's, 's) session_step" where
  "schema_for_query_cancellable eng now sql cancelled =
     sthen (check_cancelled cancelled) (sthen (enter eng now sql)
       (sbind (cache_lookup (schema_cache_key sql)) (\<lambda>hit.
         case hit of Some schema \<Rightarrow> sret schema
         | None \<Rightarrow> sbind
             (with_transaction_recovery eng (ask (CallSchema sql) (\<lambda>l. e_schema eng l sql)) True)
             (\<lambda>schema. sthen (cache_store (schema_cache_key sql) schema) (sret schema)))))"

definition schema_for_query :: "('v, 'b, 's, 'q) engine \<Rightarrow> nat \<Rightarrow> string \<Rightarrow> ('v, 'b, 's, 's) session_step" where
  "schema_for_query eng now sql = schema_for_query_cancellable eng now sql None"

text \<open>\<open>parts[0]\<close> and \<open>parts[1]\<close> panic when they are not there.\<close>

definition resolve_catalog_and_table ::
    "('v, 'b, 's, 'q) engine \<Rightarrow> string list \<Rightarrow> string \<Rightarrow> ('v, 'b, 's, string \<times> string) session_step" where
  "resolve_catalog_and_table eng parts default_catalog s =
     (case parts of
        [table] \<Rightarrow> rbind (current_catalog eng s) (\<lambda>(r, s').
          Ret (Inr (case r of
             Inr c \<Rightarrow> if eq_ignore_ascii_case c ''memory'' then default_catalog else c
           | Inl _ \<Rightarrow> default_catalog, table), s'))
      | catalog # table # _ \<Rightarrow> Ret (Inr (catalog, table), s)
      | [] \<Rightarrow> Panic)"

section \<open>Attachments\<close>

definition confined :: "('v, 'b, 's) session \<Rightarrow> bool" where
  "confined s \<longleftrightarrow> s_template s \<noteq> None \<and> (case s_auth s of Some a \<Rightarrow> \<not> writer a | None \<Rightarrow> False)"

fun arm_secrets :: "('v, 'b, 's, 'q) engine \<Rightarrow> nat \<Rightarrow> string list \<Rightarrow> ('v, 'b, 's, unit) session_step" where
  "arm_secrets eng now [] s = sret () s"
| "arm_secrets eng now (sql # sqls) s =
     rbind (execute_statement_privileged eng now sql s) (\<lambda>(r, s').
       case r of Inl _ \<Rightarrow>
         sfail (InternalError (''failed to create the attachment'' @ [CHR 0x27] @ ''s session secret'')) s'
       | Inr _ \<Rightarrow> arm_secrets eng now sqls s')"

definition data_roots_sql :: "string \<Rightarrow> string" where
  "data_roots_sql catalog =
     ''SELECT DISTINCT value FROM ducklake_options('' @ sql_literal catalog
     @ '') WHERE option_name = '' @ sql_literal ''data_path'' @ '' AND value IS NOT NULL''"

definition add_roots :: "string set \<Rightarrow> ('v, 'b, 's, unit) session_step" where
  "add_roots rs = smodify (\<lambda>s. s\<lparr>roots := roots s \<union> rs\<rparr>)"

text \<open>The roots of a new attachment: the statement's own, then the lake's, whose error is dropped.\<close>

definition collect_roots :: "('v, 'b, 's, 'q) engine \<Rightarrow> string \<Rightarrow> string \<Rightarrow> ('v, 'b, 's, unit) session_step" where
  "collect_roots eng catalog sql s = rbind (attach_data_path sql) (\<lambda>root.
     sthen (add_roots (set_option root))
       (sbind (ask (CallDataRoots (data_roots_sql catalog))
           (\<lambda>l. Inr (e_data_roots eng l (data_roots_sql catalog))))
         (\<lambda>r. case r of Inr rs \<Rightarrow> add_roots (set rs) | Inl _ \<Rightarrow> sret ())) s)"

definition require_attached :: "('v, 'b, 's, 'q) engine \<Rightarrow> string \<Rightarrow> ('v, 'b, 's, unit) session_step" where
  "require_attached eng catalog = sbind (ask (CallAttached catalog) (\<lambda>l. e_attached eng l catalog))
     (\<lambda>attached. if attached then sret () else sfail AttachmentRequiresSessionRecreation)"

text \<open>\<open>conf\<close> and \<open>was_applied\<close> are read once, under the lockdown state's lock.\<close>

definition attach_steps ::
    "('v, 'b, 's, 'q) engine \<Rightarrow> nat \<Rightarrow> string \<Rightarrow> string list \<Rightarrow> string \<Rightarrow> string option \<Rightarrow> bool \<Rightarrow> bool \<Rightarrow>
     ('v, 'b, 's, unit) session_step" where
  "attach_steps eng now catalog secrets_sql sql search_path_sql conf was_applied =
     sthen (if conf \<and> was_applied then require_attached eng catalog else sret ())
       (sthen (arm_secrets eng now secrets_sql)
         (sthen (execute_statement_privileged eng now sql)
           (sthen (if conf \<and> \<not> was_applied then collect_roots eng catalog sql else sret ())
             (case search_path_sql of None \<Rightarrow> sret ()
              | Some p \<Rightarrow> sthen (execute_statement_privileged eng now p) (sret ())))))"

definition attach_catalog ::
    "('v, 'b, 's, 'q) engine \<Rightarrow> nat \<Rightarrow> string \<Rightarrow> string list \<Rightarrow> string \<Rightarrow> string option \<Rightarrow>
     ('v, 'b, 's, unit) session_step" where
  "attach_catalog eng now catalog secrets_sql sql search_path_sql s =
     attach_steps eng now catalog secrets_sql sql search_path_sql (confined s) (applied s) s"

section \<open>Prepared statements\<close>

definition create_prepared_statement ::
    "nat \<Rightarrow> string \<Rightarrow> bool \<Rightarrow> 's option \<Rightarrow> bool \<Rightarrow> ('v, 'b, 's, statement_handle) session_step" where
  "create_prepared_statement now sql is_query cached_schema ephemeral =
     sthen (admit sql) (sthen (touch now) (\<lambda>s.
       (case next_handle (handle_gen s) of (h, g) \<Rightarrow>
          Ret (Inr h, s\<lparr>handle_gen := g,
            prepared := (prepared s)(h \<mapsto> \<lparr>ps_meta = \<lparr>pm_sql = sql, pm_is_query = is_query,
              pm_schema = cached_schema, pm_ephemeral = ephemeral\<rparr>, ps_pending = None\<rparr>),
            last_prepared := Some h\<rparr>))))"

definition find_prepared :: "statement_handle \<Rightarrow> ('v, 'b, 's, ('v, 's) prepared_state) session_step" where
  "find_prepared h s = Ret (ok_or PreparedStatementNotFound (prepared s h), s)"

definition put_prepared :: "statement_handle \<Rightarrow> ('v, 's) prepared_state \<Rightarrow> ('v, 'b, 's, unit) session_step" where
  "put_prepared h p = smodify (\<lambda>s. s\<lparr>prepared := (prepared s)(h \<mapsto> p)\<rparr>)"

definition get_prepared_statement_meta :: "statement_handle \<Rightarrow> ('v, 'b, 's, 's prepared_meta) session_step" where
  "get_prepared_statement_meta h = sbind (find_prepared h) (\<lambda>p. sret (ps_meta p))"

definition cache_prepared_statement_schema :: "statement_handle \<Rightarrow> 's \<Rightarrow> ('v, 'b, 's, unit) session_step" where
  "cache_prepared_statement_schema h schema =
     sbind (find_prepared h) (\<lambda>p. put_prepared h (p\<lparr>ps_meta := (ps_meta p)\<lparr>pm_schema := Some schema\<rparr>\<rparr>))"

definition set_prepared_statement_parameters ::
    "statement_handle \<Rightarrow> 'v list \<Rightarrow> ('v, 'b, 's, unit) session_step" where
  "set_prepared_statement_parameters h ps =
     sbind (find_prepared h) (\<lambda>p. put_prepared h (p\<lparr>ps_pending := Some ps\<rparr>))"

definition take_prepared_statement_parameters ::
    "statement_handle \<Rightarrow> ('v, 'b, 's, 'v list option) session_step" where
  "take_prepared_statement_parameters h =
     sbind (find_prepared h) (\<lambda>p. sthen (put_prepared h (p\<lparr>ps_pending := None\<rparr>)) (sret (ps_pending p)))"

definition close_prepared_statement :: "statement_handle \<Rightarrow> ('v, 'b, 's, unit) session_step" where
  "close_prepared_statement h = sthen (find_prepared h)
     (smodify (\<lambda>s. s\<lparr>prepared := (prepared s)(h := None),
        last_prepared := (if last_prepared s = Some h then None else last_prepared s)\<rparr>))"

section \<open>Transactions\<close>

definition begin_transaction :: "('v, 'b, 's, 'q) engine \<Rightarrow> nat \<Rightarrow> ('v, 'b, 's, transaction_id) session_step" where
  "begin_transaction eng now = sthen (touch now) (sthen
     (with_transaction_recovery eng
       (ask (CallBatch ''BEGIN TRANSACTION'') (\<lambda>l. e_batch eng l ''BEGIN TRANSACTION'')) True)
     (\<lambda>s. (case next_transaction (tx_gen s) of (t, g) \<Rightarrow>
        Ret (Inr t, s\<lparr>tx_gen := g, transactions := insert t (transactions s)\<rparr>))))"

definition end_transaction ::
    "('v, 'b, 's, 'q) engine \<Rightarrow> nat \<Rightarrow> transaction_id \<Rightarrow> string \<Rightarrow> ('v, 'b, 's, unit) session_step" where
  "end_transaction eng now t sql = sthen (touch now) (\<lambda>s.
     if t \<notin> transactions s then transaction_absent t s
     else sthen
       (with_transaction_recovery eng (ask (CallBatch sql) (\<lambda>l. e_batch eng l sql)) True)
       (smodify (\<lambda>s. s\<lparr>transactions := transactions s - {t}, aborted := aborted s - {t}\<rparr>)) s)"

definition commit_transaction ::
    "('v, 'b, 's, 'q) engine \<Rightarrow> nat \<Rightarrow> transaction_id \<Rightarrow> ('v, 'b, 's, unit) session_step" where
  "commit_transaction eng now t = end_transaction eng now t ''COMMIT''"

definition rollback_transaction ::
    "('v, 'b, 's, 'q) engine \<Rightarrow> nat \<Rightarrow> transaction_id \<Rightarrow> ('v, 'b, 's, unit) session_step" where
  "rollback_transaction eng now t = end_transaction eng now t ''ROLLBACK''"

section \<open>Executions\<close>

text \<open>The weak references of \<open>executions\<close>: \<open>live\<close> are the requests that are still held elsewhere.\<close>

definition register_execution :: "nat set \<Rightarrow> string \<Rightarrow> nat \<Rightarrow> ('v, 'b, 's, unit) session_step" where
  "register_execution live ident request s =
     (let m = (\<lambda>k. case executions s k of Some r \<Rightarrow> if r \<in> live then Some r else None | None \<Rightarrow> None) in
      if m ident \<noteq> None
      then sfail (InternalError ''execution request ID is already active'') (s\<lparr>executions := m\<rparr>)
      else sret () (s\<lparr>executions := m(ident \<mapsto> request)\<rparr>))"

text \<open>The request to cancel, when it is registered and still held.\<close>

definition cancel_execution :: "nat set \<Rightarrow> string \<Rightarrow> ('v, 'b, 's) session \<Rightarrow> nat option" where
  "cancel_execution live ident s =
     (case executions s ident of Some r \<Rightarrow> if r \<in> live then Some r else None | None \<Rightarrow> None)"

end
