(* ===== verification/Session_Invariants.thy ===== *)
theory Session_Invariants
  imports Session
begin

text \<open>
  All operations of a session as one step function, and a locale that reduces \<open>every operation
  keeps an invariant\<close> to the state updates the operations are made of. It is interpreted for the
  lockdown, the transaction tables, the prepared statements and the schema cache.
\<close>

section \<open>Operations\<close>

datatype ('v, 'b, 's) session_op =
    OpQuery nat string
  | OpQueryParams nat string "'v list"
  | OpParameterCount nat string
  | OpStatement nat string
  | OpStatementTelemetry nat string "string option"
  | OpStatementParams nat string "'v list"
  | OpAppender nat string string "'b list"
  | OpTableSchema string
  | OpSchema nat string "bool option"
  | OpResolve "string list" string
  | OpAttach nat string "string list" string "string option"
  | OpInvalidate
  | OpCreate nat string bool "'s option" bool
  | OpCacheSchema statement_handle 's
  | OpSetParams statement_handle "'v list"
  | OpTakeParams statement_handle
  | OpClose statement_handle
  | OpBegin nat
  | OpCommit nat transaction_id
  | OpRollback nat transaction_id
  | OpRegister "nat set" string nat

definition state_after :: "(('v, 'b, 's) session, 'e, 'a) step \<Rightarrow> ('v, 'b, 's) session \<Rightarrow> ('v, 'b, 's) session run" where
  "state_after m s = run_map snd (m s)"

fun perform :: "('v, 'b, 's, 'q) engine \<Rightarrow> ('v, 'b, 's) session_op \<Rightarrow> ('v, 'b, 's) session \<Rightarrow> ('v, 'b, 's) session run" where
  "perform eng (OpQuery now sql) = state_after (execute_query eng now sql)"
| "perform eng (OpQueryParams now sql ps) = state_after (execute_query_with_params eng now sql ps)"
| "perform eng (OpParameterCount now sql) = state_after (parameter_count eng now sql)"
| "perform eng (OpStatement now sql) = state_after (execute_statement eng now sql)"
| "perform eng (OpStatementTelemetry now sql ex) = state_after (execute_statement_with_telemetry eng now sql ex)"
| "perform eng (OpStatementParams now sql ps) = state_after (execute_statement_with_params eng now sql ps)"
| "perform eng (OpAppender now c t bs) = state_after (insert_with_appender eng now c t bs)"
| "perform eng (OpTableSchema t) = state_after (table_schema eng t)"
| "perform eng (OpSchema now sql c) = state_after (schema_for_query_cancellable eng now sql c)"
| "perform eng (OpResolve ps d) = state_after (resolve_catalog_and_table eng ps d)"
| "perform eng (OpAttach now c ss sql p) = state_after (attach_catalog eng now c ss sql p)"
| "perform eng OpInvalidate = state_after (clear_schema_cache :: ('v, 'b, 's, unit) session_step)"
| "perform eng (OpCreate now sql q sc e) = state_after (create_prepared_statement now sql q sc e)"
| "perform eng (OpCacheSchema h sc) = state_after (cache_prepared_statement_schema h sc)"
| "perform eng (OpSetParams h ps) = state_after (set_prepared_statement_parameters h ps)"
| "perform eng (OpTakeParams h) = state_after (take_prepared_statement_parameters h)"
| "perform eng (OpClose h) = state_after (close_prepared_statement h)"
| "perform eng (OpBegin now) = state_after (begin_transaction eng now)"
| "perform eng (OpCommit now t) = state_after (commit_transaction eng now t)"
| "perform eng (OpRollback now t) = state_after (rollback_transaction eng now t)"
| "perform eng (OpRegister live i r) = state_after (register_execution live i r)"

text \<open>Calls that a user's SQL or data reaches the connection with.\<close>

fun user_call :: "('v, 'b) call \<Rightarrow> bool" where
  "user_call (CallQuery _ _) = True"
| "user_call (CallStatement o' _) = (o' = User)"
| "user_call (CallStatementTelemetry _ _) = True"
| "user_call (CallStatementParams _ _) = True"
| "user_call (CallParameterCount _) = True"
| "user_call (CallSchema _) = True"
| "user_call (CallAppender _ _ _) = True"
| "user_call _ = False"

definition hardened :: "('v, 'b, 's) session \<Rightarrow> bool" where
  "hardened s \<longleftrightarrow> s_template s \<noteq> None \<and> s_auth s \<noteq> None"

definition ready :: "('v, 'b, 's) session \<Rightarrow> bool" where
  "ready s \<longleftrightarrow> (hardened s \<longrightarrow> applied s)"

lemma state_after_triple:
  "triple P m (\<lambda>_. Q) Q \<Longrightarrow> P s \<Longrightarrow> state_after m s = Ret s' \<Longrightarrow> Q s'"
  by (cases "m s") (auto simp: state_after_def dest: triple_state)

lemma triple_ask [triple_intros]:
  "(\<And>s x. P s \<Longrightarrow> answer (log s) = Inr x \<Longrightarrow> Q x (s\<lparr>log := log s @ [c]\<rparr>)) \<Longrightarrow>
   (\<And>s e. P s \<Longrightarrow> answer (log s) = Inl e \<Longrightarrow> R (s\<lparr>log := log s @ [c]\<rparr>)) \<Longrightarrow>
    triple P (ask c answer) Q R"
  by (rule tripleI) (auto simp: ask_def)

lemma with_recovery_Ret_iff:
  "with_transaction_recovery eng act b s = Ret (r, s') \<longleftrightarrow>
     (\<exists>x. act s = Ret (Inr x, s') \<and> r = Inr x)
   \<or> (\<exists>e t. act s = Ret (Inl e, t) \<and>
        (if \<not> is_transaction_abort_error e then r = Inl e \<and> s' = t
         else if b then act (recover_from_transaction_abort eng e t) = Ret (r, s')
         else r = Inl e \<and> s' = recover_from_transaction_abort eng e t))"
proof (cases "act s")
  case (Ret p)
  then show ?thesis
    by (cases "fst p"; cases p) (auto simp: with_transaction_recovery_def Let_def)
qed (simp add: with_transaction_recovery_def)

lemma triple_recovery:
  assumes "triple P act Q P" "\<And>e s. P s \<Longrightarrow> P (recover_from_transaction_abort eng e s)"
  shows "triple P (with_transaction_recovery eng act b) Q P"
  using assms(2) unfolding with_recovery_Ret_iff triple_def
  by (auto split: sum.splits if_splits) (metis triple_error triple_value assms(1))+

lemma triple_admit [triple_intros]:
  "(\<And>s. P s \<Longrightarrow> Q () s \<and> R s) \<Longrightarrow> triple P (admit sql) Q R"
  by (rule tripleI) (auto simp: admit_def run_map_def run_simps)

lemma recover_simps [simp]:
  "applied (recover_from_transaction_abort eng e s) = applied s"
  "hardened (recover_from_transaction_abort eng e s) = hardened s"
  "ready (recover_from_transaction_abort eng e s) = ready s"
  "tx_gen (recover_from_transaction_abort eng e s) = tx_gen s"
  "handle_gen (recover_from_transaction_abort eng e s) = handle_gen s"
  by (simp_all add: recover_from_transaction_abort_def hardened_def ready_def Let_def split: sum.splits)

lemma triple_rbind [triple_intros]:
  "(\<And>x. triple P (f x) Q R) \<Longrightarrow> triple P (\<lambda>s. rbind c (\<lambda>x. f x s)) Q R"
  unfolding triple_def rbind_Ret_iff by blast

lemma triple_state_dependent: "(\<And>t. triple (\<lambda>s. P s \<and> s = t) (m t) Q R) \<Longrightarrow> triple P (\<lambda>s. m s s) Q R"
  unfolding triple_def by blast

lemma arm_secrets_triple:
  assumes p: "\<And>sql. triple P (execute_statement_privileged eng now sql) (\<lambda>_. P) P"
  shows "triple P (arm_secrets eng now ss) (\<lambda>_. P) P"
proof (induction ss)
  case (Cons sql ss)
  have "P s'" if s: "P s" and run: "arm_secrets eng now (sql # ss) s = Ret (r, s')" for s r s'
  proof -
    from run obtain r1 t where t: "execute_statement_privileged eng now sql s = Ret (r1, t)"
      and k: "(case r1 of Inl _ \<Rightarrow> s' = t | Inr _ \<Rightarrow> arm_secrets eng now ss t = Ret (r, s'))"
      by (cases "execute_statement_privileged eng now sql s")
        (auto simp: sfail_def split: sum.splits prod.splits)
    have "P t" by (rule triple_state [OF p s t])
    with k triple_state [OF Cons.IH] show ?thesis by (cases r1) auto
  qed
  then show ?case by (auto simp: triple_def simp del: arm_secrets.simps split: sum.splits)
qed (simp add: triple_def sret_def)

lemma privileged_keeps_applied:
  "triple (\<lambda>s. applied s = b) (execute_statement_privileged eng now sql)
     (\<lambda>_ s. applied s = b) (\<lambda>s. applied s = b)"
proof -
  let ?A = "\<lambda>s. applied s = b"
  have t: "triple ?A (touch now) (\<lambda>_. ?A) ?A" unfolding touch_def by (rule triple_modify) simp
  have c: "triple ?A clear_schema_cache (\<lambda>_. ?A) ?A"
    unfolding clear_schema_cache_def by (rule triple_modify) simp
  have r: "triple ?A (with_transaction_recovery eng (ask x f) d) (\<lambda>_. ?A) ?A" for x f d
    by (rule triple_recovery [OF triple_ask]) simp_all
  have "triple ?A (invalidating sql (with_transaction_recovery eng (ask x f) d)) (\<lambda>_. ?A) ?A" for x f d
    unfolding invalidating_def by (rule triple_bind [OF r triple_if [OF triple_then [OF c triple_ret] triple_ret]])
  with t show ?thesis
    unfolding execute_statement_privileged_def execute_statement_inner_def by (blast intro: triple_then)
qed

section \<open>The invariant interface\<close>

text \<open>
  An invariant \<open>I\<close> of sessions on the connection \<open>eng\<close>: it survives the updates that operations are
  made of. A user's call may rely on \<open>ready\<close>: where a session is hardened, the lockdown has run.
\<close>

locale session_invariant =
  fixes eng :: "('v, 'b, 's, 'q) engine" and I :: "('v, 'b, 's) session \<Rightarrow> bool"
  assumes a_log: "I s \<Longrightarrow> ready s \<or> \<not> user_call c \<Longrightarrow> I (s\<lparr>log := log s @ [c]\<rparr>)"
    and a_lock: "I s \<Longrightarrow> s_template s = Some t \<Longrightarrow> s_auth s = Some a \<Longrightarrow> \<not> applied s \<Longrightarrow>
      e_batch eng (log s) (lockdown_sql t (writer a) (roots s)) = Inr () \<Longrightarrow>
      I (s\<lparr>log := log s @ [CallBatch (lockdown_sql t (writer a) (roots s))], applied := True\<rparr>)"
    and a_touch: "I s \<Longrightarrow> I (s\<lparr>last_activity := n\<rparr>)"
    and a_rollback: "I s \<Longrightarrow> e_batch eng (log s) ''ROLLBACK'' = Inr () \<Longrightarrow>
      I (s\<lparr>log := log s @ [CallBatch ''ROLLBACK''], transactions := {}, aborted := aborted s \<union> transactions s\<rparr>)"
    and a_forget: "I s \<Longrightarrow> I (s\<lparr>aborted := aborted s - {t'}\<rparr>)"
    and a_end: "I s \<Longrightarrow> I (s\<lparr>transactions := transactions s - {t'}, aborted := aborted s - {t'}\<rparr>)"
    and a_begin: "I s \<Longrightarrow> tx_gen s \<noteq> - 1 \<Longrightarrow>
      I (s\<lparr>tx_gen := tx_gen s + 1, transactions := insert (TransactionId (tx_gen s)) (transactions s)\<rparr>)"
    and a_clear: "I s \<Longrightarrow> I (s\<lparr>cache := cache_clear (cache s)\<rparr>)"
    and a_get: "I s \<Longrightarrow> I (s\<lparr>cache := snd (cache_get k (cache s))\<rparr>)"
    and a_store: "I s \<Longrightarrow> log s = l1 @ CallSchema sql # l2 \<Longrightarrow> e_schema eng l1 sql = Inr sc \<Longrightarrow>
      I (s\<lparr>cache := cache_insert (schema_cache_key sql) sc (cache s)\<rparr>)"
    and a_create: "I s \<Longrightarrow> handle_gen s \<noteq> - 1 \<Longrightarrow>
      I (s\<lparr>handle_gen := handle_gen s + 1,
           prepared := (prepared s)(StatementHandle (handle_gen s) \<mapsto> p),
           last_prepared := Some (StatementHandle (handle_gen s))\<rparr>)"
    and a_put: "I s \<Longrightarrow> prepared s h \<noteq> None \<Longrightarrow> I (s\<lparr>prepared := (prepared s)(h \<mapsto> p)\<rparr>)"
    and a_close: "I s \<Longrightarrow> I (s\<lparr>prepared := (prepared s)(h := None),
        last_prepared := (if last_prepared s = Some h then None else last_prepared s)\<rparr>)"
    and a_roots: "I s \<Longrightarrow> \<not> applied s \<Longrightarrow> I (s\<lparr>roots := roots s \<union> rs\<rparr>)"
    and a_executions: "I s \<Longrightarrow> I (s\<lparr>executions := m\<rparr>)"
begin

lemma recover_I: "I s \<Longrightarrow> I (recover_from_transaction_abort eng e s)"
  using a_rollback [of s] a_log [of s "CallBatch ''ROLLBACK''"]
  by (auto simp: recover_from_transaction_abort_def Let_def split: sum.splits)

abbreviation armed :: "('v, 'b, 's) session \<Rightarrow> bool" where
  "armed s \<equiv> I s \<and> ready s"

lemma ready_updates [simp]:
  "ready (s\<lparr>log := l\<rparr>) = ready s" "ready (s\<lparr>last_activity := n\<rparr>) = ready s"
  "ready (s\<lparr>cache := c\<rparr>) = ready s"
  by (simp_all add: ready_def hardened_def)

lemma lockdown_I: "triple I (ensure_lockdown eng) (\<lambda>_. armed) I"
proof (rule tripleI)
  fix s e s' assume I: "I s" "ensure_lockdown eng s = Ret (Inl e, s')"
  have c: "I (s\<lparr>log := log s @ [CallCreateDir d]\<rparr>)" for d using a_log [OF I(1)] by simp
  have "I (s\<lparr>log := log s @ [CallCreateDir d, CallBatch b]\<rparr>)" for d b
    using a_log [OF c, where c = "CallBatch b"] by simp
  with I c show "I s'"
    by (auto simp: ensure_lockdown_def sthen_def run_simps ask_def sret_def smodify_def
        split: option.splits if_splits sum.splits)
next
  fix s x s' assume I: "I s" "ensure_lockdown eng s = Ret (Inr x, s')"
  show "armed s'"
  proof (cases "hardened s \<and> \<not> applied s")
    case False
    with I show ?thesis
      by (auto simp: ensure_lockdown_def ready_def hardened_def sret_def split: option.splits if_splits)
  next
    case True
    then obtain t a where ta: "s_template s = Some t" "s_auth s = Some a" by (auto simp: hardened_def)
    let ?s = "s\<lparr>log := log s @ [CallCreateDir (scratch_directory t)]\<rparr>"
    from I ta True have b: "e_batch eng (log ?s) (lockdown_sql t (writer a) (roots ?s)) = Inr ()"
      and s': "s' = ?s\<lparr>log := log ?s @ [CallBatch (lockdown_sql t (writer a) (roots ?s))], applied := True\<rparr>"
      by (auto simp: ensure_lockdown_def sthen_def run_simps ask_def smodify_def split: sum.splits)
    from a_lock [OF a_log [OF I(1)] _ _ _ b] ta True show ?thesis
      unfolding s' by (simp add: ready_def)
  qed
qed

lemma touch_I: "triple I (touch n) (\<lambda>_. I) I" and touch_armed: "triple armed (touch n) (\<lambda>_. armed) I"
  unfolding touch_def by (rule triple_modify; simp add: a_touch)+

lemma ask_armed: "triple armed (with_transaction_recovery eng (ask c f) b) (\<lambda>_. armed) armed"
  by (intro triple_recovery triple_intros) (auto simp: a_log recover_I)

lemma ask_server:
  "\<not> user_call c \<Longrightarrow> triple I (with_transaction_recovery eng (ask c f) b) (\<lambda>_. I) I"
  by (intro triple_recovery triple_intros) (auto simp: a_log recover_I)

lemma enter_I: "triple I (enter eng now sql) (\<lambda>_. armed) I"
  unfolding enter_def
  by (rule triple_then [OF triple_admit triple_then [OF lockdown_I touch_armed]]) simp

lemma clear_I: "triple I clear_schema_cache (\<lambda>_. I) I"
  by (simp add: clear_schema_cache_def triple_modify a_clear)

lemma invalidating_I: "triple P m (\<lambda>_. I) I \<Longrightarrow> triple P (invalidating sql m) (\<lambda>_. I) I"
  unfolding invalidating_def by (intro triple_intros) (auto simp: clear_I)

lemma ask_armed_I: "triple armed (with_transaction_recovery eng (ask c f) b) (\<lambda>_. I) I"
  by (rule triple_conseq [OF ask_armed]) auto

lemma user_ops:
  "triple I (execute_query eng now sql) (\<lambda>_. I) I"
  "triple I (execute_query_with_params eng now sql ps) (\<lambda>_. I) I"
  "triple I (parameter_count eng now sql) (\<lambda>_. I) I"
  "triple I (execute_statement_with_telemetry eng now sql ex) (\<lambda>_. I) I"
  "triple I (execute_statement_with_params eng now sql ps) (\<lambda>_. I) I"
  "triple I (insert_with_appender eng now cat tab bs) (\<lambda>_. I) I"
  unfolding execute_query_def execute_query_with_params_def parameter_count_def
    execute_statement_with_telemetry_def execute_statement_with_params_def insert_with_appender_def
  by (rule triple_then [OF enter_I] triple_then [OF lockdown_I] triple_then [OF touch_armed]
      invalidating_I ask_armed_I)+

lemma statement_I: "triple I (execute_statement eng now sql) (\<lambda>_. I) I"
  unfolding execute_statement_def execute_statement_inner_def
  by (rule triple_then [OF triple_admit triple_then [OF lockdown_I
          triple_then [OF touch_armed invalidating_I [OF ask_armed_I]]]]) simp

lemma privileged_I: "triple I (execute_statement_privileged eng now sql) (\<lambda>_. I) I"
  unfolding execute_statement_privileged_def execute_statement_inner_def
  by (rule triple_then [OF touch_I invalidating_I [OF ask_server]]) simp

lemma server_ops:
  "triple I (table_schema eng t) (\<lambda>_. I) I" "triple I (current_catalog eng) (\<lambda>_. I) I"
  unfolding table_schema_def current_catalog_def by (simp_all add: ask_server)

lemma lookup_armed: "triple armed (cache_lookup k) (\<lambda>_. armed) I"
proof (rule tripleI)
  fix s x s' assume s: "armed s" "cache_lookup k s = Ret (Inr x, s')"
  then show "armed s'"
    using a_get [of s k] by (cases "cache_get k (cache s)") (auto simp: cache_lookup_def sret_def split: if_splits)
qed (auto simp: cache_lookup_def sret_def split: if_splits prod.splits)

lemma schema_I: "triple I (schema_for_query_cancellable eng now sql c) (\<lambda>_. I) I"
proof -
  define asked :: "'s \<Rightarrow> ('v, 'b, 's) session \<Rightarrow> bool" where
    "asked sc s \<longleftrightarrow> (\<exists>l1 l2. log s = l1 @ CallSchema sql # l2 \<and> e_schema eng l1 sql = Inr sc)" for sc s
  have found: "asked x (s\<lparr>log := log s @ [CallSchema sql]\<rparr>)" if "e_schema eng (log s) sql = Inr x" for x s
    using that unfolding asked_def by (intro exI [of _ "log s"] exI [of _ "[]"]) simp
  have ask: "triple armed
      (with_transaction_recovery eng (ask (CallSchema sql) (\<lambda>l. e_schema eng l sql)) True)
      (\<lambda>sc s. I s \<and> asked sc s) I"
    by (rule triple_conseq [OF triple_recovery [where P = armed and Q = "\<lambda>sc s. I s \<and> asked sc s"]])
      (auto intro!: triple_ask a_log recover_I found)
  have store: "triple (\<lambda>s. I s \<and> asked sc s) (cache_store (schema_cache_key sql) sc) (\<lambda>_. I) I" for sc
    unfolding cache_store_def asked_def by (intro triple_intros) (auto intro: a_store)
  have check: "triple I (check_cancelled c) (\<lambda>_. I) I"
    by (simp add: check_cancelled_def triple_ret triple_fail)
  have hit: "triple armed (case hit of Some schema \<Rightarrow> sret schema
      | None \<Rightarrow> sbind (with_transaction_recovery eng (ask (CallSchema sql) (\<lambda>l. e_schema eng l sql)) True)
             (\<lambda>schema. sthen (cache_store (schema_cache_key sql) schema) (sret schema))) (\<lambda>_. I) I" for hit
    by (cases hit) (auto intro!: triple_ret triple_bind [OF ask] triple_then [OF store])
  show ?thesis
    unfolding schema_for_query_cancellable_def
    by (rule triple_then [OF check triple_then [OF enter_I triple_bind [OF lookup_armed hit]]])
qed

lemma resolve_I: "triple I (resolve_catalog_and_table eng ps d) (\<lambda>_. I) I"
proof (rule tripleI)
  fix s x s' assume I: "I s" "resolve_catalog_and_table eng ps d s = Ret (Inr x, s')"
  then show "I s'"
    using triple_state [OF server_ops(2) I(1)]
    by (auto simp: resolve_catalog_and_table_def run_simps split: list.splits)
next
  fix s e s' assume "resolve_catalog_and_table eng ps d s = Ret (Inl e, s')"
  then show "I s'" by (auto simp: resolve_catalog_and_table_def run_simps split: list.splits)
qed

lemma secrets_I: "triple I (arm_secrets eng now ss) (\<lambda>_. I) I"
  by (rule arm_secrets_triple [OF privileged_I])

lemma collect_I: "triple (\<lambda>s. I s \<and> \<not> applied s) (collect_roots eng c sql) (\<lambda>_. I) I"
proof -
  have add: "triple (\<lambda>s. I s \<and> \<not> applied s) (add_roots rs) (\<lambda>_ s. I s \<and> \<not> applied s) I" for rs
    unfolding add_roots_def by (rule triple_modify) (simp add: a_roots)
  have ask: "triple (\<lambda>s. I s \<and> \<not> applied s) (ask (CallDataRoots x) f) (\<lambda>_ s. I s \<and> \<not> applied s) I" for x f
    by (intro triple_intros) (auto intro: a_log)
  have tail: "triple (\<lambda>s. I s \<and> \<not> applied s)
      (case r of Inr rs \<Rightarrow> add_roots (set rs) | Inl _ \<Rightarrow> sret ()) (\<lambda>_. I) I"
    for r :: "server_error + string list"
    by (cases r) (auto intro: triple_ret triple_conseq [OF add])
  show ?thesis
    unfolding collect_roots_def by (rule triple_rbind, rule triple_then [OF add triple_bind [OF ask tail]])
qed

lemma privileged_applied:
  "triple (\<lambda>s. I s \<and> applied s = b) (execute_statement_privileged eng now sql)
     (\<lambda>_ s. I s \<and> applied s = b) (\<lambda>s. I s \<and> applied s = b)"
  by (rule triple_conj [OF privileged_I privileged_keeps_applied])

lemma secrets_applied:
  "triple (\<lambda>s. I s \<and> applied s = b) (arm_secrets eng now ss) (\<lambda>_ s. I s \<and> applied s = b)
     (\<lambda>s. I s \<and> applied s = b)"
  by (rule arm_secrets_triple [OF privileged_applied])

lemma attach_steps_I:
  "triple (\<lambda>s. I s \<and> applied s = b) (attach_steps eng now c ss sql p conf b) (\<lambda>_. I) I"
proof -
  let ?P = "\<lambda>s. I s \<and> applied s = b"
  have req: "triple ?P (require_attached eng c) (\<lambda>_. ?P) I"
    unfolding require_attached_def
    by (rule triple_bind [where Q = "\<lambda>_. ?P", OF triple_ask triple_if [OF triple_ret triple_fail]])
      (auto intro: a_log)
  have first: "triple ?P (if conf \<and> b then require_attached eng c else sret ()) (\<lambda>_. ?P) I"
    by (rule triple_if [OF req triple_ret]) auto
  have collect: "triple ?P (if conf \<and> \<not> b then collect_roots eng c sql else sret ()) (\<lambda>_. I) I"
    by (rule triple_if [OF triple_weaken [OF collect_I] triple_ret]) auto
  have path: "triple I (case p of None \<Rightarrow> sret ()
      | Some q \<Rightarrow> sthen (execute_statement_privileged eng now q) (sret ())) (\<lambda>_. I) I"
    by (cases p) (auto intro!: triple_ret triple_then [OF privileged_I])
  have weak: "triple ?P m (\<lambda>_. ?P) ?P \<Longrightarrow> triple ?P m (\<lambda>_. ?P) I"
    for m :: "('v, 'b, 's, 'a) session_step"
    by (erule triple_conseq) auto
  show ?thesis
    unfolding attach_steps_def
    by (rule triple_then [OF first triple_then [OF weak [OF secrets_applied]
          triple_then [OF weak [OF privileged_applied] triple_then [OF collect path]]]])
qed

lemma attach_I: "triple I (attach_catalog eng now c ss sql p) (\<lambda>_. I) I"
  using attach_steps_I [of "applied s" now c ss sql p "confined s" for s]
  unfolding triple_def attach_catalog_def by blast

lemma find_prepared_I: "triple I (find_prepared h) (\<lambda>_ s. I s \<and> prepared s h \<noteq> None) I"
  by (rule tripleI) (auto simp: find_prepared_def ok_or_def split: option.splits)

lemma put_prepared_I: "triple (\<lambda>s. I s \<and> prepared s h \<noteq> None) (put_prepared h p) (\<lambda>_. I) I"
  unfolding put_prepared_def by (rule triple_modify) (blast intro: a_put)

lemma prepared_ops:
  "triple I (cache_prepared_statement_schema h sc) (\<lambda>_. I) I"
  "triple I (set_prepared_statement_parameters h ps) (\<lambda>_. I) I"
  "triple I (take_prepared_statement_parameters h) (\<lambda>_. I) I"
  "triple I (get_prepared_statement_meta h) (\<lambda>_. I) I"
  unfolding cache_prepared_statement_schema_def set_prepared_statement_parameters_def
    take_prepared_statement_parameters_def get_prepared_statement_meta_def
  by (rule triple_bind [OF find_prepared_I] put_prepared_I triple_then [OF put_prepared_I] triple_ret
      | simp)+

lemma close_I: "triple I (close_prepared_statement h) (\<lambda>_. I) I"
proof -
  have "triple (\<lambda>s. I s \<and> prepared s h \<noteq> None)
      (smodify (\<lambda>s. s\<lparr>prepared := (prepared s)(h := None),
        last_prepared := (if last_prepared s = Some h then None else last_prepared s)\<rparr>)) (\<lambda>_. I) I"
    by (rule triple_modify) (blast intro: a_close)
  then show ?thesis
    unfolding close_prepared_statement_def by (rule triple_then [OF find_prepared_I])
qed

lemma create_I:
  "triple (\<lambda>s. I s \<and> handle_gen s \<noteq> - 1) (create_prepared_statement now sql q sc e) (\<lambda>_. I) I"
proof -
  have "triple (\<lambda>s. I s \<and> handle_gen s \<noteq> - 1)
     (\<lambda>s. case next_handle (handle_gen s) of (h, g) \<Rightarrow>
          Ret (Inr h, s\<lparr>handle_gen := g,
            prepared := (prepared s)(h \<mapsto> \<lparr>ps_meta = \<lparr>pm_sql = sql, pm_is_query = q,
              pm_schema = sc, pm_ephemeral = e\<rparr>, ps_pending = None\<rparr>),
            last_prepared := Some h\<rparr>)) (\<lambda>_. I) I"
    by (auto simp: triple_def next_handle_def intro: a_create)
  moreover have "triple (\<lambda>s. I s \<and> handle_gen s \<noteq> - 1) (touch now) (\<lambda>_ s. I s \<and> handle_gen s \<noteq> - 1) I"
    unfolding touch_def by (rule triple_modify) (simp add: a_touch)
  ultimately show ?thesis
    unfolding create_prepared_statement_def
    by (intro triple_then [OF triple_admit] triple_then [where n = "\<lambda>s. _ s"]) auto
qed

lemma begin_I: "triple (\<lambda>s. I s \<and> tx_gen s \<noteq> - 1) (begin_transaction eng now) (\<lambda>_. I) I"
proof -
  let ?P = "\<lambda>s. I s \<and> tx_gen s \<noteq> - 1"
  have "triple ?P (touch now) (\<lambda>_. ?P) I"
    unfolding touch_def by (rule triple_modify) (simp add: a_touch)
  moreover have "triple ?P (with_transaction_recovery eng (ask (CallBatch x) f) b) (\<lambda>_. ?P) I" for x f b
    by (rule triple_conseq [OF triple_recovery [where P = ?P, OF triple_ask]])
      (auto intro: a_log recover_I)
  moreover have "triple ?P (\<lambda>s. case next_transaction (tx_gen s) of (t, g) \<Rightarrow>
        Ret (Inr t, s\<lparr>tx_gen := g, transactions := insert t (transactions s)\<rparr>)) (\<lambda>_. I) I"
    by (auto simp: triple_def next_transaction_def intro: a_begin)
  ultimately show ?thesis
    unfolding begin_transaction_def by (blast intro: triple_then)
qed

lemma end_I: "triple I (end_transaction eng now t sql) (\<lambda>_. I) I"
proof -
  have absent: "triple I (transaction_absent t) (\<lambda>_. I) I"
    by (auto simp: triple_def transaction_absent_def sfail_def sret_def a_forget split: sum.splits if_splits)
  have forget: "triple I (smodify (\<lambda>s. s\<lparr>transactions := transactions s - {t}, aborted := aborted s - {t}\<rparr>))
      (\<lambda>_. I) I"
    by (rule triple_modify) (rule a_end)
  have fin: "triple I (sthen (with_transaction_recovery eng (ask (CallBatch sql) f) True)
      (smodify (\<lambda>s. s\<lparr>transactions := transactions s - {t}, aborted := aborted s - {t}\<rparr>))) (\<lambda>_. I) I" for f
    by (rule triple_then [OF ask_server forget]) simp
  have "triple I (\<lambda>s. if t \<notin> transactions s then transaction_absent t s
     else sthen (with_transaction_recovery eng (ask (CallBatch sql) (\<lambda>l. e_batch eng l sql)) True)
       (smodify (\<lambda>s. s\<lparr>transactions := transactions s - {t}, aborted := aborted s - {t}\<rparr>)) s) (\<lambda>_. I) I"
    using absent fin [of "\<lambda>l. e_batch eng l sql"] unfolding triple_def by presburger
  then show ?thesis unfolding end_transaction_def by (rule triple_then [OF touch_I])
qed

lemma register_I: "triple I (register_execution live i r) (\<lambda>_. I) I"
  by (auto simp: triple_def register_execution_def Let_def sfail_def sret_def a_executions
      split: sum.splits if_splits)

lemmas operations =
  user_ops(1) [THEN state_after_triple] user_ops(2) [THEN state_after_triple]
  user_ops(3) [THEN state_after_triple] user_ops(4) [THEN state_after_triple]
  user_ops(5) [THEN state_after_triple] user_ops(6) [THEN state_after_triple]
  statement_I [THEN state_after_triple] server_ops(1) [THEN state_after_triple]
  schema_I [THEN state_after_triple] resolve_I [THEN state_after_triple]
  attach_I [THEN state_after_triple] clear_I [THEN state_after_triple]
  prepared_ops(1) [THEN state_after_triple] prepared_ops(2) [THEN state_after_triple]
  prepared_ops(3) [THEN state_after_triple] close_I [THEN state_after_triple]
  end_I [THEN state_after_triple] register_I [THEN state_after_triple]

text \<open>Every operation keeps the invariant, as long as no generator is about to wrap.\<close>

lemma perform_I:
  assumes "I s" "perform eng ev s = Ret s'" "tx_gen s \<noteq> - 1" "handle_gen s \<noteq> - 1"
  shows "I s'"
proof (cases ev)
  case (OpBegin now)
  with assms show ?thesis using state_after_triple [OF begin_I, of s now s'] by simp
next
  case (OpCreate now sql q sc e)
  with assms show ?thesis using state_after_triple [OF create_I, of s now sql q sc e s'] by simp
qed (use assms in \<open>auto simp: commit_transaction_def rollback_transaction_def dest: operations\<close>)

end

section \<open>Histories\<close>

text \<open>
  A session that has performed operations one after the other. Fewer than \<open>2 ^ 64 - 1\<close> transactions
  and handles have been given out, so the generators have not wrapped.
\<close>

inductive reachable :: "('v, 'b, 's, 'q) engine \<Rightarrow> session_auth option \<Rightarrow> lockdown_template option \<Rightarrow>
    ('v, 'b, 's) session \<Rightarrow> bool" for eng auth template where
  reachable_new: "reachable eng auth template (new_session auth template now)"
| reachable_step: "reachable eng auth template s \<Longrightarrow> tx_gen s \<noteq> - 1 \<Longrightarrow> handle_gen s \<noteq> - 1 \<Longrightarrow>
    perform eng ev s = Ret s' \<Longrightarrow> reachable eng auth template s'"

context session_invariant
begin

lemma reachable_I:
  assumes "reachable eng auth template s" "\<And>now. I (new_session auth template now)"
  shows "I s"
  using assms by (induction rule: reachable.induct) (auto intro: perform_I)

end

end
