(* ===== verification/Session_Properties.thy ===== *)
theory Session_Properties
  imports Session_Invariants
begin

text \<open>
  The invariants of a session as interpretations of \<open>session_invariant\<close>, and what its operations do:
  the lockdown, transactions and their recovery, prepared statements, the schema cache.
\<close>

section \<open>A sample connection\<close>

text \<open>
  A connection for the witnesses: a statement inside an aborted transaction fails until a rollback,
  everything else succeeds.
\<close>

definition aborts_until_rollback :: "('v, 'b) call list \<Rightarrow> server_error + int" where
  "aborts_until_rollback l =
     (if CallBatch ''BEGIN TRANSACTION'' \<in> set l \<and> CallBatch ''ROLLBACK'' \<notin> set l
      then Inl (DuckDb ''TransactionContext Error: Current transaction is aborted'') else Inr 1)"

definition sample_engine :: "(nat, nat, nat, nat) engine" where
  "sample_engine = \<lparr>e_batch = (\<lambda>l sql. Inr ()), e_query = (\<lambda>l sql ps. Inr 7),
     e_statement = (\<lambda>l sql. aborts_until_rollback l), e_statement_params = (\<lambda>l sql ps. Inr 1),
     e_parameter_count = (\<lambda>l sql. Inr 0), e_schema = (\<lambda>l sql. Inr 5), e_appender = (\<lambda>l c t bs. Inr 1),
     e_table_schema = (\<lambda>l t. Inr 5), e_current_catalog = (\<lambda>l. Inr ''memory''),
     e_attached = (\<lambda>l c. Inr False), e_data_roots = (\<lambda>l sql. Inr []), e_create_dir = (\<lambda>l d. Inr ())\<rparr>"

definition sample_auth :: session_auth where
  "sample_auth = \<lparr>subject = ''u'', project_id = ''p'', writer = False\<rparr>"

definition sample_template :: lockdown_template where
  "sample_template = \<lparr>scratch_directory = ''/s'', scratch_max_size = ''1GB''\<rparr>"

definition sample_session :: "(nat, nat, nat) session" where
  "sample_session = new_session (Some sample_auth) (Some sample_template) 0"

definition put_prepared_state :: "statement_handle \<Rightarrow> (nat, nat, nat) session \<Rightarrow> (nat, nat, nat) session" where
  "put_prepared_state h s = s\<lparr>prepared := (prepared s)(h \<mapsto> \<lparr>ps_meta = \<lparr>pm_sql = ''SELECT ?'',
     pm_is_query = True, pm_schema = None, pm_ephemeral = False\<rparr>, ps_pending = None\<rparr>)\<rparr>"

lemmas step_defs = sthen_def sbind_def sret_def sfail_def smodify_def ask_def touch_def state_after_def

lemma sample_validated: "validate_user_sql (Some sample_auth) ''SELECT 1'' = Ret (Inr ())"
  by code_simp

lemma sample_reachable: "reachable sample_engine (Some sample_auth) (Some sample_template) sample_session"
  unfolding sample_session_def by (rule reachable_new)

lemma sample_fields:
  "s_auth sample_session = Some sample_auth" "s_template sample_session = Some sample_template"
  "log sample_session = []" "applied sample_session = False" "tx_gen sample_session = 1"
  "handle_gen sample_session = 1" "cache sample_session = cache_new" "prepared sample_session = Map.empty"
  by (simp_all add: sample_session_def new_session_def generator_start_def)

text \<open>The session after its first query.\<close>

definition sample_after :: "(nat, nat, nat) session" where
  "sample_after = sample_session\<lparr>log := [CallCreateDir ''/s'',
      CallBatch (lockdown_sql sample_template False (roots sample_session)), CallQuery ''SELECT 1'' None],
    applied := True, last_activity := 3\<rparr>"

lemma sample_query: "perform sample_engine (OpQuery 3 ''SELECT 1'') sample_session = Ret sample_after"
  by (simp add: execute_query_def enter_def admit_def sample_validated ensure_lockdown_def
      with_transaction_recovery_def step_defs sample_fields sample_engine_def sample_after_def)
    (simp add: sample_auth_def sample_template_def)

lemma sample_after_reachable:
  "reachable sample_engine (Some sample_auth) (Some sample_template) sample_after"
  by (rule reachable_step [OF sample_reachable _ _ sample_query]) (simp_all add: sample_fields)

section \<open>The lockdown\<close>

definition locked :: "('v, 'b, 's, 'q) engine \<Rightarrow> string \<Rightarrow> ('v, 'b) call list \<Rightarrow> bool" where
  "locked eng block l \<longleftrightarrow> (\<exists>l1 l2. l = l1 @ CallBatch block # l2 \<and> e_batch eng l1 block = Inr ()
     \<and> (\<forall>c\<in>set l1. \<not> user_call c))"

lemma locked_append: "locked eng block l \<Longrightarrow> locked eng block (l @ m)"
  unfolding locked_def by (metis append.assoc append_Cons)

lemma locked_now: "e_batch eng l block = Inr () \<Longrightarrow> \<forall>c\<in>set l. \<not> user_call c \<Longrightarrow> locked eng block (l @ [CallBatch block])"
  unfolding locked_def by blast

definition sealed :: "('v, 'b, 's, 'q) engine \<Rightarrow> session_auth \<Rightarrow> lockdown_template \<Rightarrow> ('v, 'b, 's) session \<Rightarrow> bool" where
  "sealed eng a t s \<longleftrightarrow> s_auth s = Some a \<and> s_template s = Some t
     \<and> (if applied s then locked eng (lockdown_sql t (writer a) (roots s)) (log s)
        else \<forall>c\<in>set (log s). \<not> user_call c)"

lemma sealed_log: "sealed eng a t s \<Longrightarrow> ready s \<or> \<not> user_call c \<Longrightarrow> sealed eng a t (s\<lparr>log := log s @ [c]\<rparr>)"
  by (cases "applied s") (auto simp: sealed_def ready_def hardened_def locked_append)

interpretation lockdown: session_invariant eng "sealed eng a t"
  for eng :: "('v, 'b, 's, 'q) engine" and a t
proof unfold_locales
  fix s :: "('v, 'b, 's) session" and t' a'
  assume s: "sealed eng a t s" "s_template s = Some t'" "s_auth s = Some a'" "\<not> applied s"
    "e_batch eng (log s) (lockdown_sql t' (writer a') (roots s)) = Inr ()"
  then show "sealed eng a t (s\<lparr>log := log s @ [CallBatch (lockdown_sql t' (writer a') (roots s))], applied := True\<rparr>)"
    by (auto simp: sealed_def locked_now)
next
  fix s :: "('v, 'b, 's) session"
  assume "sealed eng a t s"
  then show "sealed eng a t (s\<lparr>log := log s @ [CallBatch ''ROLLBACK''], transactions := {},
      aborted := aborted s \<union> transactions s\<rparr>)"
    using sealed_log [of eng a t s "CallBatch ''ROLLBACK''"] by (auto simp: sealed_def)
qed (simp add: sealed_log, auto simp: sealed_def)

lemma sealed_new: "sealed eng a t (new_session (Some a) (Some t) now)"
  by (simp add: sealed_def new_session_def)

interpretation frozen: session_invariant eng "\<lambda>s. hardened s \<and> applied s \<and> roots s = rs"
  for eng :: "('v, 'b, 's, 'q) engine" and rs
  by unfold_locales (auto simp: hardened_def)

text \<open>
  C3: no user call reaches the engine before the lockdown. In every state that a duckvis session
  reaches, each call that carries a user's SQL or data comes after the lockdown block: the block
  was accepted by the engine, had the roots that the session has still, and was preceded by no user
  call.
\<close>

theorem lockdown_precedes_user_calls:
  assumes "reachable eng (Some a) (Some t) s" "c \<in> set (log s)" "user_call c"
  shows "\<exists>l1 l2. log s = l1 @ CallBatch (lockdown_sql t (writer a) (roots s)) # l2
    \<and> e_batch eng l1 (lockdown_sql t (writer a) (roots s)) = Inr ()
    \<and> (\<forall>d\<in>set l1. \<not> user_call d) \<and> c \<in> set l2"
proof -
  from lockdown.reachable_I [OF assms(1) sealed_new]
  have s: "sealed eng a t s" .
  with assms(2,3) have "applied s" by (auto simp: sealed_def split: if_splits)
  with s obtain l1 l2 where l: "log s = l1 @ CallBatch (lockdown_sql t (writer a) (roots s)) # l2"
    "e_batch eng l1 (lockdown_sql t (writer a) (roots s)) = Inr ()" "\<forall>d\<in>set l1. \<not> user_call d"
    by (auto simp: sealed_def locked_def)
  with assms(2,3) have "c \<in> set l2" by auto
  with l show ?thesis by blast
qed

lemma lockdown_precedes_user_calls_witness:
  "\<exists>l1 l2. log sample_after = l1 @ CallBatch (lockdown_sql sample_template (writer sample_auth) (roots sample_after)) # l2
    \<and> e_batch sample_engine l1 (lockdown_sql sample_template (writer sample_auth) (roots sample_after)) = Inr ()
    \<and> (\<forall>d\<in>set l1. \<not> user_call d) \<and> CallQuery ''SELECT 1'' None \<in> set l2"
  by (rule lockdown_precedes_user_calls [OF sample_after_reachable]) (simp_all add: sample_after_def)

text \<open>
  The allowed set is frozen. Once the lockdown has run in a hardened session, no operation, an
  attachment included, undoes it or changes the roots it confined the session to.
\<close>

theorem lockdown_frozen:
  assumes "hardened s" "applied s" "perform eng ev s = Ret s'" "tx_gen s \<noteq> - 1" "handle_gen s \<noteq> - 1"
  shows "applied s' \<and> roots s' = roots s"
  using frozen.perform_I [of s "roots s" eng ev s'] assms by simp

lemma lockdown_frozen_witness:
  "\<exists>s'. perform sample_engine (OpTableSchema ''t'') sample_after = Ret s'
    \<and> applied s' \<and> roots s' = roots sample_after"
proof -
  obtain s' where s': "perform sample_engine (OpTableSchema ''t'') sample_after = Ret s'"
    by (simp add: table_schema_def with_transaction_recovery_def step_defs sample_engine_def)
  have "applied s' \<and> roots s' = roots sample_after"
    by (rule lockdown_frozen [OF _ _ s'])
      (simp_all add: sample_after_def sample_fields hardened_def)
  with s' show ?thesis by blast
qed

text \<open>
  A confined session gets no new catalog. After the lockdown, attaching a catalog that the
  engine does not list fails before any secret or ATTACH statement is sent, and only the question
  itself has reached the engine.
\<close>

theorem attach_after_lockdown:
  assumes "confined s" "applied s" "e_attached eng (log s) catalog = Inr False"
  shows "attach_catalog eng now catalog secrets sql path s
    = Ret (Inl AttachmentRequiresSessionRecreation, s\<lparr>log := log s @ [CallAttached catalog]\<rparr>)"
  using assms by (simp add: attach_catalog_def attach_steps_def require_attached_def step_defs)

lemma attach_after_lockdown_witness:
  "attach_catalog sample_engine 9 ''lake'' [] ''ATTACH x'' None sample_after
    = Ret (Inl AttachmentRequiresSessionRecreation,
        sample_after\<lparr>log := log sample_after @ [CallAttached ''lake'']\<rparr>)"
  by (rule attach_after_lockdown)
    (simp_all add: confined_def sample_after_def sample_fields sample_auth_def sample_engine_def)

section \<open>Transactions\<close>

fun tx_number :: "transaction_id \<Rightarrow> u64" where
  "tx_number (TransactionId w) = w"

definition tx_inv :: "('v, 'b, 's) session \<Rightarrow> bool" where
  "tx_inv s \<longleftrightarrow> transactions s \<inter> aborted s = {}
     \<and> (\<forall>x\<in>transactions s \<union> aborted s. tx_number x < tx_gen s)"

interpretation tx: session_invariant eng tx_inv for eng :: "('v, 'b, 's, 'q) engine"
proof unfold_locales
  fix s :: "('v, 'b, 's) session"
  assume "tx_inv s" "tx_gen s \<noteq> - 1"
  moreover from this(1) have "TransactionId (tx_gen s) \<notin> aborted s" by (force simp: tx_inv_def)
  ultimately show "tx_inv (s\<lparr>tx_gen := tx_gen s + 1,
      transactions := insert (TransactionId (tx_gen s)) (transactions s)\<rparr>)"
    by (auto simp: tx_inv_def intro!: below_next intro: less_imp_le)
qed (auto simp: tx_inv_def)

lemma tx_inv_new: "tx_inv (new_session a t now)"
  by (simp add: tx_inv_def new_session_def)

text \<open>What recovery does to a call on the connection, on every branch.\<close>

lemma recovery_ok:
  "f (log s) = Inr x \<Longrightarrow> with_transaction_recovery eng (ask c f) b s = Ret (Inr x, s\<lparr>log := log s @ [c]\<rparr>)"
  by (simp add: with_transaction_recovery_def ask_def)

lemma recovery_other:
  "f (log s) = Inl e \<Longrightarrow> \<not> is_transaction_abort_error e \<Longrightarrow>
    with_transaction_recovery eng (ask c f) b s = Ret (Inl e, s\<lparr>log := log s @ [c]\<rparr>)"
  by (simp add: with_transaction_recovery_def ask_def)

lemma recovery_abort:
  "f (log s) = Inl e \<Longrightarrow> is_transaction_abort_error e \<Longrightarrow>
    e_batch eng (log s @ [c]) ''ROLLBACK'' = Inr () \<Longrightarrow>
    with_transaction_recovery eng (ask c f) b s =
      (let t = s\<lparr>log := log s @ [c, CallBatch ''ROLLBACK''], transactions := {},
                aborted := aborted s \<union> transactions s\<rparr>
       in if b then Ret (f (log t), t\<lparr>log := log t @ [c]\<rparr>) else Ret (Inl e, t))"
  by (simp add: with_transaction_recovery_def ask_def recover_from_transaction_abort_def Let_def)

text \<open>
  The transaction tables are consistent. In every reachable state no transaction is both open and
  aborted, and \<open>begin_transaction\<close> returns an id that was neither, is open afterwards, and has reached
  the engine as \<open>BEGIN TRANSACTION\<close>.
\<close>

theorem begin_transaction_fresh:
  assumes "reachable eng auth template s" "tx_gen s \<noteq> - 1" "handle_gen s \<noteq> - 1"
    and "begin_transaction eng now s = Ret (Inr t, s')"
  shows "transactions s' \<inter> aborted s' = {} \<and> t \<in> transactions s' \<and> t \<notin> transactions s \<union> aborted s
    \<and> CallBatch ''BEGIN TRANSACTION'' \<in> set (log s')"
proof -
  have inv: "tx_inv s" by (rule tx.reachable_I [OF assms(1) tx_inv_new])
  have "perform eng (OpBegin now) s = Ret s'" using assms(4) by (simp add: state_after_def)
  from tx.perform_I [OF inv this assms(2,3)] have "transactions s' \<inter> aborted s' = {}"
    by (simp add: tx_inv_def)
  have rec: "triple (\<lambda>s. tx_gen s = g) (with_transaction_recovery eng (ask c f) b)
      (\<lambda>_ s. tx_gen s = g \<and> c \<in> set (log s)) (\<lambda>s. tx_gen s = g)" for g c f b
    by (rule triple_recovery [OF triple_ask]) simp_all
  from assms(4) obtain u where u: "with_transaction_recovery eng (ask (CallBatch ''BEGIN TRANSACTION'')
        (\<lambda>l. e_batch eng l ''BEGIN TRANSACTION'')) True (s\<lparr>last_activity := now\<rparr>) = Ret (Inr (), u)"
    and s': "t = TransactionId (tx_gen u)" "s' = u\<lparr>tx_gen := tx_gen u + 1, transactions := insert t (transactions u)\<rparr>"
    by (auto simp: begin_transaction_def sthen_def sbind_Ret_iff touch_def smodify_def next_transaction_def)
  from triple_value [OF rec _ u] have "tx_gen u = tx_gen s" "CallBatch ''BEGIN TRANSACTION'' \<in> set (log u)"
    by auto
  moreover have "TransactionId (tx_gen s) \<notin> transactions s \<union> aborted s" using inv by (force simp: tx_inv_def)
  ultimately show ?thesis using s' \<open>transactions s' \<inter> aborted s' = {}\<close> by auto
qed

lemma begin_transaction_fresh_witness:
  "\<exists>t s'. begin_transaction sample_engine 4 sample_after = Ret (Inr t, s')
    \<and> transactions s' \<inter> aborted s' = {} \<and> t \<in> transactions s'
    \<and> t \<notin> transactions sample_after \<union> aborted sample_after
    \<and> CallBatch ''BEGIN TRANSACTION'' \<in> set (log s')"
proof -
  obtain t s' where b: "begin_transaction sample_engine 4 sample_after = Ret (Inr t, s')"
    by (simp add: begin_transaction_def with_transaction_recovery_def step_defs sample_engine_def
        next_transaction_def)
  have "transactions s' \<inter> aborted s' = {} \<and> t \<in> transactions s'
    \<and> t \<notin> transactions sample_after \<union> aborted sample_after
    \<and> CallBatch ''BEGIN TRANSACTION'' \<in> set (log s')"
    by (rule begin_transaction_fresh [OF sample_after_reachable _ _ b])
      (simp_all add: sample_after_def sample_fields)
  with b show ?thesis by blast
qed

text \<open>
  C32: recovery runs a statement again outside its transaction. When a statement meets an aborted
  transaction and the rollback succeeds, the engine sees the statement, the rollback and the
  statement once more; the session has no open transaction while the second attempt's answer is
  returned as the statement's own. For each transaction that was open, COMMIT then reports
  \<open>TransactionAborted\<close> once, without reaching the engine, and afterwards succeeds as a no-op.
\<close>

theorem abort_recovery:
  assumes "e_statement eng (log s) sql = Inl e" "is_transaction_abort_error e"
    and "e_batch eng (log s @ [CallStatement User sql]) ''ROLLBACK'' = Inr ()"
    and "e_statement eng (log s @ [CallStatement User sql, CallBatch ''ROLLBACK'']) sql = Inr n"
    and "\<not> should_invalidate_schema_cache sql" "t \<in> transactions s"
  shows "\<exists>s1 s2 s3. execute_statement_inner eng now User sql s = Ret (Inr n, s1)
    \<and> log s1 = log s @ [CallStatement User sql, CallBatch ''ROLLBACK'', CallStatement User sql]
    \<and> transactions s1 = {}
    \<and> commit_transaction eng now t s1 = Ret (Inl TransactionAborted, s2) \<and> log s2 = log s1
    \<and> commit_transaction eng now t s2 = Ret (Inr (), s3) \<and> log s3 = log s1"
  using assms recovery_abort [of "\<lambda>l. e_statement eng l sql" "s\<lparr>last_activity := now\<rparr>" e eng "CallStatement User sql" True]
  by (simp add: execute_statement_inner_def invalidating_def step_defs commit_transaction_def
      end_transaction_def transaction_absent_def Let_def)

lemma abort_recovery_witness:
  "let s = (new_session None None 0 :: (nat, nat, nat) session)
        \<lparr>log := [CallBatch ''BEGIN TRANSACTION''], transactions := {TransactionId 1}, tx_gen := 2\<rparr>
   in \<exists>s1 s2 s3. execute_statement_inner sample_engine 0 User ''INSERT INTO t VALUES (1)'' s = Ret (Inr 1, s1)
    \<and> log s1 = log s @ [CallStatement User ''INSERT INTO t VALUES (1)'', CallBatch ''ROLLBACK'',
        CallStatement User ''INSERT INTO t VALUES (1)'']
    \<and> transactions s1 = {}
    \<and> commit_transaction sample_engine 0 (TransactionId 1) s1 = Ret (Inl TransactionAborted, s2)
    \<and> log s2 = log s1
    \<and> commit_transaction sample_engine 0 (TransactionId 1) s2 = Ret (Inr (), s3) \<and> log s3 = log s1"
  unfolding Let_def
proof (rule abort_recovery)
  show "is_transaction_abort_error (DuckDb ''TransactionContext Error: Current transaction is aborted'')"
    by code_simp
  show "\<not> should_invalidate_schema_cache ''INSERT INTO t VALUES (1)''" by code_simp
qed (simp_all add: sample_engine_def aborts_until_rollback_def)

section \<open>Prepared statements\<close>

fun handle_number :: "statement_handle \<Rightarrow> u64" where
  "handle_number (StatementHandle w) = w"

definition prepared_inv :: "('v, 'b, 's) session \<Rightarrow> bool" where
  "prepared_inv s \<longleftrightarrow> (\<forall>h\<in>dom (prepared s). handle_number h < handle_gen s)
     \<and> (\<forall>h. last_prepared s = Some h \<longrightarrow> prepared s h \<noteq> None)"

interpretation handles: session_invariant eng prepared_inv for eng :: "('v, 'b, 's, 'q) engine"
proof unfold_locales
  fix s :: "('v, 'b, 's) session" and p
  assume "prepared_inv s" "handle_gen s \<noteq> - 1"
  then show "prepared_inv (s\<lparr>handle_gen := handle_gen s + 1,
      prepared := (prepared s)(StatementHandle (handle_gen s) \<mapsto> p),
      last_prepared := Some (StatementHandle (handle_gen s))\<rparr>)"
    by (auto simp: prepared_inv_def intro!: below_next intro: less_imp_le)
qed (auto simp: prepared_inv_def split: if_splits)

lemma prepared_inv_new: "prepared_inv (new_session a t now)"
  by (simp add: prepared_inv_def new_session_def)

text \<open>
  Prepared statements are created under fresh handles. In every reachable state, creating a
  statement that is admitted gives a handle that no open statement has, leaves the others as they
  are, and makes it the last handle; the last handle is always that of an open statement.
\<close>

theorem create_prepared_fresh:
  assumes "reachable eng auth template s"
    and "create_prepared_statement now sql q sc e s = Ret (Inr h, s')"
  shows "prepared s h = None \<and> last_prepared s' = Some h
    \<and> prepared s' = (prepared s)(h \<mapsto> \<lparr>ps_meta = \<lparr>pm_sql = sql, pm_is_query = q, pm_schema = sc,
        pm_ephemeral = e\<rparr>, ps_pending = None\<rparr>)
    \<and> (case last_prepared s of None \<Rightarrow> True | Some l \<Rightarrow> prepared s l \<noteq> None)"
proof -
  have inv: "prepared_inv s" by (rule handles.reachable_I [OF assms(1) prepared_inv_new])
  then have "prepared s (StatementHandle (handle_gen s)) = None"
    by (fastforce simp: prepared_inv_def dom_def)
  with assms(2) inv show ?thesis
    by (auto simp: create_prepared_statement_def admit_def run_map_def sthen_def run_simps touch_def
        smodify_def next_handle_def prepared_inv_def split: option.splits)
qed

lemma create_prepared_fresh_witness:
  "\<exists>h s'. create_prepared_statement 4 ''SELECT 1'' True None False sample_after = Ret (Inr h, s')
    \<and> prepared sample_after h = None \<and> last_prepared s' = Some h"
proof -
  obtain h s' where c: "create_prepared_statement 4 ''SELECT 1'' True None False sample_after = Ret (Inr h, s')"
    by (simp add: create_prepared_statement_def admit_def step_defs next_handle_def sample_after_def
        sample_fields sample_validated)
  from create_prepared_fresh [OF sample_after_reachable c] c show ?thesis by blast
qed

text \<open>
  Bound parameters are consumed once. Setting parameters and taking them returns exactly them,
  taking them again returns nothing, and once the handle is closed every operation on it fails with
  \<open>PreparedStatementNotFound\<close> and changes nothing.
\<close>

theorem prepared_parameters_once:
  assumes "prepared s h = Some p"
  shows "\<exists>s1 s2 s3 s4. set_prepared_statement_parameters h ps s = Ret (Inr (), s1)
    \<and> take_prepared_statement_parameters h s1 = Ret (Inr (Some ps), s2)
    \<and> take_prepared_statement_parameters h s2 = Ret (Inr None, s3)
    \<and> get_prepared_statement_meta h s3 = Ret (Inr (ps_meta p), s3)
    \<and> close_prepared_statement h s3 = Ret (Inr (), s4) \<and> last_prepared s4 \<noteq> Some h
    \<and> take_prepared_statement_parameters h s4 = Ret (Inl PreparedStatementNotFound, s4)
    \<and> set_prepared_statement_parameters h ps s4 = Ret (Inl PreparedStatementNotFound, s4)
    \<and> cache_prepared_statement_schema h sc s4 = Ret (Inl PreparedStatementNotFound, s4)
    \<and> close_prepared_statement h s4 = Ret (Inl PreparedStatementNotFound, s4)"
  using assms
  by (auto simp: set_prepared_statement_parameters_def take_prepared_statement_parameters_def
      get_prepared_statement_meta_def close_prepared_statement_def cache_prepared_statement_schema_def
      find_prepared_def put_prepared_def step_defs)

lemma prepared_parameters_once_witness:
  "\<exists>s1 s2 s3 s4. set_prepared_statement_parameters (StatementHandle 1) [8]
      (put_prepared_state (StatementHandle 1) sample_session) = Ret (Inr (), s1)
    \<and> take_prepared_statement_parameters (StatementHandle 1) s1 = Ret (Inr (Some [8]), s2)
    \<and> take_prepared_statement_parameters (StatementHandle 1) s2 = Ret (Inr None, s3)
    \<and> close_prepared_statement (StatementHandle 1) s3 = Ret (Inr (), s4)"
  using prepared_parameters_once [of "put_prepared_state (StatementHandle 1) sample_session"
      "StatementHandle 1" _ "[8]"]
  by (fastforce simp: put_prepared_state_def)

section \<open>The schema cache\<close>

definition answered :: "('v, 'b, 's, 'q) engine \<Rightarrow> ('v, 'b) call list \<Rightarrow> string \<Rightarrow> 's \<Rightarrow> bool" where
  "answered eng l key sc \<longleftrightarrow> (\<exists>l1 sql l2. l = l1 @ CallSchema sql # l2 \<and> schema_cache_key sql = key
     \<and> e_schema eng l1 sql = Inr sc)"

lemma answered_append: "answered eng l key sc \<Longrightarrow> answered eng (l @ m) key sc"
  unfolding answered_def by (metis append.assoc append_Cons)

definition cache_ok :: "('v, 'b, 's, 'q) engine \<Rightarrow> ('v, 'b, 's) session \<Rightarrow> bool" where
  "cache_ok eng s \<longleftrightarrow> schema_cache.holds (answered eng (log s)) (cache s)"

lemma cache_ok_log: "cache_ok eng s \<Longrightarrow> schema_cache.holds (answered eng (log s @ m)) (cache s)"
  unfolding cache_ok_def by (erule schema_cache.holds_mono) (rule answered_append)

interpretation caching: session_invariant eng "cache_ok eng" for eng :: "('v, 'b, 's, 'q) engine"
proof unfold_locales
  fix s :: "('v, 'b, 's) session" and l1 l2 sql sc
  assume ok: "cache_ok eng s" and "log s = l1 @ CallSchema sql # l2" "e_schema eng l1 sql = Inr sc"
  then have "answered eng (log s) (schema_cache_key sql) sc" unfolding answered_def by blast
  with ok show "cache_ok eng (s\<lparr>cache := cache_insert (schema_cache_key sql) sc (cache s)\<rparr>)"
    by (simp add: cache_ok_def schema_cache.holds_insert)
next
  fix s :: "('v, 'b, 's) session" and k
  assume "cache_ok eng s"
  then show "cache_ok eng (s\<lparr>cache := snd (cache_get k (cache s))\<rparr>)"
    by (simp add: cache_ok_def schema_cache.holds_get_state)
  show "cache_ok eng (s\<lparr>cache := cache_clear (cache s)\<rparr>)"
    by (simp add: cache_ok_def schema_cache.holds_clear)
qed (simp_all add: cache_ok_log [unfolded cache_ok_def] cache_ok_def)

lemma cache_ok_new: "cache_ok eng (new_session a t now)"
  using schema_cache.holds_clear [of "answered eng []" cache_new]
  by (simp add: cache_ok_def new_session_def cache_clear_def cache_new_def)

lemma schema_answered:
  "triple (cache_ok eng) (schema_for_query_cancellable eng now sql c)
     (\<lambda>sc s. answered eng (log s) (schema_cache_key sql) sc) (\<lambda>_. True)"
proof -
  let ?A = "\<lambda>sc s. answered eng (log s) (schema_cache_key sql) sc"
  have check: "triple (cache_ok eng) (check_cancelled c) (\<lambda>_. cache_ok eng) (\<lambda>_. True)"
    by (simp add: check_cancelled_def triple_ret triple_fail)
  have enter: "triple (cache_ok eng) (enter eng now sql) (\<lambda>_. cache_ok eng) (\<lambda>_. True)"
    by (rule triple_conseq [OF caching.enter_I]) auto
  have lookup: "triple (cache_ok eng) (cache_lookup (schema_cache_key sql))
      (\<lambda>hit s. case hit of Some sc \<Rightarrow> ?A sc s | None \<Rightarrow> True) (\<lambda>_. True)"
    using schema_cache.holds_get [of "answered eng _" _ "schema_cache_key sql"]
    by (intro tripleI) (auto simp: cache_lookup_def sret_def cache_ok_def split: if_splits prod.splits option.splits;
        metis fst_conv)+
  have found: "answered eng (l @ [CallSchema sql]) (schema_cache_key sql) sc" if "e_schema eng l sql = Inr sc" for l sc
    using that unfolding answered_def by blast
  have ask: "triple (\<lambda>_. True) (with_transaction_recovery eng (ask (CallSchema sql) (\<lambda>l. e_schema eng l sql)) True)
      ?A (\<lambda>_. True)"
    by (intro triple_recovery triple_ask) (simp_all add: found)
  have store: "triple (?A sc) (cache_store (schema_cache_key sql) sc) (\<lambda>_. ?A sc) (\<lambda>_. True)" for sc
    unfolding cache_store_def by (intro triple_if triple_ret triple_modify) auto
  have "triple (\<lambda>s. case hit of Some sc \<Rightarrow> ?A sc s | None \<Rightarrow> True)
     (case hit of Some schema \<Rightarrow> sret schema
      | None \<Rightarrow> sbind (with_transaction_recovery eng (ask (CallSchema sql) (\<lambda>l. e_schema eng l sql)) True)
             (\<lambda>schema. sthen (cache_store (schema_cache_key sql) schema) (sret schema))) ?A (\<lambda>_. True)" for hit
    by (cases hit) (auto intro!: triple_ret triple_bind [OF ask] triple_then [OF store])
  then show ?thesis
    unfolding schema_for_query_cancellable_def
    by (rule triple_then [OF check triple_then [OF enter triple_bind [OF lookup]]])
qed

text \<open>
  A schema is one the engine gave. In every reachable state, the schema that
  \<open>schema_for_query\<close> returns, from the cache or not, is the engine's answer to some call on this session
  for a statement with the same normalized text.
\<close>

theorem schema_is_the_engines:
  assumes "reachable eng auth template s"
    and "schema_for_query_cancellable eng now sql c s = Ret (Inr sc, s')"
  shows "\<exists>l1 sql' l2. log s' = l1 @ CallSchema sql' # l2
    \<and> schema_cache_key sql' = schema_cache_key sql \<and> e_schema eng l1 sql' = Inr sc"
  using triple_value [OF schema_answered caching.reachable_I [OF assms(1) cache_ok_new] assms(2)]
  by (auto simp: answered_def)

lemma schema_is_the_engines_witness:
  "\<exists>s' l1 sql' l2. schema_for_query_cancellable sample_engine 4 ''SELECT 1'' None sample_after = Ret (Inr 5, s')
    \<and> log s' = l1 @ CallSchema sql' # l2 \<and> schema_cache_key sql' = schema_cache_key ''SELECT 1''
    \<and> e_schema sample_engine l1 sql' = Inr 5"
proof -
  have "schema_cache_key ''SELECT 1'' = ''SELECT 1''" by code_simp
  then obtain s' where "schema_for_query_cancellable sample_engine 4 ''SELECT 1'' None sample_after = Ret (Inr 5, s')"
    by (simp add: schema_for_query_cancellable_def check_cancelled_def enter_def admit_def
        ensure_lockdown_def with_transaction_recovery_def cache_lookup_def cache_store_def cache_get_def
        cache_new_def step_defs sample_engine_def sample_after_def sample_fields sample_validated)
  from schema_is_the_engines [OF sample_after_reachable this] this show ?thesis by blast
qed

lemma invalidating_clears:
  "should_invalidate_schema_cache sql \<Longrightarrow> invalidating sql act s = Ret (Inr x, s') \<Longrightarrow>
    entries (cache s') = Map.empty"
  by (auto simp: invalidating_def run_simps sthen_def clear_schema_cache_def smodify_def sret_def cache_clear_def)

text \<open>
  Schema changes empty the cache. A statement whose text starts with one of the schema-changing
  words and that the engine accepts leaves no cached schema, whichever of the statement operations ran
  it, the privileged one of an ATTACH included.
\<close>

theorem ddl_clears_cache:
  assumes "should_invalidate_schema_cache sql"
    and "execute_statement eng now sql s = Ret (Inr n, s')
      \<or> execute_statement_privileged eng now sql s = Ret (Inr n, s')
      \<or> execute_statement_with_telemetry eng now sql ex s = Ret (Inr n, s')
      \<or> execute_statement_with_params eng now sql ps s = Ret (Inr m, s')"
  shows "entries (cache s') = Map.empty"
  using assms(2)
  unfolding execute_statement_def execute_statement_privileged_def execute_statement_inner_def
    execute_statement_with_telemetry_def execute_statement_with_params_def sthen_def sbind_Ret_iff
  by (auto dest: invalidating_clears [OF assms(1)])

lemma ddl_clears_cache_witness:
  "\<exists>s'. execute_statement_privileged sample_engine 4 ''attach x'' sample_session = Ret (Inr 1, s')
    \<and> entries (cache s') = Map.empty"
proof -
  have inv: "should_invalidate_schema_cache ''attach x''" by code_simp
  then obtain s' where "execute_statement_privileged sample_engine 4 ''attach x'' sample_session = Ret (Inr 1, s')"
    by (simp add: execute_statement_privileged_def execute_statement_inner_def invalidating_def
        with_transaction_recovery_def clear_schema_cache_def step_defs sample_engine_def
        aborts_until_rollback_def sample_fields)
  with ddl_clears_cache [OF inv, of sample_engine 4 sample_session 1 s'] show ?thesis by blast
qed

end
