(* ===== verification/Capacity.thy ===== *)
theory Capacity
  imports Prelude
begin

text \<open>
  What the session registry and the two client pools share: the contract of a system with a limited
  capacity, and the count of the requests that are in a given phase.
\<close>

section \<open>The capacity interface\<close>

text \<open>
  A system whose steps neither lose nor invent capacity: what is free and what is used add up to a
  constant, so what is used stays within it.
\<close>

locale capacity =
  fixes step :: "'s \<Rightarrow> 'e \<Rightarrow> 's" and ok :: "'s \<Rightarrow> bool" and free used :: "'s \<Rightarrow> nat"
  assumes step_ok: "ok s \<Longrightarrow> ok (step s e)"
    and conserved: "ok s \<Longrightarrow> free (step s e) + used (step s e) = free s + used s"
begin

lemma run_ok: "ok s \<Longrightarrow> ok (foldl step s es)"
  by (induction es arbitrary: s) (auto simp: step_ok)

lemma run_conserved: "ok s \<Longrightarrow> free (foldl step s es) + used (foldl step s es) = free s + used s"
proof (induction es arbitrary: s)
  case (Cons e es)
  with step_ok [of s e] conserved [of s e] show ?case by simp
qed simp

lemma used_bounded: "ok s \<Longrightarrow> used (foldl step s es) \<le> free s + used s"
  using run_conserved [of s es] by simp

end

section \<open>Requests in a phase\<close>

text \<open>
  Requests are numbered; a map says where each stands. \<open>phase_set P m\<close> are those whose phase satisfies
  \<open>P\<close>; moving one request changes their number by at most one, in the obvious way.
\<close>

definition phase_set :: "('p \<Rightarrow> bool) \<Rightarrow> (nat \<rightharpoonup> 'p) \<Rightarrow> nat set" where
  "phase_set P m = {r. \<exists>p. m r = Some p \<and> P p}"

definition phase_count :: "('p \<Rightarrow> bool) \<Rightarrow> (nat \<rightharpoonup> 'p) \<Rightarrow> nat" where
  "phase_count P m = card (phase_set P m)"

lemma phase_set_empty [simp]: "phase_set P Map.empty = {}"
  by (simp add: phase_set_def)

lemma phase_set_upd:
  "phase_set P (m(r := q)) = (if \<exists>p. q = Some p \<and> P p then insert r (phase_set P m) else phase_set P m - {r})"
  by (auto simp: phase_set_def)

lemma finite_phase_set: "finite (dom m) \<Longrightarrow> finite (phase_set P m)"
  by (rule finite_subset [of _ "dom m"]) (auto simp: phase_set_def)

lemma phase_count_upd:
  assumes "finite (dom m)"
  shows "phase_count P (m(r := q)) + of_bool (r \<in> phase_set P m)
    = phase_count P m + of_bool (\<exists>p. q = Some p \<and> P p)"
  using finite_phase_set [OF assms, of P] card_Suc_Diff1 [of "phase_set P m" r]
  by (auto simp: phase_count_def phase_set_upd insert_absorb)

lemma phase_set_iff: "r \<in> phase_set P m \<longleftrightarrow> (\<exists>p. m r = Some p \<and> P p)"
  by (simp add: phase_set_def)

end
