(* ===== verification/Registry.thy ===== *)
theory Registry
  imports Session_Properties Capacity
begin

text \<open>
  \<^verbatim>\<open>session/registry.rs\<close>: sessions by id, at most \<open>max_sessions\<close> of them, each holding a permit of a
  semaphore. Creating a session is not atomic: the read-locked lookup, the permit, the connection
  and the registration are separate steps of a request, between which other requests run. The map
  of sessions is an association list with distinct keys (a \<open>HashMap\<close> lists its entries in no
  particular order; nothing computed from the list depends on it).
\<close>

record ('v, 'b, 's) entry =
  en_nonce :: string
  en_session :: "('v, 'b, 's) session"

text \<open>
  Where a request stands: its lookup missed, it holds a permit and connects, or it has its answer.
  \<open>Found\<close> carries the entry that the request returns.
\<close>

datatype ('v, 'b, 's) phase =
    Missed string "session_auth option"
  | Holding string "session_auth option"
  | Failed server_error
  | Found "('v, 'b, 's) entry"

record ('v, 'b, 's) registry =
  sessions :: "(string \<times> ('v, 'b, 's) entry) list"
  permits :: nat
  max_sessions :: nat
  session_timeout :: nat
  template :: lockdown_template
  requests :: "nat \<rightharpoonup> ('v, 'b, 's) phase"

definition registry_new :: "nat option \<Rightarrow> nat option \<Rightarrow> lockdown_template \<Rightarrow> ('v, 'b, 's) registry" where
  "registry_new max_opt timeout tmpl =
     (let m = (case max_opt of Some n \<Rightarrow> n | None \<Rightarrow> 100) in
      \<lparr>sessions = [], permits = m, max_sessions = m,
       session_timeout = (case timeout of Some n \<Rightarrow> n | None \<Rightarrow> 1800) * 1000,
       template = tmpl, requests = Map.empty\<rparr>)"

section \<open>Operations under one lock\<close>

definition get_by_id :: "string \<Rightarrow> ('v, 'b, 's) registry \<Rightarrow> ('v, 'b, 's) entry option" where
  "get_by_id sid r = map_of (sessions r) sid"

text \<open>\<open>idle_duration\<close>, in milliseconds.\<close>

definition idle_duration :: "nat \<Rightarrow> ('v, 'b, 's) entry \<Rightarrow> nat" where
  "idle_duration now e = now - last_activity (en_session e)"

definition cleanup_idle_sessions :: "nat \<Rightarrow> ('v, 'b, 's) registry \<Rightarrow> nat \<times> ('v, 'b, 's) registry" where
  "cleanup_idle_sessions now r =
     (let kept = filter (\<lambda>(sid, e). \<not> session_timeout r < idle_duration now e) (sessions r);
          removed = length (sessions r) - length kept
      in (removed, r\<lparr>sessions := kept, permits := permits r + removed\<rparr>))"

definition remove_session :: "string \<Rightarrow> string \<Rightarrow> ('v, 'b, 's) registry \<Rightarrow> bool \<times> ('v, 'b, 's) registry" where
  "remove_session sid nonce r =
     (case get_by_id sid r of
        Some e \<Rightarrow> if en_nonce e = nonce
          then (True, r\<lparr>sessions := filter (\<lambda>(k, _). k \<noteq> sid) (sessions r), permits := permits r + 1\<rparr>)
          else (False, r)
      | None \<Rightarrow> (False, r))"

record registry_snapshot =
  total_sessions :: nat
  snap_max_sessions :: nat
  session_timeout_seconds :: nat
  oldest_idle_ms :: u64
  average_idle_ms :: u64

definition saturating_add :: "u64 \<Rightarrow> u64 \<Rightarrow> u64" where
  "saturating_add a b = (if unat a + unat b < 2 ^ 64 then a + b else - 1)"

text \<open>The loop over the entries: \<open>(total_idle_ms, oldest_idle_ms)\<close>.\<close>

fun idle_totals :: "nat \<Rightarrow> ('v, 'b, 's) entry list \<Rightarrow> u64 \<times> u64 \<Rightarrow> u64 \<times> u64" where
  "idle_totals now [] acc = acc"
| "idle_totals now (e # es) (sum_ms, oldest) =
     (let idle = of_nat (idle_duration now e) in
      idle_totals now es (saturating_add sum_ms idle, if oldest < idle then idle else oldest))"

definition snapshot :: "nat \<Rightarrow> ('v, 'b, 's) registry \<Rightarrow> registry_snapshot" where
  "snapshot now r =
     (let n = length (sessions r); (sum_ms, oldest) = idle_totals now (map snd (sessions r)) (0, 0) in
      \<lparr>total_sessions = n, snap_max_sessions = max_sessions r,
       session_timeout_seconds = session_timeout r div 1000, oldest_idle_ms = oldest,
       average_idle_ms = (if n = 0 then 0 else sum_ms div of_nat n)\<rparr>)"

section \<open>The steps of a request for a session\<close>

text \<open>\<open>Path::join\<close>: an absolute component replaces the path.\<close>

definition path_join :: "string \<Rightarrow> string \<Rightarrow> string" where
  "path_join base p =
     (if prefix ''/'' p then p
      else if base = [] \<or> suffix ''/'' base then base @ p else base @ ''/'' @ p)"

definition secret_dir_sql :: "lockdown_template \<Rightarrow> string \<Rightarrow> session_auth option \<Rightarrow> string option" where
  "secret_dir_sql tmpl sid auth = map_option (\<lambda>_. ''SET secret_directory = ''
     @ sql_literal (path_join (path_join (scratch_directory tmpl) ''secrets'') sid)) auth"

text \<open>
  The lookup under the read lock; the permit; the connection, which the factory gives or refuses;
  the registration under the write lock. A request whose future is dropped gives its permit back.
\<close>

definition start_request :: "nat \<Rightarrow> string \<Rightarrow> session_auth option \<Rightarrow> ('v, 'b, 's) registry \<Rightarrow> ('v, 'b, 's) registry" where
  "start_request rid sid auth r =
     r\<lparr>requests := (requests r)(rid \<mapsto>
         (case get_by_id sid r of Some e \<Rightarrow> Found e | None \<Rightarrow> Missed sid auth))\<rparr>"

definition acquire_permit :: "nat \<Rightarrow> string \<Rightarrow> session_auth option \<Rightarrow> ('v, 'b, 's) registry \<Rightarrow> ('v, 'b, 's) registry" where
  "acquire_permit rid sid auth r =
     (if permits r = 0 then r\<lparr>requests := (requests r)(rid \<mapsto> Failed MaxSessionsReached)\<rparr>
      else r\<lparr>permits := permits r - 1, requests := (requests r)(rid \<mapsto> Holding sid auth)\<rparr>)"

definition connection_failed :: "nat \<Rightarrow> server_error \<Rightarrow> ('v, 'b, 's) registry \<Rightarrow> ('v, 'b, 's) registry" where
  "connection_failed rid err r =
     r\<lparr>permits := permits r + 1, requests := (requests r)(rid \<mapsto> Failed err)\<rparr>"

definition new_entry :: "lockdown_template \<Rightarrow> session_auth option \<Rightarrow> string \<Rightarrow> nat \<Rightarrow> ('v, 'b, 's) entry" where
  "new_entry tmpl auth nonce now =
     \<lparr>en_nonce = nonce, en_session = new_session auth (map_option (\<lambda>_. tmpl) auth) now\<rparr>"

definition register_session ::
    "nat \<Rightarrow> string \<Rightarrow> session_auth option \<Rightarrow> string \<Rightarrow> nat \<Rightarrow> ('v, 'b, 's) registry \<Rightarrow> ('v, 'b, 's) registry" where
  "register_session rid sid auth nonce now r =
     (case get_by_id sid r of
        Some e \<Rightarrow> r\<lparr>permits := permits r + 1, requests := (requests r)(rid \<mapsto> Found e)\<rparr>
      | None \<Rightarrow>
          (let e = new_entry (template r) auth nonce now in
           r\<lparr>sessions := (sid, e) # sessions r, requests := (requests r)(rid \<mapsto> Found e)\<rparr>))"

text \<open>
  What can happen next. \<open>Touched\<close> is any operation on a registered session: it replaces the session's
  state, not the entry. An event that does not fit the state of its request does nothing.
\<close>

datatype ('v, 'b, 's) registry_event =
    Start nat string "session_auth option"
  | Acquire nat
  | ConnectionFailed nat server_error
  | Connected nat string nat
  | Abandon nat
  | Remove string string
  | Cleanup nat
  | Touched string "('v, 'b, 's) session"

definition touch_entry :: "string \<Rightarrow> ('v, 'b, 's) session \<Rightarrow> (string \<times> ('v, 'b, 's) entry) list \<Rightarrow> (string \<times> ('v, 'b, 's) entry) list" where
  "touch_entry sid s = map (\<lambda>(k, e). (k, if k = sid then e\<lparr>en_session := s\<rparr> else e))"

fun registry_step :: "('v, 'b, 's) registry \<Rightarrow> ('v, 'b, 's) registry_event \<Rightarrow> ('v, 'b, 's) registry" where
  "registry_step r (Start rid sid auth) =
     (if requests r rid = None then start_request rid sid auth r else r)"
| "registry_step r (Acquire rid) =
     (case requests r rid of Some (Missed sid auth) \<Rightarrow> acquire_permit rid sid auth r | _ \<Rightarrow> r)"
| "registry_step r (ConnectionFailed rid err) =
     (case requests r rid of Some (Holding sid auth) \<Rightarrow> connection_failed rid err r | _ \<Rightarrow> r)"
| "registry_step r (Connected rid nonce now) =
     (case requests r rid of Some (Holding sid auth) \<Rightarrow> register_session rid sid auth nonce now r | _ \<Rightarrow> r)"
| "registry_step r (Abandon rid) =
     (case requests r rid of
        Some (Holding sid auth) \<Rightarrow> r\<lparr>permits := permits r + 1, requests := (requests r)(rid := None)\<rparr>
      | _ \<Rightarrow> r\<lparr>requests := (requests r)(rid := None)\<rparr>)"
| "registry_step r (Remove sid nonce) = snd (remove_session sid nonce r)"
| "registry_step r (Cleanup now) = snd (cleanup_idle_sessions now r)"
| "registry_step r (Touched sid s) = r\<lparr>sessions := touch_entry sid s (sessions r)\<rparr>"

text \<open>A request that nothing interrupts: \<open>get_or_create_by_id_with_auth\<close>.\<close>

definition get_or_create_by_id_with_auth ::
    "string \<Rightarrow> session_auth option \<Rightarrow> server_error + unit \<Rightarrow> string \<Rightarrow> nat \<Rightarrow> ('v, 'b, 's) registry \<Rightarrow>
     (server_error + ('v, 'b, 's) entry) \<times> ('v, 'b, 's) registry" where
  "get_or_create_by_id_with_auth sid auth conn nonce now r =
     (case get_by_id sid r of Some e \<Rightarrow> (Inr e, r)
      | None \<Rightarrow>
          if permits r = 0 then (Inl MaxSessionsReached, r)
          else (case conn of Inl err \<Rightarrow> (Inl err, r)
                | Inr _ \<Rightarrow> (let e = new_entry (template r) auth nonce now in
                    (Inr e, r\<lparr>sessions := (sid, e) # sessions r, permits := permits r - 1\<rparr>))))"

definition get_or_create_by_id ::
    "string \<Rightarrow> server_error + unit \<Rightarrow> string \<Rightarrow> nat \<Rightarrow> ('v, 'b, 's) registry \<Rightarrow>
     (server_error + ('v, 'b, 's) entry) \<times> ('v, 'b, 's) registry" where
  "get_or_create_by_id sid conn nonce now = get_or_create_by_id_with_auth sid None conn nonce now"

section \<open>Permits are conserved\<close>

fun holding :: "('v, 'b, 's) phase option \<Rightarrow> bool" where
  "holding (Some (Holding sid auth)) = True"
| "holding _ = False"

definition holders :: "('v, 'b, 's) registry \<Rightarrow> nat set" where
  "holders r = {rid. holding (requests r rid)}"

definition registry_ok :: "('v, 'b, 's) registry \<Rightarrow> bool" where
  "registry_ok r \<longleftrightarrow> distinct (map fst (sessions r)) \<and> finite (holders r)"

definition registry_used :: "('v, 'b, 's) registry \<Rightarrow> nat" where
  "registry_used r = length (sessions r) + card (holders r)"

lemma holders_upd: "holders (r\<lparr>requests := (requests r)(rid := p)\<rparr>) =
    (if holding p then insert rid (holders r) else holders r - {rid})"
  by (auto simp: holders_def)

lemma holders_eq [simp]:
  "holders (r\<lparr>sessions := ss\<rparr>) = holders r" "holders (r\<lparr>permits := n\<rparr>) = holders r"
  by (simp_all add: holders_def)

lemma holders_more [simp]:
  "holders (r\<lparr>permits := n, requests := m\<rparr>) = holders (r\<lparr>requests := m\<rparr>)"
  "holders (r\<lparr>sessions := ss, requests := m\<rparr>) = holders (r\<lparr>requests := m\<rparr>)"
  by (simp_all add: holders_def)

lemma touch_entry_simps [simp]:
  "map fst (touch_entry sid s es) = map fst es" "length (touch_entry sid s es) = length es"
  by (auto simp: touch_entry_def)

lemma distinct_filter_key: "distinct (map fst es) \<Longrightarrow> distinct (map fst (filter P es))"
  by (rule distinct_map_filter)

lemma length_remove_key:
  "distinct (map fst es) \<Longrightarrow> map_of es sid = Some e \<Longrightarrow>
    Suc (length (filter (\<lambda>(k, _). k \<noteq> sid) es)) = length es"
proof (induction es)
  case (Cons x es)
  show ?case
  proof (cases "fst x = sid")
    case True
    with Cons.prems(1) have "filter (\<lambda>(k, _). k \<noteq> sid) es = es"
      by (auto simp: filter_id_conv image_iff)
    with True show ?thesis by (cases x) simp
  next
    case False
    with Cons show ?thesis by (auto simp: case_prod_beta)
  qed
qed simp

lemma map_of_None: "map_of es sid = None \<Longrightarrow> sid \<notin> set (map fst es)"
  by (simp add: map_of_eq_None_iff)

lemma holder_card:
  "requests r rid = Some (Holding sid auth) \<Longrightarrow> finite (holders r) \<Longrightarrow>
    Suc (card (holders r - {rid})) = card (holders r)"
  using card_Suc_Diff1 [of "holders r" rid] by (simp add: holders_def)

lemma registry_step_ok: "registry_ok r \<Longrightarrow> registry_ok (registry_step r ev)"
  by (cases ev)
    (auto simp: registry_ok_def holders_upd start_request_def acquire_permit_def connection_failed_def
      register_session_def remove_session_def cleanup_idle_sessions_def get_by_id_def Let_def
      distinct_filter_key dest: map_of_None split: option.splits phase.splits)

lemma registry_step_conserved:
  assumes "registry_ok r"
  shows "permits (registry_step r ev) + registry_used (registry_step r ev) = permits r + registry_used r"
proof (cases ev)
  case (Start rid sid auth)
  have "requests r rid = None \<Longrightarrow> rid \<notin> holders r" by (simp add: holders_def)
  with Start show ?thesis
    by (auto simp: registry_used_def start_request_def holders_upd split: option.splits)
next
  case (Acquire rid)
  have "requests r rid = Some (Missed sid auth) \<Longrightarrow> rid \<notin> holders r" for sid auth
    by (simp add: holders_def)
  with Acquire assms show ?thesis
    by (auto simp: registry_used_def registry_ok_def acquire_permit_def holders_upd
        split: option.splits phase.splits)
next
  case (ConnectionFailed rid err)
  with assms holder_card [of r rid] show ?thesis
    by (auto simp: registry_used_def registry_ok_def connection_failed_def holders_upd
        split: option.splits phase.splits)
next
  case (Connected rid nonce now)
  with assms holder_card [of r rid] show ?thesis
    by (auto simp: registry_used_def registry_ok_def register_session_def holders_upd Let_def
        split: option.splits phase.splits)
next
  case (Abandon rid)
  have "\<not> holding (requests r rid) \<Longrightarrow> holders r - {rid} = holders r" by (auto simp: holders_def)
  with Abandon assms holder_card [of r rid] show ?thesis
    by (auto simp: registry_used_def registry_ok_def holders_upd split: option.splits phase.splits)
next
  case (Remove sid nonce)
  with assms length_remove_key [of "sessions r" sid] show ?thesis
    by (auto simp: registry_used_def registry_ok_def remove_session_def get_by_id_def split: option.splits)
next
  case (Cleanup now)
  then show ?thesis
    using length_filter_le [of "\<lambda>(sid, e). \<not> session_timeout r < idle_duration now e" "sessions r"]
    by (simp add: registry_used_def cleanup_idle_sessions_def Let_def del: length_filter_le)
next
  case (Touched sid s)
  then show ?thesis by (simp add: registry_used_def)
qed

interpretation registry: capacity registry_step registry_ok permits registry_used
  by unfold_locales (auto simp: registry_step_ok registry_step_conserved)

lemma registry_new_ok: "registry_ok (registry_new mx timeout tmpl)"
  by (simp add: registry_ok_def registry_new_def holders_def Let_def)

lemma registry_new_total: "permits (registry_new mx timeout tmpl) + registry_used (registry_new mx timeout tmpl)
    = max_sessions (registry_new mx timeout tmpl)"
  by (simp add: registry_used_def registry_new_def holders_def Let_def)

lemma max_sessions_const [simp]: "max_sessions (foldl registry_step r evs) = max_sessions r"
proof (induction evs arbitrary: r)
  case (Cons ev evs)
  have "max_sessions (registry_step r ev) = max_sessions r"
    by (cases ev) (auto simp: start_request_def acquire_permit_def connection_failed_def
      register_session_def remove_session_def cleanup_idle_sessions_def Let_def split: option.splits phase.splits)
  with Cons.IH show ?case by simp
qed simp

section \<open>Properties\<close>

text \<open>
  C11: the session limit holds under every interleaving. After any sequence of the steps of any
  number of requests, of closes, idle sweeps and dropped requests, the free permits, the registered
  sessions and the requests that are connecting add up to \<open>max_sessions\<close>, and no id has two sessions:
  no permit is lost or duplicated, and the registry never holds more than the limit.
\<close>

theorem registry_capacity:
  fixes evs :: "('v, 'b, 's) registry_event list"
  shows "let r = foldl registry_step (registry_new mx timeout tmpl) evs in
    permits r + length (sessions r) + card (holders r) = max_sessions r
    \<and> length (sessions r) \<le> max_sessions r \<and> distinct (map fst (sessions r))"
proof -
  define r0 :: "('v, 'b, 's) registry" where "r0 = registry_new mx timeout tmpl"
  have "permits (foldl registry_step r0 evs) + registry_used (foldl registry_step r0 evs) = max_sessions r0"
    using registry.run_conserved [OF registry_new_ok] registry_new_total unfolding r0_def by metis
  moreover have "registry_ok (foldl registry_step r0 evs)"
    unfolding r0_def by (rule registry.run_ok [OF registry_new_ok])
  ultimately show ?thesis
    by (auto simp: registry_used_def registry_ok_def Let_def simp flip: r0_def)
qed

lemma touch_entry_map_of:
  "map_of (touch_entry sid s es) k =
     map_option (\<lambda>e. if k = sid then e\<lparr>en_session := s\<rparr> else e) (map_of es k)"
  by (induction es) (auto simp: touch_entry_def)

lemma map_of_filter_key: "map_of (filter (\<lambda>(k, _). k \<noteq> sid) es) k = (if k = sid then None else map_of es k)"
  by (induction es) auto

lemma map_of_filter_entry:
  "distinct (map fst es) \<Longrightarrow>
    map_of (filter (\<lambda>(k, e). P e) es) k = (case map_of es k of Some e \<Rightarrow> if P e then Some e else None | None \<Rightarrow> None)"
proof (induction es)
  case (Cons x es)
  then have "fst x \<notin> set (map fst es)" by simp
  then have "map_of es (fst x) = None" by (simp add: map_of_eq_None_iff)
  with Cons show ?case by (cases x) (auto split: option.splits)
qed simp

text \<open>
  C10: a live session is never replaced. Whatever request, connection or registration comes next, an
  id that has a session keeps that very session, with its nonce; only a close with its nonce or the
  idle sweep ends it, and the sweep only when it has been idle for longer than the timeout.
\<close>

theorem session_never_replaced:
  assumes "registry_ok r" "get_by_id sid r = Some e"
  shows "case get_by_id sid (registry_step r ev) of
      Some e' \<Rightarrow> en_nonce e' = en_nonce e
        \<and> (e' = e \<or> (\<exists>s. ev = Touched sid s \<and> e' = e\<lparr>en_session := s\<rparr>))
    | None \<Rightarrow> ev = Remove sid (en_nonce e)
        \<or> (\<exists>now. ev = Cleanup now \<and> session_timeout r < idle_duration now e)"
proof (cases ev)
  case (Cleanup now)
  have "map_of (filter (\<lambda>(k, x). \<not> session_timeout r < idle_duration now x) (sessions r)) sid
      = (if \<not> session_timeout r < idle_duration now e then Some e else None)"
    using assms map_of_filter_entry [of "sessions r" "\<lambda>x. \<not> session_timeout r < idle_duration now x" sid]
    by (simp add: registry_ok_def get_by_id_def)
  with Cleanup show ?thesis by (simp add: cleanup_idle_sessions_def Let_def get_by_id_def)
qed (use assms in \<open>auto simp: get_by_id_def start_request_def acquire_permit_def connection_failed_def
    register_session_def remove_session_def touch_entry_map_of map_of_filter_key Let_def
    split: option.splits phase.splits\<close>)

text \<open>
  Closing a session removes the incarnation the caller checked. \<open>remove\<close> succeeds exactly when the
  id's session has the given nonce; then the id is free, one permit is back and every other session
  stays. Otherwise nothing changes.
\<close>

theorem remove_checks_incarnation:
  "case remove_session sid nonce r of (removed, r') \<Rightarrow>
    (removed \<longleftrightarrow> (\<exists>e. get_by_id sid r = Some e \<and> en_nonce e = nonce))
    \<and> (if removed then permits r' = permits r + 1
          \<and> (\<forall>k. get_by_id k r' = (if k = sid then None else get_by_id k r))
        else r' = r)"
  by (auto simp: remove_session_def get_by_id_def map_of_filter_key split: option.splits)



lemma session_never_replaced_witness:
  "let r = snd (get_or_create_by_id_with_auth ''a'' None (Inr ()) ''n'' 5
        (registry_new (Some 1) None sample_template)) :: (nat, nat, nat) registry in
    case get_by_id ''a'' (registry_step r (Connected 3 ''m'' 9)) of
      Some e' \<Rightarrow> en_nonce e' = ''n'' | None \<Rightarrow> False"
proof -
  let ?r = "snd (get_or_create_by_id_with_auth ''a'' None (Inr ()) ''n'' 5
        (registry_new (Some 1) None sample_template)) :: (nat, nat, nat) registry"
  have "registry_ok ?r" "get_by_id ''a'' ?r = Some (new_entry sample_template None ''n'' 5)"
    by (simp_all add: registry_ok_def get_or_create_by_id_with_auth_def registry_new_def get_by_id_def
        new_entry_def holders_def Let_def)
  from session_never_replaced [OF this, of "Connected 3 ''m'' 9"] show ?thesis
    by (auto simp: Let_def new_entry_def split: option.splits)
qed

text \<open>
  A client-chosen session id is joined to the scratch path as it is: an absolute id takes its place.
\<close>

lemma secret_dir_absolute_id:
  "prefix ''/'' sid \<Longrightarrow> secret_dir_sql tmpl sid (Some a) = Some (''SET secret_directory = '' @ sql_literal sid)"
  by (simp add: secret_dir_sql_def path_join_def)

end
