(* ===== verification/Json.thy ===== *)
theory Json
  imports Ids
begin

text \<open>
  JSON values as \<^verbatim>\<open>serde_json\<close> gives them to the code. Parsing and printing belong to that library.
\<close>

text \<open>\<open>serde_json::Value\<close>; \<open>JInt\<close> is a number that \<open>as_i64\<close> accepts.\<close>

datatype json = JNull | JBool bool | JInt u64 | JNumber | JStr string | JArr "json list"
  | JObj "(string \<times> json) list"

text \<open>\<open>Value::get\<close> and \<open>as_str\<close>, \<open>as_i64\<close>.\<close>

fun json_get :: "string \<Rightarrow> json \<Rightarrow> json option" where
  "json_get k (JObj kvs) = map_of kvs k"
| "json_get k _ = None"

fun as_str :: "json option \<Rightarrow> string option" where
  "as_str (Some (JStr s)) = Some s"
| "as_str _ = None"

fun as_i64 :: "json option \<Rightarrow> u64 option" where
  "as_i64 (Some (JInt n)) = Some n"
| "as_i64 _ = None"

end
