(* ===== verification/Duckvis_Auth.thy ===== *)
theory Duckvis_Auth
  imports Errors Json
begin

text \<open>
  Token validation in duckvis mode: \<^verbatim>\<open>duckvis/jwt.rs\<close>, the key set cache of \<^verbatim>\<open>duckvis/jwks.rs\<close> and
  \<open>validate_token\<close> of \<^verbatim>\<open>duckvis/mod.rs\<close>. Base64, JSON and the signature scheme are other crates':
  \<open>crypto\<close> holds them as parameters. Bytes are characters here, as in the text routines.
\<close>

section \<open>The libraries\<close>

record 'k crypto =
  b64_decode :: "string \<Rightarrow> string option"
  parse_json :: "string \<Rightarrow> json option"
  verify_strict :: "'k \<Rightarrow> string \<Rightarrow> string \<Rightarrow> bool"
  key_from_bytes :: "string \<Rightarrow> 'k option"

section \<open>jwt.rs\<close>

datatype actor_kind = Human | Service

record duckvis_claims =
  cl_sub :: string
  cl_actor :: actor_kind

definition clock_skew :: u64 where
  "clock_skew = 30"

definition aud_swanlake :: string where
  "aud_swanlake = ''swanlake''"

definition decode_json :: "'k crypto \<Rightarrow> string \<Rightarrow> duckvis_error + json" where
  "decode_json cr segment =
     ok_or Unauthenticated (Option.bind (b64_decode cr segment) (parse_json cr))"

text \<open>
  \<open>i64\<close> values are words read with \<open>sint\<close>: \<open>exp + 30\<close> and \<open>nbf - 30\<close> wrap, as in a release build.
\<close>

definition within_skew :: "u64 \<Rightarrow> u64 \<Rightarrow> u64 \<Rightarrow> bool" where
  "within_skew now ex nbf \<longleftrightarrow> sint now < sint (ex + clock_skew) \<and> sint (nbf - clock_skew) \<le> sint now"

definition actor_of :: "string option \<Rightarrow> actor_kind option" where
  "actor_of s = (if s = Some ''human'' then Some Human
     else if s = Some ''service'' then Some Service else None)"

definition check_claims :: "json \<Rightarrow> string \<Rightarrow> u64 \<Rightarrow> duckvis_error + duckvis_claims" where
  "check_claims payload iss now =
     (case payload of JObj obj \<Rightarrow>
        (case (as_i64 (map_of obj ''exp''), as_i64 (map_of obj ''nbf'')) of
           (Some ex, Some nbf) \<Rightarrow>
             if \<not> within_skew now ex nbf then Inl Unauthenticated
             else if as_str (map_of obj ''iss'') \<noteq> Some iss then Inl Unauthenticated
             else (case actor_of (as_str (map_of obj ''actor_kind'')) of None \<Rightarrow> Inl Unauthenticated
               | Some actor \<Rightarrow>
                   (case as_str (map_of obj ''sub'') of None \<Rightarrow> Inl Unauthenticated
                    | Some s \<Rightarrow>
                        if s = [] then Inl Unauthenticated
                        else if as_str (map_of obj ''aud'') \<noteq> Some aud_swanlake then Inl Unauthenticated
                        else Inr \<lparr>cl_sub = s, cl_actor = actor\<rparr>))
         | _ \<Rightarrow> Inl Unauthenticated)
      | _ \<Rightarrow> Inl Unauthenticated)"

definition verify_and_decode ::
    "'k crypto \<Rightarrow> string \<Rightarrow> string \<Rightarrow> u64 \<Rightarrow> (string \<Rightarrow> 'k option) \<Rightarrow> duckvis_error + duckvis_claims" where
  "verify_and_decode cr jwt iss now lookup_key =
     (case split_char (CHR ''.'') jwt of
        [h, p, s] \<Rightarrow>
          try_ok (decode_json cr h) (\<lambda>header.
          if as_str (json_get ''alg'' header) \<noteq> Some ''EdDSA'' then Inl Unauthenticated
          else try_ok (ok_or Unauthenticated (as_str (json_get ''kid'' header))) (\<lambda>kid.
          try_ok (ok_or Unauthenticated (lookup_key kid)) (\<lambda>vk.
          case b64_decode cr s of None \<Rightarrow> Inl Unauthenticated
          | Some sig \<Rightarrow>
              if length sig \<noteq> 64 then Inl Unauthenticated
              else if \<not> verify_strict cr vk (h @ ''.'' @ p) sig then Inl Unauthenticated
              else try_ok (decode_json cr p) (\<lambda>payload. check_claims payload iss now))))
      | _ \<Rightarrow> Inl Unauthenticated)"

section \<open>jwks.rs\<close>

record jwk_entry =
  jwk_kty :: string
  jwk_crv :: "string option"
  jwk_kid :: string
  jwk_x :: string

text \<open>Instants and durations are milliseconds; \<open>Instant::elapsed\<close> saturates at zero.\<close>

record 'k jwks_cache =
  jc_keys :: "string \<rightharpoonup> 'k"
  jc_etag :: "string option"
  jc_fetched_at :: "nat option"
  jc_last_forced :: "nat option"
  jc_max_age :: nat

definition forced_refresh_floor :: nat where
  "forced_refresh_floor = 10 * 1000"

definition jwks_new :: "nat \<Rightarrow> 'k jwks_cache" where
  "jwks_new fallback_secs = \<lparr>jc_keys = Map.empty, jc_etag = None, jc_fetched_at = None,
     jc_last_forced = None, jc_max_age = fallback_secs * 1000\<rparr>"

definition is_stale :: "nat \<Rightarrow> 'k jwks_cache \<Rightarrow> bool" where
  "is_stale now c = (case jc_fetched_at c of None \<Rightarrow> True | Some at \<Rightarrow> jc_max_age c \<le> now - at)"

definition can_force_refresh :: "nat \<Rightarrow> 'k jwks_cache \<Rightarrow> bool" where
  "can_force_refresh now c =
     (case jc_last_forced c of None \<Rightarrow> True | Some at \<Rightarrow> forced_refresh_floor \<le> now - at)"

datatype 'k fetch_outcome = NotModified | Updated "string \<rightharpoonup> 'k" "string option" "nat option"

definition mark_forced :: "nat \<Rightarrow> 'k jwks_cache \<Rightarrow> 'k jwks_cache" where
  "mark_forced now c = c\<lparr>jc_last_forced := Some now\<rparr>"

fun apply_outcome :: "nat \<Rightarrow> 'k fetch_outcome \<Rightarrow> 'k jwks_cache \<Rightarrow> 'k jwks_cache" where
  "apply_outcome now NotModified c = c\<lparr>jc_fetched_at := Some now\<rparr>"
| "apply_outcome now (Updated ks etag max_age) c =
     c\<lparr>jc_keys := ks, jc_etag := etag, jc_fetched_at := Some now,
       jc_max_age := (case max_age of Some m \<Rightarrow> m | None \<Rightarrow> jc_max_age c)\<rparr>"

definition parse_okp_key :: "'k crypto \<Rightarrow> jwk_entry \<Rightarrow> 'k option" where
  "parse_okp_key cr e =
     (if jwk_kty e \<noteq> ''OKP'' then None
      else if jwk_crv e \<noteq> None \<and> jwk_crv e \<noteq> Some ''Ed25519'' then None
      else Option.bind (b64_decode cr (jwk_x e))
        (\<lambda>bytes. if length bytes = 32 then key_from_bytes cr bytes else None))"

definition parse_max_age :: "string option \<Rightarrow> nat option" where
  "parse_max_age cache_control = Option.bind cache_control (\<lambda>cc.
     first_some (\<lambda>directive.
       (let d = trim directive in
        if prefix ''max-age='' d then map_option (\<lambda>n. n * 1000) (parse_u64 (trim (drop 8 d))) else None))
       (split_char (CHR '','') cc))"

text \<open>An HTTP response: status, headers, and the body when it parses.\<close>

record http_response =
  rs_status :: nat
  rs_etag :: "string option"
  rs_cache_control :: "string option"
  rs_body :: "jwk_entry list option"

definition jwks_keys :: "'k crypto \<Rightarrow> jwk_entry list \<Rightarrow> (string \<rightharpoonup> 'k)" where
  "jwks_keys cr es = foldl (\<lambda>m e. case parse_okp_key cr e of Some vk \<Rightarrow> m(jwk_kid e \<mapsto> vk) | None \<Rightarrow> m) Map.empty es"

text \<open>\<open>None\<close> is a request that failed on the way.\<close>

definition fetch :: "'k crypto \<Rightarrow> http_response option \<Rightarrow> duckvis_error + 'k fetch_outcome" where
  "fetch cr resp =
     (case resp of None \<Rightarrow> Inl Unavailable
      | Some r \<Rightarrow>
          if rs_status r = 304 then Inr NotModified
          else if \<not> (200 \<le> rs_status r \<and> rs_status r < 300) then Inl Unavailable
          else (case rs_body r of None \<Rightarrow> Inl Unavailable
            | Some es \<Rightarrow> Inr (Updated (jwks_keys cr es) (rs_etag r) (parse_max_age (rs_cache_control r)))))"

definition refresh :: "'k crypto \<Rightarrow> nat \<Rightarrow> http_response option \<Rightarrow> bool \<Rightarrow> 'k jwks_cache \<Rightarrow> 'k jwks_cache" where
  "refresh cr now resp forced c =
     (case fetch cr resp of Inl _ \<Rightarrow> c
      | Inr outcome \<Rightarrow> apply_outcome now outcome (if forced then mark_forced now c else c))"

section \<open>validate\_token\<close>

text \<open>
  \<open>now\<close> is the monotonic clock, \<open>now_secs\<close> the wall clock; \<open>r1\<close> and \<open>r2\<close> are the answers that the two
  possible fetches would get. The result is paired with the cache after it.
\<close>

definition validate_token ::
    "'k crypto \<Rightarrow> string \<Rightarrow> nat \<Rightarrow> u64 \<Rightarrow> http_response option \<Rightarrow> http_response option \<Rightarrow> string \<Rightarrow>
     'k jwks_cache \<Rightarrow> (duckvis_error + duckvis_claims) \<times> 'k jwks_cache" where
  "validate_token cr issuer now now_secs r1 r2 jwt c0 =
     (let c1 = (if is_stale now c0 then refresh cr now r1 False c0 else c0) in
      case verify_and_decode cr jwt issuer now_secs (jc_keys c1) of
        Inr claims \<Rightarrow> (Inr claims, c1)
      | Inl Unauthenticated \<Rightarrow>
          if can_force_refresh now c1 then
            (let c2 = refresh cr now r2 True c1 in
             (verify_and_decode cr jwt issuer now_secs (jc_keys c2), c2))
          else (Inl Unauthenticated, c1)
      | Inl other \<Rightarrow> (Inl other, c1))"

section \<open>Lemmas\<close>

lemma split_char_ne [simp]: "split_char c s \<noteq> []"
  by (induction s) (auto split: list.splits)

lemma split_char_join: "join [c] (split_char c s) = s"
proof (induction s)
  case (Cons d s)
  obtain p ps where "split_char c s = p # ps" by (cases "split_char c s") auto
  with Cons show ?case by (cases ps) auto
qed simp

lemma split_char_no_sep: "p \<in> set (split_char c s) \<Longrightarrow> c \<notin> set p"
proof (induction s arbitrary: p)
  case (Cons d s)
  then show ?case by (cases "split_char c s") (auto split: if_splits)
qed simp

lemma verify_error: "verify_and_decode cr jwt iss now lk = Inl e \<Longrightarrow> e = Unauthenticated"
  by (auto simp: verify_and_decode_def check_claims_def decode_json_def ok_or_def
      split: list.splits option.splits if_splits json.splits sum.splits
      elim!: try_ok.elims)

lemma check_claims_Inr:
  "check_claims payload iss now = Inr cl \<longleftrightarrow>
    (\<exists>obj ex nbf. payload = JObj obj \<and> as_i64 (map_of obj ''exp'') = Some ex
      \<and> as_i64 (map_of obj ''nbf'') = Some nbf \<and> within_skew now ex nbf
      \<and> as_str (map_of obj ''iss'') = Some iss
      \<and> actor_of (as_str (map_of obj ''actor_kind'')) = Some (cl_actor cl)
      \<and> as_str (map_of obj ''sub'') = Some (cl_sub cl) \<and> cl_sub cl \<noteq> []
      \<and> as_str (map_of obj ''aud'') = Some aud_swanlake)"
  unfolding check_claims_def by (cases cl) (auto split: json.splits option.splits)

lemma ok_or_Inr: "ok_or e m = Inr x \<longleftrightarrow> m = Some x"
  by (cases m) auto

lemma verify_Inr:
  "verify_and_decode cr jwt iss now lk = Inr cl \<longleftrightarrow>
    (\<exists>h p s header kid vk sig payload. split_char (CHR ''.'') jwt = [h, p, s]
      \<and> decode_json cr h = Inr header \<and> as_str (json_get ''alg'' header) = Some ''EdDSA''
      \<and> as_str (json_get ''kid'' header) = Some kid \<and> lk kid = Some vk
      \<and> b64_decode cr s = Some sig \<and> length sig = 64 \<and> verify_strict cr vk (h @ ''.'' @ p) sig
      \<and> decode_json cr p = Inr payload \<and> check_claims payload iss now = Inr cl)"
  (is "?l = ?r")
proof
  assume ?l
  then show ?r
    unfolding verify_and_decode_def
    by (auto simp: run_simps ok_or_Inr split: list.splits option.splits if_splits)
next
  assume ?r
  then show ?l unfolding verify_and_decode_def by (elim exE conjE) simp
qed

lemma sint_add_exact:
  fixes a b :: u64
  shows "- (2 ^ 63) \<le> sint a + sint b \<Longrightarrow> sint a + sint b < 2 ^ 63 \<Longrightarrow> sint (a + b) = sint a + sint b"
  and "- (2 ^ 63) \<le> sint a - sint b \<Longrightarrow> sint a - sint b < 2 ^ 63 \<Longrightarrow> sint (a - b) = sint a - sint b"
  by (simp_all add: sint_word_ariths signed_take_bit_int_eq_self)

lemma last_forced_apply: "jc_last_forced (apply_outcome now b c) = jc_last_forced c"
  by (cases b) simp_all

section \<open>Properties\<close>

text \<open>
  What an accepted token is. A bearer token is accepted exactly when it has three dot-separated
  parts, its header names EdDSA and a key that the lookup knows, that key verifies the third part
  over exactly the first two as they were sent, and the payload's claims are all right: within the
  clock skew, the configured issuer, a known actor kind, a non-empty subject, which becomes the
  session's, and the audience. Every rejection is the one error \<open>Unauthenticated\<close>.
\<close>

theorem token_accepted_iff:
  "(verify_and_decode cr jwt iss now lk = Inr cl \<longleftrightarrow>
    (\<exists>h p s header kid vk sig obj ex nbf. split_char (CHR ''.'') jwt = [h, p, s]
      \<and> jwt = h @ ''.'' @ p @ ''.'' @ s
      \<and> decode_json cr h = Inr header \<and> as_str (json_get ''alg'' header) = Some ''EdDSA''
      \<and> as_str (json_get ''kid'' header) = Some kid \<and> lk kid = Some vk
      \<and> b64_decode cr s = Some sig \<and> length sig = 64 \<and> verify_strict cr vk (h @ ''.'' @ p) sig
      \<and> decode_json cr p = Inr (JObj obj) \<and> as_i64 (map_of obj ''exp'') = Some ex
      \<and> as_i64 (map_of obj ''nbf'') = Some nbf \<and> within_skew now ex nbf
      \<and> as_str (map_of obj ''iss'') = Some iss
      \<and> actor_of (as_str (map_of obj ''actor_kind'')) = Some (cl_actor cl)
      \<and> as_str (map_of obj ''sub'') = Some (cl_sub cl) \<and> cl_sub cl \<noteq> []
      \<and> as_str (map_of obj ''aud'') = Some aud_swanlake))
    \<and> (verify_and_decode cr jwt iss now lk \<in> range Inr \<union> {Inl Unauthenticated})"
proof (intro conjI)
  have j: "split_char (CHR ''.'') jwt = [h, p, s] \<Longrightarrow> jwt = h @ ''.'' @ p @ ''.'' @ s" for h p s
    using split_char_join [of "CHR ''.''" jwt] by simp
  show "(verify_and_decode cr jwt iss now lk = Inr cl) \<longleftrightarrow> (\<exists>h p s header kid vk sig obj ex nbf.
      split_char (CHR ''.'') jwt = [h, p, s] \<and> jwt = h @ ''.'' @ p @ ''.'' @ s
      \<and> decode_json cr h = Inr header \<and> as_str (json_get ''alg'' header) = Some ''EdDSA''
      \<and> as_str (json_get ''kid'' header) = Some kid \<and> lk kid = Some vk
      \<and> b64_decode cr s = Some sig \<and> length sig = 64 \<and> verify_strict cr vk (h @ ''.'' @ p) sig
      \<and> decode_json cr p = Inr (JObj obj) \<and> as_i64 (map_of obj ''exp'') = Some ex
      \<and> as_i64 (map_of obj ''nbf'') = Some nbf \<and> within_skew now ex nbf
      \<and> as_str (map_of obj ''iss'') = Some iss
      \<and> actor_of (as_str (map_of obj ''actor_kind'')) = Some (cl_actor cl)
      \<and> as_str (map_of obj ''sub'') = Some (cl_sub cl) \<and> cl_sub cl \<noteq> []
      \<and> as_str (map_of obj ''aud'') = Some aud_swanlake)"
    unfolding verify_Inr check_claims_Inr using j by blast
  show "verify_and_decode cr jwt iss now lk \<in> range Inr \<union> {Inl Unauthenticated}"
    by (cases "verify_and_decode cr jwt iss now lk") (auto dest: verify_error)
qed

text \<open>
  The clock skew is symmetric and exact away from the ends of \<open>i64\<close>: a token is in time from 30
  seconds before \<open>nbf\<close> until, and not including, 30 seconds after \<open>exp\<close>. At the ends the sum wraps and the
  token is refused.
\<close>

theorem skew_exact:
  assumes "sint ex \<le> 2 ^ 63 - 31" "- (2 ^ 63) + 30 \<le> sint nbf"
  shows "within_skew now ex nbf \<longleftrightarrow> sint nbf - 30 \<le> sint now \<and> sint now < sint ex + 30"
proof -
  have "sint (30 :: u64) = 30" by simp
  moreover have "- (2 ^ 63) \<le> sint ex" "sint nbf < 2 ^ 63"
    using sint_ge [of ex] sint_lt [of nbf] by simp_all
  ultimately have "sint (ex + 30) = sint ex + 30" "sint (nbf - 30) = sint nbf - 30"
    using assms sint_add_exact [of ex 30] sint_add_exact(2) [of nbf 30] by simp_all
  then show ?thesis by (auto simp: within_skew_def clock_skew_def)
qed

lemma skew_exact_witness:
  "within_skew 1000 970 1030 = (sint (1030 :: u64) - 30 \<le> sint (1000 :: u64) \<and> sint (1000 :: u64) < sint (970 :: u64) + 30)"
  by (rule skew_exact) simp_all


text \<open>A library that knows one token, \<open>h.p.s\<close>, and a key server with its key.\<close>

definition sample_crypto :: "nat crypto" where
  "sample_crypto = \<lparr>b64_decode = (\<lambda>s. Some (if s = ''s'' then replicate 64 (CHR ''0'')
       else if s = ''x'' then replicate 32 (CHR ''0'') else s)),
     parse_json = (\<lambda>s. if s = ''h'' then Some (JObj [(''alg'', JStr ''EdDSA''), (''kid'', JStr ''k'')])
       else if s = ''p'' then Some (JObj [(''exp'', JInt 200), (''nbf'', JInt 50), (''iss'', JStr ''i''),
         (''actor_kind'', JStr ''human''), (''sub'', JStr ''u''), (''aud'', JStr ''swanlake'')])
       else None),
     verify_strict = (\<lambda>k m s. k = 7 \<and> m = ''h.p''), key_from_bytes = (\<lambda>b. Some 7)\<rparr>"

definition sample_response :: http_response where
  "sample_response = \<lparr>rs_status = 200, rs_etag = None, rs_cache_control = None,
     rs_body = Some [\<lparr>jwk_kty = ''OKP'', jwk_crv = None, jwk_kid = ''k'', jwk_x = ''x''\<rparr>]\<rparr>"

lemma sample_refresh:
  "refresh sample_crypto 5 (Some sample_response) False (jwks_new 300)
    = (jwks_new 300)\<lparr>jc_keys := [''k'' \<mapsto> 7], jc_fetched_at := Some 5\<rparr>"
  by (simp add: refresh_def fetch_def sample_response_def jwks_keys_def parse_okp_key_def sample_crypto_def
      parse_max_age_def jwks_new_def)

lemma sample_verified:
  "verify_and_decode sample_crypto ''h.p.s'' ''i'' 100 [''k'' \<mapsto> 7] = Inr \<lparr>cl_sub = ''u'', cl_actor = Human\<rparr>"
  by (simp add: verify_and_decode_def decode_json_def sample_crypto_def check_claims_def within_skew_def
      clock_skew_def actor_of_def aud_swanlake_def)


text \<open>
  A forced refresh that fails is not recorded: the next unknown key may force another at once.
\<close>

lemma failed_forced_refresh_unlimited:
  "can_force_refresh now c \<Longrightarrow> can_force_refresh now (refresh cr now None True c)"
  by (simp add: refresh_def fetch_def)

end
