(* ===== verification/Gate.thy ===== *)
theory Gate
  imports Registry Duckvis_Auth
begin

text \<open>
  The request gate of \<^verbatim>\<open>service/mod.rs\<close>: the session id of a request, \<open>prepare_request\<close> with its nonce
  check, the duckvis gate that binds a session to the bearer token's subject and project, and the raw
  SQL passthrough. Token validation, the authorization service, the connection factory and the
  random nonce are in \<open>gate_env\<close>; between the gate's lookup and its creation of a session other
  requests may change the registry in any way (\<open>g_others\<close>).
\<close>

datatype session_id_mode = PeerAddr | PeerIp

text \<open>The metadata of a request: the headers whose value is visible ASCII, and the peer's address.\<close>

record rpc_request =
  rq_headers :: "string \<rightharpoonup> string"
  rq_remote_addr :: "(string \<times> string) option"

definition duckvis_project_header :: "rpc_request \<Rightarrow> string option" where
  "duckvis_project_header rq = Option.bind (rq_headers rq ''x-duckvis-project-id'')
     (\<lambda>v. if trim v = [] then None else Some (trim v))"

definition nonempty_header :: "string \<Rightarrow> rpc_request \<Rightarrow> string option" where
  "nonempty_header name rq = Option.bind (rq_headers rq name) (\<lambda>v. if v = [] then None else Some v)"

text \<open>\<open>uuid\<close> is the random id of a request without a peer address.\<close>

definition extract_session_id :: "session_id_mode \<Rightarrow> string \<Rightarrow> rpc_request \<Rightarrow> string" where
  "extract_session_id mode uuid rq =
     (case nonempty_header ''airport-client-session-id'' rq of Some v \<Rightarrow> v
      | None \<Rightarrow>
          (case nonempty_header ''x-session-id'' rq of Some v \<Rightarrow> v
           | None \<Rightarrow>
               (case (mode, rq_remote_addr rq) of
                  (PeerAddr, Some (addr, _)) \<Rightarrow> addr
                | (PeerIp, Some (_, ip)) \<Rightarrow> ip
                | (_, None) \<Rightarrow> uuid)))"

record ('v, 'b, 's) gate_env =
  g_validate :: "string \<Rightarrow> duckvis_error + duckvis_claims"
  g_view :: "string \<Rightarrow> string \<Rightarrow> duckvis_error + bool"
  g_mutate :: "string \<Rightarrow> string \<Rightarrow> duckvis_error + bool"
  g_read_only :: bool
  g_others :: "('v, 'b, 's) registry \<Rightarrow> ('v, 'b, 's) registry"
  g_connection :: "server_error + unit"
  g_nonce :: string
  g_now :: nat

definition bearer_token :: "rpc_request \<Rightarrow> string option" where
  "bearer_token rq = Option.bind (rq_headers rq ''authorization'')
     (\<lambda>s. Option.bind (case strip_prefix ''Bearer '' s of Some t \<Rightarrow> Some t | None \<Rightarrow> strip_prefix ''bearer '' s)
       (\<lambda>t. if trim t = [] then None else Some (trim t)))"

definition recreated_status :: "string \<Rightarrow> string \<Rightarrow> status" where
  "recreated_status expected got = mk_status CodeFailedPrecondition
     (''session was recreated: expected nonce '' @ expected @ '', got '' @ got)"

definition missing_auth_status :: status where
  "missing_auth_status = mk_status CodeInternal ''session missing duckvis auth binding''"

definition into_status_err :: "duckvis_error + 'a \<Rightarrow> status + 'a" where
  "into_status_err r = (case r of Inl e \<Rightarrow> Inl (into_status e) | Inr x \<Rightarrow> Inr x)"

text \<open>Step (3): the session is there; its binding must match.\<close>

definition check_existing :: "duckvis_claims \<Rightarrow> string option \<Rightarrow> ('v, 'b, 's) entry \<Rightarrow> status + ('v, 'b, 's) entry" where
  "check_existing claims project e =
     (case s_auth (en_session e) of None \<Rightarrow> Inl missing_auth_status
      | Some auth \<Rightarrow>
          if subject auth \<noteq> cl_sub claims then Inl (into_status SessionSubjectMismatch)
          else (case project of
              Some p \<Rightarrow> if p \<noteq> project_id auth then Inl (into_status SessionProjectMismatch) else Inr e
            | None \<Rightarrow> Inr e))"

text \<open>The writer capability of a new session.\<close>

definition writer_capability :: "('v, 'b, 's) gate_env \<Rightarrow> string \<Rightarrow> string \<Rightarrow> duckvis_error + bool" where
  "writer_capability ge sub' project = (if g_read_only ge then Inr False else g_mutate ge sub' project)"

text \<open>Step (4): authorize, create, and verify that the session is the one that was asked for.\<close>

definition bind_session ::
    "('v, 'b, 's) gate_env \<Rightarrow> string \<Rightarrow> duckvis_claims \<Rightarrow> string option \<Rightarrow> ('v, 'b, 's) registry \<Rightarrow>
     (status + ('v, 'b, 's) entry) \<times> ('v, 'b, 's) registry" where
  "bind_session ge sid claims project r =
     (case project of None \<Rightarrow> (Inl (into_status InvalidArgument), r)
      | Some p \<Rightarrow>
          (case g_view ge (cl_sub claims) p of
             Inl e \<Rightarrow> (Inl (into_status e), r)
           | Inr False \<Rightarrow> (Inl (into_status PermissionDenied), r)
           | Inr True \<Rightarrow>
               (case writer_capability ge (cl_sub claims) p of
                  Inl e \<Rightarrow> (Inl (into_status e), r)
                | Inr w \<Rightarrow>
                    (let new_auth = \<lparr>subject = cl_sub claims, project_id = p, writer = w\<rparr> in
                     case get_or_create_by_id_with_auth sid (Some new_auth) (g_connection ge)
                         (g_nonce ge) (g_now ge) (g_others ge r) of
                       (Inl e, r') \<Rightarrow> (Inl (status_from_error e), r')
                     | (Inr e, r') \<Rightarrow>
                         if s_auth (en_session e) = Some new_auth then (Inr e, r')
                         else (Inl (into_status SessionBindRace), r')))))"

definition prepare_request_duckvis ::
    "('v, 'b, 's) gate_env \<Rightarrow> rpc_request \<Rightarrow> string \<Rightarrow> ('v, 'b, 's) registry \<Rightarrow>
     (status + ('v, 'b, 's) entry) \<times> ('v, 'b, 's) registry" where
  "prepare_request_duckvis ge rq sid r =
     (case bearer_token rq of None \<Rightarrow> (Inl (into_status Unauthenticated), r)
      | Some bearer \<Rightarrow>
          (case g_validate ge bearer of Inl e \<Rightarrow> (Inl (into_status e), r)
           | Inr claims \<Rightarrow>
               (case (get_by_id sid r, rq_headers rq ''x-expected-session-nonce'') of
                  (Some e, _) \<Rightarrow> (check_existing claims (duckvis_project_header rq) e, r)
                | (None, Some expected) \<Rightarrow> (Inl (recreated_status expected ''none''), r)
                | (None, None) \<Rightarrow> bind_session ge sid claims (duckvis_project_header rq) r)))"

definition check_nonce :: "rpc_request \<Rightarrow> ('v, 'b, 's) entry \<Rightarrow> status + ('v, 'b, 's) entry" where
  "check_nonce rq e =
     (case rq_headers rq ''x-expected-session-nonce'' of
        Some expected \<Rightarrow> if expected \<noteq> en_nonce e then Inl (recreated_status expected (en_nonce e)) else Inr e
      | None \<Rightarrow> Inr e)"

text \<open>\<open>duckvis\<close> says whether duckvis mode is on.\<close>

definition prepare_request ::
    "bool \<Rightarrow> ('v, 'b, 's) gate_env \<Rightarrow> session_id_mode \<Rightarrow> string \<Rightarrow> rpc_request \<Rightarrow> ('v, 'b, 's) registry \<Rightarrow>
     (status + ('v, 'b, 's) entry) \<times> ('v, 'b, 's) registry" where
  "prepare_request duckvis ge mode uuid rq r =
     (let sid = extract_session_id mode uuid rq;
          (res, r') = (if duckvis then prepare_request_duckvis ge rq sid r
            else (case get_or_create_by_id sid (g_connection ge) (g_nonce ge) (g_now ge) r of
                (Inl e, r') \<Rightarrow> (Inl (status_from_error e), r') | (Inr e, r') \<Rightarrow> (Inr e, r')))
      in (try_ok res (check_nonce rq), r'))"

section \<open>Raw SQL passthrough\<close>

text \<open>\<open>std::str::from_utf8\<close> accepts: well-formed UTF-8.\<close>

fun cont_in :: "nat \<Rightarrow> nat \<Rightarrow> char \<Rightarrow> bool" where
  "cont_in lo hi c = (lo \<le> byte c \<and> byte c \<le> hi)"

fun valid_utf8 :: "string \<Rightarrow> bool" where
  "valid_utf8 [] = True"
| "valid_utf8 (a # s) =
     (if byte a < 128 then valid_utf8 s
      else if 194 \<le> byte a \<and> byte a \<le> 223 then
        (case s of b # t \<Rightarrow> is_cont b \<and> valid_utf8 t | _ \<Rightarrow> False)
      else if 224 \<le> byte a \<and> byte a \<le> 239 then
        (case s of b # c # t \<Rightarrow>
             cont_in (if byte a = 224 then 160 else 128) (if byte a = 237 then 159 else 191) b
             \<and> is_cont c \<and> valid_utf8 t
         | _ \<Rightarrow> False)
      else if 240 \<le> byte a \<and> byte a \<le> 244 then
        (case s of b # c # d # t \<Rightarrow>
             cont_in (if byte a = 240 then 144 else 128) (if byte a = 244 then 143 else 191) b
             \<and> is_cont c \<and> is_cont d \<and> valid_utf8 t
         | _ \<Rightarrow> False)
      else False)"

definition raw_sql_words :: "string list" where
  "raw_sql_words = [''SELECT'', ''INSERT'', ''UPDATE'', ''DELETE'', ''CREATE'', ''DROP'', ''ALTER'',
     ''WITH'', ''EXPLAIN'', ''DESCRIBE'', ''SHOW'']"

definition is_raw_sql_command :: "string \<Rightarrow> bool" where
  "is_raw_sql_command cmd =
     (cmd \<noteq> [] \<and> valid_utf8 cmd \<and> list_ex (\<lambda>w. prefix w (to_uppercase (trim cmd))) raw_sql_words)"

definition is_ddl_statement :: "string \<Rightarrow> bool" where
  "is_ddl_statement sql =
     list_ex (\<lambda>w. prefix w (to_uppercase (trim sql))) [''CREATE'', ''DROP'', ''ALTER'']"

text \<open>
  \<open>handle_raw_sql_flight_info\<close> on the session: a DDL statement runs and gives no ticket, anything else
  is bound on the connection itself and its SQL goes into the ticket, with its schema.
\<close>

definition raw_sql_flight_info ::
    "('v, 'b, 's, 'q) engine \<Rightarrow> nat \<Rightarrow> string \<Rightarrow> bool \<Rightarrow> ('v, 'b, 's, (string \<times> 's) option) session_step" where
  "raw_sql_flight_info eng now sql was_cancelled =
     sthen (admit sql)
       (if is_ddl_statement sql then sthen (execute_statement eng now sql) (sret None)
        else sthen (check_cancelled (Some was_cancelled)) (sthen (ensure_lockdown eng)
          (sbind (ask (CallSchema sql) (\<lambda>l. e_schema eng l sql)) (\<lambda>schema. sret (Some (sql, schema))))))"

section \<open>Properties\<close>

lemma check_existing_ok:
  "check_existing claims project e = Inr e' \<Longrightarrow>
    e' = e \<and> (\<exists>a. s_auth (en_session e) = Some a \<and> subject a = cl_sub claims
      \<and> (\<forall>p. project = Some p \<longrightarrow> project_id a = p))"
  by (auto simp: check_existing_def split: option.splits if_splits)

lemma bind_session_ok:
  assumes "bind_session ge sid claims project r = (Inr e, r')"
  shows "\<exists>p w. project = Some p \<and> g_view ge (cl_sub claims) p = Inr True
      \<and> writer_capability ge (cl_sub claims) p = Inr w
      \<and> s_auth (en_session e) = Some \<lparr>subject = cl_sub claims, project_id = p, writer = w\<rparr>"
proof -
  from assms obtain p where p: "project = Some p" by (cases project) (auto simp: bind_session_def)
  with assms have v: "g_view ge (cl_sub claims) p = Inr True"
    by (auto simp: bind_session_def split: sum.splits bool.splits)
  with assms p obtain w where w: "writer_capability ge (cl_sub claims) p = Inr w"
    by (auto simp: bind_session_def split: sum.splits)
  with assms p v show ?thesis
    by (auto simp: bind_session_def Let_def split: prod.splits sum.splits if_splits)
qed

lemma check_nonce_same: "check_nonce rq e = Inr e' \<Longrightarrow> e' = e"
  by (auto simp: check_nonce_def split: option.splits if_splits)

lemma gate_duckvis_ok:
  assumes "prepare_request_duckvis ge rq sid r = (Inr e, r')"
  shows "\<exists>bearer claims a. bearer_token rq = Some bearer \<and> g_validate ge bearer = Inr claims
    \<and> s_auth (en_session e) = Some a \<and> subject a = cl_sub claims
    \<and> (case duckvis_project_header rq of Some p \<Rightarrow> project_id a = p | None \<Rightarrow> True)"
proof -
  from assms obtain bearer where b: "bearer_token rq = Some bearer"
    by (cases "bearer_token rq") (auto simp: prepare_request_duckvis_def)
  with assms obtain claims where c: "g_validate ge bearer = Inr claims"
    by (cases "g_validate ge bearer") (auto simp: prepare_request_duckvis_def)
  have "\<exists>a. s_auth (en_session e) = Some a \<and> subject a = cl_sub claims
    \<and> (case duckvis_project_header rq of Some p \<Rightarrow> project_id a = p | None \<Rightarrow> True)"
  proof (cases "get_by_id sid r")
    case (Some x)
    with assms b c have "check_existing claims (duckvis_project_header rq) x = Inr e"
      by (simp add: prepare_request_duckvis_def)
    from check_existing_ok [OF this] show ?thesis by (auto split: option.splits)
  next
    case None
    with assms b c have "bind_session ge sid claims (duckvis_project_header rq) r = (Inr e, r')"
      by (auto simp: prepare_request_duckvis_def split: option.splits)
    from bind_session_ok [OF this] show ?thesis by auto
  qed
  with b c show ?thesis by blast
qed

text \<open>
  C6: the gate hands out only sessions of the caller. Whatever other requests do meanwhile, a session
  that \<open>prepare_request\<close> returns in duckvis mode is bound to the subject of the request's valid
  bearer token, to the project its header names, if it names one, and has the nonce the client
  expects, if it sent one.
\<close>

theorem gate_binds_subject:
  assumes "prepare_request True ge mode uuid rq r = (Inr e, r')"
  shows "\<exists>bearer claims a. bearer_token rq = Some bearer \<and> g_validate ge bearer = Inr claims
    \<and> s_auth (en_session e) = Some a \<and> subject a = cl_sub claims
    \<and> (case duckvis_project_header rq of Some p \<Rightarrow> project_id a = p | None \<Rightarrow> True)
    \<and> (case rq_headers rq ''x-expected-session-nonce'' of Some n \<Rightarrow> en_nonce e = n | None \<Rightarrow> True)"
proof -
  from assms obtain r1 where g: "prepare_request_duckvis ge rq (extract_session_id mode uuid rq) r = (Inr e, r1)"
    and n: "check_nonce rq e = Inr e"
    using check_nonce_same unfolding prepare_request_def Let_def
    by (cases "prepare_request_duckvis ge rq (extract_session_id mode uuid rq) r") (force simp: run_simps)
  from n have "case rq_headers rq ''x-expected-session-nonce'' of Some n \<Rightarrow> en_nonce e = n | None \<Rightarrow> True"
    by (auto simp: check_nonce_def split: option.splits if_splits)
  with gate_duckvis_ok [OF g] show ?thesis by blast
qed

definition sample_gate :: "(nat, nat, nat) gate_env" where
  "sample_gate = \<lparr>g_validate = (\<lambda>t. if t = ''tok'' then Inr \<lparr>cl_sub = ''u'', cl_actor = Human\<rparr> else Inl Unauthenticated),
     g_view = (\<lambda>s p. Inr (p = ''p'')), g_mutate = (\<lambda>s p. Inr True), g_read_only = True,
     g_others = (\<lambda>r. r), g_connection = Inr (), g_nonce = ''n1'', g_now = 5\<rparr>"

definition sample_request :: rpc_request where
  "sample_request = \<lparr>rq_headers = [''authorization'' \<mapsto> ''Bearer tok'', ''x-session-id'' \<mapsto> ''a'',
     ''x-duckvis-project-id'' \<mapsto> ''p''], rq_remote_addr = None\<rparr>"

definition sample_registry :: "(nat, nat, nat) registry" where
  "sample_registry = registry_new (Some 1) None sample_template"

lemma sample_trims: "trim ''tok'' = ''tok''" "trim ''p'' = ''p''"
  by code_simp+

lemma sample_request_facts:
  "bearer_token sample_request = Some ''tok''" "duckvis_project_header sample_request = Some ''p''"
  "extract_session_id PeerIp ''x'' sample_request = ''a''"
  "rq_headers sample_request ''x-expected-session-nonce'' = None"
  by (simp_all add: bearer_token_def duckvis_project_header_def extract_session_id_def nonempty_header_def
      sample_request_def strip_prefix_def sample_trims)

definition sample_entry :: "(nat, nat, nat) entry" where
  "sample_entry = new_entry sample_template (Some sample_auth) ''n1'' 5"

lemma sample_prepared:
  "prepare_request True sample_gate PeerIp ''x'' sample_request sample_registry
    = (Inr sample_entry, sample_registry\<lparr>sessions := [(''a'', sample_entry)], permits := 0\<rparr>)"
proof -
  have "bind_session sample_gate ''a'' \<lparr>cl_sub = ''u'', cl_actor = Human\<rparr> (Some ''p'') sample_registry
      = (Inr sample_entry, sample_registry\<lparr>sessions := [(''a'', sample_entry)], permits := 0\<rparr>)"
    by (simp add: bind_session_def sample_gate_def sample_registry_def registry_new_def get_by_id_def
        writer_capability_def get_or_create_by_id_with_auth_def sample_entry_def
        new_entry_def new_session_def sample_auth_def Let_def)
  moreover have "g_validate sample_gate ''tok'' = Inr \<lparr>cl_sub = ''u'', cl_actor = Human\<rparr>"
    "get_by_id ''a'' sample_registry = None"
    by (simp_all add: sample_gate_def sample_registry_def registry_new_def get_by_id_def Let_def)
  ultimately show ?thesis
    by (simp add: prepare_request_def prepare_request_duckvis_def sample_request_facts check_nonce_def Let_def)
qed

lemma gate_binds_subject_witness:
  "\<exists>bearer claims a. bearer_token sample_request = Some bearer \<and> g_validate sample_gate bearer = Inr claims
    \<and> s_auth (en_session sample_entry) = Some a
    \<and> subject a = cl_sub claims
    \<and> (case duckvis_project_header sample_request of Some p \<Rightarrow> project_id a = p | None \<Rightarrow> True)
    \<and> (case rq_headers sample_request ''x-expected-session-nonce'' of
         Some n \<Rightarrow> en_nonce sample_entry = n | None \<Rightarrow> True)"
  by (rule gate_binds_subject [OF sample_prepared])

text \<open>
  Without a valid token a caller learns and changes nothing. Whatever session id, project or nonce
  the request names and whatever sessions exist, the answer depends on the token alone and the
  registry stays as it is. With a valid token, a nonce for a session that is gone is answered with the
  session loss before the project is looked at or the authorization service is asked.
\<close>

theorem gate_answers_token_first:
  "(bearer_token rq = None \<longrightarrow>
      prepare_request True ge mode uuid rq r = (Inl (into_status Unauthenticated), r))
    \<and> (bearer_token rq = Some b \<and> g_validate ge b = Inl e \<longrightarrow>
      prepare_request True ge mode uuid rq r = (Inl (into_status e), r))
    \<and> (bearer_token rq = Some b \<and> g_validate ge b = Inr claims
        \<and> get_by_id (extract_session_id mode uuid rq) r = None
        \<and> rq_headers rq ''x-expected-session-nonce'' = Some n \<longrightarrow>
      prepare_request True ge mode uuid rq r = (Inl (recreated_status n ''none''), r))"
  by (simp add: prepare_request_def prepare_request_duckvis_def Let_def)

lemma gate_answers_token_first_witness:
  "prepare_request True sample_gate PeerAddr ''x'' \<lparr>rq_headers = Map.empty, rq_remote_addr = None\<rparr> sample_registry
    = (Inl (into_status Unauthenticated), sample_registry)"
  using gate_answers_token_first [of "\<lparr>rq_headers = Map.empty, rq_remote_addr = None\<rparr>" sample_gate PeerAddr
      "''x''" sample_registry]
  by (simp add: bearer_token_def)

text \<open>
  A read-only instance has no writers. With \<open>read_only\<close> configured, every session that the gate
  creates is a non-writer, and the authorization service is not asked for the write permission: its
  answer makes no difference.
\<close>

theorem read_only_instance:
  assumes "g_read_only ge" "get_by_id (extract_session_id mode uuid rq) r = None"
    and "prepare_request True ge mode uuid rq r = (Inr e, r')"
  shows "(\<exists>a. s_auth (en_session e) = Some a \<and> \<not> writer a)
    \<and> prepare_request True (ge\<lparr>g_mutate := m\<rparr>) mode uuid rq r = (Inr e, r')"
proof -
  let ?sid = "extract_session_id mode uuid rq"
  from assms(3) obtain r1 where g: "prepare_request_duckvis ge rq ?sid r = (Inr e, r1)"
    using check_nonce_same unfolding prepare_request_def Let_def
    by (cases "prepare_request_duckvis ge rq ?sid r") (force simp: run_simps)
  from gate_duckvis_ok [OF g] obtain b claims where b: "bearer_token rq = Some b" "g_validate ge b = Inr claims"
    by blast
  with g assms(2) have s: "bind_session ge ?sid claims (duckvis_project_header rq) r = (Inr e, r1)"
    by (auto simp: prepare_request_duckvis_def split: option.splits)
  from bind_session_ok [OF s] assms(1) have "\<exists>a. s_auth (en_session e) = Some a \<and> \<not> writer a"
    by (auto simp: writer_capability_def)
  moreover have "bind_session (ge\<lparr>g_mutate := m\<rparr>) = bind_session ge"
    using assms(1) by (simp add: bind_session_def writer_capability_def fun_eq_iff
        cong: option.case_cong sum.case_cong bool.case_cong)
  then have "prepare_request True (ge\<lparr>g_mutate := m\<rparr>) mode uuid rq r = prepare_request True ge mode uuid rq r"
    using b assms(2) by (simp add: prepare_request_def prepare_request_duckvis_def Let_def split: option.split)
  ultimately show ?thesis using assms(3) by simp
qed

lemma read_only_instance_witness:
  "(\<exists>a. s_auth (en_session sample_entry) = Some a \<and> \<not> writer a)
    \<and> prepare_request True (sample_gate\<lparr>g_mutate := \<lambda>s p. Inl Unavailable\<rparr>) PeerIp ''x'' sample_request sample_registry
      = (Inr sample_entry,
         sample_registry\<lparr>sessions := [(''a'', sample_entry)], permits := 0\<rparr>)"
  by (rule read_only_instance [OF _ _ sample_prepared])
    (simp_all add: sample_gate_def sample_registry_def registry_new_def get_by_id_def sample_request_facts Let_def)

lemma raw_sealed: "triple (sealed eng a t) (raw_sql_flight_info eng now sql c) (\<lambda>_. sealed eng a t) (sealed eng a t)"
proof -
  have ask: "triple (\<lambda>s. sealed eng a t s \<and> ready s) (ask (CallSchema sql) f) (\<lambda>_. sealed eng a t) (sealed eng a t)" for f
    by (rule triple_ask) (simp_all add: sealed_log)
  have "triple (sealed eng a t) (check_cancelled (Some c)) (\<lambda>_. sealed eng a t) (sealed eng a t)"
    by (simp add: check_cancelled_def triple_ret triple_fail)
  note direct = triple_then [OF this triple_then [OF lockdown.lockdown_I triple_bind [OF ask triple_ret]]]
  show ?thesis
    unfolding raw_sql_flight_info_def
    by (rule triple_then [OF triple_admit triple_if [OF triple_then [OF lockdown.statement_I triple_ret] direct]])
      auto
qed

text \<open>
  The raw SQL passthrough is guarded like everything else. It calls the connection directly, yet in
  a duckvis session its calls too come only after the lockdown block, and SQL that admission refuses
  changes nothing.
\<close>

theorem raw_passthrough_guarded:
  assumes "reachable eng (Some a) (Some t) s" "raw_sql_flight_info eng now sql c s = Ret (res, s')"
  shows "(\<forall>x\<in>set (log s'). user_call x \<longrightarrow> locked eng (lockdown_sql t (writer a) (roots s')) (log s'))
    \<and> (validate_user_sql (Some a) sql = Ret (Inl e) \<longrightarrow> res = Inl e \<and> s' = s)"
proof -
  have s: "sealed eng a t s" by (rule lockdown.reachable_I [OF assms(1) sealed_new])
  from triple_state [OF raw_sealed s assms(2)] have "sealed eng a t s'" .
  then have "\<forall>x\<in>set (log s'). user_call x \<longrightarrow> locked eng (lockdown_sql t (writer a) (roots s')) (log s')"
    by (auto simp: sealed_def split: if_splits)
  moreover have "validate_user_sql (Some a) sql = Ret (Inl e) \<longrightarrow> res = Inl e \<and> s' = s"
    using assms(2) s by (auto simp: raw_sql_flight_info_def sthen_def admit_def sbind_def sealed_def)
  ultimately show ?thesis by blast
qed

lemma raw_passthrough_guarded_witness:
  "\<exists>s'. raw_sql_flight_info sample_engine 4 ''SELECT 1'' False sample_after = Ret (Inr (Some (''SELECT 1'', 5)), s')
    \<and> locked sample_engine (lockdown_sql sample_template (writer sample_auth) (roots s')) (log s')"
proof -
  have "\<not> is_ddl_statement ''SELECT 1''" by code_simp
  then obtain s' where s': "raw_sql_flight_info sample_engine 4 ''SELECT 1'' False sample_after
      = Ret (Inr (Some (''SELECT 1'', 5)), s')" "CallQuery ''SELECT 1'' None \<in> set (log s')"
    by (simp add: raw_sql_flight_info_def admit_def ensure_lockdown_def check_cancelled_def step_defs
        sample_engine_def sample_after_def sample_fields sample_validated)
  from raw_passthrough_guarded [OF sample_after_reachable s'(1), of Cancelled] s' show ?thesis by force
qed

end
