(* ===== verification/Cancellation.thy ===== *)
theory Cancellation
  imports Errors
begin

text \<open>
  \<^verbatim>\<open>engine/cancellation.rs\<close>: the cancellation of one request. A request that gets the connection stores
  the connection's interrupt handle until its guard is dropped; \<open>cancel\<close> marks the request and, if it owns
  a connection, starts a task that interrupts it every 20 ms until the guard is gone. The handles
  that were interrupted are recorded in \<open>sent\<close>.
\<close>

record request_cancellation =
  cancelled :: bool
  interrupt :: "nat option"
  interrupting :: bool
  sent :: "nat list"

definition cancellation_new :: request_cancellation where
  "cancellation_new = \<lparr>cancelled = False, interrupt = None, interrupting = False, sent = []\<rparr>"

definition check :: "request_cancellation \<Rightarrow> server_error + unit" where
  "check c = (if cancelled c then Inl Cancelled else Inr ())"

definition activate :: "nat \<Rightarrow> request_cancellation \<Rightarrow> (server_error + unit) \<times> request_cancellation" where
  "activate h c = (if cancelled c then (Inl Cancelled, c) else (Inr (), c\<lparr>interrupt := Some h\<rparr>))"

definition drop_guard :: "request_cancellation \<Rightarrow> request_cancellation" where
  "drop_guard c = c\<lparr>interrupt := None\<rparr>"

definition cancel :: "request_cancellation \<Rightarrow> request_cancellation" where
  "cancel c =
     (if cancelled c then c
      else if interrupt c = None then c\<lparr>cancelled := True\<rparr>
      else c\<lparr>cancelled := True, interrupting := True\<rparr>)"

text \<open>One round of the spawned task: \<open>while cancellation.interrupt_active()\<close>.\<close>

definition interrupt_active :: "request_cancellation \<Rightarrow> bool \<times> request_cancellation" where
  "interrupt_active c =
     (case interrupt c of Some h \<Rightarrow> (True, c\<lparr>sent := sent c @ [h]\<rparr>) | None \<Rightarrow> (False, c))"

definition task_round :: "request_cancellation \<Rightarrow> request_cancellation" where
  "task_round c =
     (if interrupting c then (case interrupt_active c of (go, c') \<Rightarrow> c'\<lparr>interrupting := go\<rparr>) else c)"

datatype cancel_event = Activate nat | DropGuard | Cancel | TaskRound

fun cancel_step :: "request_cancellation \<Rightarrow> cancel_event \<Rightarrow> request_cancellation" where
  "cancel_step c (Activate h) = snd (activate h c)"
| "cancel_step c DropGuard = drop_guard c"
| "cancel_step c Cancel = cancel c"
| "cancel_step c TaskRound = task_round c"

text \<open>
  The state a cancelled request without a connection stays in, whatever happens next.
\<close>

definition retired :: "request_cancellation \<Rightarrow> bool" where
  "retired c \<longleftrightarrow> cancelled c \<and> interrupt c = None"

lemma retired_step: "retired c \<Longrightarrow> retired (cancel_step c e) \<and> sent (cancel_step c e) = sent c"
  by (cases e) (auto simp: retired_def activate_def drop_guard_def cancel_def task_round_def interrupt_active_def)

lemma retired_run: "retired c \<Longrightarrow> retired (foldl cancel_step c es) \<and> sent (foldl cancel_step c es) = sent c"
  by (induction es arbitrary: c) (auto simp: retired_step)

lemma cancelled_run: "cancelled c \<Longrightarrow> cancelled (foldl cancel_step c es)"
proof (induction es arbitrary: c)
  case (Cons e es)
  have "cancelled (cancel_step c e)"
    using Cons.prems by (cases e) (auto simp: activate_def drop_guard_def cancel_def task_round_def
      interrupt_active_def split: option.splits)
  with Cons.IH show ?case by simp
qed simp

section \<open>Properties\<close>

text \<open>
  C19: a cancelled request never interrupts somebody else. Once a request is cancelled it stays so: it
  cannot activate a connection again, whatever the order of the later events. Once it also has
  dropped its guard, the interrupt task sends nothing more, so the next owner of the connection is
  left alone, and the task's next round ends it.
\<close>

theorem cancelled_request_is_harmless:
  assumes "cancelled c"
  shows "check (foldl cancel_step c es) = Inl Cancelled
    \<and> fst (activate h (foldl cancel_step c es)) = Inl Cancelled
    \<and> sent (foldl cancel_step (drop_guard c) es) = sent c
    \<and> \<not> interrupting (task_round (foldl cancel_step (drop_guard c) es))"
proof -
  have r: "retired (drop_guard c)" using assms by (simp add: retired_def drop_guard_def)
  have "\<not> interrupting (task_round d)" if "retired d" for d
    using that by (simp add: retired_def task_round_def interrupt_active_def)
  with retired_run [OF r, of es] cancelled_run [OF assms, of es] show ?thesis
    by (simp add: check_def activate_def drop_guard_def)
qed

lemma cancelled_request_is_harmless_witness:
  "let c = foldl cancel_step cancellation_new [Activate 7, Cancel, TaskRound] in
    sent c = [7] \<and> sent (foldl cancel_step (drop_guard c) [Activate 8, TaskRound, TaskRound]) = [7]"
  using cancelled_request_is_harmless [of "foldl cancel_step cancellation_new [Activate 7, Cancel, TaskRound]"
      "[Activate 8, TaskRound, TaskRound]" 0]
  by (simp add: cancellation_new_def activate_def cancel_def task_round_def interrupt_active_def Let_def)

text \<open>
  A cancellation is not lost. A cancel that arrives while the request waits makes the activation
  fail; one that arrives while it owns a connection interrupts that connection on every round of the
  task until the guard is dropped, and only that connection.
\<close>

theorem cancel_reaches_the_owner:
  "fst (activate h (cancel (c\<lparr>cancelled := False, interrupt := None\<rparr>))) = Inl Cancelled
    \<and> sent (foldl cancel_step (c\<lparr>cancelled := False, interrupt := Some h\<rparr>) (Cancel # replicate n TaskRound))
      = sent c @ replicate n h"
proof -
  have "sent (foldl cancel_step d (replicate n TaskRound)) = sent d @ replicate n h"
    if "interrupting d" "interrupt d = Some h" for d
    using that
  proof (induction n arbitrary: d)
    case (Suc n)
    from Suc.IH [of "task_round d"] Suc.prems show ?case
      by (simp add: task_round_def interrupt_active_def)
  qed simp
  then show ?thesis by (simp add: activate_def cancel_def)
qed

end
