(* ===== verification/Client_Pool.thy ===== *)
theory Client_Pool
  imports Capacity
begin

text \<open>
  The client's connection pool, \<^verbatim>\<open>swanlake-client/src/pool.rs\<close> with \<^verbatim>\<open>pool_shared.rs\<close>. A client thread
  that acquires a connection takes the pool's lock, and outside it connects, waits on the condition
  variable or uses its connection; each locked section is one step. Connections are numbered in the order
  in which the driver makes them; the server, the driver and the clock are in the events.
\<close>

record pool_config =
  min_idle :: nat
  max_size :: nat
  acquire_timeout_ms :: nat
  idle_ttl_ms :: nat
  healthcheck_sql :: string
  default_query_timeout_ms :: "nat option"
  retry_on_failure :: bool

datatype pool_error =
    ZeroMaxSize
  | MinIdleExceedsMax
  | AcquireTimeout
  | PoolExhausted
  | ConnectError string
  | QueryError string
  | TaskFailed string

definition pool_validate :: "pool_config \<Rightarrow> pool_error + unit" where
  "pool_validate c =
     (if max_size c = 0 then Inl ZeroMaxSize
      else if max_size c < min_idle c then Inl MinIdleExceedsMax
      else Inr ())"

text \<open>\<open>Default\<close>, for a machine with \<open>cpus\<close> processors (\<open>clamp\<close> makes the saturation invisible).\<close>

definition pool_config_default :: "nat \<Rightarrow> pool_config" where
  "pool_config_default cpus =
     \<lparr>min_idle = 1, max_size = max 4 (min 16 (cpus * 2)), acquire_timeout_ms = 30000,
      idle_ttl_ms = 300000, healthcheck_sql = ''SELECT 1'', default_query_timeout_ms = None,
      retry_on_failure = True\<rparr>"

record query_options =
  opt_timeout_ms :: "nat option"
  opt_retry_on_failure :: "bool option"

text \<open>
  \<open>evict_idle\<close> on pairs of a connection and its last use. An instant is in milliseconds since the
  clock's origin; \<open>checked_sub\<close> fails below it, and then the cutoff is the present.
\<close>

definition cutoff :: "nat \<Rightarrow> nat \<Rightarrow> nat" where
  "cutoff now ttl = (if ttl \<le> now then now - ttl else now)"

definition evict_idle :: "nat \<Rightarrow> nat \<Rightarrow> ('c \<times> nat) list \<Rightarrow> ('c \<times> nat) list \<times> nat" where
  "evict_idle now ttl entries =
     (if ttl = 0 then (entries, 0)
      else (let keep = filter (\<lambda>(c, last_used). cutoff now ttl \<le> last_used) entries
            in (keep, length entries - length keep)))"

text \<open>Where a client stands. The deadline of an acquire is kept through its waits.\<close>

datatype client =
    Waiting nat
  | Woken nat
  | Connecting
  | Held nat bool
  | Refused pool_error

record pool =
  config :: pool_config
  idle :: "(nat \<times> nat) list"
  live :: nat
  clients :: "nat \<rightharpoonup> client"
  made :: nat

text \<open>\<open>PoolInner::new\<close>: \<open>outcome i\<close> is the driver's answer to the \<open>i\<close>-th warm connection.\<close>

definition warm_error :: "nat \<Rightarrow> (nat \<Rightarrow> pool_error option) \<Rightarrow> pool_error option" where
  "warm_error n outcome = (case map_option outcome (find (\<lambda>i. outcome i \<noteq> None) [0..<n]) of
     Some e \<Rightarrow> e | None \<Rightarrow> None)"

definition pool_new :: "pool_config \<Rightarrow> nat \<Rightarrow> (nat \<Rightarrow> pool_error option) \<Rightarrow> pool_error + pool" where
  "pool_new c now outcome =
     try_ok (pool_validate c) (\<lambda>_.
       case warm_error (min_idle c) outcome of Some e \<Rightarrow> Inl e
       | None \<Rightarrow> Inr \<lparr>config = c, idle = map (\<lambda>i. (i, now)) [0..<min_idle c], live = min_idle c,
           clients = Map.empty, made = min_idle c\<rparr>)"

definition evict_idle_locked :: "nat \<Rightarrow> pool \<Rightarrow> pool" where
  "evict_idle_locked now p =
     (case evict_idle now (idle_ttl_ms (config p)) (idle p) of
        (keep, removed) \<Rightarrow> p\<lparr>idle := keep, live := live p - removed\<rparr>)"

definition set_client :: "nat \<Rightarrow> client option \<Rightarrow> pool \<Rightarrow> pool" where
  "set_client rid q p = p\<lparr>clients := (clients p)(rid := q)\<rparr>"

text \<open>One pass of the loop of \<open>acquire_connection\<close>, from the lock to its release.\<close>

definition acquire_locked :: "nat \<Rightarrow> nat \<Rightarrow> nat \<Rightarrow> pool \<Rightarrow> pool" where
  "acquire_locked rid deadline now p0 =
     (let p = evict_idle_locked now p0 in
      if idle p \<noteq> [] then
        set_client rid (Some (Held (fst (last (idle p))) False)) (p\<lparr>idle := butlast (idle p)\<rparr>)
      else if live p < max_size (config p) then set_client rid (Some Connecting) (p\<lparr>live := live p + 1\<rparr>)
      else if deadline \<le> now then set_client rid (Some (Refused AcquireTimeout)) p
      else set_client rid (Some (Waiting deadline)) p)"

definition drop_connection :: "pool \<Rightarrow> pool" where
  "drop_connection p = p\<lparr>live := live p - 1\<rparr>"

text \<open>\<open>notify_one\<close> wakes one of the waiting clients, if there is one.\<close>

definition notify_one :: "nat \<Rightarrow> pool \<Rightarrow> pool" where
  "notify_one rid p =
     (case clients p rid of Some (Waiting d) \<Rightarrow> set_client rid (Some (Woken d)) p | _ \<Rightarrow> p)"

definition release_connection :: "nat \<Rightarrow> bool \<Rightarrow> bool \<Rightarrow> nat \<Rightarrow> nat \<Rightarrow> pool \<Rightarrow> pool" where
  "release_connection c had_error healthy now wake p =
     (if had_error \<and> \<not> healthy then drop_connection p
      else (let q = evict_idle_locked now p in notify_one wake (q\<lparr>idle := idle q @ [(c, now)]\<rparr>)))"

datatype pool_event =
    Acquire nat nat
  | SpuriousWakeup nat
  | Relock nat nat
  | WaitTimedOut nat
  | Connected nat
  | ConnectFailed nat pool_error
  | MarkError nat
  | Release nat bool nat nat
  | Discard nat

text \<open>
  \<open>Acquire\<close> starts an acquire, \<open>Relock\<close> is the loop's next pass after a wake-up, \<open>Release\<close> is the drop of a
  \<open>PooledConnection\<close>, with the health check's answer and the client that is woken, and \<open>Discard\<close> is
  \<open>take\<close> with \<open>drop_connection\<close>. An event that does not fit its client does nothing.
\<close>

fun pool_step :: "pool \<Rightarrow> pool_event \<Rightarrow> pool" where
  "pool_step p (Acquire rid now) =
     (if clients p rid = None then acquire_locked rid (now + acquire_timeout_ms (config p)) now p else p)"
| "pool_step p (SpuriousWakeup rid) = notify_one rid p"
| "pool_step p (Relock rid now) =
     (case clients p rid of Some (Woken deadline) \<Rightarrow> acquire_locked rid deadline now p | _ \<Rightarrow> p)"
| "pool_step p (WaitTimedOut rid) =
     (case clients p rid of Some (Waiting _) \<Rightarrow> set_client rid (Some (Refused AcquireTimeout)) p | _ \<Rightarrow> p)"
| "pool_step p (Connected rid) =
     (if clients p rid = Some Connecting
      then set_client rid (Some (Held (made p) False)) (p\<lparr>made := made p + 1\<rparr>) else p)"
| "pool_step p (ConnectFailed rid e) =
     (if clients p rid = Some Connecting
      then set_client rid (Some (Refused e)) (p\<lparr>live := live p - 1\<rparr>) else p)"
| "pool_step p (MarkError rid) =
     (case clients p rid of Some (Held c _) \<Rightarrow> set_client rid (Some (Held c True)) p | _ \<Rightarrow> p)"
| "pool_step p (Release rid healthy now wake) =
     (case clients p rid of
        Some (Held c e) \<Rightarrow> release_connection c e healthy now wake (set_client rid None p) | _ \<Rightarrow> p)"
| "pool_step p (Discard rid) =
     (case clients p rid of Some (Held c e) \<Rightarrow> drop_connection (set_client rid None p) | _ \<Rightarrow> p)"

section \<open>The pool stays within its size\<close>

text \<open>A client that is connecting or has a connection is counted in \<open>live\<close>.\<close>

fun counted :: "client \<Rightarrow> bool" where
  "counted Connecting = True"
| "counted (Held c e) = True"
| "counted _ = False"

definition pool_used :: "pool \<Rightarrow> nat" where
  "pool_used p = length (idle p) + phase_count counted (clients p)"

definition pool_free :: "pool \<Rightarrow> nat" where
  "pool_free p = max_size (config p) - live p"

definition exclusive :: "pool \<Rightarrow> bool" where
  "exclusive p \<longleftrightarrow> distinct (map fst (idle p)) \<and> (\<forall>c\<in>fst ` set (idle p). c < made p)
     \<and> (\<forall>r c e. clients p r = Some (Held c e) \<longrightarrow> c < made p \<and> c \<notin> fst ` set (idle p)
         \<and> (\<forall>r' e'. clients p r' = Some (Held c e') \<longrightarrow> r' = r))"

definition pool_ok :: "pool \<Rightarrow> bool" where
  "pool_ok p \<longleftrightarrow> finite (dom (clients p)) \<and> live p = pool_used p \<and> live p \<le> max_size (config p)
     \<and> exclusive p"

lemmas pool_defs = set_client_def drop_connection_def notify_one_def

lemma evict_idle_filter:
  "\<exists>P. evict_idle_locked now p
    = p\<lparr>idle := filter P (idle p), live := live p - (length (idle p) - length (filter P (idle p)))\<rparr>"
proof (cases "idle_ttl_ms (config p) = 0")
  case True
  then show ?thesis by (intro exI [of _ "\<lambda>_. True"]) (simp add: evict_idle_locked_def evict_idle_def)
qed (auto simp: evict_idle_locked_def evict_idle_def Let_def)

lemma exclusive_filter: "exclusive p \<Longrightarrow> exclusive (p\<lparr>idle := filter P (idle p), live := n\<rparr>)"
  unfolding exclusive_def by (simp add: distinct_map_filter) blast

lemma evict_same [simp]:
  "clients (evict_idle_locked now p) = clients p" "config (evict_idle_locked now p) = config p"
  "made (evict_idle_locked now p) = made p"
  by (simp_all add: evict_idle_locked_def split: prod.split)

lemma evict_ok:
  assumes "pool_ok p"
  shows "pool_ok (evict_idle_locked now p)"
proof -
  obtain P where e: "evict_idle_locked now p
      = p\<lparr>idle := filter P (idle p), live := live p - (length (idle p) - length (filter P (idle p)))\<rparr>"
    using evict_idle_filter by blast
  from assms length_filter_le [of P "idle p"] show ?thesis
    unfolding e by (auto simp: pool_ok_def pool_used_def exclusive_filter simp del: length_filter_le)
qed

text \<open>What a client adds to the count, and how the count moves with it.\<close>

fun weight :: "client option \<Rightarrow> nat" where
  "weight None = 0"
| "weight (Some q) = of_bool (counted q)"

lemma count_upd:
  "finite (dom m) \<Longrightarrow> phase_count counted (m(r := q)) + weight (m r) = phase_count counted m + weight q"
  using phase_count_upd [of m counted r q] by (cases q; cases "m r") (auto simp: phase_set_iff)

lemma weight_le: "finite (dom m) \<Longrightarrow> weight (m r) \<le> phase_count counted m"
  using count_upd [of m r None] by simp

lemma exclusive_uncounted:
  "exclusive p \<Longrightarrow> (\<And>c e. q \<noteq> Some (Held c e)) \<Longrightarrow> exclusive (set_client r q p)"
  by (auto simp: exclusive_def set_client_def)

lemma exclusive_live: "exclusive (p\<lparr>live := n\<rparr>) = exclusive p"
  by (simp add: exclusive_def)

lemma ok_set_client:
  assumes "pool_ok p" "\<And>c e. q \<noteq> Some (Held c e)"
    and "n + weight (clients p r) = live p + weight q" "n \<le> max_size (config p)"
  shows "pool_ok (set_client r q (p\<lparr>live := n\<rparr>))"
proof -
  from assms(1) have f: "finite (dom (clients p))" and x: "exclusive p" and l: "live p = pool_used p"
    by (simp_all add: pool_ok_def)
  from count_upd [OF f, of r q] assms(3) l
  have "n = pool_used (set_client r q (p\<lparr>live := n\<rparr>))"
    by (simp add: pool_used_def set_client_def)
  moreover from exclusive_uncounted [OF _ assms(2)] x
  have "exclusive (set_client r q (p\<lparr>live := n\<rparr>))" by (simp add: exclusive_live)
  ultimately show ?thesis using f assms(4) by (simp add: pool_ok_def set_client_def)
qed

lemma ok_same_live:
  assumes "pool_ok p" "\<And>c e. q \<noteq> Some (Held c e)" "weight (clients p r) = weight q"
  shows "pool_ok (set_client r q p)"
proof -
  have "pool_ok (set_client r q (p\<lparr>live := live p\<rparr>))"
    by (rule ok_set_client [OF assms(1,2)]) (use assms in \<open>simp_all add: pool_ok_def\<close>)
  then show ?thesis by simp
qed

lemma exclusive_hold:
  assumes "exclusive p" "c < made p" "c \<notin> fst ` set (idle p)" "\<And>r e. clients p r \<noteq> Some (Held c e)"
  shows "exclusive (set_client r (Some (Held c b)) p)"
  using assms by (simp add: exclusive_def set_client_def) metis

lemma ok_connected:
  assumes "pool_ok p" "clients p r = Some Connecting"
  shows "pool_ok (set_client r (Some (Held (made p) False)) (p\<lparr>made := made p + 1\<rparr>))"
proof -
  have x: "exclusive p" and f: "finite (dom (clients p))" using assms(1) by (simp_all add: pool_ok_def)
  have "exclusive (set_client r (Some (Held (made p) False)) (p\<lparr>made := made p + 1\<rparr>))"
    by (rule exclusive_hold) (use x in \<open>fastforce simp: exclusive_def\<close>)+
  with assms f count_upd [OF f, of r "Some (Held (made p) False)"] show ?thesis
    by (simp add: pool_ok_def pool_used_def set_client_def)
qed

lemma ok_reuse:
  assumes "pool_ok p" "weight (clients p r) = 0" "idle p = xs @ [(c, t)]"
  shows "pool_ok (set_client r (Some (Held c False)) (p\<lparr>idle := xs\<rparr>))"
proof -
  have x: "exclusive p" and f: "finite (dom (clients p))" using assms(1) by (simp_all add: pool_ok_def)
  from x assms(3) have "c < made p" "c \<notin> fst ` set xs" "\<And>r e. clients p r \<noteq> Some (Held c e)"
    unfolding exclusive_def by (simp, simp, metis fst_conv in_set_conv_decomp image_eqI)
  then have "exclusive (set_client r (Some (Held c False)) (p\<lparr>idle := xs\<rparr>))"
    using x assms(3) by (intro exclusive_hold) (auto simp: exclusive_def)
  with assms f count_upd [OF f, of r "Some (Held c False)"] show ?thesis
    by (simp add: pool_ok_def pool_used_def set_client_def)
qed

lemma acquire_locked_ok:
  assumes "pool_ok p" "weight (clients p r) = 0"
  shows "pool_ok (acquire_locked r d now p)"
proof -
  define q where "q = evict_idle_locked now p"
  have q: "pool_ok q" "weight (clients q r) = 0" using evict_ok [OF assms(1), of now] assms(2) by (simp_all add: q_def)
  show ?thesis
  proof (cases "idle q" rule: rev_cases)
    case (snoc xs x)
    with ok_reuse [OF q, of xs "fst x" "snd x"] show ?thesis
      by (simp add: acquire_locked_def Let_def flip: q_def)
  next
    case Nil
    have "pool_ok (set_client r (Some Connecting) (q\<lparr>live := live q + 1\<rparr>))" if "live q < max_size (config q)"
      using ok_set_client [OF q(1), of "Some Connecting" "live q + 1" r] q(2) that by simp
    with Nil ok_same_live [OF q(1), of _ r] q(2) show ?thesis
      by (simp add: acquire_locked_def Let_def flip: q_def)
  qed
qed

lemma notify_ok: "pool_ok p \<Longrightarrow> pool_ok (notify_one r p)"
  by (auto simp: notify_one_def intro!: ok_same_live split: option.split client.split)

lemma ok_push:
  assumes "pool_ok p" "clients p r = Some (Held c e)"
  shows "pool_ok ((set_client r None p)\<lparr>idle := idle p @ [(c, now)]\<rparr>)"
proof -
  have x: "exclusive p" and f: "finite (dom (clients p))" using assms(1) by (simp_all add: pool_ok_def)
  have "c < made p" "c \<notin> fst ` set (idle p)" "\<And>r' e'. r' \<noteq> r \<Longrightarrow> clients p r' \<noteq> Some (Held c e')"
    using x assms(2) unfolding exclusive_def by blast+
  with x have "exclusive ((set_client r None p)\<lparr>idle := idle p @ [(c, now)]\<rparr>)"
    by (auto simp: exclusive_def set_client_def)
  with assms f count_upd [OF f, of r None] show ?thesis
    by (simp add: pool_ok_def pool_used_def set_client_def)
qed

lemma ok_drop:
  assumes "pool_ok p" "weight (clients p r) = 1" "weight q = 0" "\<And>c e. q \<noteq> Some (Held c e)"
  shows "pool_ok (set_client r q (p\<lparr>live := live p - 1\<rparr>))"
proof (rule ok_set_client [OF assms(1,4)])
  from assms(1,2) weight_le [of "clients p" r] show "live p - 1 + weight (clients p r) = live p + weight q"
    by (simp add: pool_ok_def pool_used_def assms(3))
qed (use assms(1) in \<open>auto simp: pool_ok_def\<close>)

lemma set_client_comm:
  "drop_connection (set_client r q p) = set_client r q (p\<lparr>live := live p - 1\<rparr>)"
  "live (set_client r q p) = live p" "idle (set_client r q p) = idle p" "config (set_client r q p) = config p"
  "evict_idle_locked now (set_client r q p) = set_client r q (evict_idle_locked now p)"
  by (simp_all add: drop_connection_def set_client_def evict_idle_locked_def split: prod.split)

lemma release_ok:
  assumes "pool_ok p" "clients p r = Some (Held c e)"
  shows "pool_ok (release_connection c e healthy now wake (set_client r None p))"
proof -
  have "pool_ok (set_client r None (p\<lparr>live := live p - 1\<rparr>))"
    by (rule ok_drop [OF assms(1)]) (simp_all add: assms(2))
  moreover have "pool_ok (notify_one wake ((set_client r None (evict_idle_locked now p))
      \<lparr>idle := idle (evict_idle_locked now p) @ [(c, now)]\<rparr>))"
    by (rule notify_ok, rule ok_push [OF evict_ok [OF assms(1)]]) (simp add: assms(2))
  ultimately show ?thesis by (simp add: release_connection_def set_client_comm Let_def)
qed

lemma mark_ok: "pool_ok p \<Longrightarrow> clients p r = Some (Held c e) \<Longrightarrow> pool_ok (set_client r (Some (Held c b)) p)"
  using count_upd [of "clients p" r "Some (Held c b)"]
  unfolding pool_ok_def pool_used_def exclusive_def by (simp add: set_client_def) metis

lemma pool_step_ok: "pool_ok p \<Longrightarrow> pool_ok (pool_step p ev)"
proof (cases ev)
  case (ConnectFailed r e)
  assume "pool_ok p"
  with ok_drop [of p r "Some (Refused e)"] ConnectFailed show ?thesis by simp
next
  case (Discard r)
  assume "pool_ok p"
  with ok_drop [of p r None] Discard show ?thesis
    by (simp add: set_client_comm split: option.split client.split)
next
  case (Connected r)
  assume "pool_ok p"
  with ok_connected [of p r] Connected show ?thesis by simp
qed (auto simp: acquire_locked_ok notify_ok release_ok mark_ok
    intro!: ok_same_live split: option.split client.split)

lemma pool_step_config: "config (pool_step p ev) = config p"
  by (cases ev) (auto simp: set_client_comm acquire_locked_def release_connection_def notify_one_def
    drop_connection_def Let_def split: option.split client.split)

interpretation pool: capacity pool_step pool_ok pool_free pool_used
proof
  fix p ev
  assume ok: "pool_ok p"
  from pool_step_ok [OF this] show "pool_ok (pool_step p ev)" .
  with ok pool_step_ok [OF ok, of ev]
  show "pool_free (pool_step p ev) + pool_used (pool_step p ev) = pool_free p + pool_used p"
    by (auto simp: pool_free_def pool_ok_def pool_step_config)
qed

lemma pool_new_ok: "pool_new c now outcome = Inr p \<Longrightarrow> pool_ok p \<and> config p = c"
  by (auto simp: pool_new_def pool_validate_def pool_ok_def pool_used_def phase_count_def exclusive_def
      run_simps comp_def split: option.splits if_splits)

section \<open>Properties\<close>

text \<open>
  C14: the pool never has more connections than \<open>max_size\<close>, and no connection has two owners. From any
  configuration that passes \<open>validate\<close>, after any interleaving of acquires, wake-ups, time-outs, failed
  connects, releases and discards, the counter is exactly the number of idle connections and of
  clients that connect or hold one; idle and held connections are all distinct.
\<close>

theorem pool_bounded:
  assumes "pool_new c now outcome = Inr p0" "p = foldl pool_step p0 evs"
  shows "live p = length (idle p) + phase_count counted (clients p) \<and> live p \<le> max_size c
    \<and> distinct (map fst (idle p))
    \<and> (\<forall>r k e. clients p r = Some (Held k e) \<longrightarrow> k \<notin> fst ` set (idle p)
        \<and> (\<forall>r' e'. clients p r' = Some (Held k e') \<longrightarrow> r' = r))"
proof -
  from pool_new_ok [OF assms(1)] have ok: "pool_ok p0" and c: "config p0 = c" by simp_all
  have "config (foldl pool_step p0 evs) = config p0"
  proof (induction evs arbitrary: p0)
    case (Cons ev evs)
    then show ?case using pool_step_config [of p0 ev] by simp
  qed simp
  with pool.run_ok [OF ok, of evs] assms(2) c show ?thesis
    by (auto simp: pool_ok_def pool_used_def exclusive_def)
qed

definition sample_config :: pool_config where
  "sample_config = \<lparr>min_idle = 1, max_size = 1, acquire_timeout_ms = 10, idle_ttl_ms = 0,
     healthcheck_sql = [], default_query_timeout_ms = None, retry_on_failure = True\<rparr>"

definition sample_pool :: pool where
  "sample_pool = \<lparr>config = sample_config, idle = [(0, 5)], live = 1, clients = Map.empty, made = 1\<rparr>"

lemma sample_pool_new: "pool_new sample_config 5 (\<lambda>_. None) = Inr sample_pool"
proof -
  have "warm_error 1 (\<lambda>_. None) = None" by (simp add: warm_error_def find_None_iff)
  then show ?thesis
    by (simp add: pool_new_def pool_validate_def sample_config_def sample_pool_def run_simps)
qed

text \<open>Client 7 takes the only connection, client 8 waits for it.\<close>

lemma sample_waiting:
  "foldl pool_step sample_pool [Acquire 7 6, Acquire 8 6]
    = sample_pool\<lparr>idle := [], clients := [7 \<mapsto> Held 0 False, 8 \<mapsto> Waiting 16]\<rparr>"
  by (simp add: sample_pool_def sample_config_def acquire_locked_def evict_idle_locked_def evict_idle_def
      set_client_def Let_def)

lemma pool_bounded_witness:
  "let p = foldl pool_step sample_pool [Acquire 7 6, Acquire 8 6] in
    live p = length (idle p) + phase_count counted (clients p) \<and> live p \<le> 1 \<and> distinct (map fst (idle p))"
  using pool_bounded [OF sample_pool_new refl, of "[Acquire 7 6, Acquire 8 6]"]
  by (simp add: sample_config_def Let_def)



section \<open>Queries and updates on a pooled connection\<close>

text \<open>
  What a call meets: the answer of its \<open>n\<close>-th acquire and \<open>n\<close>-th run, and whether the health check's
  query succeeds. The result is paired with what the call does, in order.
\<close>

record 'r call_env =
  ce_acquire :: "nat \<Rightarrow> pool_error + unit"
  ce_run :: "nat \<Rightarrow> pool_error + 'r"
  ce_check :: bool

datatype pool_action = DoAcquire | DoRun | DoHealthcheck | DoDrop | DoRelease bool

definition healthcheck :: "pool_config \<Rightarrow> bool \<Rightarrow> bool" where
  "healthcheck c answers \<longleftrightarrow> trim (healthcheck_sql c) = [] \<or> answers"

definition retry_enabled :: "pool_config \<Rightarrow> query_options \<Rightarrow> bool" where
  "retry_enabled c opts = (case opt_retry_on_failure opts of Some b \<Rightarrow> b | None \<Rightarrow> retry_on_failure c)"

text \<open>The loop, with the number of attempts so far.\<close>

function query_loop :: "pool_config \<Rightarrow> bool \<Rightarrow> 'r call_env \<Rightarrow> nat \<Rightarrow> (pool_error + 'r) \<times> pool_action list" where
  "query_loop c retry ce n =
     (let attempt = n + 1 in
      case ce_run ce attempt of
        Inr res \<Rightarrow> (Inr res, [DoRun, DoRelease False])
      | Inl err \<Rightarrow>
          if retry \<and> attempt = 1 then
            if \<not> healthcheck c (ce_check ce) then
              (case ce_acquire ce attempt of
                 Inl e \<Rightarrow> (Inl e, [DoRun, DoHealthcheck, DoDrop])
               | Inr _ \<Rightarrow> apsnd ((@) [DoRun, DoHealthcheck, DoDrop, DoAcquire]) (query_loop c retry ce attempt))
            else (Inl err, [DoRun, DoHealthcheck, DoRelease True])
          else (Inl err, [DoRun, DoRelease True]))"
  by pat_completeness auto
termination
  by (relation "measure (\<lambda>(c, retry, ce, n). 1 - n)") auto

declare query_loop.simps [simp del]

definition query_with_param_and_options ::
    "pool_config \<Rightarrow> query_options \<Rightarrow> 'r call_env \<Rightarrow> (pool_error + 'r) \<times> pool_action list" where
  "query_with_param_and_options c opts ce =
     (case ce_acquire ce 0 of Inl e \<Rightarrow> (Inl e, [])
      | Inr _ \<Rightarrow> apsnd ((#) DoAcquire) (query_loop c (retry_enabled c opts) ce 0))"

definition update_with_batch_and_options :: "'r call_env \<Rightarrow> (pool_error + 'r) \<times> pool_action list" where
  "update_with_batch_and_options ce =
     (case ce_acquire ce 0 of Inl e \<Rightarrow> (Inl e, [])
      | Inr _ \<Rightarrow>
          (case ce_run ce 1 of
             Inr res \<Rightarrow> (Inr res, [DoAcquire, DoRun, DoRelease False])
           | Inl err \<Rightarrow> (Inl err, [DoAcquire, DoRun, DoRelease True])))"

fun gives_back :: "pool_action \<Rightarrow> bool" where
  "gives_back DoDrop = True"
| "gives_back (DoRelease e) = True"
| "gives_back _ = False"

text \<open>
  A query is retried at most once, an update never. A query runs a second time only if retrying is
  enabled, its first run failed and the connection then failed its health check; the broken
  connection is dropped first and a new one acquired. On every path each acquired connection is given
  back exactly once, and an update runs exactly once per acquired connection.
\<close>

theorem query_retried_once:
  "(case query_with_param_and_options c opts ce of (res, acts) \<Rightarrow>
      count_list acts DoRun \<le> 2
      \<and> (count_list acts DoRun = 2 \<longrightarrow> retry_enabled c opts \<and> (\<exists>e. ce_run ce 1 = Inl e)
          \<and> \<not> healthcheck c (ce_check ce) \<and> res = ce_run ce 2)
      \<and> count_list acts DoAcquire = length (filter gives_back acts))
    \<and> (case update_with_batch_and_options ce of (res, acts) \<Rightarrow>
      count_list acts DoRun = count_list acts DoAcquire \<and> count_list acts DoRun \<le> 1
      \<and> count_list acts DoAcquire = length (filter gives_back acts))"
proof (rule conjI)
  have second: "query_loop c retry ce (Suc 0) = (case ce_run ce 2 of Inr r \<Rightarrow> (Inr r, [DoRun, DoRelease False])
      | Inl e \<Rightarrow> (Inl e, [DoRun, DoRelease True]))" for retry
    by (subst query_loop.simps) (simp add: Let_def numeral_2_eq_2 split: sum.split)
  show "case query_with_param_and_options c opts ce of (res, acts) \<Rightarrow>
      count_list acts DoRun \<le> 2
      \<and> (count_list acts DoRun = 2 \<longrightarrow> retry_enabled c opts \<and> (\<exists>e. ce_run ce 1 = Inl e)
          \<and> \<not> healthcheck c (ce_check ce) \<and> res = ce_run ce 2)
      \<and> count_list acts DoAcquire = length (filter gives_back acts)"
    unfolding query_with_param_and_options_def
    by (subst query_loop.simps) (auto simp: second Let_def split: sum.split)
qed (auto simp: update_with_batch_and_options_def split: sum.split)

lemma query_retried_once_witness:
  "let ce = \<lparr>ce_acquire = (\<lambda>n. Inr ()), ce_run = (\<lambda>n. if n = 1 then Inl (QueryError ''gone'') else Inr (5 :: nat)),
        ce_check = False\<rparr>;
      c = sample_config\<lparr>healthcheck_sql := ''SELECT 1''\<rparr> in
    query_with_param_and_options c \<lparr>opt_timeout_ms = None, opt_retry_on_failure = None\<rparr> ce
      = (Inr 5, [DoAcquire, DoRun, DoHealthcheck, DoDrop, DoAcquire, DoRun, DoRelease False])
    \<and> \<not> healthcheck c (ce_check ce)"
proof -
  let ?ce = "\<lparr>ce_acquire = (\<lambda>n. Inr ()), ce_run = (\<lambda>n. if n = 1 then Inl (QueryError ''gone'') else Inr (5 :: nat)),
        ce_check = False\<rparr>"
  let ?c = "sample_config\<lparr>healthcheck_sql := ''SELECT 1''\<rparr>"
  let ?o = "\<lparr>opt_timeout_ms = None, opt_retry_on_failure = None\<rparr>"
  have "trim ''SELECT 1'' \<noteq> []" by (subst trim_solid) (simp_all add: ascii_def is_ws_def byte_def)
  then have h: "\<not> healthcheck ?c False" by (simp add: healthcheck_def)
  have "query_with_param_and_options ?c ?o ?ce
      = (Inr 5, [DoAcquire, DoRun, DoHealthcheck, DoDrop, DoAcquire, DoRun, DoRelease False])"
    using h by (simp add: query_with_param_and_options_def retry_enabled_def sample_config_def
        query_loop.simps Let_def)
  with query_retried_once [of ?c ?o ?ce] show ?thesis by (simp add: Let_def)
qed

end
