(* ===== verification/Async_Pool.thy ===== *)
theory Async_Pool
  imports Client_Pool
begin

text \<open>
  The asynchronous client pool, \<^verbatim>\<open>swanlake-client/src/async_pool.rs\<close> with \<^verbatim>\<open>internal.rs\<close>. A task acquires a
  permit of a semaphore and then a connection. Between two \<open>await\<close> points, or within the lock, a task's
  code is one step; where two counters change one after the other without the lock, they are two
  steps. A task may be dropped at any \<open>await\<close>. Mutex poisoning and a closed semaphore do not occur: no code
  panics under the lock and nothing closes the semaphore.
\<close>

section \<open>Transactions of a driver connection\<close>

text \<open>
  The connection's autocommit flag under the calls of \<^verbatim>\<open>internal.rs\<close>; the arguments say whether the driver
  accepts the commit or rollback and the change of the option.
\<close>

definition begin_manual :: "bool \<Rightarrow> bool \<Rightarrow> bool" where
  "begin_manual option_ok autocommit = (if option_ok then False else autocommit)"

definition commit_manual :: "bool \<Rightarrow> bool \<Rightarrow> bool \<Rightarrow> bool" where
  "commit_manual end_ok option_ok autocommit = (if end_ok \<and> option_ok then True else autocommit)"

definition rollback_manual :: "bool \<Rightarrow> bool \<Rightarrow> bool \<Rightarrow> bool" where
  "rollback_manual end_ok option_ok autocommit = (if end_ok \<and> option_ok then True else autocommit)"

text \<open>What a task runs on its connection, with the driver's answers.\<close>

datatype conn_op = PlainOp | BeginOp bool | CommitOp bool bool | RollbackOp bool bool

fun run_op :: "conn_op \<Rightarrow> bool \<Rightarrow> bool" where
  "run_op PlainOp a = a"
| "run_op (BeginOp ok) a = begin_manual ok a"
| "run_op (CommitOp e ok) a = commit_manual e ok a"
| "run_op (RollbackOp e ok) a = rollback_manual e ok a"

section \<open>The pool\<close>

text \<open>
  Where a task stands. \<open>AGranted\<close> has a permit only, \<open>AConnecting\<close> waits for the driver, \<open>AHeld\<close> has a
  connection in its \<open>AsyncPooledConnection\<close> (with \<open>had_error\<close>), \<open>ABusy\<close> has moved it into a blocking
  task, \<open>APanicked\<close> has given its permit back but not yet lowered \<open>total\<close>, \<open>ABroken\<close> is a handle without a
  connection, \<open>AReleasing\<close> has only the permit left to return.
\<close>

datatype task =
    AWaiting
  | AGranted
  | AConnecting
  | AHeld nat bool
  | ABusy nat bool conn_op
  | APanicked
  | ABroken
  | AReleasing "pool_error option"
  | ARefused pool_error

record apool =
  a_config :: pool_config
  a_idle :: "(nat \<times> nat) list"
  a_total :: nat
  a_permits :: nat
  a_tasks :: "nat \<rightharpoonup> task"
  a_made :: nat
  a_autocommit :: "nat \<Rightarrow> bool"

definition async_pool_new :: "pool_config \<Rightarrow> nat \<Rightarrow> (nat \<Rightarrow> pool_error option) \<Rightarrow> pool_error + apool" where
  "async_pool_new c now outcome =
     try_ok (pool_validate c) (\<lambda>_.
       case warm_error (min_idle c) outcome of Some e \<Rightarrow> Inl e
       | None \<Rightarrow> Inr \<lparr>a_config = c, a_idle = map (\<lambda>i. (i, now)) [0..<min_idle c], a_total = min_idle c,
           a_permits = max_size c, a_tasks = Map.empty, a_made = min_idle c, a_autocommit = (\<lambda>_. True)\<rparr>)"

definition async_evict :: "nat \<Rightarrow> apool \<Rightarrow> apool" where
  "async_evict now p =
     (case evict_idle now (idle_ttl_ms (a_config p)) (a_idle p) of
        (keep, removed) \<Rightarrow> p\<lparr>a_idle := keep, a_total := a_total p - removed\<rparr>)"

definition set_task :: "nat \<Rightarrow> task option \<Rightarrow> apool \<Rightarrow> apool" where
  "set_task t q p = p\<lparr>a_tasks := (a_tasks p)(t := q)\<rparr>"

text \<open>The locked section of \<open>acquire_connection\<close>, after the permit.\<close>

definition async_acquire_locked :: "nat \<Rightarrow> nat \<Rightarrow> apool \<Rightarrow> apool" where
  "async_acquire_locked t now p0 =
     (let p = async_evict now p0 in
      if a_idle p \<noteq> [] then
        set_task t (Some (AHeld (fst (last (a_idle p))) False)) (p\<lparr>a_idle := butlast (a_idle p)\<rparr>)
      else if a_total p < max_size (a_config p) then
        set_task t (Some AConnecting) (p\<lparr>a_total := a_total p + 1\<rparr>)
      else set_task t (Some (AReleasing (Some PoolExhausted))) p)"

text \<open>The drop of an \<open>AsyncPooledConnection\<close> that still has its connection; the permit goes back later.\<close>

definition async_drop :: "nat \<Rightarrow> nat \<Rightarrow> bool \<Rightarrow> nat \<Rightarrow> apool \<Rightarrow> apool" where
  "async_drop t c had_error now p =
     (if had_error then set_task t (Some (AReleasing None)) (p\<lparr>a_total := a_total p - 1\<rparr>)
      else (let q = async_evict now p in
        set_task t (Some (AReleasing None)) (q\<lparr>a_idle := a_idle q @ [(c, now)]\<rparr>)))"

datatype task_event =
    AStart nat
  | AGrant nat
  | ATimeout nat
  | ALock nat nat
  | AConnected nat
  | AConnectFailed nat pool_error
  | AUse nat conn_op
  | ADone nat
  | APanic nat
  | AForget nat
  | AMarkError nat
  | ADrop nat nat
  | AReturnPermit nat
  | AAbort nat

text \<open>
  \<open>AAbort\<close> is the drop of a task's future while it waits: the permit is dropped with it, and whatever the
  blocking task made or holds is dropped when that task ends, outside the pool.
\<close>

fun task_step :: "apool \<Rightarrow> task_event \<Rightarrow> apool" where
  "task_step p (AStart t) = (if a_tasks p t = None then set_task t (Some AWaiting) p else p)"
| "task_step p (AGrant t) =
     (if a_tasks p t = Some AWaiting \<and> 0 < a_permits p
      then set_task t (Some AGranted) (p\<lparr>a_permits := a_permits p - 1\<rparr>) else p)"
| "task_step p (ATimeout t) =
     (if a_tasks p t = Some AWaiting then set_task t (Some (ARefused AcquireTimeout)) p else p)"
| "task_step p (ALock t now) = (if a_tasks p t = Some AGranted then async_acquire_locked t now p else p)"
| "task_step p (AConnected t) =
     (if a_tasks p t = Some AConnecting
      then set_task t (Some (AHeld (a_made p) False))
        (p\<lparr>a_made := a_made p + 1, a_autocommit := (a_autocommit p)(a_made p := True)\<rparr>)
      else p)"
| "task_step p (AConnectFailed t e) =
     (if a_tasks p t = Some AConnecting
      then set_task t (Some (AReleasing (Some e))) (p\<lparr>a_total := a_total p - 1\<rparr>) else p)"
| "task_step p (AUse t op) =
     (case a_tasks p t of Some (AHeld c e) \<Rightarrow> set_task t (Some (ABusy c e op)) p | _ \<Rightarrow> p)"
| "task_step p (ADone t) =
     (case a_tasks p t of
        Some (ABusy c e op) \<Rightarrow> set_task t (Some (AHeld c e))
          (p\<lparr>a_autocommit := (a_autocommit p)(c := run_op op (a_autocommit p c))\<rparr>)
      | _ \<Rightarrow> p)"
| "task_step p (APanic t) =
     (case a_tasks p t of
        Some (ABusy c e op) \<Rightarrow> set_task t (Some APanicked) (p\<lparr>a_permits := a_permits p + 1\<rparr>) | _ \<Rightarrow> p)"
| "task_step p (AForget t) =
     (if a_tasks p t = Some APanicked then set_task t (Some ABroken) (p\<lparr>a_total := a_total p - 1\<rparr>) else p)"
| "task_step p (AMarkError t) =
     (case a_tasks p t of Some (AHeld c e) \<Rightarrow> set_task t (Some (AHeld c True)) p | _ \<Rightarrow> p)"
| "task_step p (ADrop t now) =
     (case a_tasks p t of
        Some (AHeld c e) \<Rightarrow> async_drop t c e now p
      | Some ABroken \<Rightarrow> set_task t None p
      | _ \<Rightarrow> p)"
| "task_step p (AReturnPermit t) =
     (case a_tasks p t of
        Some (AReleasing r) \<Rightarrow> set_task t (map_option ARefused r) (p\<lparr>a_permits := a_permits p + 1\<rparr>) | _ \<Rightarrow> p)"
| "task_step p (AAbort t) =
     (case a_tasks p t of
        Some AWaiting \<Rightarrow> set_task t None p
      | Some AConnecting \<Rightarrow> set_task t None (p\<lparr>a_permits := a_permits p + 1\<rparr>)
      | Some (ABusy c e op) \<Rightarrow> set_task t None (p\<lparr>a_permits := a_permits p + 1\<rparr>)
      | _ \<Rightarrow> p)"

section \<open>Counting\<close>

fun has_permit :: "task \<Rightarrow> bool" where
  "has_permit AGranted = True"
| "has_permit AConnecting = True"
| "has_permit (AHeld c e) = True"
| "has_permit (ABusy c e op) = True"
| "has_permit (AReleasing r) = True"
| "has_permit _ = False"

text \<open>A task whose connection, or place for one, is part of \<open>total\<close>.\<close>

fun in_total :: "task \<Rightarrow> bool" where
  "in_total AConnecting = True"
| "in_total (AHeld c e) = True"
| "in_total (ABusy c e op) = True"
| "in_total APanicked = True"
| "in_total _ = False"

definition known :: "apool \<Rightarrow> nat" where
  "known p = length (a_idle p) + phase_count in_total (a_tasks p)"

text \<open>The part of \<open>total\<close> that nothing stands behind.\<close>

definition lost :: "apool \<Rightarrow> nat" where
  "lost p = a_total p - known p"

definition apool_ok :: "apool \<Rightarrow> bool" where
  "apool_ok p \<longleftrightarrow> finite (dom (a_tasks p)) \<and> a_permits p + phase_count has_permit (a_tasks p) = max_size (a_config p)
     \<and> known p \<le> a_total p \<and> a_total p \<le> max_size (a_config p)"

definition task_weight :: "(task \<Rightarrow> bool) \<Rightarrow> task option \<Rightarrow> nat" where
  "task_weight P q = (case q of None \<Rightarrow> 0 | Some t \<Rightarrow> of_bool (P t))"

lemma task_weight_simps [simp]: "task_weight P None = 0" "task_weight P (Some t) = of_bool (P t)"
  by (simp_all add: task_weight_def)

lemma task_weight_refused [simp]:
  "task_weight has_permit (map_option ARefused r) = 0" "task_weight in_total (map_option ARefused r) = 0"
  by (cases r; simp)+

lemma task_count_upd:
  "finite (dom m) \<Longrightarrow> phase_count P (m(t := q)) + task_weight P (m t) = phase_count P m + task_weight P q"
  using phase_count_upd [of m P t q] by (cases q; cases "m t") (auto simp: phase_set_iff)

text \<open>
  Moving one task and changing the numbers with it keeps the pool consistent, and adds \<open>l\<close> to what is
  lost, if the numbers fit.
\<close>

lemma move_task:
  assumes "apool_ok p" "a_tasks p' = (a_tasks p)(t := q)" "a_config p' = a_config p"
    and "a_permits p' + task_weight has_permit q = a_permits p + task_weight has_permit (a_tasks p t)"
    and "a_total p' + length (a_idle p) + task_weight in_total (a_tasks p t)
      = a_total p + length (a_idle p') + task_weight in_total q + l"
    and "a_total p' \<le> max_size (a_config p)"
  shows "apool_ok p' \<and> lost p' = lost p + l"
proof -
  have f: "finite (dom (a_tasks p))" using assms(1) by (simp add: apool_ok_def)
  from task_count_upd [OF f, of has_permit t q] task_count_upd [OF f, of in_total t q] assms
  show ?thesis by (auto simp: apool_ok_def lost_def known_def)
qed

lemma async_evict_cases:
  assumes "apool_ok p"
  obtains n where "n \<le> length (a_idle p)" "length (a_idle (async_evict now p)) + n = length (a_idle p)"
    "a_total (async_evict now p) + n = a_total p"
proof -
  let ?k = "filter (\<lambda>(c, last_used). cutoff now (idle_ttl_ms (a_config p)) \<le> last_used) (a_idle p)"
  have "length (a_idle p) \<le> a_total p" "length ?k \<le> length (a_idle p)" using assms by (simp_all add: apool_ok_def known_def)
  then show ?thesis
    using that [of 0] that [of "length (a_idle p) - length ?k"]
    by (cases "idle_ttl_ms (a_config p) = 0") (simp_all add: async_evict_def evict_idle_def Let_def)
qed

lemma async_evict_same [simp]:
  "a_tasks (async_evict now p) = a_tasks p" "a_config (async_evict now p) = a_config p"
  "a_permits (async_evict now p) = a_permits p"
  by (simp_all add: async_evict_def split: prod.split)

lemma async_evict_ok:
  assumes "apool_ok p"
  shows "apool_ok (async_evict now p) \<and> lost (async_evict now p) = lost p"
proof (rule async_evict_cases [OF assms, of now])
  fix n
  assume "n \<le> length (a_idle p)" "length (a_idle (async_evict now p)) + n = length (a_idle p)"
    "a_total (async_evict now p) + n = a_total p"
  with assms show ?thesis by (simp add: apool_ok_def lost_def known_def)
qed

lemma set_task_same [simp]:
  "a_tasks (set_task t q p) = (a_tasks p)(t := q)" "a_config (set_task t q p) = a_config p"
  "a_permits (set_task t q p) = a_permits p" "a_total (set_task t q p) = a_total p" "a_idle (set_task t q p) = a_idle p"
  by (simp_all add: set_task_def)

text \<open>What is counted is counted among the tasks that are there.\<close>

lemma in_total_known: "apool_ok p \<Longrightarrow> task_weight in_total (a_tasks p t) + length (a_idle p) \<le> a_total p"
  using task_count_upd [of "a_tasks p" in_total t None] by (auto simp: apool_ok_def known_def)

definition steps_to :: "apool \<Rightarrow> nat \<Rightarrow> apool \<Rightarrow> bool" where
  "steps_to p l p' \<longleftrightarrow> apool_ok p' \<and> lost p' = lost p + l \<and> a_config p' = a_config p"

lemma steps_to_moveI:
  "apool_ok p \<Longrightarrow> a_tasks p' = (a_tasks p)(t := q) \<Longrightarrow> a_config p' = a_config p \<Longrightarrow>
    a_permits p' + task_weight has_permit q = a_permits p + task_weight has_permit (a_tasks p t) \<Longrightarrow>
    a_total p' + length (a_idle p) + task_weight in_total (a_tasks p t)
      = a_total p + length (a_idle p') + task_weight in_total q + l \<Longrightarrow>
    a_total p' \<le> max_size (a_config p) \<Longrightarrow> steps_to p l p'"
  using move_task [of p p' t q l] by (simp add: steps_to_def)

lemma steps_to_refl: "apool_ok p \<Longrightarrow> steps_to p 0 p"
  by (simp add: steps_to_def)

lemma acquire_steps:
  assumes "apool_ok p" "a_tasks p t = Some AGranted"
  shows "steps_to p 0 (async_acquire_locked t now p)"
proof -
  define q where "q = async_evict now p"
  have q: "apool_ok q" "lost q = lost p" "a_tasks q t = Some AGranted" "a_config q = a_config p"
    using async_evict_ok [OF assms(1), of now] assms(2) by (simp_all add: q_def)
  have "steps_to q 0 (async_acquire_locked t now p)"
    using q(1,3) unfolding async_acquire_locked_def q_def [symmetric] Let_def
    by (cases "a_idle q" rule: rev_cases)
      (auto intro!: steps_to_moveI [where t = t] simp: apool_ok_def)
  with q show ?thesis by (simp add: steps_to_def)
qed

lemma drop_steps:
  assumes "apool_ok p" "a_tasks p t = Some (AHeld c e)"
  shows "steps_to p 0 (async_drop t c e now p)"
proof -
  define q where "q = async_evict now p"
  have q: "apool_ok q" "lost q = lost p" "a_tasks q t = Some (AHeld c e)" "a_config q = a_config p"
    using async_evict_ok [OF assms(1), of now] assms(2) by (simp_all add: q_def)
  have "steps_to q 0 (set_task t (Some (AReleasing None)) (q\<lparr>a_idle := a_idle q @ [(c, now)]\<rparr>))"
    by (rule steps_to_moveI [OF q(1), where t = t]) (use q in \<open>auto simp: apool_ok_def\<close>)
  with q have "steps_to p 0 (set_task t (Some (AReleasing None)) (q\<lparr>a_idle := a_idle q @ [(c, now)]\<rparr>))"
    by (simp add: steps_to_def)
  moreover have "steps_to p 0 (set_task t (Some (AReleasing None)) (p\<lparr>a_total := a_total p - 1\<rparr>))"
    by (rule steps_to_moveI [OF assms(1), where t = t])
      (use assms in_total_known [OF assms(1), of t] in \<open>auto simp: apool_ok_def\<close>)
  ultimately show ?thesis by (simp add: async_drop_def Let_def flip: q_def)
qed

text \<open>The places that an event loses: only an abort while connecting or while a blocking task runs.\<close>

fun loses :: "apool \<Rightarrow> task_event \<Rightarrow> nat" where
  "loses p (AAbort t) = of_bool (\<exists>q. a_tasks p t = Some q \<and> in_total q \<and> has_permit q \<and> (\<forall>c e. q \<noteq> AHeld c e))"
| "loses p _ = 0"

lemma task_step_steps:
  assumes "apool_ok p"
  shows "steps_to p (loses p ev) (task_step p ev)"
proof (cases ev)
  case (ALock t now)
  with acquire_steps [OF assms, of t now] assms show ?thesis by (auto intro: steps_to_refl)
next
  case (ADrop t now)
  with drop_steps [OF assms] assms show ?thesis
    by (auto simp: apool_ok_def intro!: steps_to_refl steps_to_moveI [where t = t] split: option.split task.split)
next
  case (AConnectFailed t e)
  with assms in_total_known [OF assms, of t] show ?thesis
    by (auto simp: apool_ok_def intro!: steps_to_refl steps_to_moveI [where t = t])
next
  case (AForget t)
  with assms in_total_known [OF assms, of t] show ?thesis
    by (auto simp: apool_ok_def intro!: steps_to_refl steps_to_moveI [where t = t])
next
  case (AReturnPermit t)
  with assms show ?thesis
    by (auto simp: apool_ok_def intro!: steps_to_refl steps_to_moveI [where t = t] split: option.split task.split)
qed (use assms in \<open>auto simp: apool_ok_def intro!: steps_to_refl steps_to_moveI split: option.split task.split\<close>)

lemma async_pool_new_ok: "async_pool_new c now outcome = Inr p \<Longrightarrow> apool_ok p \<and> lost p = 0 \<and> a_config p = c"
  by (auto simp: async_pool_new_def pool_validate_def apool_ok_def lost_def known_def phase_count_def run_simps
      split: option.splits if_splits)

interpretation apool: capacity task_step apool_ok a_permits "\<lambda>p. phase_count has_permit (a_tasks p)"
proof
  fix p ev
  assume ok: "apool_ok p"
  from task_step_steps [OF this, of ev] show "apool_ok (task_step p ev)" by (simp add: steps_to_def)
  with ok task_step_steps [OF ok, of ev]
  show "a_permits (task_step p ev) + phase_count has_permit (a_tasks (task_step p ev))
      = a_permits p + phase_count has_permit (a_tasks p)"
    by (simp add: apool_ok_def steps_to_def)
qed

lemma run_steps:
  "apool_ok p \<Longrightarrow> apool_ok (foldl task_step p evs) \<and> lost p \<le> lost (foldl task_step p evs)
    \<and> a_config (foldl task_step p evs) = a_config p"
proof (induction evs arbitrary: p)
  case (Cons ev evs)
  then show ?case using task_step_steps [of p ev] Cons.IH [of "task_step p ev"] by (auto simp: steps_to_def)
qed simp

section \<open>Properties\<close>

text \<open>
  The asynchronous pool is bounded by its semaphore and by its counter. From any configuration that
  passes \<open>validate\<close>, after any interleaving of tasks, aborts and panics included, the free permits and
  the tasks that hold one are exactly \<open>max_size\<close>, and \<open>total\<close> is at most \<open>max_size\<close> and at least the idle
  connections and those that tasks make or hold.
\<close>

theorem async_pool_bounded:
  assumes "async_pool_new c now outcome = Inr p0" "p = foldl task_step p0 evs"
  shows "a_permits p + phase_count has_permit (a_tasks p) = max_size c
    \<and> length (a_idle p) + phase_count in_total (a_tasks p) \<le> a_total p \<and> a_total p \<le> max_size c"
proof -
  from async_pool_new_ok [OF assms(1)] have "apool_ok p0" "a_config p0 = c" by simp_all
  with run_steps [of p0 evs] assms(2) have "apool_ok p" "a_config p = c" by simp_all
  then show ?thesis by (auto simp: apool_ok_def known_def)
qed

definition sample_apool :: apool where
  "sample_apool = \<lparr>a_config = sample_config, a_idle = [(0, 5)], a_total = 1, a_permits = 1,
     a_tasks = Map.empty, a_made = 1, a_autocommit = (\<lambda>_. True)\<rparr>"

lemma sample_apool_new: "async_pool_new sample_config 5 (\<lambda>_. None) = Inr sample_apool"
proof -
  have "warm_error 1 (\<lambda>_. None) = None" by (simp add: warm_error_def find_None_iff)
  then show ?thesis
    by (simp add: async_pool_new_def pool_validate_def sample_config_def sample_apool_def run_simps)
qed

lemma async_pool_bounded_witness:
  "let p = foldl task_step sample_apool [AStart 7, AGrant 7, ALock 7 6, AStart 8] in
    a_permits p + phase_count has_permit (a_tasks p) = 1 \<and> a_tasks p 7 = Some (AHeld 0 False) \<and> a_total p \<le> 1"
proof -
  let ?p = "foldl task_step sample_apool [AStart 7, AGrant 7, ALock 7 6, AStart 8]"
  have "a_tasks ?p 7 = Some (AHeld 0 False)"
    by (simp add: sample_apool_def sample_config_def async_acquire_locked_def async_evict_def evict_idle_def
        Let_def)
  with async_pool_bounded [OF sample_apool_new refl, of "[AStart 7, AGrant 7, ALock 7 6, AStart 8]"]
  show ?thesis by (simp add: sample_config_def Let_def del: task_step.simps foldl.simps)
qed

text \<open>
  A task with a permit finds a connection or room for one, unless the pool has lost some. In a
  reachable state, if the pool answers \<open>connection pool exhausted\<close> to a task that was granted a permit,
  then a place of \<open>total\<close> has been lost to an aborted task, or a task whose blocking call panicked has
  returned its permit and not yet its place.
\<close>

theorem exhausted_only_after_loss:
  assumes "apool_ok p" "a_tasks p t = Some AGranted"
    and "a_tasks (task_step p (ALock t now)) t = Some (AReleasing (Some PoolExhausted))"
  shows "0 < lost p \<or> (\<exists>t'. a_tasks p t' = Some APanicked)"
proof (rule ccontr)
  assume neg: "\<not> ?thesis"
  define q where "q = async_evict now p"
  have q: "apool_ok q" "lost q = 0" "a_tasks q = a_tasks p" "a_config q = a_config p"
    using async_evict_ok [OF assms(1), of now] neg by (simp_all add: q_def)
  from assms(2,3) have "a_idle q = []" "max_size (a_config q) \<le> a_total q"
    by (auto simp: async_acquire_locked_def Let_def q_def [symmetric] split: if_splits)
  with q have n: "phase_count in_total (a_tasks p) = max_size (a_config p)"
    by (simp add: apool_ok_def lost_def known_def)
  have "phase_set in_total (a_tasks p) \<subset> phase_set has_permit (a_tasks p)"
  proof
    show "phase_set in_total (a_tasks p) \<subseteq> phase_set has_permit (a_tasks p)"
    proof
      fix r assume "r \<in> phase_set in_total (a_tasks p)"
      then obtain k where "a_tasks p r = Some k" "in_total k" by (auto simp: phase_set_iff)
      with neg show "r \<in> phase_set has_permit (a_tasks p)" by (cases k) (auto simp: phase_set_iff)
    qed
    from assms(2) have "t \<in> phase_set has_permit (a_tasks p)" "t \<notin> phase_set in_total (a_tasks p)"
      by (auto simp: phase_set_iff)
    then show "phase_set in_total (a_tasks p) \<noteq> phase_set has_permit (a_tasks p)" by blast
  qed
  from psubset_card_mono [OF finite_phase_set this] assms(1) n show False
    by (simp add: apool_ok_def phase_count_def)
qed

text \<open>
  Task 7 connects and is aborted: its permit is back, its place is not, and task 8 is told that the pool is
  exhausted although nobody has a connection.
\<close>

definition aborted_pool :: apool where
  "aborted_pool = sample_apool\<lparr>a_idle := [], a_total := 1, a_tasks := [8 \<mapsto> AGranted], a_permits := 0\<rparr>"

lemma aborted_pool_reached:
  "foldl task_step (sample_apool\<lparr>a_idle := [], a_total := 0\<rparr>)
    [AStart 7, AGrant 7, ALock 7 6, AAbort 7, AStart 8, AGrant 8] = aborted_pool"
  by (simp add: aborted_pool_def sample_apool_def sample_config_def async_acquire_locked_def async_evict_def
      evict_idle_def set_task_def Let_def)

lemma aborted_pool_ok: "apool_ok aborted_pool"
proof -
  have "apool_ok (sample_apool\<lparr>a_idle := [], a_total := 0\<rparr>)"
    by (simp add: apool_ok_def known_def phase_count_def sample_apool_def sample_config_def)
  from run_steps [OF this] show ?thesis by (metis aborted_pool_reached)
qed

lemma exhausted_only_after_loss_witness:
  "a_tasks (task_step aborted_pool (ALock 8 7)) 8 = Some (AReleasing (Some PoolExhausted)) \<and> 0 < lost aborted_pool"
proof -
  have "a_tasks (task_step aborted_pool (ALock 8 7)) 8 = Some (AReleasing (Some PoolExhausted))"
    by (simp add: aborted_pool_def sample_apool_def sample_config_def async_acquire_locked_def async_evict_def
        evict_idle_def Let_def)
  with exhausted_only_after_loss [OF aborted_pool_ok _ this] show ?thesis
    by (auto simp: aborted_pool_def split: if_splits)
qed

lemma all_lost:
  "apool_ok q \<Longrightarrow> max_size (a_config q) \<le> lost q \<Longrightarrow> length (a_idle q) = 0 \<and> a_total q = max_size (a_config q)"
  unfolding apool_ok_def lost_def known_def by linarith

text \<open>
  Capacity lost to an aborted task never comes back. When a task is dropped while it connects or
  while its blocking call runs, its permit is returned but its place in \<open>total\<close> is not; nothing that
  happens later lowers what is lost, and once \<open>max_size\<close> places are lost every task that is granted a
  permit is refused, for ever.
\<close>

theorem lost_capacity_stays:
  assumes "apool_ok p"
  shows "lost p \<le> lost (foldl task_step p evs)
    \<and> (a_tasks p t = Some AConnecting \<or> (\<exists>c e op. a_tasks p t = Some (ABusy c e op)) \<longrightarrow>
        lost (task_step p (AAbort t)) = lost p + 1 \<and> a_permits (task_step p (AAbort t)) = a_permits p + 1)
    \<and> (lost p = max_size (a_config p) \<and> a_tasks (foldl task_step p evs) w = Some AGranted \<longrightarrow>
        a_tasks (task_step (foldl task_step p evs) (ALock w now)) w = Some (AReleasing (Some PoolExhausted)))"
proof (intro conjI impI)
  show "lost p \<le> lost (foldl task_step p evs)" using run_steps [OF assms] by simp
  assume "a_tasks p t = Some AConnecting \<or> (\<exists>c e op. a_tasks p t = Some (ABusy c e op))"
  with task_step_steps [OF assms, of "AAbort t"]
  show "lost (task_step p (AAbort t)) = lost p + 1" "a_permits (task_step p (AAbort t)) = a_permits p + 1"
    by (auto simp: steps_to_def)
next
  let ?q = "foldl task_step p evs"
  assume a: "lost p = max_size (a_config p) \<and> a_tasks ?q w = Some AGranted"
  with run_steps [OF assms, of evs] have "apool_ok ?q" "max_size (a_config ?q) \<le> lost ?q" by simp_all
  with async_evict_ok [of ?q now] all_lost [of "async_evict now ?q"]
  have "a_idle (async_evict now ?q) = []" "a_total (async_evict now ?q) = max_size (a_config ?q)" by simp_all
  with a show "a_tasks (task_step ?q (ALock w now)) w = Some (AReleasing (Some PoolExhausted))"
    by (simp add: async_acquire_locked_def Let_def)
qed

lemma lost_capacity_stays_witness:
  "a_tasks (task_step (foldl task_step aborted_pool [ALock 8 7, AReturnPermit 8, AStart 9, AGrant 9]) (ALock 9 8)) 9
    = Some (AReleasing (Some PoolExhausted))"
proof -
  have l: "lost aborted_pool = max_size (a_config aborted_pool)"
    by (simp add: aborted_pool_def sample_apool_def sample_config_def lost_def known_def phase_count_def phase_set_upd)
  have "a_tasks (foldl task_step aborted_pool [ALock 8 7, AReturnPermit 8, AStart 9, AGrant 9]) 9 = Some AGranted"
    by (simp add: aborted_pool_def sample_apool_def sample_config_def async_acquire_locked_def async_evict_def
        evict_idle_def Let_def)
  with lost_capacity_stays [OF aborted_pool_ok, of "[ALock 8 7, AReturnPermit 8, AStart 9, AGrant 9]" 0 9 8] l
  show ?thesis by blast
qed

text \<open>
  The pool does not end transactions. A session that begins a transaction and is dropped hands its
  connection to the pool with autocommit off, and the next task, whoever it is, gets that connection and
  runs inside the open transaction.
\<close>

theorem session_leaks_transaction:
  assumes "a_tasks p t = Some (AHeld c False)" "a_tasks p w = Some AWaiting"
    and "q = foldl task_step p [AUse t (BeginOp True), ADone t, ADrop t now, AReturnPermit t, AGrant w, ALock w now]"
  shows "a_tasks q w = Some (AHeld c False) \<and> \<not> a_autocommit q c"
proof -
  have tw: "t \<noteq> w" using assms(1,2) by auto
  have last: "\<exists>ys. a_idle (async_evict now r) = ys @ [(c, now)]" if "a_idle r = xs @ [(c, now)]" for r xs
    using that by (auto simp: async_evict_def evict_idle_def cutoff_def Let_def)
  have auto: "a_autocommit (async_evict now r) = a_autocommit r" "a_autocommit (set_task x y r) = a_autocommit r" for r x y
    by (simp_all add: async_evict_def set_task_def split: prod.split)
  define r where "r = foldl task_step p [AUse t (BeginOp True), ADone t, ADrop t now, AReturnPermit t, AGrant w]"
  have r: "a_tasks r w = Some AGranted" "\<not> a_autocommit r c" "\<exists>xs. a_idle r = xs @ [(c, now)]"
    using assms(1,2) tw by (simp_all add: r_def async_drop_def Let_def auto begin_manual_def)
  from r(3) last obtain ys where "a_idle (async_evict now r) = ys @ [(c, now)]" by blast
  moreover have "q = task_step r (ALock w now)" by (simp add: assms(3) r_def)
  ultimately show ?thesis using r(1,2) by (simp add: async_acquire_locked_def Let_def auto)
qed

lemma session_leaks_transaction_witness:
  "let q = foldl task_step (foldl task_step sample_apool [AStart 7, AGrant 7, ALock 7 6, AStart 8])
      [AUse 7 (BeginOp True), ADone 7, ADrop 7 9, AReturnPermit 7, AGrant 8, ALock 8 9] in
    a_tasks q 8 = Some (AHeld 0 False) \<and> \<not> a_autocommit q 0"
proof -
  let ?p = "foldl task_step sample_apool [AStart 7, AGrant 7, ALock 7 6, AStart 8]"
  have "a_tasks ?p 7 = Some (AHeld 0 False)" "a_tasks ?p 8 = Some AWaiting"
    by (simp_all add: sample_apool_def sample_config_def async_acquire_locked_def async_evict_def evict_idle_def
        Let_def)
  from session_leaks_transaction [OF this refl, of 9] show ?thesis unfolding Let_def .
qed

section \<open>Queries and updates\<close>

text \<open>
  As in the synchronous pool, with two differences: a failed blocking task (\<open>TaskFailed\<close>) takes the connection
  with it, so the health check has nothing to ask, and a connection that met an error is always dropped.
\<close>

definition async_healthcheck :: "pool_config \<Rightarrow> pool_error \<Rightarrow> bool \<Rightarrow> bool" where
  "async_healthcheck c err answers = (case err of TaskFailed _ \<Rightarrow> False | _ \<Rightarrow> healthcheck c answers)"

function async_query_loop :: "pool_config \<Rightarrow> bool \<Rightarrow> 'r call_env \<Rightarrow> nat \<Rightarrow> (pool_error + 'r) \<times> pool_action list" where
  "async_query_loop c retry ce n =
     (let attempt = n + 1 in
      case ce_acquire ce attempt of
        Inl e \<Rightarrow> (Inl e, [])
      | Inr _ \<Rightarrow>
          (case ce_run ce attempt of
             Inr res \<Rightarrow> (Inr res, [DoAcquire, DoRun, DoRelease False])
           | Inl err \<Rightarrow>
               if retry \<and> attempt = 1 then
                 if \<not> async_healthcheck c err (ce_check ce) then
                   apsnd ((@) [DoAcquire, DoRun, DoHealthcheck, DoDrop]) (async_query_loop c retry ce attempt)
                 else (Inl err, [DoAcquire, DoRun, DoHealthcheck, DoDrop])
               else (Inl err, [DoAcquire, DoRun, DoDrop])))"
  by pat_completeness auto
termination
  by (relation "measure (\<lambda>(c, retry, ce, n). 1 - n)") auto

declare async_query_loop.simps [simp del]

definition async_query_with_param_and_options ::
    "pool_config \<Rightarrow> query_options \<Rightarrow> 'r call_env \<Rightarrow> (pool_error + 'r) \<times> pool_action list" where
  "async_query_with_param_and_options c opts ce = async_query_loop c (retry_enabled c opts) ce 0"

definition async_update_with_batch_and_options :: "'r call_env \<Rightarrow> (pool_error + 'r) \<times> pool_action list" where
  "async_update_with_batch_and_options ce =
     (case ce_acquire ce 1 of Inl e \<Rightarrow> (Inl e, [])
      | Inr _ \<Rightarrow>
          (case ce_run ce 1 of
             Inr res \<Rightarrow> (Inr res, [DoAcquire, DoRun, DoRelease False])
           | Inl err \<Rightarrow> (Inl err, [DoAcquire, DoRun, DoDrop])))"

text \<open>
  An asynchronous query runs at most twice, an update at most once, and a connection that met an
  error is never reused: every acquired connection is given back or dropped exactly once, it goes back to the
  pool only after a success, and then it is the last thing that the call does.
\<close>

theorem async_query_retried_once:
  "(case async_query_with_param_and_options c opts ce of (res, acts) \<Rightarrow>
      count_list acts DoRun \<le> 2
      \<and> (count_list acts DoRun = 2 \<longrightarrow> retry_enabled c opts \<and> (\<exists>e. ce_run ce 1 = Inl e
          \<and> \<not> async_healthcheck c e (ce_check ce)) \<and> res = ce_run ce 2)
      \<and> count_list acts DoAcquire = length (filter gives_back acts)
      \<and> (\<forall>b. DoRelease b \<in> set acts \<longrightarrow> (\<exists>x. res = Inr x) \<and> last acts = DoRelease False))
    \<and> (case async_update_with_batch_and_options ce of (res, acts) \<Rightarrow>
      count_list acts DoRun \<le> 1 \<and> count_list acts DoAcquire = length (filter gives_back acts)
      \<and> (\<forall>b. DoRelease b \<in> set acts \<longrightarrow> (\<exists>x. res = Inr x)))"
proof (rule conjI)
  have second: "async_query_loop c retry ce (Suc 0) = (case ce_acquire ce 2 of Inl e \<Rightarrow> (Inl e, [])
      | Inr _ \<Rightarrow> (case ce_run ce 2 of Inr r \<Rightarrow> (Inr r, [DoAcquire, DoRun, DoRelease False])
        | Inl e \<Rightarrow> (Inl e, [DoAcquire, DoRun, DoDrop])))" for retry
    by (subst async_query_loop.simps) (simp add: Let_def numeral_2_eq_2 split: sum.split)
  show "case async_query_with_param_and_options c opts ce of (res, acts) \<Rightarrow>
      count_list acts DoRun \<le> 2
      \<and> (count_list acts DoRun = 2 \<longrightarrow> retry_enabled c opts \<and> (\<exists>e. ce_run ce 1 = Inl e
          \<and> \<not> async_healthcheck c e (ce_check ce)) \<and> res = ce_run ce 2)
      \<and> count_list acts DoAcquire = length (filter gives_back acts)
      \<and> (\<forall>b. DoRelease b \<in> set acts \<longrightarrow> (\<exists>x. res = Inr x) \<and> last acts = DoRelease False)"
    unfolding async_query_with_param_and_options_def
    by (subst async_query_loop.simps) (auto simp: second Let_def split: sum.split)
qed (auto simp: async_update_with_batch_and_options_def split: sum.split)

lemma async_query_retried_once_witness:
  "let ce = \<lparr>ce_acquire = (\<lambda>n. Inr ()), ce_run = (\<lambda>n. if n = 1 then Inl (TaskFailed ''panic'') else Inr (5 :: nat)),
        ce_check = True\<rparr> in
    async_query_with_param_and_options sample_config \<lparr>opt_timeout_ms = None, opt_retry_on_failure = None\<rparr> ce
      = (Inr 5, [DoAcquire, DoRun, DoHealthcheck, DoDrop, DoAcquire, DoRun, DoRelease False])"
proof -
  let ?ce = "\<lparr>ce_acquire = (\<lambda>n. Inr ()), ce_run = (\<lambda>n. if n = 1 then Inl (TaskFailed ''panic'') else Inr (5 :: nat)),
        ce_check = True\<rparr>"
  let ?o = "\<lparr>opt_timeout_ms = None, opt_retry_on_failure = None\<rparr>"
  have "async_query_with_param_and_options sample_config ?o ?ce
      = (Inr 5, [DoAcquire, DoRun, DoHealthcheck, DoDrop, DoAcquire, DoRun, DoRelease False])"
    by (simp add: async_query_with_param_and_options_def retry_enabled_def sample_config_def
        async_query_loop.simps async_healthcheck_def Let_def)
  with async_query_retried_once [of sample_config ?o ?ce] show ?thesis by (simp add: Let_def)
qed

end
