(* ===== verification/Batch.thy ===== *)
theory Batch
  imports Errors
begin

text \<open>
  \<^verbatim>\<open>engine/batch.rs\<close>: the columns of a client's record batch are brought into the order and types of the
  table they are inserted into. Arrays, casts and the validation of a new batch belong to the Arrow
  library: they are the functions of \<open>arrow\<close>, and \<open>arrow_laws\<close> is what Arrow documents of them.
\<close>

record 'ty field =
  f_name :: string
  f_type :: 'ty
  f_nullable :: bool

record ('a, 'ty) batch =
  b_fields :: "'ty field list"
  b_columns :: "'a list"
  b_rows :: nat

record ('a, 'ty) arrow =
  ar_null :: "'ty \<Rightarrow> nat \<Rightarrow> 'a"
  ar_cast :: "'a \<Rightarrow> 'ty \<Rightarrow> string + 'a"
  ar_slice :: "'a \<Rightarrow> nat \<Rightarrow> nat \<Rightarrow> 'a"
  ar_concat :: "'a list \<Rightarrow> string + 'a"
  ar_try_new :: "'ty field list \<Rightarrow> 'a list \<Rightarrow> string + ('a, 'ty) batch"
  ar_index_of :: "'ty field list \<Rightarrow> string \<Rightarrow> nat option"
  ar_show_schema :: "'ty field list \<Rightarrow> string"

text \<open>\<open>vals a\<close> are the values of an array, \<open>None\<close> for a null.\<close>

definition arrow_laws :: "('a, 'ty) arrow \<Rightarrow> ('a \<Rightarrow> 'v option list) \<Rightarrow> bool" where
  "arrow_laws ar vals \<longleftrightarrow>
     (\<forall>ty n. vals (ar_null ar ty n) = replicate n None)
     \<and> (\<forall>a i n. vals (ar_slice ar a i n) = take n (drop i (vals a)))
     \<and> (\<forall>as b. ar_concat ar as = Inr b \<longrightarrow> vals b = concat (map vals as))
     \<and> (\<forall>fs cs b. ar_try_new ar fs cs = Inr b \<longrightarrow> b_fields b = fs \<and> b_columns b = cs
           \<and> length cs = length fs \<and> (\<forall>c\<in>set cs. length (vals c) = b_rows b))
     \<and> (\<forall>fs n i. ar_index_of ar fs n = Some i \<longrightarrow> i < length fs \<and> f_name (fs ! i) = n)"

text \<open>\<open>map_err(ServerError::Arrow)\<close>.\<close>

definition arrow_err :: "string + 'b \<Rightarrow> server_error + 'b" where
  "arrow_err r = (case r of Inl e \<Rightarrow> Inl (ArrowError e) | Inr x \<Rightarrow> Inr x)"

text \<open>A loop that pushes results and stops at the first error.\<close>

fun collect :: "('x \<Rightarrow> 'e + 'y) \<Rightarrow> 'x list \<Rightarrow> 'e + 'y list" where
  "collect f [] = Inr []"
| "collect f (x # xs) = try_ok (f x) (\<lambda>y. try_ok (collect f xs) (\<lambda>ys. Inr (y # ys)))"

lemma collect_Inr: "collect f xs = Inr ys \<Longrightarrow> length ys = length xs \<and> (\<forall>i < length xs. f (xs ! i) = Inr (ys ! i))"
  by (induction xs arbitrary: ys) (auto simp: run_simps nth_Cons split: nat.split)

section \<open>Positional names\<close>

definition positional_value :: "string \<Rightarrow> nat option" where
  "positional_value name = parse_u64 (case strip_prefix ''$'' name of Some s \<Rightarrow> s | None \<Rightarrow> name)"

fun positional_from :: "nat option \<Rightarrow> nat \<Rightarrow> string list \<Rightarrow> bool" where
  "positional_from base idx [] = True"
| "positional_from base idx (name # names) =
     (case positional_value name of None \<Rightarrow> False
      | Some value \<Rightarrow>
          if idx = 0 \<and> value \<noteq> 0 \<and> value \<noteq> 1 then False
          else (let base' = (if idx = 0 then Some value else base) in
            case base' of None \<Rightarrow> False
            | Some b \<Rightarrow> if value \<noteq> b + idx then False else positional_from base' (idx + 1) names))"

definition has_positional_field_names :: "('a, 'ty) batch \<Rightarrow> bool" where
  "has_positional_field_names b = (b_columns b \<noteq> [] \<and> positional_from None 0 (map f_name (b_fields b)))"

section \<open>Multi-row inserts\<close>

definition not_divisible :: "nat \<Rightarrow> nat \<Rightarrow> server_error" where
  "not_divisible params n = InternalError (''Cannot reshape batch: '' @ show_nat params
     @ '' total parameters is not divisible by '' @ show_nat n @ '' columns'')"

definition not_one_row :: "nat \<Rightarrow> server_error" where
  "not_one_row rows = InternalError (''Expected batch with 1 row for reshaping, got '' @ show_nat rows @ '' rows'')"

text \<open>\<open>usize::is_multiple_of\<close>.\<close>

definition is_multiple_of :: "nat \<Rightarrow> nat \<Rightarrow> bool" where
  "is_multiple_of a n = (if n = 0 then a = 0 else a mod n = 0)"

text \<open>One new column: the single values of every \<open>num_columns\<close>-th source column.\<close>

definition reshape_column :: "('a, 'ty) arrow \<Rightarrow> ('a, 'ty) batch \<Rightarrow> nat \<Rightarrow> nat \<Rightarrow> nat \<Rightarrow> server_error + 'a" where
  "reshape_column ar b num_columns num_rows col_idx =
     arrow_err (ar_concat ar
       (map (\<lambda>row_idx. ar_slice ar (b_columns b ! (row_idx * num_columns + col_idx)) 0 1) [0..<num_rows]))"

text \<open>
  The caller makes sure that \<open>num_columns\<close> is neither zero (the division would panic) nor larger than
  the number of parameters (the field lookup would).
\<close>

definition reshape_batch_for_multi_row_insert ::
    "('a, 'ty) arrow \<Rightarrow> ('a, 'ty) batch \<Rightarrow> nat \<Rightarrow> server_error + ('a, 'ty) batch" where
  "reshape_batch_for_multi_row_insert ar b num_columns =
     (let total_params = length (b_columns b) in
      if \<not> is_multiple_of total_params num_columns then Inl (not_divisible total_params num_columns)
      else (let num_rows = total_params div num_columns in
        if b_rows b \<noteq> 1 then Inl (not_one_row (b_rows b))
        else (let new_fields = map (\<lambda>i. (b_fields b ! i)\<lparr>f_name := show_nat (i + 1)\<rparr>) [0..<num_columns] in
          try_ok (collect (reshape_column ar b num_columns num_rows) [0..<num_columns]) (\<lambda>new_columns.
          arrow_err (ar_try_new ar new_fields new_columns)))))"

section \<open>Alignment\<close>

definition column_mismatch :: "nat \<Rightarrow> nat \<Rightarrow> server_error" where
  "column_mismatch cols named = InternalError (''column count mismatch for INSERT: batch has ''
     @ show_nat cols @ '' columns but SQL specified '' @ show_nat named @ '' columns'')"

definition table_mismatch :: "nat \<Rightarrow> nat \<Rightarrow> server_error" where
  "table_mismatch cols named = InternalError (''column count mismatch for INSERT: batch has ''
     @ show_nat cols @ '' columns but table has '' @ show_nat named)"

definition column_missing :: "string \<Rightarrow> string \<Rightarrow> server_error" where
  "column_missing name schema = InternalError (''Column '' @ [CHR 0x27] @ name @ [CHR 0x27]
     @ '' not found in batch schema '' @ schema)"

text \<open>Inserting pairs into an empty map one after the other.\<close>

definition insert_all :: "(string \<times> nat) list \<Rightarrow> (string \<rightharpoonup> nat)" where
  "insert_all kvs = foldl (\<lambda>m (k, v). m(k \<mapsto> v)) Map.empty kvs"

definition build_lookup ::
    "('a, 'ty) arrow \<Rightarrow> ('a, 'ty) batch \<Rightarrow> 'ty field list \<Rightarrow> string list option \<Rightarrow> server_error + (string \<rightharpoonup> nat)" where
  "build_lookup ar b table_schema column_override =
     (case column_override of
        Some names \<Rightarrow>
          if length (b_columns b) \<noteq> length names then Inl (column_mismatch (length (b_columns b)) (length names))
          else if has_positional_field_names b then Inr (insert_all (zip names [0..<length names]))
          else try_ok (collect (\<lambda>name. ok_or (column_missing name (ar_show_schema ar (b_fields b)))
                  (map_option (Pair name) (ar_index_of ar (b_fields b) name))) names)
                (\<lambda>kvs. Inr (insert_all kvs))
      | None \<Rightarrow>
          if has_positional_field_names b then
            if length (b_columns b) \<noteq> length table_schema
            then Inl (table_mismatch (length (b_columns b)) (length table_schema))
            else Inr (insert_all (zip (map f_name table_schema) [0..<length table_schema]))
          else Inr (insert_all (zip (map f_name (b_fields b)) [0..<length (b_fields b)])))"

text \<open>How many columns a multi-row batch is reshaped to, if it is one.\<close>

definition multi_row_width :: "('a, 'ty) batch \<Rightarrow> 'ty field list \<Rightarrow> string list option \<Rightarrow> nat option" where
  "multi_row_width b table_schema column_override =
     (let n = (case column_override of Some names \<Rightarrow> length names | None \<Rightarrow> length table_schema) in
      if has_positional_field_names b \<and> n < length (b_columns b) \<and> is_multiple_of (length (b_columns b)) n
         \<and> b_rows b = 1
      then Some n else None)"

text \<open>The column of one table field.\<close>

definition align_column ::
    "('a, 'ty) arrow \<Rightarrow> ('a, 'ty) batch \<Rightarrow> (string \<rightharpoonup> nat) \<Rightarrow> 'ty field \<Rightarrow> server_error + 'a" where
  "align_column ar b lookup field =
     (case lookup (f_name field) of
        Some idx \<Rightarrow>
          if f_type (b_fields b ! idx) = f_type field then Inr (b_columns b ! idx)
          else arrow_err (ar_cast ar (b_columns b ! idx) (f_type field))
      | None \<Rightarrow> Inr (ar_null ar (f_type field) (b_rows b)))"

definition align_batch_to_table_schema ::
    "('a, 'ty) arrow \<Rightarrow> ('a, 'ty) batch \<Rightarrow> 'ty field list \<Rightarrow> string list option \<Rightarrow> server_error + ('a, 'ty) batch" where
  "align_batch_to_table_schema ar b table_schema column_override =
     (if b_rows b = 0 \<and> b_columns b = [] then
        arrow_err (ar_try_new ar table_schema (map (\<lambda>field. ar_null ar (f_type field) 0) table_schema))
      else
        try_ok (case multi_row_width b table_schema column_override of
            Some n \<Rightarrow> reshape_batch_for_multi_row_insert ar b n | None \<Rightarrow> Inr b) (\<lambda>batch_to_use.
        try_ok (build_lookup ar batch_to_use table_schema column_override) (\<lambda>lookup.
        try_ok (collect (align_column ar batch_to_use lookup) table_schema) (\<lambda>columns.
        arrow_err (ar_try_new ar table_schema columns)))))"

section \<open>Lemmas\<close>

text \<open>A batch of the client: as many columns as fields, each with as many values as there are rows.\<close>

definition batch_ok :: "('a \<Rightarrow> 'v option list) \<Rightarrow> ('a, 'ty) batch \<Rightarrow> bool" where
  "batch_ok vals b \<longleftrightarrow> length (b_columns b) = length (b_fields b) \<and> (\<forall>c\<in>set (b_columns b). length (vals c) = b_rows b)"

lemma arrow_lawsD:
  assumes "arrow_laws ar vals"
  shows "vals (ar_null ar ty n) = replicate n None"
    and "vals (ar_slice ar a i n) = take n (drop i (vals a))"
    and "ar_concat ar as = Inr b \<Longrightarrow> vals b = concat (map vals as)"
    and "ar_try_new ar fs cs = Inr bt \<Longrightarrow> b_fields bt = fs \<and> b_columns bt = cs \<and> batch_ok vals bt"
  using assms by (auto simp: arrow_laws_def batch_ok_def)

lemma arrow_err_Inr [simp]: "arrow_err r = Inr x \<longleftrightarrow> r = Inr x"
  by (auto simp: arrow_err_def split: sum.splits)

lemma insert_all_snoc: "insert_all (kvs @ [(k, v)]) = (insert_all kvs)(k \<mapsto> v)"
  by (simp add: insert_all_def)

lemma insert_all_Nil [simp]: "insert_all [] = Map.empty"
  by (simp add: insert_all_def)

lemma insert_all_zip:
  assumes "distinct ks"
  shows "(\<forall>i < length ks. insert_all (zip ks [0..<length ks]) (ks ! i) = Some i)
    \<and> (\<forall>k. k \<notin> set ks \<longrightarrow> insert_all (zip ks [0..<length ks]) k = None)"
  using assms
proof (induction ks rule: rev_induct)
  case (snoc x ks)
  then show ?case by (auto simp: insert_all_snoc nth_append less_Suc_eq in_set_conv_nth)
qed simp

lemmas insert_all_nth = insert_all_zip [THEN conjunct1, rule_format]
  and insert_all_absent = insert_all_zip [THEN conjunct2, rule_format]

lemma positional_value_show: "n < 2 ^ 64 \<Longrightarrow> positional_value (show_nat n) = Some n"
  using show_nat_not_signed [of n] show_nat_decimal [of n] parse_show_nat [of n]
  by (cases "show_nat n") (simp_all add: positional_value_def strip_prefix_def)

lemma positional_from_show:
  "idx + k < 2 ^ 64 \<Longrightarrow> base = (if idx = 0 then base else Some 1) \<Longrightarrow>
    positional_from base idx (map (\<lambda>i. show_nat (i + 1)) [idx..<idx + k])"
proof (induction k arbitrary: idx base)
  case (Suc k)
  have "[idx..<idx + Suc k] = idx # [Suc idx..<Suc idx + k]" by (simp add: upt_conv_Cons)
  with Suc.IH [of "Suc idx" "Some 1"] Suc.prems show ?case
    by (auto simp: positional_value_show Let_def split: if_splits)
qed simp

text \<open>What a reshaped batch holds: the parameters in row-major order, under positional names.\<close>

definition cell :: "('a \<Rightarrow> 'v option list) \<Rightarrow> ('a, 'ty) batch \<Rightarrow> nat \<Rightarrow> 'v option" where
  "cell vals b i = vals (b_columns b ! i) ! 0"

lemma take_one: "length xs = 1 \<Longrightarrow> take 1 xs = [xs ! 0]"
  by (cases xs) auto

lemma reshape_ok:
  assumes l: "arrow_laws ar vals" and b: "batch_ok vals b" "length (b_columns b) < 2 ^ 64"
    and w: "multi_row_width b ts ov = Some n" and r: "reshape_batch_for_multi_row_insert ar b n = Inr b'"
  shows "length (b_columns b') = n \<and> 0 < n \<and> has_positional_field_names b'
    \<and> b_rows b' = length (b_columns b) div n \<and> batch_ok vals b'
    \<and> (\<forall>j < n. f_type (b_fields b' ! j) = f_type (b_fields b ! j)
        \<and> vals (b_columns b' ! j) = map (\<lambda>r. cell vals b (r * n + j)) [0..<length (b_columns b) div n])"
proof -
  let ?k = "length (b_columns b) div n"
  from w have n: "n < length (b_columns b)" "is_multiple_of (length (b_columns b)) n" "b_rows b = 1"
    by (auto simp: multi_row_width_def Let_def split: if_splits)
  then have n0: "0 < n" and m: "length (b_columns b) = ?k * n"
    by (auto simp: is_multiple_of_def split: if_splits)
  from r n obtain cs where cs: "collect (reshape_column ar b n ?k) [0..<n] = Inr cs"
    and t: "ar_try_new ar (map (\<lambda>i. (b_fields b ! i)\<lparr>f_name := show_nat (i + 1)\<rparr>) [0..<n]) cs = Inr b'"
    by (auto simp: reshape_batch_for_multi_row_insert_def Let_def run_simps)
  from arrow_lawsD(4) [OF l t] have b': "b_columns b' = cs" "batch_ok vals b'"
    "b_fields b' = map (\<lambda>i. (b_fields b ! i)\<lparr>f_name := show_nat (i + 1)\<rparr>) [0..<n]" by simp_all
  from collect_Inr [OF cs] have len: "length cs = n" by simp
  have "vals (cs ! j) = map (\<lambda>r. cell vals b (r * n + j)) [0..<?k]" if "j < n" for j
  proof -
    from collect_Inr [OF cs] that have "reshape_column ar b n ?k j = Inr (cs ! j)" by simp
    then have "vals (cs ! j) = concat (map (\<lambda>r. take 1 (vals (b_columns b ! (r * n + j)))) [0..<?k])"
      using arrow_lawsD(2,3) [OF l] by (simp add: reshape_column_def comp_def)
    also have "map (\<lambda>r. take 1 (vals (b_columns b ! (r * n + j)))) [0..<?k]
        = map (\<lambda>r. [cell vals b (r * n + j)]) [0..<?k]"
    proof (rule map_cong [OF refl])
      fix r assume "r \<in> set [0..<?k]"
      then have "Suc r * n \<le> ?k * n" by (intro mult_le_mono1) simp
      with that m have "r * n + j < length (b_columns b)" by simp
      then have "length (vals (b_columns b ! (r * n + j))) = 1" using b(1) n(3) by (simp add: batch_ok_def)
      then show "take 1 (vals (b_columns b ! (r * n + j))) = [cell vals b (r * n + j)]"
        using take_one [of "vals (b_columns b ! (r * n + j))"] by (simp add: cell_def)
    qed
    finally show ?thesis by simp
  qed
  moreover have "has_positional_field_names b'"
    using positional_from_show [of 0 n None] n n0 b(2) len
    by (auto simp: has_positional_field_names_def b' comp_def)
  moreover have "b_rows b' = ?k"
  proof -
    from b'(1,2) len n0 have "length (vals (cs ! 0)) = b_rows b'" by (simp add: batch_ok_def)
    with calculation(1) [OF n0] show ?thesis by simp
  qed
  ultimately show ?thesis using len n0 b' by simp
qed

section \<open>Properties\<close>

lemma align_runs:
  assumes "align_batch_to_table_schema ar b ts ov = Inr out" "\<not> (b_rows b = 0 \<and> b_columns b = [])"
  shows "\<exists>b' lk cs. (case multi_row_width b ts ov of Some n \<Rightarrow> reshape_batch_for_multi_row_insert ar b n | None \<Rightarrow> Inr b) = Inr b'
    \<and> build_lookup ar b' ts ov = Inr lk \<and> collect (align_column ar b' lk) ts = Inr cs \<and> ar_try_new ar ts cs = Inr out"
  using assms unfolding align_batch_to_table_schema_def by (auto simp: run_simps)

lemma align_column_cases:
  assumes "arrow_laws ar vals" "align_column ar b lk fd = Inr c"
  shows "lk (f_name fd) = Some j \<Longrightarrow> f_type (b_fields b ! j) = f_type fd \<Longrightarrow> c = b_columns b ! j"
    and "lk (f_name fd) = None \<Longrightarrow> vals c = replicate (b_rows b) None"
  using assms arrow_lawsD(1) [OF assms(1)] by (auto simp: align_column_def)

text \<open>
  C24: a multi-row insert arrives row by row. When a driver sends \<open>INSERT INTO t (c1, ..., cn) VALUES (?, ...),
  (?, ...)\<close> as one row of positional parameters, the aligned batch has one row per tuple: the value of
  column \<open>cj\<close> in row \<open>r\<close> is parameter \<open>r * n + j\<close>, and a table column that is not listed is null in every
  row. Names, order and types are those of the table.
\<close>

theorem multi_row_insert_row_major:
  assumes "arrow_laws ar vals" "batch_ok vals b" "length (b_columns b) < 2 ^ 64" "distinct names"
    and "multi_row_width b ts (Some names) = Some n"
    and "align_batch_to_table_schema ar b ts (Some names) = Inr out"
  shows "b_fields out = ts \<and> n = length names
    \<and> (\<forall>c < length ts. \<forall>j < n. f_name (ts ! c) = names ! j \<longrightarrow> f_type (b_fields b ! j) = f_type (ts ! c) \<longrightarrow>
        vals (b_columns out ! c) = map (\<lambda>r. cell vals b (r * n + j)) [0..<length (b_columns b) div n])
    \<and> (\<forall>c < length ts. f_name (ts ! c) \<notin> set names \<longrightarrow>
        vals (b_columns out ! c) = replicate (length (b_columns b) div n) None)"
proof -
  from assms(5) have n: "n = length names" "b_rows b = 1"
    by (auto simp: multi_row_width_def Let_def split: if_splits)
  from align_runs [OF assms(6)] n(2) assms(5) obtain b' lk cs
    where r: "reshape_batch_for_multi_row_insert ar b n = Inr b'" and lk: "build_lookup ar b' ts (Some names) = Inr lk"
      and cs: "collect (align_column ar b' lk) ts = Inr cs" and t: "ar_try_new ar ts cs = Inr out"
    by auto
  note b' = reshape_ok [OF assms(1,2,3,5) r]
  then have lk': "lk = insert_all (zip names [0..<length names])"
    using lk n by (simp add: build_lookup_def split: if_splits)
  from arrow_lawsD(4) [OF assms(1) t] have out: "b_fields out = ts" "b_columns out = cs" by simp_all
  have col: "align_column ar b' lk (ts ! c) = Inr (cs ! c)" if "c < length ts" for c
    using collect_Inr [OF cs] that by simp
  have "vals (cs ! c) = map (\<lambda>r. cell vals b (r * n + j)) [0..<length (b_columns b) div n]"
    if "c < length ts" "j < n" "f_name (ts ! c) = names ! j" "f_type (b_fields b ! j) = f_type (ts ! c)" for c j
    using align_column_cases(1) [OF assms(1) col [OF that(1)], of j] insert_all_nth [OF assms(4), of j] that b' lk' n
    by simp
  moreover have "vals (cs ! c) = replicate (length (b_columns b) div n) None"
    if "c < length ts" "f_name (ts ! c) \<notin> set names" for c
    using align_column_cases(2) [OF assms(1) col [OF that(1)]] insert_all_absent [OF assms(4) that(2)] b' lk'
    by simp
  ultimately show ?thesis using out n by simp
qed

text \<open>
  A batch with named columns is aligned by name. Without a column list, each table column that the
  batch has under the same name and type is taken from it unchanged, whatever the order of the batch;
  a table column that the batch lacks is null; a column the table lacks is dropped.
\<close>

theorem align_by_name:
  assumes "arrow_laws ar vals" "batch_ok vals b" "\<not> has_positional_field_names b" "b_columns b \<noteq> []"
    and "distinct (map f_name (b_fields b))"
    and "align_batch_to_table_schema ar b ts None = Inr out" "c < length ts"
  shows "b_fields out = ts
    \<and> (\<forall>j < length (b_fields b). f_name (b_fields b ! j) = f_name (ts ! c) \<longrightarrow> f_type (b_fields b ! j) = f_type (ts ! c) \<longrightarrow>
        b_columns out ! c = b_columns b ! j)
    \<and> (f_name (ts ! c) \<notin> f_name ` set (b_fields b) \<longrightarrow> vals (b_columns out ! c) = replicate (b_rows b) None)"
proof -
  have "multi_row_width b ts None = None" using assms(3) by (simp add: multi_row_width_def Let_def)
  with align_runs [OF assms(6)] assms(4) obtain lk cs
    where lk: "build_lookup ar b ts None = Inr lk" and cs: "collect (align_column ar b lk) ts = Inr cs"
      and t: "ar_try_new ar ts cs = Inr out"
    by auto
  from lk assms(3) have lk': "lk = insert_all (zip (map f_name (b_fields b)) [0..<length (map f_name (b_fields b))])"
    by (simp add: build_lookup_def)
  from arrow_lawsD(4) [OF assms(1) t] have out: "b_fields out = ts" "b_columns out = cs" by simp_all
  have col: "align_column ar b lk (ts ! c) = Inr (cs ! c)" using collect_Inr [OF cs] assms(7) by simp
  have "cs ! c = b_columns b ! j"
    if "j < length (b_fields b)" "f_name (b_fields b ! j) = f_name (ts ! c)" "f_type (b_fields b ! j) = f_type (ts ! c)" for j
    using align_column_cases(1) [OF assms(1) col, of j] insert_all_nth [OF assms(5), of j] that lk' by simp
  moreover have "vals (cs ! c) = replicate (b_rows b) None" if "f_name (ts ! c) \<notin> f_name ` set (b_fields b)"
    using align_column_cases(2) [OF assms(1) col] insert_all_absent [OF assms(5), of "f_name (ts ! c)"] that lk' by simp
  ultimately show ?thesis using out by simp
qed

text \<open>An instance of the library: arrays are lists, every cast succeeds.\<close>

definition sample_arrow :: "(nat option list, nat) arrow" where
  "sample_arrow = \<lparr>ar_null = (\<lambda>ty n. replicate n None), ar_cast = (\<lambda>a ty. Inr a),
     ar_slice = (\<lambda>a i n. take n (drop i a)), ar_concat = (\<lambda>as. Inr (concat as)),
     ar_try_new = (\<lambda>fs cs. if length cs = length fs \<and> list_all (\<lambda>c. length c = length (hd cs)) cs
       then Inr \<lparr>b_fields = fs, b_columns = cs, b_rows = length (hd cs)\<rparr> else Inl ''invalid batch''),
     ar_index_of = (\<lambda>fs n. find (\<lambda>i. f_name (fs ! i) = n) [0..<length fs]),
     ar_show_schema = (\<lambda>fs. [])\<rparr>"

lemma sample_arrow_laws: "arrow_laws sample_arrow (\<lambda>a. a)"
  by (auto simp: arrow_laws_def sample_arrow_def list_all_iff find_Some_iff split: if_splits)

definition sample_field :: "string \<Rightarrow> nat field" where
  "sample_field n = \<lparr>f_name = n, f_type = 0, f_nullable = True\<rparr>"

text \<open>\<open>INSERT INTO t (b, a) VALUES (1, 2), (3, 4)\<close> into a table with columns \<open>a\<close>, \<open>c\<close> and \<open>b\<close>.\<close>

definition sample_insert :: "(nat option list, nat) batch" where
  "sample_insert = \<lparr>b_fields = map (\<lambda>i. sample_field (show_nat (i + 1))) [0..<4],
     b_columns = [[Some 1], [Some 2], [Some 3], [Some 4]], b_rows = 1\<rparr>"

definition sample_table :: "nat field list" where
  "sample_table = map sample_field [''a'', ''c'', ''b'']"

lemma positional_shown:
  "n < 2 ^ 64 \<Longrightarrow> positional_from None 0 (map (\<lambda>i. show_nat (Suc i)) [0..<n])"
  using positional_from_show [of 0 n None] by simp

lemma two_facts:
  "[0..<2] = [0, 1 :: nat]" "replicate 2 x = [x, x]" "is_multiple_of 4 (Suc (Suc 0))" "is_multiple_of 4 2"
proof -
  show "is_multiple_of 4 2" by (simp add: is_multiple_of_def)
  then show "is_multiple_of 4 (Suc (Suc 0))" by (simp add: numeral_2_eq_2)
qed (simp_all add: numeral_2_eq_2)

lemma sample_insert_facts:
  "length (b_columns sample_insert) = 4" "b_columns sample_insert \<noteq> []" "b_rows sample_insert = 1"
  "i < 4 \<Longrightarrow> b_columns sample_insert ! i = [Some (i + 1)]"
  "i < 4 \<Longrightarrow> b_fields sample_insert ! i = sample_field (show_nat (i + 1))"
  "map f_name (b_fields sample_insert) = map (\<lambda>i. show_nat (Suc i)) [0..<4]"
  by (auto simp: sample_insert_def sample_field_def less_Suc_eq numeral_eq_Suc)

lemma sample_insert_width: "multi_row_width sample_insert sample_table (Some [''b'', ''a'']) = Some 2"
  using positional_shown [of 4]
  by (simp add: multi_row_width_def sample_insert_facts has_positional_field_names_def two_facts)

definition sample_reshaped :: "(nat option list, nat) batch" where
  "sample_reshaped = \<lparr>b_fields = map (\<lambda>i. sample_field (show_nat (i + 1))) [0..<2],
     b_columns = [[Some 1, Some 3], [Some 2, Some 4]], b_rows = 2\<rparr>"

lemma sample_insert_reshaped:
  "reshape_batch_for_multi_row_insert sample_arrow sample_insert 2 = Inr sample_reshaped"
  by (simp add: reshape_batch_for_multi_row_insert_def sample_insert_facts two_facts reshape_column_def
      sample_arrow_def arrow_err_def sample_reshaped_def sample_field_def Let_def)

lemma sample_lookup:
  "build_lookup sample_arrow sample_reshaped sample_table (Some [''b'', ''a'']) = Inr [''b'' \<mapsto> 0, ''a'' \<mapsto> 1]"
proof -
  have "map f_name (b_fields sample_reshaped) = map (\<lambda>i. show_nat (Suc i)) [0..<2]"
    "length (b_columns sample_reshaped) = 2" "b_columns sample_reshaped \<noteq> []"
    by (simp_all add: sample_reshaped_def sample_field_def)
  with positional_shown [of 2] show ?thesis
    by (simp add: build_lookup_def insert_all_def has_positional_field_names_def)
qed

lemma sample_insert_aligned:
  "align_batch_to_table_schema sample_arrow sample_insert sample_table (Some [''b'', ''a''])
    = Inr \<lparr>b_fields = sample_table, b_columns = [[Some 2, Some 4], [None, None], [Some 1, Some 3]], b_rows = 2\<rparr>"
proof -
  have "collect (align_column sample_arrow sample_reshaped [''b'' \<mapsto> 0, ''a'' \<mapsto> 1]) sample_table
      = Inr [[Some 2, Some 4], [None, None], [Some 1, Some 3]]"
    by (simp add: align_column_def sample_table_def sample_field_def sample_reshaped_def sample_arrow_def two_facts)
  moreover have "arrow_err (ar_try_new sample_arrow sample_table [[Some 2, Some 4], [None, None], [Some 1, Some 3]])
      = Inr \<lparr>b_fields = sample_table, b_columns = [[Some 2, Some 4], [None, None], [Some 1, Some 3]], b_rows = 2\<rparr>"
    by (simp add: sample_arrow_def sample_table_def)
  ultimately show ?thesis
    by (simp add: align_batch_to_table_schema_def sample_insert_width sample_insert_reshaped sample_lookup
        sample_insert_facts)
qed

lemma multi_row_insert_row_major_witness:
  "\<exists>out. align_batch_to_table_schema sample_arrow sample_insert sample_table (Some [''b'', ''a'']) = Inr out
    \<and> b_columns out ! 0 = map (\<lambda>r. cell (\<lambda>a. a) sample_insert (r * 2 + 1)) [0..<2]
    \<and> b_columns out ! 1 = replicate 2 None"
proof -
  have "batch_ok (\<lambda>a. a) sample_insert" "length (b_columns sample_insert) < 2 ^ 64"
    by (simp_all add: sample_insert_def batch_ok_def)
  note * = multi_row_insert_row_major [OF sample_arrow_laws this _ sample_insert_width sample_insert_aligned]
  have t: "length sample_table = 3" "f_name (sample_table ! 0) = ''a''" "f_name (sample_table ! 1) = ''c''"
    "f_type (b_fields sample_insert ! 1) = f_type (sample_table ! 0)"
    by (simp_all add: sample_table_def sample_field_def sample_insert_facts)
  from * have r: "\<forall>c<3. \<forall>j<2. f_name (sample_table ! c) = [''b'', ''a''] ! j \<longrightarrow>
      f_type (b_fields sample_insert ! j) = f_type (sample_table ! c) \<longrightarrow>
      [[Some 2, Some 4], [None, None], [Some 1, Some 3]] ! c
        = map (\<lambda>r. cell (\<lambda>a. a) sample_insert (r * 2 + j)) [0..<2]"
    and n: "\<forall>c<3. f_name (sample_table ! c) \<notin> {''b'', ''a''} \<longrightarrow>
      [[Some 2, Some 4], [None, None], [Some 1, Some 3]] ! c = (replicate 2 None :: nat option list)"
    using t(1) sample_insert_facts(1) by simp_all
  have "[Some 2, Some 4] = map (\<lambda>r. cell (\<lambda>a. a) sample_insert (r * 2 + 1)) [0..<2]"
    using r [rule_format, of 0 1] t by simp
  moreover have "[None, None] = (replicate 2 None :: nat option list)" using n [rule_format, of 1] t by simp
  ultimately show ?thesis unfolding sample_insert_aligned by simp
qed

lemma align_by_name_witness:
  "\<exists>out. align_batch_to_table_schema sample_arrow
      \<lparr>b_fields = [sample_field ''b'', sample_field ''x''], b_columns = [[Some 1], [Some 2]], b_rows = 1\<rparr>
      sample_table None = Inr out
    \<and> b_columns out ! 2 = [Some 1] \<and> b_columns out ! 0 = [None]"
proof -
  let ?b = "\<lparr>b_fields = [sample_field ''b'', sample_field ''x''], b_columns = [[Some 1], [Some (2 :: nat)]], b_rows = 1\<rparr>"
  have n: "\<not> has_positional_field_names ?b"
    by (simp add: has_positional_field_names_def sample_field_def positional_value_def strip_prefix_def
        parse_u64_def is_digit_def byte_def Let_def)
  then have a: "align_batch_to_table_schema sample_arrow ?b sample_table None
      = Inr \<lparr>b_fields = sample_table, b_columns = [[None], [None], [Some 1]], b_rows = 1\<rparr>"
    by (simp add: align_batch_to_table_schema_def multi_row_width_def build_lookup_def insert_all_def align_column_def
        sample_table_def sample_field_def sample_arrow_def arrow_err_def)
  with align_by_name [OF sample_arrow_laws _ n _ _ a, of 2] align_by_name [OF sample_arrow_laws _ n _ _ a, of 0]
  show ?thesis by (auto simp: batch_ok_def sample_table_def sample_field_def)
qed

end
