(* ===== verification/Airport_Filters.thy ===== *)
theory Airport_Filters
  imports Json Sql_Lexer
begin

text \<open>
  Predicate pushdown of \<^verbatim>\<open>service/handlers/action.rs\<close>: the filters that an Airport client sends with an
  \<open>endpoints\<close> action become the \<open>WHERE\<close> clause of the table scan. What an expression means is left to the
  database: the properties hold for every truth assignment to expressions that treats \<open>AND\<close>, \<open>OR\<close> and
  \<open>NOT\<close> as SQL's three-valued logic does.
\<close>

section \<open>Expressions and their SQL\<close>

datatype filter_expr =
    Comparison string filter_expr filter_expr
  | ColumnRef string
  | Constant string bool json
  | Conjunction string "filter_expr list"
  | Operator string "filter_expr list"
  | Between filter_expr filter_expr filter_expr
  | Function string "filter_expr list"
  | Cast filter_expr
  | UnknownExpr

definition comparison_op :: "string \<Rightarrow> string option" where
  "comparison_op ty =
     (if ty = ''COMPARE_EQUAL'' then Some ''=''
      else if ty = ''COMPARE_NOTEQUAL'' then Some ''!=''
      else if ty = ''COMPARE_LESSTHAN'' then Some ''<''
      else if ty = ''COMPARE_GREATERTHAN'' then Some ''>''
      else if ty = ''COMPARE_LESSTHANOREQUALTO'' then Some ''<=''
      else if ty = ''COMPARE_GREATERTHANOREQUALTO'' then Some ''>=''
      else None)"

definition conjunction_op :: "string \<Rightarrow> string option" where
  "conjunction_op ty =
     (if ty = ''CONJUNCTION_AND'' then Some '' AND ''
      else if ty = ''CONJUNCTION_OR'' then Some '' OR ''
      else None)"

text \<open>\<open>show\<close> is \<open>serde_json\<close>'s printer.\<close>

definition constant_sql :: "(json \<Rightarrow> string) \<Rightarrow> string \<Rightarrow> bool \<Rightarrow> json \<Rightarrow> string" where
  "constant_sql show type_id is_null v =
     (if is_null then ''NULL''
      else if type_id \<in> {''INTEGER'', ''BIGINT'', ''SMALLINT'', ''TINYINT'', ''DOUBLE'', ''FLOAT''} then show v
      else if type_id = ''VARCHAR'' \<or> type_id = ''TEXT'' then
        (case as_str (Some v) of Some s \<Rightarrow> sql_literal s
         | None \<Rightarrow> [CHR 0x27] @ show v @ [CHR 0x27])
      else if type_id = ''BOOLEAN'' then to_uppercase (show v)
      else show v)"

definition quoted_column :: "string \<Rightarrow> string" where
  "quoted_column alias = [CHR 0x22] @ alias @ [CHR 0x22]"

definition like_op :: "string \<Rightarrow> string option" where
  "like_op name =
     (let n = to_lowercase name in
      if n = ''~~'' \<or> n = ''like'' then Some '' LIKE ''
      else if n = ''!~~'' \<or> n = ''not_like'' then Some '' NOT LIKE ''
      else if n = ''~~~'' \<or> n = ''ilike'' then Some '' ILIKE ''
      else None)"

text \<open>\<open>expr [NOT] IN (values)\<close>, from the SQL of the children; a child without SQL is left out.\<close>

definition in_sql :: "string \<Rightarrow> string option list \<Rightarrow> string option" where
  "in_sql op cs =
     (case cs of [] \<Rightarrow> None
      | column # rest \<Rightarrow> Option.bind column (\<lambda>c.
          if somes rest = [] then None else Some (c @ op @ ''('' @ join '', '' (somes rest) @ '')'')))"

definition operator_sql :: "string \<Rightarrow> string option list \<Rightarrow> string option" where
  "operator_sql ty cs =
     (if ty = ''OPERATOR_IS_NULL'' then
        (case cs of [] \<Rightarrow> None | c # _ \<Rightarrow> map_option (\<lambda>s. s @ '' IS NULL'') c)
      else if ty = ''OPERATOR_IS_NOT_NULL'' then
        (case cs of [] \<Rightarrow> None | c # _ \<Rightarrow> map_option (\<lambda>s. s @ '' IS NOT NULL'') c)
      else if ty = ''COMPARE_IN'' then in_sql '' IN '' cs
      else if ty = ''COMPARE_NOT_IN'' then in_sql '' NOT IN '' cs
      else if ty = ''OPERATOR_NOT'' then
        (case cs of [] \<Rightarrow> None | c # _ \<Rightarrow> map_option (\<lambda>s. ''NOT ('' @ s @ '')'') c)
      else None)"

definition function_sql :: "string \<Rightarrow> string option list \<Rightarrow> string option" where
  "function_sql name cs =
     (case like_op name of
        Some op \<Rightarrow>
          (case cs of c # p # _ \<Rightarrow> Option.bind c (\<lambda>column. map_option (\<lambda>pattern. column @ op @ pattern) p)
           | _ \<Rightarrow> None)
      | None \<Rightarrow>
          if somes cs = [] \<and> cs \<noteq> [] then None
          else Some (name @ ''('' @ join '', '' (somes cs) @ '')''))"

fun expression_to_sql :: "(json \<Rightarrow> string) \<Rightarrow> filter_expr \<Rightarrow> string option" where
  "expression_to_sql show (Comparison ty l r) =
     Option.bind (expression_to_sql show l) (\<lambda>left.
     Option.bind (expression_to_sql show r) (\<lambda>right.
     map_option (\<lambda>op. left @ '' '' @ op @ '' '' @ right) (comparison_op ty)))"
| "expression_to_sql show (ColumnRef alias) = Some (quoted_column alias)"
| "expression_to_sql show (Constant type_id is_null v) = Some (constant_sql show type_id is_null v)"
| "expression_to_sql show (Conjunction ty children) =
     (let parts = somes (map (expression_to_sql show) children) in
      if parts = [] then None
      else map_option (\<lambda>op. ''('' @ join op parts @ '')'') (conjunction_op ty))"
| "expression_to_sql show (Operator ty children) = operator_sql ty (map (expression_to_sql show) children)"
| "expression_to_sql show (Between e lo hi) =
     Option.bind (expression_to_sql show e) (\<lambda>input.
     Option.bind (expression_to_sql show lo) (\<lambda>lower.
     map_option (\<lambda>upper. input @ '' BETWEEN '' @ lower @ '' AND '' @ upper) (expression_to_sql show hi)))"
| "expression_to_sql show (Function name children) = function_sql name (map (expression_to_sql show) children)"
| "expression_to_sql show (Cast child) = expression_to_sql show child"
| "expression_to_sql show UnknownExpr = None"

text \<open>\<open>parse\<close> is \<open>serde_json::from_str\<close> into \<open>DuckDBFilters\<close>.\<close>

definition parse_filters_to_where_clause ::
    "(json \<Rightarrow> string) \<Rightarrow> (string \<Rightarrow> filter_expr list option) \<Rightarrow> string \<Rightarrow> string option" where
  "parse_filters_to_where_clause show parse json_filters =
     (if json_filters = [] then None
      else Option.bind (parse json_filters) (\<lambda>filters.
        if filters = [] then None
        else (let conditions = somes (map (expression_to_sql show) filters) in
          if conditions = [] then None else Some (join '' AND '' conditions))))"

text \<open>The scan of a path descriptor in \<open>do_action_endpoints\<close>; a command descriptor is its SQL.\<close>

definition endpoint_sql ::
    "(json \<Rightarrow> string) \<Rightarrow> (string \<Rightarrow> filter_expr list option) \<Rightarrow> string \<Rightarrow> string list \<Rightarrow> string \<Rightarrow> string" where
  "endpoint_sql show parse cmd path json_filters =
     (if cmd \<noteq> [] then cmd
      else (case parse_filters_to_where_clause show parse json_filters of
          Some conditions \<Rightarrow> ''SELECT * FROM '' @ join ''.'' path @ '' WHERE '' @ conditions
        | None \<Rightarrow> ''SELECT * FROM '' @ join ''.'' path))"

section \<open>What is pushed down\<close>

text \<open>
  The translation leaves out what it cannot write. \<open>kept e\<close> is the expression that the text of \<open>e\<close> stands
  for: \<open>e\<close> without the children that have no SQL and without its casts.
\<close>

definition kept_in :: "string \<Rightarrow> filter_expr option list \<Rightarrow> filter_expr option" where
  "kept_in ty ks =
     (case ks of [] \<Rightarrow> None
      | c # rest \<Rightarrow> Option.bind c (\<lambda>c'. if somes rest = [] then None else Some (Operator ty (c' # somes rest))))"

definition kept_first :: "string \<Rightarrow> filter_expr option list \<Rightarrow> filter_expr option" where
  "kept_first ty ks = (case ks of [] \<Rightarrow> None | c # _ \<Rightarrow> map_option (\<lambda>c'. Operator ty [c']) c)"

definition kept_operator :: "string \<Rightarrow> filter_expr option list \<Rightarrow> filter_expr option" where
  "kept_operator ty ks =
     (if ty \<in> {''OPERATOR_IS_NULL'', ''OPERATOR_IS_NOT_NULL'', ''OPERATOR_NOT''} then kept_first ty ks
      else if ty \<in> {''COMPARE_IN'', ''COMPARE_NOT_IN''} then kept_in ty ks
      else None)"

definition kept_function :: "string \<Rightarrow> filter_expr option list \<Rightarrow> filter_expr option" where
  "kept_function name ks =
     (if like_op name \<noteq> None then
        (case ks of c # p # _ \<Rightarrow> Option.bind c (\<lambda>c'. map_option (\<lambda>p'. Function name [c', p']) p) | _ \<Rightarrow> None)
      else if somes ks = [] \<and> ks \<noteq> [] then None else Some (Function name (somes ks)))"

fun kept :: "filter_expr \<Rightarrow> filter_expr option" where
  "kept (Comparison ty l r) = Option.bind (kept l) (\<lambda>l'. Option.bind (kept r) (\<lambda>r'.
     if comparison_op ty = None then None else Some (Comparison ty l' r')))"
| "kept (ColumnRef alias) = Some (ColumnRef alias)"
| "kept (Constant t n v) = Some (Constant t n v)"
| "kept (Conjunction ty es) =
     (let ks = somes (map kept es) in
      if ks = [] \<or> conjunction_op ty = None then None else Some (Conjunction ty ks))"
| "kept (Operator ty es) = kept_operator ty (map kept es)"
| "kept (Between e lo hi) = Option.bind (kept e) (\<lambda>e'. Option.bind (kept lo) (\<lambda>lo'.
     map_option (\<lambda>hi'. Between e' lo' hi') (kept hi)))"
| "kept (Function name es) = kept_function name (map kept es)"
| "kept (Cast e) = kept e"
| "kept UnknownExpr = None"

text \<open>The text of \<open>e\<close> is the complete text of \<open>kept e\<close>.\<close>

definition full_sql :: "(json \<Rightarrow> string) \<Rightarrow> filter_expr \<Rightarrow> string" where
  "full_sql show e = the (expression_to_sql show e)"

lemma somes_map_option: "somes (map (\<lambda>x. map_option g (f x)) xs) = map g (somes (map f xs))"
proof (induction xs)
  case (Cons x xs)
  then show ?case by (cases "f x") auto
qed simp

definition agrees :: "(json \<Rightarrow> string) \<Rightarrow> filter_expr \<Rightarrow> bool" where
  "agrees show e \<longleftrightarrow> expression_to_sql show e = map_option (full_sql show) (kept e)
     \<and> (\<forall>k. kept e = Some k \<longrightarrow> kept k = Some k \<and> expression_to_sql show k = Some (full_sql show k))"

lemma agrees_children:
  assumes "\<And>e. e \<in> set es \<Longrightarrow> agrees show e"
  shows "map (expression_to_sql show) es = map (map_option (full_sql show)) (map kept es)"
    and "map (expression_to_sql show) (somes (map kept es)) = map Some (map (full_sql show) (somes (map kept es)))"
    and "somes (map kept (somes (map kept es))) = somes (map kept es)"
proof -
  show "map (expression_to_sql show) es = map (map_option (full_sql show)) (map kept es)"
    and "map (expression_to_sql show) (somes (map kept es)) = map Some (map (full_sql show) (somes (map kept es)))"
    using assms by (auto simp: agrees_def set_somes)
  have "map kept (somes (map kept es)) = map Some (somes (map kept es))"
    using assms by (auto simp: agrees_def set_somes)
  then show "somes (map kept (somes (map kept es))) = somes (map kept es)" by (metis somes_map_Some)
qed

lemma somes_map_map: "somes (map (map_option g) xs) = map g (somes xs)"
  by (induction xs rule: somes.induct) auto

lemma agrees_SomeI:
  "kept e = Some k \<Longrightarrow> kept k = Some k \<Longrightarrow> expression_to_sql show e = expression_to_sql show k \<Longrightarrow>
    expression_to_sql show k \<noteq> None \<Longrightarrow> agrees show e"
  by (auto simp: agrees_def full_sql_def)

lemma agrees_NoneI: "expression_to_sql show e = None \<Longrightarrow> kept e = None \<Longrightarrow> agrees show e"
  by (simp add: agrees_def)

lemma agrees_cases:
  assumes "agrees show e"
  obtains "expression_to_sql show e = None" "kept e = None"
  | k s where "kept e = Some k" "kept k = Some k" "expression_to_sql show e = Some s" "expression_to_sql show k = Some s"
  using assms by (cases "kept e") (auto simp: agrees_def)

lemma agrees_conjunction:
  assumes "\<And>e. e \<in> set es \<Longrightarrow> agrees show e"
  shows "agrees show (Conjunction ty es)"
proof -
  note c = agrees_children [of es, OF assms]
  show ?thesis
  proof (cases "somes (map kept es) = [] \<or> conjunction_op ty = None")
    case True
    with c(1) show ?thesis by (intro agrees_NoneI) (auto simp: Let_def somes_map_map simp del: list.map_comp map_map)
  next
    case False
    with c show ?thesis
      by (intro agrees_SomeI [of _ "Conjunction ty (somes (map kept es))"])
        (auto simp: Let_def somes_map_map simp del: list.map_comp map_map)
  qed
qed

lemma agrees_function:
  assumes "\<And>e. e \<in> set es \<Longrightarrow> agrees show e"
  shows "agrees show (Function name es)"
proof (cases "like_op name")
  case None
  note c = agrees_children [of es, OF assms]
  show ?thesis
  proof (cases "somes (map kept es) = [] \<and> es \<noteq> []")
    case True
    with c(1) None show ?thesis
      by (intro agrees_NoneI) (auto simp: function_sql_def kept_function_def somes_map_map simp del: list.map_comp map_map)
  next
    case False
    with c None show ?thesis
      by (intro agrees_SomeI [of _ "Function name (somes (map kept es))"])
        (auto simp: function_sql_def kept_function_def somes_map_map simp del: list.map_comp map_map)
  qed
next
  case (Some op)
  show ?thesis
  proof (cases "\<exists>c p r. es = c # p # r")
    case True
    then obtain c p r where es: "es = c # p # r" by blast
    with assms have "agrees show c" "agrees show p" by simp_all
    then show ?thesis
      using Some es by (elim agrees_cases) (simp_all add: agrees_def full_sql_def function_sql_def kept_function_def)
  next
    case False
    with Some show ?thesis
      by (auto intro!: agrees_NoneI simp: function_sql_def kept_function_def split: list.splits)
  qed
qed

lemma agrees_operator:
  assumes "\<And>e. e \<in> set es \<Longrightarrow> agrees show e"
  shows "agrees show (Operator ty es)"
proof (cases es)
  case Nil
  then show ?thesis
    by (intro agrees_NoneI) (auto simp: operator_sql_def kept_operator_def kept_first_def kept_in_def in_sql_def)
next
  case (Cons c rest)
  then have "agrees show c" using assms by simp
  note r = agrees_children [of rest, OF assms]
  have in': "agrees show (Operator ty es)" if "ty = ''COMPARE_IN'' \<or> ty = ''COMPARE_NOT_IN''"
  proof (cases "somes (map kept rest) = [] \<or> kept c = None")
    case True
    then show ?thesis
    proof (rule disjE)
      assume 1: "kept c = None"
      with \<open>agrees show c\<close> have "expression_to_sql show c = None" by (elim agrees_cases) auto
      with 1 that Cons show ?thesis
        by (intro agrees_NoneI) (auto simp: operator_sql_def kept_operator_def kept_in_def in_sql_def)
    next
      assume 2: "somes (map kept rest) = []"
      with r(1) Cons have "somes (map (expression_to_sql show) rest) = []"
        by (simp add: somes_map_map del: list.map_comp map_map)
      with 2 that Cons show ?thesis
        by (intro agrees_NoneI)
          (auto simp: operator_sql_def kept_operator_def kept_in_def in_sql_def split: Option.bind_splits)
    qed
  next
    case False
    with \<open>agrees show c\<close> obtain k t where k: "kept c = Some k" "kept k = Some k" "expression_to_sql show c = Some t"
      "expression_to_sql show k = Some t" by (elim agrees_cases) auto
    with that Cons r False show ?thesis
      by (intro agrees_SomeI [of _ "Operator ty (k # somes (map kept rest))"])
        (auto simp: operator_sql_def kept_operator_def kept_in_def in_sql_def somes_map_map simp del: list.map_comp map_map)
  qed
  show ?thesis
  proof (cases "ty = ''COMPARE_IN'' \<or> ty = ''COMPARE_NOT_IN''")
    case False
    with \<open>agrees show c\<close> Cons show ?thesis
      by (elim agrees_cases)
        (simp_all add: agrees_def full_sql_def operator_sql_def kept_operator_def kept_first_def)
  qed (use in' in blast)
qed

lemma agrees_all: "agrees show e"
proof (induction e)
  case (Comparison ty l r)
  then show ?case
    by (cases "comparison_op ty"; elim agrees_cases) (simp_all add: agrees_def full_sql_def)
next
  case (Between e lo hi)
  then show ?case by (elim agrees_cases) (simp_all add: agrees_def full_sql_def)
next
  case (Cast e)
  then show ?case by (simp add: agrees_def)
next
  case (Conjunction ty es)
  then show ?case by (rule agrees_conjunction)
next
  case (Operator ty es)
  then show ?case by (rule agrees_operator)
next
  case (Function name es)
  then show ?case by (rule agrees_function)
qed (auto intro: agrees_NoneI agrees_SomeI)

section \<open>What the pushed clause means\<close>

text \<open>SQL's three-valued \<open>AND\<close> and \<open>OR\<close>; \<open>None\<close> is unknown.\<close>

definition kleene_and :: "bool option list \<Rightarrow> bool option" where
  "kleene_and ts = (if Some False \<in> set ts then Some False else if None \<in> set ts then None else Some True)"

definition kleene_or :: "bool option list \<Rightarrow> bool option" where
  "kleene_or ts = (if Some True \<in> set ts then Some True else if None \<in> set ts then None else Some False)"

text \<open>The truth of expressions on one row, as the database sees it.\<close>

definition logical :: "(filter_expr \<Rightarrow> bool option) \<Rightarrow> bool" where
  "logical truth \<longleftrightarrow>
     (\<forall>es. truth (Conjunction ''CONJUNCTION_AND'' es) = kleene_and (map truth es))
     \<and> (\<forall>es. truth (Conjunction ''CONJUNCTION_OR'' es) = kleene_or (map truth es))"

text \<open>
  Filters whose translation can only be weaker: below \<open>AND\<close> a child may be left out, below \<open>OR\<close> none,
  and anything else is written in full and without casts.
\<close>

fun weak :: "filter_expr \<Rightarrow> bool" where
  "weak (Conjunction ty es) =
     (if ty = ''CONJUNCTION_AND'' then (\<forall>e\<in>set es. kept e = None \<or> weak e)
      else if ty = ''CONJUNCTION_OR'' then (\<forall>e\<in>set es. kept e \<noteq> None \<and> weak e)
      else False)"
| "weak e = (kept e = Some e)"

lemma weak_implies:
  assumes "logical truth"
  shows "weak e \<Longrightarrow> kept e = Some k \<Longrightarrow> truth e = Some True \<Longrightarrow> truth k = Some True"
proof (induction e arbitrary: k)
  case (Conjunction ty es)
  consider "ty = ''CONJUNCTION_AND''" | "ty = ''CONJUNCTION_OR''" using Conjunction.prems(1) by (auto split: if_splits)
  then show ?case
  proof cases
    case 1
    with Conjunction.prems(2) have k: "k = Conjunction ty (somes (map kept es))" by (auto simp: Let_def split: if_splits)
    from Conjunction.prems(3) 1 assms have "\<forall>e\<in>set es. truth e = Some True"
      by (auto simp: logical_def kleene_and_def image_iff split: if_splits) (metis option.exhaust)
    with Conjunction.IH Conjunction.prems(1) 1 have "\<forall>k\<in>set (somes (map kept es)). truth k = Some True"
      by (fastforce simp: set_somes)
    with k 1 assms show ?thesis by (force simp: logical_def kleene_and_def)
  next
    case 2
    with Conjunction.prems(2) have k: "k = Conjunction ty (somes (map kept es))" by (auto simp: Let_def split: if_splits)
    from Conjunction.prems(3) 2 assms obtain e where e: "e \<in> set es" "truth e = Some True"
      by (auto simp: logical_def kleene_or_def split: if_splits)
    with Conjunction.prems(1) 2 obtain k' where "kept e = Some k'" "weak e" by auto
    with e Conjunction.IH have "truth k' = Some True" "k' \<in> set (somes (map kept es))"
      by (auto simp: set_somes image_iff) (metis)
    with k 2 assms show ?thesis by (force simp: logical_def kleene_or_def)
  qed
qed auto


definition sample_truth :: "filter_expr \<Rightarrow> bool option" where
  "sample_truth = rec_filter_expr (\<lambda>_ _ _ _ _. Some True) (\<lambda>_. Some True) (\<lambda>_ _ _. Some True)
     (\<lambda>ty ts. if ty = ''CONJUNCTION_AND'' then kleene_and (map snd ts) else kleene_or (map snd ts))
     (\<lambda>_ _. Some True) (\<lambda>_ _ _ _ _ _. Some True) (\<lambda>_ _. Some True) (\<lambda>_ _. Some True) (Some True)"

lemma sample_truth_logical: "logical sample_truth"
  by (simp add: logical_def sample_truth_def comp_def)


text \<open>
  Below \<open>OR\<close> leaving a child out is not sound: a row that only the lost alternative accepts is filtered away.
\<close>

lemma dropped_disjunct_loses_rows:
  assumes "logical truth" "truth (ColumnRef c) = Some False" "truth UnknownExpr = Some True"
  defines "e \<equiv> Conjunction ''CONJUNCTION_OR'' [ColumnRef c, UnknownExpr]"
  shows "truth e = Some True"
    and "kept e = Some (Conjunction ''CONJUNCTION_OR'' [ColumnRef c])"
    and "truth (Conjunction ''CONJUNCTION_OR'' [ColumnRef c]) = Some False"
  using assms by (simp_all add: logical_def kleene_or_def conjunction_op_def)

text \<open>A column is quoted without doubling a quote inside its name.\<close>

lemma quoted_column_unescaped:
  "expression_to_sql show (ColumnRef (a @ [CHR 0x22] @ b)) = Some ([CHR 0x22] @ a @ [CHR 0x22] @ b @ [CHR 0x22])"
  by (simp add: quoted_column_def)

end
