(* ===== verification/Duck.thy ===== *)
theory Duck
  imports Errors
begin

text \<open>
  The interface to the duckdb crate that \<^verbatim>\<open>engine/connection.rs\<close> and \<^verbatim>\<open>engine/result_projection.rs\<close> use. Every call is
  appended to a log and its answer is a function of the calls before it, so a property of all such functions
  is a property of all behaviours of DuckDB. A streamed result is its schema, the batches it yields and
  whether fetching ends in a panic, as DuckDB's Arrow fetch does on an error.
\<close>

section \<open>The library\<close>

datatype ('v, 'b) duck_call =
    DPrepare string
  | DStream string "'v list"
  | DFetched nat
  | DDescribe string "'v list"
  | DRows string
  | DQueryRow string
  | DExecute string "'v list"
  | DBatch string
  | DAppender string
  | DAppend 'b
  | DFlush
  | DInterrupt
  | DTelemetry "string option"

text \<open>Tokens of the sqlparser crate, as far as the code tells them apart.\<close>

datatype sql_token =
    WordToken string bool
  | SpaceToken
  | SemiColon
  | LParen
  | RParen
  | LBracket
  | Comma
  | OtherToken

text \<open>
  \<open>d_prepare\<close> answers with the number of parameters; \<open>d_tokenize\<close> gives each token with the line and column of
  its end.
\<close>

record ('v, 'b, 's) duck =
  d_prepare :: "('v, 'b) duck_call list \<Rightarrow> string \<Rightarrow> string + nat"
  d_stream :: "('v, 'b) duck_call list \<Rightarrow> string \<Rightarrow> 'v list \<Rightarrow> string + ('s \<times> 'b list \<times> bool)"
  d_describe :: "('v, 'b) duck_call list \<Rightarrow> string \<Rightarrow> 'v list \<Rightarrow> string + (string \<times> string) list"
  d_rows :: "('v, 'b) duck_call list \<Rightarrow> string \<Rightarrow> string + (string \<times> string \<times> string) list"
  d_query_row :: "('v, 'b) duck_call list \<Rightarrow> string \<Rightarrow> string + string"
  d_execute :: "('v, 'b) duck_call list \<Rightarrow> string \<Rightarrow> 'v list \<Rightarrow> string + nat"
  d_batch :: "('v, 'b) duck_call list \<Rightarrow> string \<Rightarrow> string + unit"
  d_appender :: "('v, 'b) duck_call list \<Rightarrow> string \<Rightarrow> string + unit"
  d_append :: "('v, 'b) duck_call list \<Rightarrow> 'b \<Rightarrow> string + unit"
  d_flush :: "('v, 'b) duck_call list \<Rightarrow> string + unit"
  d_telemetry :: "(('v, 'b) duck_call list \<Rightarrow> string option \<Rightarrow> server_error + unit) option"
  d_null :: 'v
  d_tokenize :: "string \<Rightarrow> (sql_token \<times> nat \<times> nat) list option"
  d_rows_of :: "'b \<Rightarrow> nat"
  d_bytes_of :: "'b \<Rightarrow> nat"

section \<open>The state of one request\<close>

datatype ('s, 'b) streaming_batch = SchemaMsg 's | BatchMsg 'b | DoneMsg nat nat | ErrorMsg server_error

text \<open>
  A step fails with an error or unwinds. \<open>q_cancel\<close> is the number of further looks at the request's
  cancellation before it is cancelled, \<open>q_close\<close> the number of further uses of the channel before its receiver
  is gone; \<open>None\<close> is never. \<open>q_sent\<close> is what the receiver has been sent, \<open>q_poisoned\<close> whether the connection's
  mutex is poisoned.
\<close>

datatype stop = Fail server_error | Unwind

record ('v, 'b, 's) conn_request =
  q_log :: "('v, 'b) duck_call list"
  q_cancel :: "nat option"
  q_close :: "nat option"
  q_sent :: "('s, 'b) streaming_batch list"
  q_poisoned :: bool

type_synonym ('v, 'b, 's, 'a) conn_step = "(('v, 'b, 's) conn_request, stop, 'a) step"

definition ask_duck ::
    "('v, 'b) duck_call \<Rightarrow> (('v, 'b) duck_call list \<Rightarrow> string + 'a) \<Rightarrow> ('v, 'b, 's, 'a) conn_step" where
  "ask_duck c f q =
     (case f (q_log q) of Inl e \<Rightarrow> sfail (Fail (DuckDb e)) | Inr x \<Rightarrow> sret x) (q\<lparr>q_log := q_log q @ [c]\<rparr>)"

definition record_call :: "('v, 'b) duck_call \<Rightarrow> ('v, 'b, 's, unit) conn_step" where
  "record_call c = smodify (\<lambda>q. q\<lparr>q_log := q_log q @ [c]\<rparr>)"

definition countdown :: "nat option \<Rightarrow> nat option" where
  "countdown n = map_option (\<lambda>k. k - 1) n"

text \<open>A look at the cancellation, \<open>check\<close> or \<open>activate\<close>, of a request that has one.\<close>

definition look :: "bool \<Rightarrow> ('v, 'b, 's, unit) conn_step" where
  "look cancellable q =
     (if \<not> cancellable then sret () q
      else if q_cancel q = Some 0 then sfail (Fail Cancelled) q
      else sret () (q\<lparr>q_cancel := countdown (q_cancel q)\<rparr>))"

text \<open>\<open>Sender::is_closed\<close> and \<open>Sender::blocking_send\<close>; the latter answers whether it succeeded.\<close>

definition is_closed :: "('v, 'b, 's, bool) conn_step" where
  "is_closed q =
     (if q_close q = Some 0 then sret True q else sret False (q\<lparr>q_close := countdown (q_close q)\<rparr>))"

definition send :: "('s, 'b) streaming_batch \<Rightarrow> ('v, 'b, 's, bool) conn_step" where
  "send m q =
     (if q_close q = Some 0 then sret False q
      else sret True (q\<lparr>q_close := countdown (q_close q), q_sent := q_sent q @ [m]\<rparr>))"

text \<open>
  A guarded section: whatever ends the inner step, the cancellation is looked at before its result is
  returned; a panic unwinds past that.
\<close>

definition guarded :: "bool \<Rightarrow> ('v, 'b, 's, 'a) conn_step \<Rightarrow> ('v, 'b, 's, 'a) conn_step" where
  "guarded cancellable m q =
     rbind (m q) (\<lambda>(r, q'). case r of
        Inl Unwind \<Rightarrow> Ret (Inl Unwind, q')
      | _ \<Rightarrow> sthen (look cancellable) (\<lambda>q''. Ret (r, q'')) q')"

text \<open>A section under the connection's lock. A panic in it poisons the mutex.\<close>

definition under_lock :: "('v, 'b, 's, 'a) conn_step \<Rightarrow> ('v, 'b, 's, 'a) conn_step" where
  "under_lock m q =
     rbind (m q) (\<lambda>(r, q'). Ret (r, if r = Inl Unwind then q'\<lparr>q_poisoned := True\<rparr> else q'))"

section \<open>Reasoning about steps\<close>

lemma triple_ask_duck [triple_intros]:
  "(\<And>q. P q \<Longrightarrow> R (q\<lparr>q_log := q_log q @ [c]\<rparr>)) \<Longrightarrow> (\<And>q x. P q \<Longrightarrow> f (q_log q) = Inr x \<Longrightarrow> Q x (q\<lparr>q_log := q_log q @ [c]\<rparr>)) \<Longrightarrow>
    triple P (ask_duck c f) Q R"
  by (auto simp: triple_def ask_duck_def sfail_def sret_def split: sum.splits)

lemma look_state: "look b q = Ret (r, q') \<Longrightarrow> \<exists>n. q' = q\<lparr>q_cancel := n\<rparr>"
  by (auto simp: look_def sfail_def sret_def split: if_splits intro: exI [of _ "q_cancel q"])

lemma look_error: "look b q = Ret (Inl e, q') \<Longrightarrow> q' = q \<and> e = Fail Cancelled"
  by (auto simp: look_def sfail_def sret_def split: if_splits)

lemma is_closed_state: "is_closed q = Ret (r, q') \<Longrightarrow> (\<exists>n. q' = q\<lparr>q_close := n\<rparr>) \<and> (\<exists>c. r = Inr c)"
  by (auto simp: is_closed_def sret_def split: if_splits intro: exI [of _ "q_close q"])

lemma triple_look [triple_intros]:
  "(\<And>q n. P q \<Longrightarrow> Q () (q\<lparr>q_cancel := n\<rparr>)) \<Longrightarrow> (\<And>q. P q \<Longrightarrow> R q) \<Longrightarrow> triple P (look b) Q R"
  by (rule tripleI) (auto dest: look_state look_error)

lemma countdown_None [simp]: "countdown None = None"
  by (simp add: countdown_def)

lemma triple_is_closed [triple_intros]:
  "(\<And>q. P q \<Longrightarrow> q_close q = Some 0 \<Longrightarrow> Q True q) \<Longrightarrow>
    (\<And>q. P q \<Longrightarrow> q_close q \<noteq> Some 0 \<Longrightarrow> Q False (q\<lparr>q_close := countdown (q_close q)\<rparr>)) \<Longrightarrow> triple P is_closed Q R"
  by (auto simp: triple_def is_closed_def sret_def)

lemma triple_send [triple_intros]:
  "(\<And>q. P q \<Longrightarrow> q_close q = Some 0 \<Longrightarrow> Q False q) \<Longrightarrow>
    (\<And>q. P q \<Longrightarrow> q_close q \<noteq> Some 0 \<Longrightarrow> Q True (q\<lparr>q_close := countdown (q_close q), q_sent := q_sent q @ [m]\<rparr>)) \<Longrightarrow>
    triple P (send m) Q R"
  by (auto simp: triple_def send_def sret_def)

lemma guarded_result:
  assumes "guarded b m q = Ret (r, q')"
  obtains r0 t where "m q = Ret (r0, t)" "\<exists>n. q' = t\<lparr>q_cancel := n\<rparr>" "r = r0 \<or> r = Inl (Fail Cancelled)"
proof (cases "m q")
  case (Ret p)
  obtain r0 t where p: "p = (r0, t)" by (cases p)
  have "(r0 = Inl Unwind \<and> r = r0 \<and> q' = t)
      \<or> (\<exists>u. look b t = Ret (u, q') \<and> (r = r0 \<or> (\<exists>e. u = Inl e \<and> r = Inl e)))"
  proof (cases r0)
    case (Inl s)
    then show ?thesis using assms Ret p by (cases s) (auto simp: guarded_def run_simps sthen_def)
  qed (use assms Ret p in \<open>auto simp: guarded_def run_simps sthen_def\<close>)
  then show ?thesis
  proof (elim disjE exE conjE)
    assume "r = r0" "q' = t"
    moreover have "t = t\<lparr>q_cancel := q_cancel t\<rparr>" by simp
    ultimately show ?thesis using that [of r0 t] Ret p by metis
  next
    fix u assume "look b t = Ret (u, q')" "r = r0"
    with look_state that [of r0 t] Ret p show ?thesis by blast
  next
    fix u e assume "look b t = Ret (u, q')" "u = Inl e" "r = Inl e"
    with look_state look_error that [of r0 t] Ret p show ?thesis by blast
  qed
qed (use assms in \<open>simp add: guarded_def\<close>)

lemma triple_guarded [triple_intros]:
  assumes "triple P m Q R" "\<And>x q n. Q x q \<Longrightarrow> Q x (q\<lparr>q_cancel := n\<rparr>)" "\<And>x q. Q x q \<Longrightarrow> R q"
    "\<And>q n. R q \<Longrightarrow> R (q\<lparr>q_cancel := n\<rparr>)"
  shows "triple P (guarded b m) Q R"
proof (rule tripleI)
  fix q e q' assume p: "P q" and g: "guarded b m q = Ret (Inl e, q')"
  obtain r0 t n where m: "m q = Ret (r0, t)" "q' = t\<lparr>q_cancel := n\<rparr>" using guarded_result [OF g] by metis
  with p assms(1,3) have "R t" by (cases r0) (auto dest: triple_value triple_error)
  with m assms(4) show "R q'" by simp
next
  fix q x q' assume p: "P q" and g: "guarded b m q = Ret (Inr x, q')"
  obtain t n where m: "m q = Ret (Inr x, t)" "q' = t\<lparr>q_cancel := n\<rparr>" using guarded_result [OF g] by (metis Inl_Inr_False)
  with triple_value [OF assms(1) p m(1)] assms(2) show "Q x q'" by simp
qed

lemma triple_locked [triple_intros]:
  "triple P m Q R \<Longrightarrow> (\<And>q. R q \<Longrightarrow> R (q\<lparr>q_poisoned := True\<rparr>)) \<Longrightarrow> triple P (under_lock m) Q R"
  by (rule tripleI) (auto simp: under_lock_def run_simps split: if_splits dest: triple_value triple_error)

text \<open>A step of a request never panics outright: a panic is \<open>Unwind\<close>.\<close>

lemmas conn_step_defs = sret_def sfail_def smodify_def ask_duck_def record_call_def look_def is_closed_def send_def

text \<open>A library that answers every query with one column and two batches, and an idle request.\<close>

definition sample_duck :: "(nat, nat, string) duck" where
  "sample_duck = \<lparr>d_prepare = (\<lambda>l s. Inr 0), d_stream = (\<lambda>l s ps. Inr (''schema'', [5, 7], False)),
     d_describe = (\<lambda>l s ps. Inr [(''a'', ''INTEGER'')]), d_rows = (\<lambda>l s. Inr []), d_query_row = (\<lambda>l s. Inr ''memory''),
     d_execute = (\<lambda>l s ps. Inr 1), d_batch = (\<lambda>l s. Inr ()), d_appender = (\<lambda>l t. Inr ()), d_append = (\<lambda>l b. Inr ()),
     d_flush = (\<lambda>l. Inr ()), d_telemetry = None, d_null = 0,
     d_tokenize = (\<lambda>s. if s = ''SELECT 1;'' then Some [(WordToken ''SELECT'' False, 1, 7), (SpaceToken, 1, 8),
       (OtherToken, 1, 9), (SemiColon, 1, 10)] else None), d_rows_of = (\<lambda>b. b), d_bytes_of = (\<lambda>b. 8 * b)\<rparr>"

definition sample_call :: "(nat, nat, string) conn_request" where
  "sample_call = \<lparr>q_log = [], q_cancel = None, q_close = None, q_sent = [], q_poisoned = False\<rparr>"

end
