(* ===== verification/Result_Projection.thy ===== *)
theory Result_Projection
  imports Duck Sql_Text
begin

text \<open>
  \<^verbatim>\<open>engine/result_projection.rs\<close>: a read query with \<open>VARIANT\<close> outputs is wrapped into a projection that
  converts them to JSON, and the schema of a query is the schema of an empty query with the same column
  types. DuckDB's \<open>DESCRIBE\<close> and the sqlparser tokenizer are parameters.
\<close>

section \<open>The body of a read query\<close>

fun solid_token :: "sql_token \<times> nat \<times> nat \<Rightarrow> bool" where
  "solid_token (t, _) = (t \<noteq> SpaceToken)"

definition read_words :: "string list" where
  "read_words = [''SELECT'', ''FROM'', ''WITH'', ''VALUES'', ''TABLE'', ''PIVOT'', ''UNPIVOT'']"

fun starts_read :: "sql_token \<Rightarrow> bool" where
  "starts_read (WordToken w q) = (\<not> q \<and> to_ascii_uppercase w \<in> set read_words)"
| "starts_read LParen = True"
| "starts_read _ = False"

text \<open>\<open>str::split_inclusive\<close> on a line feed, and the byte offsets of the characters of a line.\<close>

fun split_inclusive :: "string \<Rightarrow> string list" where
  "split_inclusive [] = []"
| "split_inclusive (c # s) =
     (if c = CHR 0x0A then [c] # split_inclusive s
      else (case split_inclusive s of [] \<Rightarrow> [[c]] | l # ls \<Rightarrow> (c # l) # ls))"

definition char_starts :: "string \<Rightarrow> nat list" where
  "char_starts s = filter (\<lambda>i. boundary (drop i s)) [0..<length s]"

text \<open>\<open>str::get(..n)\<close>.\<close>

definition get_prefix :: "nat \<Rightarrow> string \<Rightarrow> string option" where
  "get_prefix n s = (if n \<le> length s \<and> boundary (drop n s) then Some (take n s) else None)"

definition text_before :: "nat \<Rightarrow> nat \<Rightarrow> string \<Rightarrow> string option" where
  "text_before line column sql =
     (let ls = split_inclusive sql;
          prefix_length = sum_list (map length (take (line - 1) ls));
          l = (case drop (line - 1) ls of [] \<Rightarrow> [] | l # _ \<Rightarrow> l);
          starts = char_starts l;
          offset = (if column - 1 < length starts then starts ! (column - 1) else length l)
      in get_prefix (prefix_length + offset) sql)"

text \<open>The significant tokens without trailing terminators.\<close>

definition significant :: "(sql_token \<times> nat \<times> nat) list \<Rightarrow> (sql_token \<times> nat \<times> nat) list" where
  "significant ts = rev (dropWhile (\<lambda>(t, _). t = SemiColon) (rev (filter solid_token ts)))"

definition query_body :: "('v, 'b, 's) duck \<Rightarrow> string \<Rightarrow> string option" where
  "query_body dk sql =
     Option.bind (d_tokenize dk sql) (\<lambda>ts.
       let sig = significant ts in
       if \<exists>t\<in>set sig. fst t = SemiColon then None
       else if sig = [] then None
       else if \<not> starts_read (fst (hd sig)) then None
       else (case last sig of (_, line, column) \<Rightarrow> text_before line column sql))"

section \<open>Columns\<close>

fun variant_in :: "sql_token list \<Rightarrow> bool" where
  "variant_in [] = False"
| "variant_in (t # ts) =
     ((case t of WordToken w q \<Rightarrow> \<not> q \<and> eq_ignore_ascii_case w ''VARIANT'' | _ \<Rightarrow> False)
        \<and> (ts = [] \<or> hd ts \<in> {LBracket, Comma, RParen})
      \<or> variant_in ts)"

definition contains_variant :: "('v, 'b, 's) duck \<Rightarrow> string \<Rightarrow> bool" where
  "contains_variant dk data_type =
     (case d_tokenize dk data_type of None \<Rightarrow> False
      | Some ts \<Rightarrow> variant_in (filter (\<lambda>t. t \<noteq> SpaceToken) (map fst ts)))"

text \<open>The alias of an output column: its name in quotes.\<close>

definition alias_of :: "string \<Rightarrow> string" where
  "alias_of name = [CHR 0x22] @ replace_char (CHR 0x22) [CHR 0x22, CHR 0x22] name @ [CHR 0x22]"

definition internal_name :: "nat \<Rightarrow> string" where
  "internal_name i = [CHR 0x22] @ ''c'' @ show_nat i @ [CHR 0x22]"

definition result_name :: string where
  "result_name = [CHR 0x22] @ ''__swanlake_result'' @ [CHR 0x22]"

definition projected_column :: "('v, 'b, 's) duck \<Rightarrow> nat \<Rightarrow> string \<times> string \<Rightarrow> string" where
  "projected_column dk i column =
     (let source = result_name @ ''.'' @ internal_name i;
          val = (if contains_variant dk (snd column)
            then ''CASE WHEN '' @ source @ '' IS NULL THEN NULL::JSON ELSE CAST('' @ source @ '' AS JSON) END''
            else source)
      in val @ '' AS '' @ alias_of (fst column))"

definition project_columns :: "('v, 'b, 's) duck \<Rightarrow> string \<Rightarrow> (string \<times> string) list \<Rightarrow> string option" where
  "project_columns dk body columns =
     (if \<not> list_ex (\<lambda>c. contains_variant dk (snd c)) columns then None
      else Some (''SELECT '' @ join '', '' (map (\<lambda>i. projected_column dk i (columns ! i)) [0..<length columns])
        @ '' FROM ('' @ [CHR 0x0A] @ body @ [CHR 0x0A] @ '') AS '' @ result_name
        @ ''('' @ join '', '' (map internal_name [0..<length columns]) @ '')''))"

definition empty_column :: "('v, 'b, 's) duck \<Rightarrow> string \<times> string \<Rightarrow> string" where
  "empty_column dk column =
     ''CAST(NULL AS '' @ (if contains_variant dk (snd column) then ''JSON'' else snd column)
       @ '') AS '' @ alias_of (fst column)"

definition empty_schema_query :: "('v, 'b, 's) duck \<Rightarrow> (string \<times> string) list \<Rightarrow> string" where
  "empty_schema_query dk columns = ''SELECT '' @ join '', '' (map (empty_column dk) columns) @ '' WHERE false''"

section \<open>Binding\<close>

definition describe_sql :: "string \<Rightarrow> string" where
  "describe_sql body = ''DESCRIBE '' @ body"

text \<open>A failed \<open>prepare\<close> is not an error here: \<open>DESCRIBE\<close> cannot wrap every statement.\<close>

definition describe_columns ::
    "('v, 'b, 's) duck \<Rightarrow> string \<Rightarrow> 'v list option \<Rightarrow> ('v, 'b, 's, (string \<times> string) list option) conn_step" where
  "describe_columns dk body params q =
     (let describe = describe_sql body; prepared = d_prepare dk (q_log q) describe in
      sthen (record_call (DPrepare describe))
        (case prepared of
           Inl _ \<Rightarrow> sret None
         | Inr parameter_count \<Rightarrow>
             (let ps = (case params of Some ps \<Rightarrow> ps | None \<Rightarrow> replicate parameter_count (d_null dk)) in
              sbind (ask_duck (DDescribe describe ps) (\<lambda>l. d_describe dk l describe ps)) (\<lambda>columns. sret (Some columns)))) q)"

definition with_columns ::
    "('v, 'b, 's) duck \<Rightarrow> string \<Rightarrow> 'v list option \<Rightarrow> (string \<Rightarrow> (string \<times> string) list \<Rightarrow> 'a option) \<Rightarrow>
      ('v, 'b, 's, 'a option) conn_step" where
  "with_columns dk sql params f =
     (case query_body dk sql of None \<Rightarrow> sret None
      | Some body \<Rightarrow> sbind (describe_columns dk body params) (\<lambda>cs.
          case cs of None \<Rightarrow> sret None | Some columns \<Rightarrow> sret (f body columns)))"

definition for_query :: "('v, 'b, 's) duck \<Rightarrow> string \<Rightarrow> 'v list option \<Rightarrow> ('v, 'b, 's, string option) conn_step" where
  "for_query dk sql params = with_columns dk sql params (project_columns dk)"

definition for_streaming_query ::
    "('v, 'b, 's) duck \<Rightarrow> string \<Rightarrow> 'v list option \<Rightarrow> ('v, 'b, 's, (string \<times> string) option) conn_step" where
  "for_streaming_query dk sql params =
     with_columns dk sql params (\<lambda>body columns.
       Some (case project_columns dk body columns of Some p \<Rightarrow> p | None \<Rightarrow> body, empty_schema_query dk columns))"

definition schema_query :: "('v, 'b, 's) duck \<Rightarrow> string \<Rightarrow> ('v, 'b, 's, string option) conn_step" where
  "schema_query dk sql = with_columns dk sql None (\<lambda>body columns. Some (empty_schema_query dk columns))"

section \<open>Properties\<close>

text \<open>What the rest of a request can rely on: binding sends nothing and leaves the cancellation alone.\<close>

definition probes :: "string \<Rightarrow> ('v, 'b, 's) conn_request \<Rightarrow> ('v, 'b, 's) conn_request \<Rightarrow> bool" where
  "probes body q q' \<longleftrightarrow> (\<exists>cs. set cs \<subseteq> range (DDescribe (describe_sql body))
     \<and> q' = q\<lparr>q_log := q_log q @ DPrepare (describe_sql body) # cs\<rparr>)"

lemma probesI:
  "probes body q (q\<lparr>q_log := q_log q @ [DPrepare (describe_sql body)]\<rparr>)"
  "probes body q (q\<lparr>q_log := q_log q @ [DPrepare (describe_sql body), DDescribe (describe_sql body) ps]\<rparr>)"
  unfolding probes_def by (intro exI [of _ "[]"]; simp) (intro exI [of _ "[DDescribe (describe_sql body) ps]"]; simp)

lemma describe_columns_calls:
  assumes "describe_columns dk body params q = Ret (r, q')"
  shows "probes body q q' \<and> r \<noteq> Inl Unwind"
proof (cases "d_prepare dk (q_log q) (describe_sql body)")
  case (Inl e)
  with assms show ?thesis
    by (auto simp: describe_columns_def Let_def sthen_def sbind_def record_call_def smodify_def sret_def intro: probesI)
next
  case (Inr n)
  define ps where "ps = (case params of Some ps \<Rightarrow> ps | None \<Rightarrow> replicate n (d_null dk))"
  have "sbind (ask_duck (DDescribe (describe_sql body) ps) (\<lambda>l. d_describe dk l (describe_sql body) ps))
      (\<lambda>columns. sret (Some columns)) (q\<lparr>q_log := q_log q @ [DPrepare (describe_sql body)]\<rparr>) = Ret (r, q')"
    using assms Inr by (simp add: describe_columns_def Let_def sthen_def sbind_def record_call_def smodify_def flip: ps_def)
  then show ?thesis
    by (cases "d_describe dk (q_log q @ [DPrepare (describe_sql body)]) (describe_sql body) ps")
      (auto simp: sbind_def ask_duck_def sfail_def sret_def intro: probesI)
qed

lemma with_columns_calls:
  assumes "with_columns dk sql params f q = Ret (r, q')"
  shows "r \<noteq> Inl Unwind \<and> (q' = q \<or> (\<exists>body. query_body dk sql = Some body \<and> probes body q q'))"
proof (cases "query_body dk sql")
  case None
  with assms show ?thesis by (auto simp: with_columns_def sret_def)
next
  case (Some body)
  with assms obtain r0 where "describe_columns dk body params q = Ret (r0, q')" "r0 \<noteq> Inl Unwind \<longrightarrow> r \<noteq> Inl Unwind"
    by (auto simp: with_columns_def run_simps sret_def split: option.splits)
  with describe_columns_calls Some show ?thesis by blast
qed

lemma with_columns_log: "with_columns dk sql params f q = Ret (r, q') \<Longrightarrow> \<exists>l. q' = q\<lparr>q_log := l\<rparr>"
  by (auto dest!: with_columns_calls simp: probes_def intro: exI [of _ "q_log q"])

lemma triple_with_columns [triple_intros]:
  assumes "\<And>q l. P q \<Longrightarrow> R (q\<lparr>q_log := l\<rparr>)" "\<And>q l x. P q \<Longrightarrow> Q x (q\<lparr>q_log := l\<rparr>)"
  shows "triple P (with_columns dk sql params f) Q R"
proof (rule tripleI)
  fix q e q' assume "P q" "with_columns dk sql params f q = Ret (Inl e, q')"
  with with_columns_log assms(1) show "R q'" by blast
next
  fix q x q' assume "P q" "with_columns dk sql params f q = Ret (Inr x, q')"
  with with_columns_log assms(2) show "Q x q'" by blast
qed

lemma no_terminator_inside:
  "\<forall>t\<in>set (significant ts). fst t \<noteq> SemiColon \<Longrightarrow>
    \<exists>rest. filter solid_token ts = significant ts @ rest \<and> (\<forall>t\<in>set rest. fst t = SemiColon)"
proof -
  let ?P = "\<lambda>(t :: sql_token, _ :: nat \<times> nat). t = SemiColon"
  have "rev (filter solid_token ts) = takeWhile ?P (rev (filter solid_token ts)) @ dropWhile ?P (rev (filter solid_token ts))"
    by simp
  then have "filter solid_token ts = significant ts @ rev (takeWhile ?P (rev (filter solid_token ts)))"
    unfolding significant_def by (metis rev_append rev_rev_ident)
  moreover have "\<forall>t\<in>set (rev (takeWhile ?P (rev (filter solid_token ts)))). fst t = SemiColon"
    by (auto dest: set_takeWhileD)
  ultimately show ?thesis by blast
qed

lemma query_body_single:
  assumes "query_body dk sql = Some body"
  shows "prefix body sql"
    and "\<exists>ts sig rest. d_tokenize dk sql = Some ts \<and> filter solid_token ts = sig @ rest \<and> sig \<noteq> [] \<and> starts_read (fst (hd sig))
      \<and> (\<forall>t\<in>set sig. fst t \<noteq> SemiColon) \<and> (\<forall>t\<in>set rest. fst t = SemiColon)"
proof -
  from assms obtain ts where ts: "d_tokenize dk sql = Some ts" by (auto simp: query_body_def bind_eq_Some_conv)
  with assms have sig: "significant ts \<noteq> []" "starts_read (fst (hd (significant ts)))"
    "\<forall>t\<in>set (significant ts). fst t \<noteq> SemiColon"
    and b: "(case last (significant ts) of (_, line, column) \<Rightarrow> text_before line column sql) = Some body"
    by (auto simp: query_body_def Let_def split: if_splits)
  from b show "prefix body sql"
    by (auto simp: text_before_def get_prefix_def Let_def take_is_prefix split: prod.splits if_splits)
  from no_terminator_inside [OF sig(3)] ts sig
  show "\<exists>ts sig rest. d_tokenize dk sql = Some ts \<and> filter solid_token ts = sig @ rest \<and> sig \<noteq> [] \<and> starts_read (fst (hd sig))
      \<and> (\<forall>t\<in>set sig. fst t \<noteq> SemiColon) \<and> (\<forall>t\<in>set rest. fst t = SemiColon)" by blast
qed

text \<open>
  Describing a query never executes a statement. Whatever the text, looking for \<open>VARIANT\<close> outputs or for the
  early schema calls DuckDB only with \<open>DESCRIBE\<close> in front of a prefix of the text, and only when the
  text is a single statement: its tokens have no terminator but at the very end and start with a word of a
  read query or a parenthesis. A batch, a command or a text that does not tokenize is not probed at all.
\<close>

theorem probing_describes_only:
  assumes "for_streaming_query dk sql params q = Ret (r, q') \<or> for_query dk sql params q = Ret (r', q')
    \<or> schema_query dk sql q = Ret (r', q')"
  shows "q' = q \<or> (\<exists>body ts sig rest. prefix body sql
    \<and> (\<exists>cs. set cs \<subseteq> range (DDescribe (describe_sql body))
        \<and> q' = q\<lparr>q_log := q_log q @ DPrepare (describe_sql body) # cs\<rparr>)
    \<and> d_tokenize dk sql = Some ts \<and> filter solid_token ts = sig @ rest \<and> sig \<noteq> [] \<and> starts_read (fst (hd sig))
    \<and> (\<forall>t\<in>set sig. fst t \<noteq> SemiColon) \<and> (\<forall>t\<in>set rest. fst t = SemiColon))"
proof -
  have "q' = q \<or> (\<exists>body. query_body dk sql = Some body \<and> probes body q q')"
    using assms unfolding for_streaming_query_def for_query_def schema_query_def
    by (auto dest!: with_columns_calls)
  then show ?thesis
  proof (elim disjE exE conjE)
    fix body assume b: "query_body dk sql = Some body" and "probes body q q'"
    from this(2) obtain cs where "set cs \<subseteq> range (DDescribe (describe_sql body))"
      "q' = q\<lparr>q_log := q_log q @ DPrepare (describe_sql body) # cs\<rparr>" by (auto simp: probes_def)
    with query_body_single [OF b] show ?thesis by blast
  qed simp
qed

lemma sample_body: "query_body sample_duck ''SELECT 1;'' = Some ''SELECT 1''"
proof -
  have "[0..<9] = [0, 1, 2, 3, 4, 5, 6, 7, 8 :: nat]" by (simp add: upt_rec)
  then have "char_starts ''SELECT 1;'' = [0, 1, 2, 3, 4, 5, 6, 7, 8]"
    by (simp add: char_starts_def is_cont_def byte_def)
  then show ?thesis
    by (simp add: query_body_def sample_duck_def significant_def text_before_def get_prefix_def Let_def read_words_def
        to_ascii_uppercase_def to_upper_def is_lower_def is_cont_def byte_def)
qed

lemma sample_for_query:
  "for_query sample_duck ''SELECT 1;'' None sample_call = Ret (Inr None,
    sample_call\<lparr>q_log := [DPrepare (describe_sql ''SELECT 1''), DDescribe (describe_sql ''SELECT 1'') []]\<rparr>)"
proof -
  have "describe_columns sample_duck ''SELECT 1'' None sample_call = Ret (Inr (Some [(''a'', ''INTEGER'')]),
    sample_call\<lparr>q_log := [DPrepare (describe_sql ''SELECT 1''), DDescribe (describe_sql ''SELECT 1'') []]\<rparr>)"
    by (simp add: describe_columns_def Let_def sample_duck_def sample_call_def sbind_def sthen_def conn_step_defs)
  then show ?thesis
    by (simp add: for_query_def with_columns_def sample_body sbind_def sret_def project_columns_def contains_variant_def)
      (simp add: sample_duck_def)
qed

lemma probing_describes_only_witness:
  "\<exists>body q'. for_query sample_duck ''SELECT 1;'' None sample_call = Ret (Inr None, q')
    \<and> prefix body ''SELECT 1;'' \<and> (\<exists>cs. set cs \<subseteq> range (DDescribe (describe_sql body))
        \<and> q' = sample_call\<lparr>q_log := q_log sample_call @ DPrepare (describe_sql body) # cs\<rparr>)"
proof -
  let ?q = "sample_call\<lparr>q_log := [DPrepare (describe_sql ''SELECT 1''), DDescribe (describe_sql ''SELECT 1'') []]\<rparr>"
  have "?q \<noteq> sample_call" by (simp add: sample_call_def)
  then show ?thesis using probing_describes_only [OF disjI2 [OF disjI1 [OF sample_for_query]]] sample_for_query by blast
qed

end
