(* ===== verification/Connection.thy ===== *)
theory Connection
  imports Result_Projection
begin

text \<open>
  \<open>DuckDbConnection\<close> of \<^verbatim>\<open>engine/connection.rs\<close>: the operations of a session's connection, over the interface to
  DuckDB. Waiting for the lock is left out; what happens under it is \<open>under_lock\<close>.
\<close>

record ('s, 'b) query_result =
  qr_schema :: 's
  qr_batches :: "'b list"
  qr_rows :: nat
  qr_bytes :: nat

definition validate_sql :: "string \<Rightarrow> ('v, 'b, 's, unit) conn_step" where
  "validate_sql sql =
     (if CHR 0x00 \<in> set sql then sfail (Fail (UnsupportedParameter ''SQL contains null bytes'')) else sret ())"

definition prepare :: "('v, 'b, 's) duck \<Rightarrow> string \<Rightarrow> ('v, 'b, 's, nat) conn_step" where
  "prepare dk sql = ask_duck (DPrepare sql) (\<lambda>l. d_prepare dk l sql)"

text \<open>A prepared statement is its text and its number of parameters.\<close>

definition stream_arrow_with_params ::
    "('v, 'b, 's) duck \<Rightarrow> string \<Rightarrow> nat \<Rightarrow> 'v list option \<Rightarrow> ('v, 'b, 's, 's \<times> 'b list \<times> bool) conn_step" where
  "stream_arrow_with_params dk sql param_count params =
     (let ps = (case params of Some ps \<Rightarrow> ps | None \<Rightarrow> replicate param_count (d_null dk)) in
      ask_duck (DStream sql ps) (\<lambda>l. d_stream dk l sql ps))"

definition execute_with_params :: "('v, 'b, 's) duck \<Rightarrow> string \<Rightarrow> 'v list \<Rightarrow> ('v, 'b, 's, nat) conn_step" where
  "execute_with_params dk sql params = ask_duck (DExecute sql params) (\<lambda>l. d_execute dk l sql params)"

text \<open>The totals are sums of sizes in memory, below \<open>2 ^ 64\<close>.\<close>

definition collect_query_result ::
    "('v, 'b, 's) duck \<Rightarrow> 's \<times> 'b list \<times> bool \<Rightarrow> ('v, 'b, 's, ('s, 'b) query_result) conn_step" where
  "collect_query_result dk arrow =
     (case arrow of (schema, batches, panics) \<Rightarrow>
        if panics then sfail Unwind
        else sret \<lparr>qr_schema = schema, qr_batches = batches, qr_rows = sum_list (map (d_rows_of dk) batches),
          qr_bytes = sum_list (map (d_bytes_of dk) batches)\<rparr>)"

section \<open>Prepared sections\<close>

definition with_prepared ::
    "('v, 'b, 's) duck \<Rightarrow> string \<Rightarrow> (nat \<Rightarrow> ('v, 'b, 's, 'a) conn_step) \<Rightarrow> ('v, 'b, 's, 'a) conn_step" where
  "with_prepared dk sql f = sthen (validate_sql sql) (under_lock (sbind (prepare dk sql) f))"

text \<open>The query that is executed, and its schema if it is known before.\<close>

definition planned_query ::
    "('v, 'b, 's) duck \<Rightarrow> string \<Rightarrow> 'v list option \<Rightarrow> bool \<Rightarrow> ('v, 'b, 's, string \<times> 's option) conn_step" where
  "planned_query dk sql params early_schema =
     (if early_schema then
        sbind (for_streaming_query dk sql params) (\<lambda>p. case p of
          Some (query, schema_sql) \<Rightarrow>
            sbind (prepare dk schema_sql) (\<lambda>n.
            sbind (stream_arrow_with_params dk schema_sql n None) (\<lambda>(schema, _, _). sret (query, Some schema)))
        | None \<Rightarrow> sret (sql, None))
      else
        sbind (for_query dk sql params) (\<lambda>p. sret (case p of Some query \<Rightarrow> query | None \<Rightarrow> sql, None)))"

definition with_arrow_prepared_cancellable ::
    "('v, 'b, 's) duck \<Rightarrow> string \<Rightarrow> 'v list option \<Rightarrow> bool \<Rightarrow> bool \<Rightarrow>
      (string \<Rightarrow> nat \<Rightarrow> 's option \<Rightarrow> ('v, 'b, 's, 'a) conn_step) \<Rightarrow> ('v, 'b, 's, 'a) conn_step" where
  "with_arrow_prepared_cancellable dk sql params cancellable early_schema f =
     sthen (validate_sql sql) (under_lock
       (sthen (look cancellable)
         (guarded cancellable
           (sbind (planned_query dk sql params early_schema) (\<lambda>(query, schema).
            sthen (look cancellable)
              (sbind (prepare dk query) (\<lambda>n. f query n schema)))))))"

definition with_arrow_prepared ::
    "('v, 'b, 's) duck \<Rightarrow> string \<Rightarrow> 'v list option \<Rightarrow> (string \<Rightarrow> nat \<Rightarrow> ('v, 'b, 's, 'a) conn_step) \<Rightarrow> ('v, 'b, 's, 'a) conn_step" where
  "with_arrow_prepared dk sql params f =
     with_arrow_prepared_cancellable dk sql params False False (\<lambda>query n _. f query n)"

section \<open>Buffered operations\<close>

definition run_query :: "('v, 'b, 's) duck \<Rightarrow> 'v list option \<Rightarrow> string \<Rightarrow> nat \<Rightarrow> ('v, 'b, 's, ('s, 'b) query_result) conn_step" where
  "run_query dk params query n = sbind (stream_arrow_with_params dk query n params) (collect_query_result dk)"

definition conn_execute_query :: "('v, 'b, 's) duck \<Rightarrow> string \<Rightarrow> ('v, 'b, 's, ('s, 'b) query_result) conn_step" where
  "conn_execute_query dk sql = with_arrow_prepared dk sql None (run_query dk None)"

definition conn_execute_query_with_params ::
    "('v, 'b, 's) duck \<Rightarrow> string \<Rightarrow> 'v list \<Rightarrow> ('v, 'b, 's, ('s, 'b) query_result) conn_step" where
  "conn_execute_query_with_params dk sql params = with_arrow_prepared dk sql (Some params) (run_query dk (Some params))"

text \<open>\<open>trim_end_matches(';')\<close>.\<close>

definition trim_semicolons :: "string \<Rightarrow> string" where
  "trim_semicolons s = rev (dropWhile (\<lambda>c. c = CHR '';'') (rev s))"

definition conn_schema_for_query_cancellable ::
    "('v, 'b, 's) duck \<Rightarrow> string \<Rightarrow> bool \<Rightarrow> ('v, 'b, 's, 's) conn_step" where
  "conn_schema_for_query_cancellable dk sql cancellable =
     sthen (validate_sql sql) (under_lock
       (sthen (look cancellable)
         (guarded cancellable
           (sbind (schema_query dk sql) (\<lambda>found.
            sbind (case found of Some query \<Rightarrow> sret query
                | None \<Rightarrow> (let body = trim (trim_semicolons sql) in
                    sbind (for_query dk body None) (\<lambda>p. sret (case p of Some query \<Rightarrow> query | None \<Rightarrow> body)))) (\<lambda>query.
            sthen (look cancellable)
              (sbind (prepare dk query) (\<lambda>n.
               sbind (stream_arrow_with_params dk query n None) (\<lambda>(schema, _, _). sret schema)))))))))"

definition conn_schema_for_query :: "('v, 'b, 's) duck \<Rightarrow> string \<Rightarrow> ('v, 'b, 's, 's) conn_step" where
  "conn_schema_for_query dk sql = conn_schema_for_query_cancellable dk sql False"

definition conn_parameter_count :: "('v, 'b, 's) duck \<Rightarrow> string \<Rightarrow> ('v, 'b, 's, nat) conn_step" where
  "conn_parameter_count dk sql = with_prepared dk sql sret"

definition conn_execute_statement_with_params :: "('v, 'b, 's) duck \<Rightarrow> string \<Rightarrow> 'v list \<Rightarrow> ('v, 'b, 's, nat) conn_step" where
  "conn_execute_statement_with_params dk sql params = with_prepared dk sql (\<lambda>n. execute_with_params dk sql params)"

definition execute_batch :: "('v, 'b, 's) duck \<Rightarrow> string \<Rightarrow> ('v, 'b, 's, unit) conn_step" where
  "execute_batch dk sql = sthen (validate_sql sql) (under_lock (ask_duck (DBatch sql) (\<lambda>l. d_batch dk l sql)))"

definition conn_current_catalog :: "('v, 'b, 's) duck \<Rightarrow> ('v, 'b, 's, string) conn_step" where
  "conn_current_catalog dk =
     (let sql = ''SELECT current_database()'' in
      under_lock (sthen (prepare dk sql) (ask_duck (DQueryRow sql) (\<lambda>l. d_query_row dk l sql))))"

section \<open>Statements with telemetry\<close>

definition set_telemetry :: "('v, 'b, 's) duck \<Rightarrow> string option \<Rightarrow> ('v, 'b, 's, unit) conn_step" where
  "set_telemetry dk context q =
     (case d_telemetry dk of None \<Rightarrow> sret () q
      | Some tel \<Rightarrow> (case tel (q_log q) context of
            Inl e \<Rightarrow> sfail (Fail e) | Inr _ \<Rightarrow> sret ()) (q\<lparr>q_log := q_log q @ [DTelemetry context]\<rparr>))"

text \<open>\<open>keep m n\<close> runs \<open>m\<close>, then \<open>n\<close> whatever \<open>m\<close>'s result, then returns it.\<close>

definition keep :: "('v, 'b, 's, 'a) conn_step \<Rightarrow> ('v, 'b, 's, unit) conn_step \<Rightarrow> ('v, 'b, 's, 'a) conn_step" where
  "keep m n q = rbind (m q) (\<lambda>(r, q'). sthen n (\<lambda>q''. Ret (r, q'')) q')"

definition conn_execute_statement_with_telemetry ::
    "('v, 'b, 's) duck \<Rightarrow> string \<Rightarrow> string option \<Rightarrow> bool \<Rightarrow> ('v, 'b, 's, int) conn_step" where
  "conn_execute_statement_with_telemetry dk sql execution cancellable =
     sthen (validate_sql sql) (under_lock
       (sthen (look cancellable)
         (sthen (set_telemetry dk execution)
           (sthen (keep (sthen (look cancellable) (ask_duck (DBatch sql) (\<lambda>l. d_batch dk l sql)))
               (set_telemetry dk None))
             (sthen (look cancellable) (sret 0))))))"

definition conn_execute_statement :: "('v, 'b, 's) duck \<Rightarrow> string \<Rightarrow> ('v, 'b, 's, int) conn_step" where
  "conn_execute_statement dk sql = conn_execute_statement_with_telemetry dk sql None False"

section \<open>The appender and table schemas\<close>

fun append_all :: "('v, 'b, 's) duck \<Rightarrow> 'b list \<Rightarrow> ('v, 'b, 's, unit) conn_step" where
  "append_all dk [] = sret ()"
| "append_all dk (b # bs) = sthen (ask_duck (DAppend b) (\<lambda>l. d_append dk l b)) (append_all dk bs)"

definition conn_insert_with_appender ::
    "('v, 'b, 's) duck \<Rightarrow> string \<Rightarrow> string \<Rightarrow> 'b list \<Rightarrow> ('v, 'b, 's, nat) conn_step" where
  "conn_insert_with_appender dk catalog table batches q =
     (if q_poisoned q then sfail (Fail (InternalError ''connection mutex poisoned'')) q
      else under_lock
        (let use = ''USE '' @ catalog @ '';'' in
         sthen (ask_duck (DExecute use []) (\<lambda>l. d_execute dk l use []))
           (sthen (ask_duck (DAppender table) (\<lambda>l. d_appender dk l table))
             (sthen (append_all dk batches)
               (sthen (ask_duck DFlush (d_flush dk)) (sret (sum_list (map (d_rows_of dk) batches))))))) q)"

text \<open>
  \<open>to_arrow\<close> is \<open>duckdb_type_to_arrow\<close>, \<open>build\<close> makes a schema from names, types and nullability, and \<open>nullable\<close>
  replaces the nullability of a schema's fields.
\<close>

fun typed_columns ::
    "(string \<Rightarrow> server_error + 'ty) \<Rightarrow> (string \<times> string \<times> string) list \<Rightarrow> server_error + (string \<times> 'ty \<times> bool) list" where
  "typed_columns to_arrow [] = Inr []"
| "typed_columns to_arrow ((name, ty, null) # rows) =
     try_ok (to_arrow ty) (\<lambda>t. try_ok (typed_columns to_arrow rows) (\<lambda>cs. Inr ((name, t, null = ''YES'') # cs)))"

definition from_result :: "server_error + 'a \<Rightarrow> ('v, 'b, 's, 'a) conn_step" where
  "from_result r = (case r of Inl e \<Rightarrow> sfail (Fail e) | Inr x \<Rightarrow> sret x)"

definition conn_table_schema ::
    "('v, 'b, 's) duck \<Rightarrow> (string \<Rightarrow> server_error + 'ty) \<Rightarrow> ((string \<times> 'ty \<times> bool) list \<Rightarrow> 's) \<Rightarrow> ('s \<Rightarrow> bool list \<Rightarrow> 's) \<Rightarrow>
      string \<Rightarrow> ('v, 'b, 's, 's) conn_step" where
  "conn_table_schema dk to_arrow build nullable table =
     (let desc = ''DESC SELECT * FROM '' @ table; sql = ''SELECT * FROM '' @ table in
      under_lock (sthen (prepare dk desc) (sbind (ask_duck (DRows desc) (\<lambda>l. d_rows dk l desc)) (\<lambda>rows.
        sbind (if list_ex (\<lambda>(_, ty, _). contains_variant dk ty) rows then for_query dk sql None else sret None) (\<lambda>p.
        case p of
          Some projection \<Rightarrow>
            (let limited = projection @ '' LIMIT 0'' in
             sbind (prepare dk limited) (\<lambda>n.
             sbind (stream_arrow_with_params dk limited n None) (\<lambda>(schema, _, _).
             sret (nullable schema (map (\<lambda>(_, _, null). null = ''YES'') rows)))))
        | None \<Rightarrow> sbind (from_result (typed_columns to_arrow rows)) (\<lambda>cs. sret (build cs)))))))"

section \<open>Properties\<close>

lemma look_no_calls: "look b q = Ret (r, q') \<Longrightarrow> q_log q' = q_log q \<and> (r = Inr () \<or> r = Inl (Fail Cancelled))"
  by (auto simp: look_def sfail_def sret_def split: if_splits)

lemma set_telemetry_calls:
  "set_telemetry dk ctx q = Ret (r, q') \<Longrightarrow>
    (case d_telemetry dk of None \<Rightarrow> q' = q \<and> r = Inr ()
     | Some t \<Rightarrow> q' = q\<lparr>q_log := q_log q @ [DTelemetry ctx]\<rparr> \<and> ((\<exists>e. r = Inl (Fail e) \<and> t (q_log q) ctx = Inl e) \<or> r = Inr ()))"
  by (auto simp: set_telemetry_def sret_def sfail_def split: option.splits sum.splits)

lemma ask_duck_result:
  "ask_duck c f q = Ret (r, q') \<Longrightarrow> q' = q\<lparr>q_log := q_log q @ [c]\<rparr>
    \<and> (case f (q_log q) of Inl e \<Rightarrow> r = Inl (Fail (DuckDb e)) | Inr x \<Rightarrow> r = Inr x)"
  by (cases "f (q_log q)") (auto simp: ask_duck_def sret_def sfail_def)

text \<open>The statement itself, between the setting and the clearing of the context.\<close>

lemma guarded_batch:
  assumes "sthen (look c) (ask_duck (DBatch sql) f) q = Ret (r, q')"
  shows "\<exists>cs. cs \<in> {[], [DBatch sql]} \<and> (r = Inr () \<longrightarrow> cs = [DBatch sql]) \<and> q_log q' = q_log q @ cs"
  using assms by (cases rule: sthen_cases) (auto dest!: look_no_calls ask_duck_result)

lemma keep_result:
  assumes "keep m n q = Ret (r, q')"
  shows "\<exists>r1 q1 r2. m q = Ret (r1, q1) \<and> n q1 = Ret (r2, q') \<and> (r = r1 \<or> (\<exists>e. r2 = Inl e \<and> r = Inl e))"
proof -
  from assms obtain r1 q1 where 1: "m q = Ret (r1, q1)" and 2: "sbind n (\<lambda>_ q''. Ret (r1, q'')) q1 = Ret (r, q')"
    by (auto simp: keep_def rbind_Ret_iff sthen_def)
  from 2 show ?thesis unfolding sbind_Ret_iff using 1 by auto
qed

lemma kept_batch:
  assumes "keep (sthen (look c) (ask_duck (DBatch sql) f)) (set_telemetry dk None) q = Ret (r, q')"
  shows "\<exists>cs. cs \<in> {[], [DBatch sql]} \<and> (r = Inr () \<longrightarrow> cs = [DBatch sql]) \<and> q_log q' = q_log q @ cs
    @ (if d_telemetry dk = None then [] else [DTelemetry None])"
proof -
  from keep_result [OF assms] obtain r1 q1 r2 where 1: "sthen (look c) (ask_duck (DBatch sql) f) q = Ret (r1, q1)"
    and 2: "set_telemetry dk None q1 = Ret (r2, q')" and r: "r = r1 \<or> (\<exists>e. r2 = Inl e \<and> r = Inl e)" by blast
  from guarded_batch [OF 1] obtain cs where "cs \<in> {[], [DBatch sql]}" "q_log q1 = q_log q @ cs" "r1 = Inr () \<longrightarrow> cs = [DBatch sql]"
    by auto
  with set_telemetry_calls [OF 2] r show ?thesis by (auto split: option.splits)
qed

text \<open>
  A statement runs in its own execution context and leaves none behind. Whatever happens, DuckDB sees at most:
  the context being set, the statement, the context being cleared. The context is cleared whenever it
  was set, also when the statement fails or the request is cancelled in between; the statement runs at most once,
  and the call succeeds only if the statement ran and succeeded.
\<close>

theorem statement_in_its_context:
  assumes "conn_execute_statement_with_telemetry dk sql execution c q = Ret (r, q')"
  shows "\<exists>cs. q_log q' = q_log q @ cs
    \<and> (case d_telemetry dk of
         None \<Rightarrow> cs \<in> {[], [DBatch sql]}
       | Some set_ctx \<Rightarrow> cs \<in> {[], [DTelemetry execution], [DTelemetry execution, DTelemetry None],
             [DTelemetry execution, DBatch sql, DTelemetry None]}
           \<and> (cs = [DTelemetry execution] \<longrightarrow> (\<exists>e. set_ctx (q_log q) execution = Inl e)))
    \<and> ((\<exists>n. r = Inr n) \<longrightarrow> DBatch sql \<in> set cs)"
proof -
  let ?run = "keep (sthen (look c) (ask_duck (DBatch sql) (\<lambda>l. d_batch dk l sql))) (set_telemetry dk None)"
  let ?body = "sthen (look c) (sthen (set_telemetry dk execution) (sthen ?run (sthen (look c) (sret 0))))"
  show ?thesis
  proof (cases "CHR 0x00 \<in> set sql")
    case True
    with assms show ?thesis
      by (intro exI [of _ "[]"])
        (auto simp: conn_execute_statement_with_telemetry_def sthen_def validate_sql_def sbind_Ret_iff sfail_def split: option.split)
  next
    case False
    with assms obtain q0 where b: "?body q = Ret (r, q0)" and q0: "q_log q' = q_log q0"
      by (auto simp: conn_execute_statement_with_telemetry_def validate_sql_def sthen_def sbind_Ret_iff sret_def under_lock_def
          rbind_Ret_iff split: if_splits)
    show ?thesis
    using b
    proof (cases rule: sthen_cases)
      case (error e)
      with look_no_calls q0 show ?thesis by (intro exI [of _ "[]"]) (force split: option.split)
    next
      case (ok x t)
      note t = look_no_calls [OF ok(1), THEN conjunct1]
      show ?thesis
      using ok(2)
      proof (cases rule: sthen_cases)
        case (error e)
        with set_telemetry_calls [OF error(1)] q0 t show ?thesis by (auto split: option.splits)
      next
        case (ok x q2)
        from ok(2) obtain r3 q3 where "?run q2 = Ret (r3, q3)" "q_log q0 = q_log q3 \<and> ((\<exists>n. r = Inr n) \<longrightarrow> r3 = Inr ())"
          by (cases rule: sthen_cases) (auto elim!: sthen_cases simp: sret_def dest!: look_no_calls)
        with kept_batch [OF this(1)] set_telemetry_calls [OF ok(1)] q0 t show ?thesis by (auto split: option.splits)
      qed
    qed
  qed
qed

definition traced_duck :: "(nat, nat, string) duck" where
  "traced_duck = sample_duck\<lparr>d_batch := (\<lambda>l s. Inl ''boom''), d_telemetry := Some (\<lambda>l c. Inr ())\<rparr>"

lemma statement_in_its_context_witness:
  "\<exists>r q'. conn_execute_statement_with_telemetry traced_duck ''CALL f()'' (Some ''run-1'') True sample_call = Ret (Inl r, q')
    \<and> q_log q' = [DTelemetry (Some ''run-1''), DBatch ''CALL f()'', DTelemetry None]"
proof -
  have "conn_execute_statement_with_telemetry traced_duck ''CALL f()'' (Some ''run-1'') True sample_call
    = Ret (Inl (Fail (DuckDb ''boom'')), sample_call\<lparr>q_log :=
        [DTelemetry (Some ''run-1''), DBatch ''CALL f()'', DTelemetry None]\<rparr>)"
    by (simp add: conn_execute_statement_with_telemetry_def validate_sql_def under_lock_def keep_def set_telemetry_def
        traced_duck_def sample_call_def sthen_def sbind_def conn_step_defs countdown_def)
  with statement_in_its_context [OF this] show ?thesis by simp
qed

section \<open>After a panic\<close>

text \<open>
  Most operations do not look at the mutex's poison: they do the same whether it is poisoned or not.
\<close>

definition same :: "('v, 'b, 's) conn_request \<Rightarrow> ('v, 'b, 's) conn_request \<Rightarrow> bool" where
  "same q q' \<longleftrightarrow> q'\<lparr>q_poisoned := q_poisoned q\<rparr> = q"

definition blind :: "('v, 'b, 's, 'a) conn_step \<Rightarrow> bool" where
  "blind m \<longleftrightarrow> (\<forall>q q' r t. same q q' \<and> m q = Ret (r, t) \<longrightarrow> (\<exists>t'. m q' = Ret (r, t') \<and> same t t'))"

named_theorems blind_intros \<open>steps that ignore the poison\<close>

lemma same_cases: "same q q' \<Longrightarrow> \<exists>b. q' = q\<lparr>q_poisoned := b\<rparr>"
  unfolding same_def by (metis conn_request.surjective conn_request.update_convs(5))

lemma same_upd: "same q (q\<lparr>q_poisoned := b\<rparr>)"
  by (simp add: same_def)

lemma blindI: "(\<And>q b r t. m q = Ret (r, t) \<Longrightarrow> \<exists>t'. m (q\<lparr>q_poisoned := b\<rparr>) = Ret (r, t') \<and> same t t') \<Longrightarrow> blind m"
  unfolding blind_def using same_cases by blast

lemma blind_sret [blind_intros]: "blind (sret x)"
  and blind_sfail [blind_intros]: "blind (sfail e)"
  and blind_ask [blind_intros]: "blind (ask_duck c f)"
  and blind_record [blind_intros]: "blind (record_call c)"
  and blind_look [blind_intros]: "blind (look b)"
  and blind_closed [blind_intros]: "blind is_closed"
  and blind_send [blind_intros]: "blind (send m)"
  by (auto intro!: blindI simp: conn_step_defs same_def split: sum.split)

lemma blindD: "blind m \<Longrightarrow> same q q' \<Longrightarrow> m q = Ret (r, t) \<Longrightarrow> \<exists>t'. m q' = Ret (r, t') \<and> same t t'"
  unfolding blind_def by blast

lemma blind_sbind [blind_intros]:
  assumes "blind m" "\<And>x. blind (f x)"
  shows "blind (sbind m f)"
  unfolding blind_def
proof (intro allI impI, elim conjE)
  fix q q' r t assume s: "same q q'" and "sbind m f q = Ret (r, t)"
  from this(2) show "\<exists>t'. sbind m f q' = Ret (r, t') \<and> same t t'"
  proof (cases rule: sbind_cases)
    case (error e)
    from blindD [OF assms(1) s error(1)] error(2) show ?thesis unfolding sbind_Ret_iff by blast
  next
    case (ok x u)
    from blindD [OF assms(1) s ok(1)] obtain u' where "m q' = Ret (Inr x, u')" "same u u'" by blast
    with blindD [OF assms(2) this(2) ok(2)] show ?thesis unfolding sbind_Ret_iff by blast
  qed
qed

lemma blind_sthen [blind_intros]: "blind m \<Longrightarrow> blind n \<Longrightarrow> blind (sthen m n)"
  unfolding sthen_def by (rule blind_sbind)

lemma blind_after:
  assumes "blind m" "\<And>r. blind (f r)"
  shows "blind (\<lambda>q. rbind (m q) (\<lambda>(r, q'). f r q'))"
  unfolding blind_def
proof (intro allI impI, elim conjE)
  fix q q' r t assume s: "same q q'" and "rbind (m q) (\<lambda>(r, q'). f r q') = Ret (r, t)"
  then obtain r0 u where u: "m q = Ret (r0, u)" "f r0 u = Ret (r, t)" by (auto simp: rbind_Ret_iff)
  from blindD [OF assms(1) s u(1)] obtain u' where u': "m q' = Ret (r0, u')" "same u u'" by blast
  from blindD [OF assms(2) u'(2) u(2)] u'(1) show "\<exists>t'. rbind (m q') (\<lambda>(r, q'). f r q') = Ret (r, t') \<and> same t t'"
    by (auto simp: rbind_Ret_iff)
qed

lemma blind_return: "blind (\<lambda>q. Ret (r, q))"
  by (rule blindI) (auto simp: same_def)

lemma blind_locked [blind_intros]: "blind m \<Longrightarrow> blind (under_lock m)"
  unfolding under_lock_def
  by (rule blind_after) (auto intro!: blindI simp: same_def)

lemma blind_keep [blind_intros]: "blind m \<Longrightarrow> blind n \<Longrightarrow> blind (keep m n)"
  unfolding keep_def by (intro blind_after blind_sthen blind_return)

lemma blind_guarded [blind_intros]:
  assumes "blind m"
  shows "blind (guarded b m)"
proof -
  have "blind (\<lambda>q'. case r of Inl Unwind \<Rightarrow> Ret (Inl Unwind, q') | _ \<Rightarrow> sthen (look b) (\<lambda>q''. Ret (r, q'')) q')"
    for r :: "stop + 'd"
  proof (cases r)
    case (Inl e)
    then show ?thesis by (cases e) (simp_all add: blind_return blind_sthen blind_look)
  qed (simp add: blind_return blind_sthen blind_look)
  with assms show ?thesis unfolding guarded_def by (rule blind_after)
qed

lemma blind_if [blind_intros]: "(c \<Longrightarrow> blind m) \<Longrightarrow> (\<not> c \<Longrightarrow> blind n) \<Longrightarrow> blind (if c then m else n)"
  by simp

lemma blind_option [blind_intros]: "blind m \<Longrightarrow> (\<And>x. blind (f x)) \<Longrightarrow> blind (case p of None \<Rightarrow> m | Some x \<Rightarrow> f x)"
  by (cases p) auto

lemma blind_prod [blind_intros]: "(\<And>x y. blind (f x y)) \<Longrightarrow> blind (case p of (x, y) \<Rightarrow> f x y)"
  by (cases p) auto

lemma blind_telemetry [blind_intros]: "blind (set_telemetry dk c)"
  by (rule blindI) (auto simp: set_telemetry_def sret_def sfail_def same_def split: option.split sum.split)

lemma blind_log:
  assumes "\<And>l. blind (g l)"
  shows "blind (\<lambda>q. g (q_log q) q)"
proof (rule blindI)
  fix q b r t assume "g (q_log q) q = Ret (r, t)"
  with blindD [OF assms same_upd] show "\<exists>t'. g (q_log (q\<lparr>q_poisoned := b\<rparr>)) (q\<lparr>q_poisoned := b\<rparr>) = Ret (r, t') \<and> same t t'"
    by simp
qed

lemma blind_describe [blind_intros]: "blind (describe_columns dk body params)"
  unfolding describe_columns_def Let_def
  by (rule blind_log, rule blind_sthen [OF blind_record]) (auto intro!: blind_intros split: sum.split)

lemma blind_operations [blind_intros]:
  "blind (validate_sql sql)" "blind (prepare dk sql)" "blind (stream_arrow_with_params dk sql n ps)"
  "blind (collect_query_result dk arrow)" "blind (with_columns dk sql ps f)"
  by (auto intro!: blind_intros simp: validate_sql_def prepare_def stream_arrow_with_params_def Let_def
      collect_query_result_def with_columns_def split: prod.split)

lemma blind_planned [blind_intros]: "blind (planned_query dk sql ps early)"
  by (auto intro!: blind_intros simp: planned_query_def for_streaming_query_def for_query_def split: prod.split)

lemma blind_with_prepared [blind_intros]: "(\<And>n. blind (f n)) \<Longrightarrow> blind (with_prepared dk sql f)"
  unfolding with_prepared_def by (intro blind_intros)

lemma blind_with_arrow [blind_intros]:
  "(\<And>query n s. blind (f query n s)) \<Longrightarrow> blind (with_arrow_prepared_cancellable dk sql ps c early f)"
  unfolding with_arrow_prepared_cancellable_def by (intro blind_intros) auto

lemma blind_calls:
  "blind (conn_execute_query dk sql)" "blind (conn_execute_query_with_params dk sql ps)"
  "blind (conn_execute_statement_with_telemetry dk sql ctx c)" "blind (conn_execute_statement_with_params dk sql ps)"
  "blind (execute_batch dk sql)" "blind (conn_schema_for_query dk sql)" "blind (conn_parameter_count dk sql)"
  by (auto intro!: blind_intros simp: conn_execute_query_def conn_execute_query_with_params_def with_arrow_prepared_def run_query_def
      conn_execute_statement_with_telemetry_def conn_execute_statement_with_params_def execute_with_params_def execute_batch_def
      conn_schema_for_query_def conn_schema_for_query_cancellable_def schema_query_def for_query_def Let_def conn_parameter_count_def)

lemma unwind_poisons:
  assumes "with_arrow_prepared_cancellable dk sql ps c early f q = Ret (Inl Unwind, q')"
  shows "q_poisoned q'"
  using assms unfolding with_arrow_prepared_cancellable_def
  by (cases rule: sthen_cases) (auto simp: validate_sql_def sfail_def sret_def under_lock_def rbind_Ret_iff split: if_splits)

lemma blind_poison:
  "blind m \<Longrightarrow> m (q\<lparr>q_poisoned := False\<rparr>) = Ret (r, t) \<Longrightarrow> \<exists>p. m q = Ret (r, t\<lparr>q_poisoned := p\<rparr>)"
  using blindD [of m "q\<lparr>q_poisoned := False\<rparr>" q] same_cases by (fastforce simp: same_def)

text \<open>
  A panic while rows are fetched closes the appender for good, and nothing else. When DuckDB panics under
  a query (as it does when a query is interrupted), every later bulk insert of the session is refused
  with \<open>connection mutex poisoned\<close> before it reaches DuckDB, while queries, statements and schemas answer exactly as on a
  connection whose mutex is not poisoned.
\<close>

theorem panic_closes_appender:
  assumes "conn_execute_query dk sql q = Ret (Inl Unwind, q') \<or> conn_execute_query_with_params dk sql ps q = Ret (Inl Unwind, q')"
  shows "conn_insert_with_appender dk catalog table batches q' = Ret (Inl (Fail (InternalError ''connection mutex poisoned'')), q')
    \<and> (\<forall>sql' r t. conn_execute_query dk sql' (q'\<lparr>q_poisoned := False\<rparr>) = Ret (r, t) \<longrightarrow>
        (\<exists>p. conn_execute_query dk sql' q' = Ret (r, t\<lparr>q_poisoned := p\<rparr>)))
    \<and> (\<forall>sql' ctx c r t. conn_execute_statement_with_telemetry dk sql' ctx c (q'\<lparr>q_poisoned := False\<rparr>) = Ret (r, t) \<longrightarrow>
        (\<exists>p. conn_execute_statement_with_telemetry dk sql' ctx c q' = Ret (r, t\<lparr>q_poisoned := p\<rparr>)))
    \<and> (\<forall>sql' r t. conn_schema_for_query dk sql' (q'\<lparr>q_poisoned := False\<rparr>) = Ret (r, t) \<longrightarrow>
        (\<exists>p. conn_schema_for_query dk sql' q' = Ret (r, t\<lparr>q_poisoned := p\<rparr>)))"
proof -
  from assms have "q_poisoned q'"
    unfolding conn_execute_query_def conn_execute_query_with_params_def with_arrow_prepared_def by (auto dest: unwind_poisons)
  then show ?thesis by (auto simp: conn_insert_with_appender_def sfail_def intro: blind_poison blind_calls)
qed

definition panicking_duck :: "(nat, nat, string) duck" where
  "panicking_duck = sample_duck\<lparr>d_stream := (\<lambda>l s ps. Inr (''schema'', [5], s = ''SELECT 2''))\<rparr>"

lemma panic_closes_appender_witness:
  "\<exists>q'. conn_execute_query panicking_duck ''SELECT 2'' sample_call = Ret (Inl Unwind, q')
    \<and> conn_insert_with_appender panicking_duck ''db'' ''t'' [1] q' = Ret (Inl (Fail (InternalError ''connection mutex poisoned'')), q')"
proof -
  let ?q = "sample_call\<lparr>q_log := [DPrepare ''SELECT 2'', DStream ''SELECT 2'' []], q_poisoned := True\<rparr>"
  have "query_body panicking_duck ''SELECT 2'' = None" "d_prepare panicking_duck l s = Inr 0"
    "d_stream panicking_duck l ''SELECT 2'' ps = Inr (''schema'', [5], True)" for l s ps
    by (simp_all add: query_body_def panicking_duck_def sample_duck_def)
  then have "conn_execute_query panicking_duck ''SELECT 2'' sample_call = Ret (Inl Unwind, ?q)"
    by (simp add: conn_execute_query_def with_arrow_prepared_def with_arrow_prepared_cancellable_def validate_sql_def under_lock_def
        guarded_def planned_query_def for_query_def with_columns_def prepare_def run_query_def stream_arrow_with_params_def
        collect_query_result_def sthen_def sbind_def conn_step_defs sample_call_def)
  with panic_closes_appender [OF disjI1 [OF this]] show ?thesis by blast
qed

end
