(* ===== verification/Streaming.thy ===== *)
theory Streaming
  imports Connection
begin

text \<open>
  A streamed query: the producer is \<open>stream_query\<close> of \<^verbatim>\<open>engine/connection.rs\<close> in the blocking task that \<^verbatim>\<open>service/streaming.rs\<close>
  starts, the consumer is \<open>StreamingBatchToFlightData\<close> of \<^verbatim>\<open>service/streaming.rs\<close>. Between them is a bounded channel; when the
  receiver goes away and when the request is cancelled is arbitrary.
\<close>

section \<open>The producer\<close>

text \<open>The loop over the batches, with the number of batches and the totals so far.\<close>

fun stream_batches ::
    "('v, 'b, 's) duck \<Rightarrow> bool \<Rightarrow> bool \<Rightarrow> 'b list \<Rightarrow> nat \<times> nat \<times> nat \<Rightarrow> ('v, 'b, 's, (nat \<times> nat \<times> nat) option) conn_step" where
  "stream_batches dk interrupt panics [] totals = (if panics then sfail Unwind else sret (Some totals))"
| "stream_batches dk interrupt panics (b # bs) (batch_count, total_rows, total_bytes) =
     sthen (record_call (DFetched (batch_count + 1)))
       (sbind is_closed (\<lambda>closed.
        if closed then sthen (if interrupt then record_call DInterrupt else sret ()) (sret None)
        else sbind (send (BatchMsg b)) (\<lambda>ok.
          if \<not> ok then sthen (if interrupt then record_call DInterrupt else sret ()) (sret None)
          else stream_batches dk interrupt panics bs
            (batch_count + 1, total_rows + d_rows_of dk b, total_bytes + d_bytes_of dk b))))"

definition stream_rows ::
    "('v, 'b, 's) duck \<Rightarrow> 'v list option \<Rightarrow> bool \<Rightarrow> bool \<Rightarrow> string \<Rightarrow> nat \<Rightarrow> 's option \<Rightarrow>
      ('v, 'b, 's, (nat \<times> nat \<times> nat) option) conn_step" where
  "stream_rows dk params interrupt cancellable query n schema =
     sbind (case schema of Some s \<Rightarrow> send (SchemaMsg s) | None \<Rightarrow> sret True) (\<lambda>ok.
     if \<not> ok then sret None
     else sthen (look cancellable) (sbind is_closed (\<lambda>closed.
       if closed then sret None
       else sbind (stream_arrow_with_params dk query n params) (\<lambda>(executed, batches, panics).
         sbind (case schema of
             Some s \<Rightarrow> if s \<noteq> executed then sfail (Fail (InternalError ''query result schema changed after planning''))
               else sret True
           | None \<Rightarrow> send (SchemaMsg executed)) (\<lambda>ok.
         if \<not> ok then sret None else stream_batches dk interrupt panics batches (0, 0, 0))))))"

definition stream_query ::
    "('v, 'b, 's) duck \<Rightarrow> string \<Rightarrow> 'v list option \<Rightarrow> bool \<Rightarrow> bool \<Rightarrow> ('v, 'b, 's, unit) conn_step" where
  "stream_query dk sql params interrupt cancellable =
     sthen (look cancellable)
       (sbind (with_arrow_prepared_cancellable dk sql params cancellable True (stream_rows dk params interrupt cancellable))
         (\<lambda>completed. case completed of
            Some (_, total_rows, total_bytes) \<Rightarrow> sthen (send (DoneMsg total_rows total_bytes)) (sret ())
          | None \<Rightarrow> sret ()))"

definition stream_query_cancellable :: "('v, 'b, 's) duck \<Rightarrow> string \<Rightarrow> 'v list option \<Rightarrow> ('v, 'b, 's, unit) conn_step" where
  "stream_query_cancellable dk sql params = stream_query dk sql params False True"

text \<open>
  The blocking task of \<open>execute_query_streaming\<close>; \<open>lockdown\<close> is the session's \<open>ensure_lockdown\<close>. A panic ends the task
  and drops the sender without a message.
\<close>

definition producer ::
    "('v, 'b, 's) duck \<Rightarrow> ('v, 'b, 's, unit) conn_step \<Rightarrow> string \<Rightarrow> 'v list option \<Rightarrow> ('v, 'b, 's, unit) conn_step" where
  "producer dk lockdown sql params q =
     rbind (sthen (look True) (sthen lockdown (stream_query_cancellable dk sql params)) q) (\<lambda>(r, q').
       case r of
         Inl (Fail e) \<Rightarrow> sthen (send (ErrorMsg e)) (sret ()) q'
       | _ \<Rightarrow> Ret (r, q'))"

section \<open>What the producer sends\<close>

definition batches_sent :: "('s, 'b) streaming_batch list \<Rightarrow> bool" where
  "batches_sent ms \<longleftrightarrow> ms = [] \<or> (\<exists>s bs. ms = SchemaMsg s # map BatchMsg bs)"

text \<open>All batches of a result that DuckDB gave, with their totals.\<close>

definition all_sent :: "('v, 'b, 's) duck \<Rightarrow> nat \<times> nat \<times> nat \<Rightarrow> ('s, 'b) streaming_batch list \<Rightarrow> bool" where
  "all_sent dk totals ms \<longleftrightarrow> (\<exists>s bs l query ps. d_stream dk l query ps = Inr (s, bs, False)
     \<and> ms = SchemaMsg s # map BatchMsg bs
     \<and> totals = (length bs, sum_list (map (d_rows_of dk) bs), sum_list (map (d_bytes_of dk) bs)))"

lemma all_sent_batches: "all_sent dk t ms \<Longrightarrow> batches_sent ms"
  by (auto simp: all_sent_def batches_sent_def)

lemma triple_log_only [triple_intros]:
  "(\<And>q l. P q \<Longrightarrow> Q () (q\<lparr>q_log := l\<rparr>)) \<Longrightarrow> triple P (record_call c) Q R"
  by (auto simp: triple_def record_call_def smodify_def)

text \<open>
  Triples that remember what was sent; \<open>never\<close> says that the receiver never goes away, and then a closed
  channel is never seen.
\<close>

definition sentp :: "bool \<Rightarrow> (('s, 'b) streaming_batch list \<Rightarrow> bool) \<Rightarrow> ('v, 'b, 's) conn_request \<Rightarrow> bool" where
  "sentp never P q \<longleftrightarrow> P (q_sent q) \<and> (never \<longrightarrow> q_close q = None)"

lemma sentp_upd [simp]:
  "sentp v P (q\<lparr>q_log := l\<rparr>) = sentp v P q" "sentp v P (q\<lparr>q_cancel := n\<rparr>) = sentp v P q" "sentp v P (q\<lparr>q_poisoned := b\<rparr>) = sentp v P q"
  by (simp_all add: sentp_def)

definition outcome :: "('v, 'b, 's) duck \<Rightarrow> bool \<Rightarrow> (nat \<times> nat \<times> nat) option \<Rightarrow> ('v, 'b, 's) conn_request \<Rightarrow> bool" where
  "outcome dk v r q = (case r of Some t \<Rightarrow> sentp v (all_sent dk t) q | None \<Rightarrow> \<not> v \<and> batches_sent (q_sent q))"

lemma outcome_upd [simp]:
  "outcome dk v r (q\<lparr>q_log := l\<rparr>) = outcome dk v r q" "outcome dk v r (q\<lparr>q_cancel := n\<rparr>) = outcome dk v r q"
  by (simp_all add: outcome_def split: option.split)

lemma outcome_sent: "outcome dk v r q \<Longrightarrow> sentp v batches_sent q"
  by (auto simp: outcome_def sentp_def all_sent_batches split: option.splits)

lemma stop_outcome:
  "triple (\<lambda>q. batches_sent (q_sent q) \<and> \<not> v) (sthen (if i then record_call DInterrupt else sret ()) (sret None))
    (outcome dk v) (sentp v batches_sent)"
  by (rule triple_then [where Q = "\<lambda>q. batches_sent (q_sent q) \<and> \<not> v"])
    (auto intro!: triple_intros simp: outcome_def)

abbreviation sent_so_far :: "bool \<Rightarrow> 's \<Rightarrow> 'b list \<Rightarrow> ('v, 'b, 's) conn_request \<Rightarrow> bool" where
  "sent_so_far v s bs \<equiv> sentp v (\<lambda>ms. ms = SchemaMsg s # map BatchMsg bs)"

lemma stream_batches_sent:
  assumes "d_stream dk l query ps = Inr (s, all, panics)"
  shows "all = bs0 @ bs \<Longrightarrow> triple (sent_so_far v s bs0)
      (stream_batches dk i panics bs (length bs0, sum_list (map (d_rows_of dk) bs0), sum_list (map (d_bytes_of dk) bs0)))
      (outcome dk v) (sentp v batches_sent)"
proof (induction bs arbitrary: bs0)
  case Nil
  show ?case
  proof (cases panics)
    case False
    with assms Nil have "all_sent dk (length bs0, sum_list (map (d_rows_of dk) bs0), sum_list (map (d_bytes_of dk) bs0))
        (SchemaMsg s # map BatchMsg bs0)"
      unfolding all_sent_def by (intro exI [of _ s] exI [of _ bs0]) auto
    with False show ?thesis by (auto intro!: triple_ret simp: outcome_def sentp_def)
  qed (auto intro!: triple_fail simp: sentp_def batches_sent_def)
next
  case (Cons b bs)
  let ?tot = "(length bs0 + 1, sum_list (map (d_rows_of dk) bs0) + d_rows_of dk b, sum_list (map (d_bytes_of dk) bs0) + d_bytes_of dk b)"
  let ?stop = "sthen (if i then record_call DInterrupt else sret ()) (sret None)"
  have stop: "triple (\<lambda>q. sent_so_far v s bs0 q \<and> \<not> v) ?stop (outcome dk v) (sentp v batches_sent)"
    by (rule triple_weaken [OF stop_outcome]) (auto simp: sentp_def batches_sent_def)
  have "triple (sent_so_far v s (bs0 @ [b])) (stream_batches dk i panics bs ?tot) (outcome dk v) (sentp v batches_sent)"
    using Cons.IH [of "bs0 @ [b]"] Cons.prems by simp
  then have ok: "triple (\<lambda>q. if ok then sent_so_far v s (bs0 @ [b]) q else sent_so_far v s bs0 q \<and> \<not> v)
      (if \<not> ok then ?stop else stream_batches dk i panics bs ?tot) (outcome dk v) (sentp v batches_sent)" for ok
    using stop by simp
  have send: "triple (sent_so_far v s bs0) (send (BatchMsg b))
      (\<lambda>ok q. if ok then sent_so_far v s (bs0 @ [b]) q else sent_so_far v s bs0 q \<and> \<not> v) (sentp v batches_sent)"
    by (rule triple_send) (auto simp: sentp_def)
  have closed: "triple (\<lambda>q. sent_so_far v s bs0 q \<and> (closed \<longrightarrow> \<not> v))
      (if closed then ?stop else sbind (send (BatchMsg b)) (\<lambda>ok. if \<not> ok then ?stop else stream_batches dk i panics bs ?tot))
      (outcome dk v) (sentp v batches_sent)" for closed
    using stop triple_bind [OF send ok] by simp
  have is_closed: "triple (sent_so_far v s bs0) is_closed (\<lambda>closed q. sent_so_far v s bs0 q \<and> (closed \<longrightarrow> \<not> v)) (sentp v batches_sent)"
    by (rule triple_is_closed) (auto simp: sentp_def)
  have "triple (sent_so_far v s bs0) (record_call (DFetched (length bs0 + 1))) (\<lambda>_. sent_so_far v s bs0) (sentp v batches_sent)"
    by (rule triple_log_only) simp
  from triple_then [OF this triple_bind [OF is_closed closed]] show ?case unfolding stream_batches.simps .
qed

lemma triple_duck [triple_intros]:
  "(\<And>q l. P q \<Longrightarrow> R (q\<lparr>q_log := l\<rparr>)) \<Longrightarrow> (\<And>q l x. P q \<Longrightarrow> Q x (q\<lparr>q_log := l\<rparr>)) \<Longrightarrow> triple P (ask_duck c f) Q R"
  by (rule triple_ask_duck)

lemma stream_rows_sent:
  "triple (sentp v (\<lambda>ms. ms = [])) (stream_rows dk params i c query n schema) (outcome dk v) (sentp v batches_sent)"
proof -
  let ?start = "\<lambda>q. case schema of Some s \<Rightarrow> sent_so_far v s [] q | None \<Rightarrow> sentp v (\<lambda>ms. ms = []) q"
  have start_sent: "?start q \<Longrightarrow> sentp v batches_sent q" for q
    by (auto simp: sentp_def batches_sent_def split: option.splits)
  have start_upd: "?start q \<Longrightarrow> ?start (q\<lparr>q_log := l\<rparr>)" "?start q \<Longrightarrow> ?start (q\<lparr>q_cancel := k\<rparr>)" for q l k
    by (simp_all split: option.splits)
  have quit: "triple (\<lambda>q. ?start q \<and> \<not> v) (sret None) (outcome dk v) (sentp v batches_sent)"
    by (rule triple_ret) (auto dest!: start_sent simp: outcome_def sentp_def)
  have rows: "triple (\<lambda>q. if ok then sent_so_far v s [] q else ?start q \<and> \<not> v)
      (if \<not> ok then sret None else stream_batches dk i panics bs (0, 0, 0)) (outcome dk v) (sentp v batches_sent)"
    if "d_stream dk l query ps = Inr (s, bs, panics)" for ok s bs panics l ps
  proof (cases ok)
    case True
    with stream_batches_sent [OF that, of "[]" bs v i] show ?thesis by simp
  next
    case False
    have "(\<lambda>q. if ok then sent_so_far v s [] q else ?start q \<and> \<not> v) = (\<lambda>q. ?start q \<and> \<not> v)" using False by simp
    with quit False show ?thesis by (simp only: if_False not_False_eq_True if_True)
  qed
  have announce: "triple ?start
      (case schema of Some s \<Rightarrow> if s \<noteq> executed then sfail (Fail (InternalError ''query result schema changed after planning''))
          else sret True | None \<Rightarrow> send (SchemaMsg executed))
      (\<lambda>ok q. if ok then sent_so_far v executed [] q else ?start q \<and> \<not> v) (sentp v batches_sent)" for executed
  proof (cases schema)
    case None
    then show ?thesis by (auto intro!: triple_send simp: sentp_def)
  next
    case (Some s)
    then show ?thesis by (auto intro!: triple_ret triple_fail simp: sentp_def batches_sent_def)
  qed
  let ?run = "\<lambda>(executed, batches, panics). sbind (case schema of
      Some s \<Rightarrow> if s \<noteq> executed then sfail (Fail (InternalError ''query result schema changed after planning''))
        else sret True | None \<Rightarrow> send (SchemaMsg executed))
      (\<lambda>ok. if \<not> ok then sret None else stream_batches dk i panics batches (0, 0, 0))"
  have ask: "triple ?start (stream_arrow_with_params dk query n params)
      (\<lambda>x q. ?start q \<and> (\<exists>l ps. d_stream dk l query ps = Inr x)) (sentp v batches_sent)"
    unfolding stream_arrow_with_params_def Let_def
    by (rule triple_ask_duck) (use start_sent start_upd in blast)+
  have run: "triple (\<lambda>q. ?start q \<and> (\<exists>l ps. d_stream dk l query ps = Inr x)) (?run x) (outcome dk v) (sentp v batches_sent)" for x
  proof (cases "\<exists>l ps. d_stream dk l query ps = Inr x")
    case True
    obtain s bs panics where x: "x = (s, bs, panics)" by (cases x)
    with True obtain l ps where "d_stream dk l query ps = Inr (s, bs, panics)" by blast
    from triple_bind [OF announce [of s] rows [OF this]] x show ?thesis by (auto intro: triple_weaken)
  qed (simp add: triple_def)
  have closed: "triple (\<lambda>q. ?start q \<and> (closed \<longrightarrow> \<not> v))
      (if closed then sret None else sbind (stream_arrow_with_params dk query n params) ?run) (outcome dk v) (sentp v batches_sent)" for closed
    using triple_bind [OF ask run] quit by (cases closed) simp_all
  have is_closed: "triple ?start is_closed (\<lambda>closed q. ?start q \<and> (closed \<longrightarrow> \<not> v)) (sentp v batches_sent)"
    by (rule triple_is_closed) (auto simp: sentp_def split: option.splits)
  have look: "triple ?start (look c) (\<lambda>_. ?start) (sentp v batches_sent)"
    by (rule triple_look) (use start_sent start_upd in blast)+
  have after: "triple (\<lambda>q. if ok then ?start q else sentp v batches_sent q \<and> \<not> v)
      (if \<not> ok then sret None else sthen (look c) (sbind is_closed (\<lambda>closed. if closed then sret None
        else sbind (stream_arrow_with_params dk query n params) ?run))) (outcome dk v) (sentp v batches_sent)" for ok
    using triple_then [OF look triple_bind [OF is_closed closed]]
    by (auto intro!: triple_ret simp: outcome_def sentp_def)
  have "triple (sentp v (\<lambda>ms. ms = [])) (case schema of Some s \<Rightarrow> send (SchemaMsg s) | None \<Rightarrow> sret True)
      (\<lambda>ok q. if ok then ?start q else sentp v batches_sent q \<and> \<not> v) (sentp v batches_sent)"
    by (cases schema) (auto intro!: triple_send triple_ret simp: sentp_def batches_sent_def)
  from triple_bind [OF this after] show ?thesis unfolding stream_rows_def .
qed

text \<open>Preparing a query sends nothing, whatever is known of the messages so far.\<close>

definition steady :: "(('v, 'b, 's) conn_request \<Rightarrow> bool) \<Rightarrow> bool" where
  "steady P \<longleftrightarrow> (\<forall>q l n b. P q \<longrightarrow> P (q\<lparr>q_log := l\<rparr>) \<and> P (q\<lparr>q_cancel := n\<rparr>) \<and> P (q\<lparr>q_poisoned := b\<rparr>))"

lemma steadyD:
  "steady P \<Longrightarrow> P q \<Longrightarrow> P (q\<lparr>q_log := l\<rparr>)" "steady P \<Longrightarrow> P q \<Longrightarrow> P (q\<lparr>q_cancel := n\<rparr>)" "steady P \<Longrightarrow> P q \<Longrightarrow> P (q\<lparr>q_poisoned := b\<rparr>)"
  by (simp_all add: steady_def)

lemma steady_sentp: "steady (sentp v P)" and steady_outcome: "steady (outcome dk v r)"
  by (simp_all add: steady_def outcome_def sentp_def split: option.split)

lemma steady_steps:
  assumes "steady P" "\<And>q. P q \<Longrightarrow> R q"
  shows "triple P (prepare dk sql) (\<lambda>_. P) R" "triple P (stream_arrow_with_params dk sql n ps) (\<lambda>_. P) R"
    "triple P (with_columns dk sql ps f) (\<lambda>_. P) R" "triple P (look c) (\<lambda>_. P) R" "triple P (validate_sql sql) (\<lambda>_. P) R"
  unfolding prepare_def stream_arrow_with_params_def Let_def validate_sql_def
  using assms by (auto intro!: triple_duck triple_with_columns triple_look triple_ret triple_fail dest: steadyD)

lemma steady_planned:
  assumes "steady P" "\<And>q. P q \<Longrightarrow> R q"
  shows "triple P (planned_query dk sql params early) (\<lambda>_. P) R"
  unfolding planned_query_def for_query_def for_streaming_query_def
  by (rule triple_if)
    (auto intro!: triple_bind [OF steady_steps(3) [OF assms]] triple_bind [OF steady_steps(1) [OF assms]]
      triple_bind [OF steady_steps(2) [OF assms]] triple_ret split: option.split prod.split)

lemma steady_with_arrow:
  assumes "steady P" "steady R" "\<And>x. steady (Q x)" "\<And>q. P q \<Longrightarrow> R q" "\<And>x q. Q x q \<Longrightarrow> R q"
    and f: "\<And>query n s. triple P (f query n s) Q R"
  shows "triple P (with_arrow_prepared_cancellable dk sql params c early f) Q R"
proof -
  note s = steady_steps [where P = P and R = R, OF assms(1,4)]
  have "triple P (case p of (query, schema) \<Rightarrow> sthen (look c) (sbind (prepare dk query) (\<lambda>n. f query n schema))) Q R" for p
    by (cases p) (auto intro!: triple_then [OF s(4)] triple_bind [OF s(1)] f)
  from triple_bind [OF steady_planned [OF assms(1,4)] this]
  have "triple P (guarded c (sbind (planned_query dk sql params early) (\<lambda>(query, schema).
      sthen (look c) (sbind (prepare dk query) (\<lambda>n. f query n schema))))) Q R"
    by (rule triple_guarded) (use assms(2,3,5) in \<open>auto dest: steadyD\<close>)
  from triple_locked [OF triple_then [OF s(4) this]] assms(2)
  show ?thesis unfolding with_arrow_prepared_cancellable_def
    by (intro triple_then [OF s(5)]) (auto dest: steadyD)
qed

text \<open>What may have been sent when the producer's task ends.\<close>

definition finished_sent :: "('v, 'b, 's) duck \<Rightarrow> bool \<Rightarrow> ('s, 'b) streaming_batch list \<Rightarrow> bool" where
  "finished_sent dk v ms \<longleftrightarrow>
     (\<not> v \<and> batches_sent ms) \<or> (\<exists>c r b ms'. ms = ms' @ [DoneMsg r b] \<and> all_sent dk (c, r, b) ms')"

lemma stream_query_sent:
  "triple (sentp v (\<lambda>ms. ms = [])) (stream_query dk sql params i c) (\<lambda>_ q. finished_sent dk v (q_sent q))
    (sentp v batches_sent)"
proof -
  have start: "sentp v (\<lambda>ms. ms = []) q \<Longrightarrow> sentp v batches_sent q" for q :: "('a, 'b, 'c) conn_request"
    by (auto simp: sentp_def batches_sent_def)
  have rows: "triple (sentp v (\<lambda>ms. ms = [])) (with_arrow_prepared_cancellable dk sql params c True (stream_rows dk params i c))
      (outcome dk v) (sentp v batches_sent)"
    by (rule steady_with_arrow)
      (auto intro: steady_sentp steady_outcome start outcome_sent stream_rows_sent)
  have "triple (outcome dk v r) (case r of Some (_, total_rows, total_bytes) \<Rightarrow> sthen (send (DoneMsg total_rows total_bytes)) (sret ())
      | None \<Rightarrow> sret ()) (\<lambda>_ q. finished_sent dk v (q_sent q)) (sentp v batches_sent)" for r
  proof (cases r)
    case None
    then show ?thesis by (auto intro!: triple_ret simp: outcome_def finished_sent_def)
  next
    case (Some t)
    obtain k n b where t: "t = (k, n, b)" by (cases t)
    have "triple (outcome dk v (Some t)) (send (DoneMsg n b)) (\<lambda>_ q. finished_sent dk v (q_sent q)) (sentp v batches_sent)"
      by (rule triple_send) (auto simp: outcome_def sentp_def finished_sent_def t all_sent_batches)
    then show ?thesis
      by (auto simp: Some t intro!: triple_then triple_ret)
  qed
  from triple_then [OF steady_steps(4) [OF steady_sentp start] triple_bind [OF rows this]]
  show ?thesis unfolding stream_query_def .
qed

text \<open>
  What a streamed query sends. The messages are a schema, the batches, and one final message: either the end,
  with the totals of exactly the batches that were sent and these being all the batches of a result that
  DuckDB gave, or an error. Only a receiver that goes away and a panic cut this short; nothing follows a
  final message, and no batch precedes the schema. In particular a receiver that stays sees the final message unless
  the producer panicked.
\<close>

theorem stream_protocol:
  assumes "\<forall>q r q'. lockdown q = Ret (r, q') \<longrightarrow> q_sent q' = q_sent q \<and> q_close q' = q_close q"
    and "q_sent q = []" "producer dk lockdown sql params q = Ret (r, q')"
  shows "batches_sent (q_sent q') \<and> (r = Inl Unwind \<or> q_close q \<noteq> None)
    \<or> (\<exists>ms e. q_sent q' = ms @ [ErrorMsg e] \<and> batches_sent ms)
    \<or> (\<exists>ms k n b. q_sent q' = ms @ [DoneMsg n b] \<and> all_sent dk (k, n, b) ms)"
proof -
  let ?v = "q_close q = None"
  let ?start = "sentp ?v (\<lambda>ms. ms = [])" and ?stop = "sentp ?v batches_sent"
  have start: "?start q \<Longrightarrow> ?stop q" for q :: "('a, 'b, 'c) conn_request" by (auto simp: sentp_def batches_sent_def)
  have "triple ?start lockdown (\<lambda>_. ?start) ?stop"
    by (rule tripleI) (use assms(1) in \<open>auto simp: sentp_def batches_sent_def\<close>)
  from triple_then [OF steady_steps(4) [OF steady_sentp start] triple_then [OF this stream_query_sent]]
  have run: "triple ?start (sthen (look True) (sthen lockdown (stream_query_cancellable dk sql params)))
      (\<lambda>_ q. finished_sent dk ?v (q_sent q)) ?stop"
    unfolding stream_query_cancellable_def .
  from assms(3) obtain r0 t where t: "sthen (look True) (sthen lockdown (stream_query_cancellable dk sql params)) q = Ret (r0, t)"
    and fin: "(case r0 of Inl (Fail e) \<Rightarrow> sthen (send (ErrorMsg e)) (sret ()) t | _ \<Rightarrow> Ret (r0, t)) = Ret (r, q')"
    unfolding producer_def rbind_Ret_iff by auto
  have q: "?start q" using assms(2) by (simp add: sentp_def)
  show ?thesis
  proof (cases r0)
    case (Inr u)
    with fin triple_value [OF run q] t show ?thesis by (auto simp: finished_sent_def)
  next
    case (Inl e)
    with triple_error [OF run q] t have s: "batches_sent (q_sent t)" "?v \<longrightarrow> q_close t = None" by (auto simp: sentp_def)
    show ?thesis
    proof (cases e)
      case Unwind
      with fin Inl s show ?thesis by simp
    next
      case (Fail err)
      with fin Inl s show ?thesis
        by (auto simp: sthen_def sbind_Ret_iff send_def sret_def split: if_splits)
    qed
  qed
qed

lemma sample_stream:
  "producer sample_duck (sret ()) ''SELECT 2'' None sample_call = Ret (Inr (), sample_call\<lparr>
    q_log := [DPrepare ''SELECT 2'', DStream ''SELECT 2'' [], DFetched 1, DFetched 2],
    q_sent := [SchemaMsg ''schema'', BatchMsg 5, BatchMsg 7, DoneMsg 12 96]\<rparr>)"
proof -
  have "query_body sample_duck ''SELECT 2'' = None" "d_prepare sample_duck l s = Inr 0"
    "d_stream sample_duck l s ps = Inr (''schema'', [5, 7], False)" "d_rows_of sample_duck b = b" "d_bytes_of sample_duck b = 8 * b"
    for l s ps b
    by (simp_all add: query_body_def sample_duck_def)
  then show ?thesis
    by (simp add: producer_def stream_query_cancellable_def stream_query_def with_arrow_prepared_cancellable_def
        validate_sql_def under_lock_def guarded_def planned_query_def for_streaming_query_def with_columns_def prepare_def
        stream_rows_def stream_arrow_with_params_def sthen_def sbind_def conn_step_defs sample_call_def)
qed

lemma stream_protocol_witness:
  "\<exists>q' ms k n b. producer sample_duck (sret ()) ''SELECT 2'' None sample_call = Ret (Inr (), q')
    \<and> q_sent q' = ms @ [DoneMsg n b] \<and> all_sent sample_duck (k, n, b) ms"
proof -
  let ?q = "sample_call\<lparr>q_log := [DPrepare ''SELECT 2'', DStream ''SELECT 2'' [], DFetched 1, DFetched 2],
    q_sent := [SchemaMsg ''schema'', BatchMsg 5, BatchMsg 7, DoneMsg 12 96]\<rparr>"
  have "q_sent sample_call = []" "q_close sample_call = None" by (simp_all add: sample_call_def)
  moreover from stream_protocol [OF _ this(1) sample_stream]
  have "batches_sent (q_sent ?q) \<and> (Inr () = (Inl Unwind :: stop + unit) \<or> q_close sample_call \<noteq> None)
    \<or> (\<exists>ms e. q_sent ?q = ms @ [ErrorMsg e] \<and> batches_sent ms)
    \<or> (\<exists>ms k n b. q_sent ?q = ms @ [DoneMsg n b] \<and> all_sent sample_duck (k, n, b) ms)"
    by (simp add: sret_def)
  ultimately have "\<exists>ms k n b. q_sent ?q = ms @ [DoneMsg n b] \<and> all_sent sample_duck (k, n, b) ms"
    by (auto simp: append_eq_Cons_conv Cons_eq_append_conv)
  with sample_stream show ?thesis by blast
qed

end
