(* ===== verification/Flight_Stream.thy ===== *)
theory Flight_Stream
  imports Streaming Complex_Main
begin

text \<open>
  The response stream of a query, \<open>StreamingBatchToFlightData\<close> of \<^verbatim>\<open>service/streaming.rs\<close>: it turns the messages of the
  producer into \<open>FlightData\<close>, with the query's progress in \<open>app_metadata\<close>, and sends empty batches as
  heartbeats while there is no data. The Arrow IPC writer and MessagePack are parameters; progress is a real
  number (DuckDB's percentage is not a NaN).
\<close>

section \<open>Encoding\<close>

record resource_snapshot =
  peak_memory_bytes :: nat
  current_memory_bytes :: nat
  cpu_time_us :: nat

record scanner_progress =
  sp_progress :: real
  sp_peak_memory_bytes :: "nat option"
  sp_current_memory_bytes :: "nat option"
  sp_cpu_time_us :: "nat option"

record flight_data =
  data_header :: string
  data_body :: string
  app_metadata :: string

record ('s, 'b) ipc =
  ipc_schema :: "'s \<Rightarrow> string"
  ipc_batch :: "'b \<Rightarrow> string + (string \<times> string)"
  ipc_new_empty :: "'s \<Rightarrow> 'b"
  ipc_to_vec_named :: "scanner_progress \<Rightarrow> string option"
  ipc_num_rows :: "'b \<Rightarrow> nat"

definition clamp01 :: "real \<Rightarrow> real" where
  "clamp01 x = (if x < 0 then 0 else if 1 < x then 1 else x)"

definition encode_progress :: "('s, 'b) ipc \<Rightarrow> real \<Rightarrow> resource_snapshot option \<Rightarrow> string" where
  "encode_progress ipc progress snapshot =
     (let scanner_progress =
        \<lparr>sp_progress = clamp01 progress,
         sp_peak_memory_bytes = map_option peak_memory_bytes snapshot,
         sp_current_memory_bytes = map_option current_memory_bytes snapshot,
         sp_cpu_time_us = Option.bind snapshot (\<lambda>s. if 0 < cpu_time_us s then Some (cpu_time_us s) else None)\<rparr>
      in case ipc_to_vec_named ipc scanner_progress of Some bytes \<Rightarrow> bytes | None \<Rightarrow> [])"

definition encode_schema :: "('s, 'b) ipc \<Rightarrow> 's \<Rightarrow> flight_data" where
  "encode_schema ipc schema = \<lparr>data_header = ipc_schema ipc schema, data_body = [], app_metadata = []\<rparr>"

definition encode_batch ::
    "('s, 'b) ipc \<Rightarrow> 'b \<Rightarrow> real option \<Rightarrow> resource_snapshot option \<Rightarrow> status + flight_data" where
  "encode_batch ipc batch progress snapshot =
     (case ipc_batch ipc batch of
        Inl e \<Rightarrow> Inl (mk_status CodeInternal (''failed to encode batch: '' @ e))
      | Inr (header, body) \<Rightarrow>
          (let has_resource_data = (case snapshot of None \<Rightarrow> False
             | Some s \<Rightarrow> 0 < peak_memory_bytes s \<or> 0 < cpu_time_us s)
           in Inr \<lparr>data_header = header, data_body = body,
             app_metadata = (if progress \<noteq> None \<or> has_resource_data
               then encode_progress ipc (case progress of Some p \<Rightarrow> p | None \<Rightarrow> 0) snapshot else [])\<rparr>))"

section \<open>Polling\<close>

text \<open>
  What the environment answers to one poll: the channel, the heartbeat timer (if it is polled), DuckDB's progress in
  percent and the resource tracker.
\<close>

datatype ('s, 'b) channel_poll = Item "('s, 'b) streaming_batch" | ChannelClosed | ChannelPending

record ('s, 'b) poll =
  p_channel :: "('s, 'b) channel_poll"
  p_tick :: bool
  p_percentage :: "real option"
  p_snapshot :: resource_snapshot

datatype poll_result = Ready "status + flight_data" | Ended | Pending

text \<open>\<open>st_armed\<close> says whether the timer will wake the stream: a tick that has been taken does not until the next poll.\<close>

record 's stream_state =
  st_schema :: "'s option"
  st_done :: bool
  st_rows_sent :: nat
  st_armed :: bool

definition stream_new :: "'s stream_state" where
  "stream_new = \<lparr>st_schema = None, st_done = False, st_rows_sent = 0, st_armed = False\<rparr>"

definition get_progress :: "('s, 'b) poll \<Rightarrow> real option" where
  "get_progress p = map_option (\<lambda>percentage. clamp01 (percentage / 100)) (p_percentage p)"

definition finish :: "'s stream_state \<Rightarrow> 's stream_state" where
  "finish st = st\<lparr>st_done := True\<rparr>"

definition poll_message ::
    "('s, 'b) ipc \<Rightarrow> ('s, 'b) poll \<Rightarrow> 's stream_state \<Rightarrow> ('s, 'b) streaming_batch \<Rightarrow> poll_result \<times> 's stream_state" where
  "poll_message ipc p st m =
     (case m of
        SchemaMsg schema \<Rightarrow> (Ready (Inr (encode_schema ipc schema)), st\<lparr>st_schema := Some schema\<rparr>)
      | BatchMsg batch \<Rightarrow>
          (let st' = st\<lparr>st_rows_sent := st_rows_sent st + ipc_num_rows ipc batch\<rparr> in
           case encode_batch ipc batch (get_progress p) (Some (p_snapshot p)) of
             Inr fd \<Rightarrow> (Ready (Inr fd), st')
           | Inl e \<Rightarrow> (Ready (Inl e), finish st'))
      | DoneMsg total_rows total_bytes \<Rightarrow> (Ended, finish st)
      | ErrorMsg e \<Rightarrow> (Ready (Inl (mk_status CodeInternal (''query error: '' @ display_error e))), finish st))"

definition poll_pending :: "('s, 'b) ipc \<Rightarrow> ('s, 'b) poll \<Rightarrow> 's stream_state \<Rightarrow> poll_result \<times> 's stream_state" where
  "poll_pending ipc p st =
     (case st_schema st of None \<Rightarrow> (Pending, st)
      | Some schema \<Rightarrow>
          if p_tick p then
            (let progress = get_progress p; snapshot = p_snapshot p;
                 has_data = (progress \<noteq> None \<or> 0 < peak_memory_bytes snapshot \<or> 0 < cpu_time_us snapshot) in
             if has_data then
               (case encode_batch ipc (ipc_new_empty ipc schema) progress (Some snapshot) of
                  Inr fd \<Rightarrow> (Ready (Inr fd), st\<lparr>st_armed := False\<rparr>)
                | Inl _ \<Rightarrow> (Pending, st\<lparr>st_armed := False\<rparr>))
             else (Pending, st\<lparr>st_armed := False\<rparr>))
          else (Pending, st\<lparr>st_armed := True\<rparr>))"

definition poll_next :: "('s, 'b) ipc \<Rightarrow> ('s, 'b) poll \<Rightarrow> 's stream_state \<Rightarrow> poll_result \<times> 's stream_state" where
  "poll_next ipc p st =
     (if st_done st then (Ended, st)
      else (case p_channel p of
          Item m \<Rightarrow> poll_message ipc p st m
        | ChannelClosed \<Rightarrow> (Ended, finish st)
        | ChannelPending \<Rightarrow> poll_pending ipc p st))"

fun poll_all :: "('s, 'b) ipc \<Rightarrow> 's stream_state \<Rightarrow> ('s, 'b) poll list \<Rightarrow> poll_result list" where
  "poll_all ipc st [] = []"
| "poll_all ipc st (p # ps) = (case poll_next ipc p st of (r, st') \<Rightarrow> r # poll_all ipc st' ps)"

section \<open>What the client sees\<close>

text \<open>The messages that the channel delivers, and the payload that the client gets for them.\<close>

fun delivered :: "('s, 'b) poll list \<Rightarrow> ('s, 'b) streaming_batch list" where
  "delivered [] = []"
| "delivered (p # ps) = (case p_channel p of Item m \<Rightarrow> m # delivered ps | ChannelClosed \<Rightarrow> [] | ChannelPending \<Rightarrow> delivered ps)"

type_synonym payload = "status + (string \<times> string)"

definition payload_of :: "status + flight_data \<Rightarrow> payload" where
  "payload_of r = (case r of Inl e \<Rightarrow> Inl e | Inr fd \<Rightarrow> Inr (data_header fd, data_body fd))"

fun expected :: "('s, 'b) ipc \<Rightarrow> ('s, 'b) streaming_batch list \<Rightarrow> payload list" where
  "expected ipc [] = []"
| "expected ipc (SchemaMsg s # ms) = Inr (ipc_schema ipc s, []) # expected ipc ms"
| "expected ipc (BatchMsg b # ms) =
     (case ipc_batch ipc b of
        Inr hb \<Rightarrow> Inr hb # expected ipc ms
      | Inl e \<Rightarrow> [Inl (mk_status CodeInternal (''failed to encode batch: '' @ e))])"
| "expected ipc (DoneMsg r b # ms) = []"
| "expected ipc (ErrorMsg e # ms) = [Inl (mk_status CodeInternal (''query error: '' @ display_error e))]"

text \<open>The payloads that answer to messages, and those that are heartbeats.\<close>

fun data_of :: "('s, 'b) poll list \<Rightarrow> poll_result list \<Rightarrow> payload list" where
  "data_of (p # ps) (Ready r # rs) =
     (if p_channel p = ChannelPending then data_of ps rs else payload_of r # data_of ps rs)"
| "data_of (p # ps) (_ # rs) = data_of ps rs"
| "data_of _ _ = []"

fun heartbeats_of :: "('s, 'b) poll list \<Rightarrow> poll_result list \<Rightarrow> payload list" where
  "heartbeats_of (p # ps) (Ready r # rs) =
     (if p_channel p = ChannelPending then payload_of r # heartbeats_of ps rs else heartbeats_of ps rs)"
| "heartbeats_of (p # ps) (_ # rs) = heartbeats_of ps rs"
| "heartbeats_of _ _ = []"

section \<open>Properties\<close>

lemma poll_done: "st_done st \<Longrightarrow> poll_all ipc st ps = replicate (length ps) Ended"
  by (induction ps) (simp_all add: poll_next_def)

lemma data_of_ended [simp]: "data_of ps (replicate n Ended) = []" "heartbeats_of ps (replicate n Ended) = []"
  by (induction ps arbitrary: n; case_tac n; simp)+

lemma payload_encode_batch:
  "encode_batch ipc b progress snapshot = Inr fd \<Longrightarrow> ipc_batch ipc b = Inr (data_header fd, data_body fd)"
  "encode_batch ipc b progress snapshot = Inl e \<Longrightarrow>
    \<exists>m. ipc_batch ipc b = Inl m \<and> e = mk_status CodeInternal (''failed to encode batch: '' @ m)"
  by (auto simp: encode_batch_def Let_def split: sum.splits prod.splits)

lemmas payload_cases = payload_encode_batch payload_encode_batch [OF sym]

lemma st_done_simps [simp]: "st_done (finish st)" "st_done (st\<lparr>st_schema := x\<rparr>) = st_done st"
  "st_done (st\<lparr>st_rows_sent := n\<rparr>) = st_done st" "st_done (st\<lparr>st_armed := a\<rparr>) = st_done st"
  by (simp_all add: finish_def)

lemma poll_message_data:
  assumes "poll_message ipc p st m = (r, st')" "p_channel p = Item m" "\<not> st_done st"
    and "\<And>st. \<not> st_done st \<Longrightarrow> data_of ps (poll_all ipc st ps) = expected ipc ms"
  shows "data_of (p # ps) (r # poll_all ipc st' ps) = expected ipc (m # ms)"
proof (cases m)
  case (BatchMsg b)
  with assms show ?thesis
    by (auto simp: poll_message_def Let_def payload_of_def poll_done dest!: payload_cases split: sum.splits)
qed (use assms in \<open>auto simp: poll_message_def payload_of_def encode_schema_def poll_done\<close>)

lemma poll_data: "\<not> st_done st \<Longrightarrow> data_of ps (poll_all ipc st ps) = expected ipc (delivered ps)"
proof (induction ps arbitrary: st)
  case (Cons p ps)
  show ?case
  proof (cases "p_channel p")
    case (Item m)
    obtain r st' where "poll_message ipc p st m = (r, st')" by (cases "poll_message ipc p st m")
    with poll_message_data [OF this Item Cons.prems, of ps "delivered ps"] Cons Item show ?thesis
      by (simp add: poll_next_def)
  next
    case ChannelClosed
    with Cons.prems show ?thesis by (simp add: poll_next_def poll_done)
  next
    case ChannelPending
    obtain r st' where r: "poll_pending ipc p st = (r, st')" by (cases "poll_pending ipc p st")
    with Cons.prems have "\<not> st_done st'"
      by (auto simp: poll_pending_def Let_def split: option.splits if_splits sum.splits)
    with Cons ChannelPending r show ?thesis by (cases r) (simp_all add: poll_next_def)
  qed
qed simp

text \<open>Schemas that the stream may use for heartbeats.\<close>

lemma poll_heartbeats:
  "h \<in> set (heartbeats_of ps (poll_all ipc st ps)) \<Longrightarrow>
    \<exists>s hb. (st_schema st = Some s \<or> SchemaMsg s \<in> set (delivered ps)) \<and> ipc_batch ipc (ipc_new_empty ipc s) = Inr hb \<and> h = Inr hb"
proof (induction ps arbitrary: st)
  case (Cons p ps)
  show ?case
  proof (cases "st_done st")
    case True
    with Cons.prems poll_done [of st ipc "p # ps"] show ?thesis
      using data_of_ended(2) [of "p # ps" "length (p # ps)"] by simp
  next
    case False
    show ?thesis
    proof (cases "p_channel p")
      case (Item m)
      obtain r st' where r: "poll_message ipc p st m = (r, st')" by (cases "poll_message ipc p st m")
      then have "st_schema st' = st_schema st \<or> (\<exists>s. m = SchemaMsg s \<and> st_schema st' = Some s)"
        by (auto simp: poll_message_def Let_def finish_def split: streaming_batch.splits sum.splits)
      moreover from Cons.prems False Item r have "h \<in> set (heartbeats_of ps (poll_all ipc st' ps))"
        by (cases r) (auto simp: poll_next_def)
      from Cons.IH [OF this] obtain s hb where "st_schema st' = Some s \<or> SchemaMsg s \<in> set (delivered ps)"
        "ipc_batch ipc (ipc_new_empty ipc s) = Inr hb" "h = Inr hb" by blast
      ultimately show ?thesis using Item by (intro exI [of _ s] exI [of _ hb]) auto
    next
      case ChannelClosed
      with Cons.prems False show ?thesis by (simp add: poll_next_def poll_done)
    next
      case ChannelPending
      obtain r st' where r: "poll_pending ipc p st = (r, st')" by (cases "poll_pending ipc p st")
      then have s: "st_schema st' = st_schema st"
        and b: "r = Ready x \<Longrightarrow> \<exists>s hb. st_schema st = Some s \<and> ipc_batch ipc (ipc_new_empty ipc s) = Inr hb \<and> payload_of x = Inr hb" for x
        by (auto simp: poll_pending_def Let_def payload_of_def dest!: payload_cases split: option.splits if_splits sum.splits)
      from Cons.prems False ChannelPending r
      have "h \<in> set (heartbeats_of ps (poll_all ipc st' ps)) \<or> (\<exists>x. r = Ready x \<and> h = payload_of x)"
        by (cases r) (auto simp: poll_next_def)
      then show ?thesis
      proof (elim disjE exE conjE)
        assume "h \<in> set (heartbeats_of ps (poll_all ipc st' ps))"
        from Cons.IH [OF this] s ChannelPending show ?thesis by simp
      qed (use b in blast)
    qed
  qed
qed simp

text \<open>
  The client sees the producer's messages. However polls, heartbeats and pending results interleave, the
  payloads that answer to messages are, in order, the encoded schema, the encoded batches and at most one error, which
  is the last; after the final message nothing follows. A heartbeat is always an empty batch of the stream's own
  schema, so it never precedes the schema.
\<close>

theorem client_sees_stream:
  "data_of ps (poll_all ipc stream_new ps) = expected ipc (delivered ps)
    \<and> (\<forall>h\<in>set (heartbeats_of ps (poll_all ipc stream_new ps)).
        \<exists>s hb. SchemaMsg s \<in> set (delivered ps) \<and> ipc_batch ipc (ipc_new_empty ipc s) = Inr hb \<and> h = Inr hb)"
  using poll_data [of stream_new] poll_heartbeats [of _ ps ipc stream_new] by (auto simp: stream_new_def)

text \<open>The last poll result of a stream whose channel has been closed is the end of the stream.\<close>

lemma closed_ends: "p_channel p = ChannelClosed \<Longrightarrow> fst (poll_next ipc p st) = Ended"
  by (simp add: poll_next_def)

definition encoded :: "('s, 'b) ipc \<Rightarrow> 'b \<Rightarrow> payload" where
  "encoded ipc b = Inr (projr (ipc_batch ipc b))"

lemma expected_batches:
  assumes "\<forall>b. \<exists>hb. ipc_batch ipc b = Inr hb"
  shows "expected ipc (SchemaMsg s # map BatchMsg bs @ ms) = Inr (ipc_schema ipc s, []) # map (encoded ipc) bs @ expected ipc ms"
proof -
  have "expected ipc (map BatchMsg bs @ ms) = map (encoded ipc) bs @ expected ipc ms"
  proof (induction bs)
    case (Cons b bs)
    obtain hb where "ipc_batch ipc b = Inr hb" using assms by blast
    with Cons show ?case by (simp add: encoded_def)
  qed simp
  then show ?thesis by simp
qed


definition sample_ipc :: "(string, nat) ipc" where
  "sample_ipc = \<lparr>ipc_schema = (\<lambda>s. s), ipc_batch = (\<lambda>b. Inr (show_nat b, [])), ipc_new_empty = (\<lambda>s. 0),
     ipc_to_vec_named = (\<lambda>p. Some []), ipc_num_rows = (\<lambda>b. b)\<rparr>"

definition sample_poll :: "(string, nat) channel_poll \<Rightarrow> (string, nat) poll" where
  "sample_poll c = \<lparr>p_channel = c, p_tick = True, p_percentage = Some 50,
     p_snapshot = \<lparr>peak_memory_bytes = 1, current_memory_bytes = 1, cpu_time_us = 0\<rparr>\<rparr>"


text \<open>A tick that finds nothing to report leaves the stream pending with no timer armed.\<close>

lemma heartbeat_stalls:
  assumes "poll_pending ipc p st = (Pending, st')" "st_schema st = Some s"
  shows "st_armed st' \<longleftrightarrow> \<not> p_tick p"
  using assms by (auto simp: poll_pending_def Let_def split: if_splits sum.splits)

end
