(* ===== verification/Sql_Ast.thy ===== *)
theory Sql_Ast
  imports Prelude "HOL-Library.Sublist"
begin

text \<open>
  \<^verbatim>\<open>sql/parser.rs\<close> and \<^verbatim>\<open>sql/rewrite.rs\<close>: what the server reads off the syntax tree of a statement. The parser and
  the printer of the sqlparser crate are parameters; the tree keeps what the code looks at, and the operands of the
  expressions it does not look into.
\<close>

section \<open>Trees\<close>

datatype sql_expr =
    Identifier string
  | CompoundIdentifier "string list"
  | Placeholder string
  | Nested sql_expr
  | CastExpr sql_expr
  | BinaryOp sql_expr sql_expr
  | BetweenExpr sql_expr sql_expr sql_expr
  | InList sql_expr "sql_expr list"
  | OtherExpr "sql_expr list"

text \<open>An object name is its parts; a table factor is a named table or something else.\<close>

datatype table_factor = NamedTable "string list" | OtherTable

datatype assignment_target = ColumnName "string list" | ColumnTuple "string list list"

datatype set_expr =
    SelectExpr "table_factor list" "sql_expr option"
  | ValuesExpr "sql_expr list list"
  | OtherSetExpr

record query_tree =
  q_body :: set_expr
  q_locks :: nat

datatype statement =
    InsertStmt "string list option" "string list" "query_tree option"
  | UpdateStmt table_factor "(assignment_target \<times> sql_expr) list" "sql_expr option"
  | DeleteStmt "table_factor list" "sql_expr option"
  | QueryStmt query_tree
  | ShowTables | ShowColumns | ShowCreate | ShowVariable | ShowVariables
  | Explain | ExplainTable | Pragma
  | OtherStmt

type_synonym parser = "string \<Rightarrow> statement list option"

section \<open>Shapes of a statement\<close>

fun statement_returns_rows :: "statement \<Rightarrow> bool" where
  "statement_returns_rows (QueryStmt q) = True"
| "statement_returns_rows ShowTables = True"
| "statement_returns_rows ShowColumns = True"
| "statement_returns_rows ShowCreate = True"
| "statement_returns_rows ShowVariable = True"
| "statement_returns_rows ShowVariables = True"
| "statement_returns_rows Explain = True"
| "statement_returns_rows ExplainTable = True"
| "statement_returns_rows Pragma = True"
| "statement_returns_rows _ = False"

definition parse_statement :: "parser \<Rightarrow> string \<Rightarrow> statement option" where
  "parse_statement parse sql =
     Option.bind (parse sql) (\<lambda>statements. if statements = [] then None else Some (last statements))"

definition statement_count :: "parser \<Rightarrow> string \<Rightarrow> nat option" where
  "statement_count parse sql = map_option length (parse sql)"

definition contains_query :: "parser \<Rightarrow> string \<Rightarrow> bool option" where
  "contains_query parse sql = map_option (list_ex statement_returns_rows) (parse sql)"

fun is_insert :: "statement \<Rightarrow> bool" where
  "is_insert (InsertStmt t cs src) = True"
| "is_insert _ = False"

definition is_query :: "statement \<Rightarrow> bool" where
  "is_query st = statement_returns_rows st"

fun table_from_joins :: "table_factor \<Rightarrow> string list option" where
  "table_from_joins (NamedTable name) = Some name"
| "table_from_joins OtherTable = None"

fun table_from_from_table :: "table_factor list \<Rightarrow> string list option" where
  "table_from_from_table [t] = table_from_joins t"
| "table_from_from_table _ = None"

fun table_from_query :: "query_tree \<Rightarrow> string list option" where
  "table_from_query q = (case q_body q of SelectExpr from sel \<Rightarrow> table_from_from_table from | _ \<Rightarrow> None)"

fun get_statement_table :: "statement \<Rightarrow> string list option" where
  "get_statement_table (InsertStmt t cs src) = t"
| "get_statement_table (UpdateStmt t asg sel) = table_from_joins t"
| "get_statement_table (DeleteStmt from sel) = table_from_from_table from"
| "get_statement_table (QueryStmt q) = table_from_query q"
| "get_statement_table _ = None"

fun get_insert_table :: "statement \<Rightarrow> string list option" where
  "get_insert_table (InsertStmt t cs src) = t"
| "get_insert_table _ = None"

fun get_insert_columns :: "statement \<Rightarrow> string list option" where
  "get_insert_columns (InsertStmt t cs src) = (if cs = [] then None else Some cs)"
| "get_insert_columns _ = None"

fun insert_source_sql :: "(query_tree \<Rightarrow> string) \<Rightarrow> statement \<Rightarrow> string option" where
  "insert_source_sql print_query (InsertStmt t cs src) = map_option print_query src"
| "insert_source_sql print_query _ = None"

fun is_placeholder :: "sql_expr \<Rightarrow> bool" where
  "is_placeholder (Placeholder p) = True"
| "is_placeholder _ = False"

fun insert_values_all_placeholders :: "statement \<Rightarrow> bool" where
  "insert_values_all_placeholders (InsertStmt t cs (Some q)) =
     (case q_body q of ValuesExpr rows \<Rightarrow> list_all (list_all is_placeholder) rows | _ \<Rightarrow> False)"
| "insert_values_all_placeholders _ = False"

fun insert_values_shape :: "statement \<Rightarrow> (nat \<times> nat) option" where
  "insert_values_shape (InsertStmt t cs (Some q)) =
     (case q_body q of
        ValuesExpr rows \<Rightarrow>
          (case rows of [] \<Rightarrow> None
           | first # others \<Rightarrow>
               (let width = length first in
                if width = 0 then None
                else if list_ex (\<lambda>row. length row \<noteq> width) others then None
                else Some (length rows, width)))
      | _ \<Rightarrow> None)"
| "insert_values_shape _ = None"

section \<open>The columns of placeholders\<close>

fun column_name :: "sql_expr \<Rightarrow> string option" where
  "column_name (Identifier x) = Some x"
| "column_name (CompoundIdentifier xs) = (if xs = [] then None else Some (last xs))"
| "column_name _ = None"

definition object_name_last_part :: "string list \<Rightarrow> string option" where
  "object_name_last_part name = (if name = [] then None else Some (last name))"

fun column_from_assignment_target :: "assignment_target \<Rightarrow> string option" where
  "column_from_assignment_target (ColumnName name) = object_name_last_part name"
| "column_from_assignment_target (ColumnTuple columns) =
     (case columns of [] \<Rightarrow> None | c # _ \<Rightarrow> object_name_last_part c)"

text \<open>The code pushes to a vector; here the pushed columns are returned, each with its placeholder.\<close>

fun collect_placeholders_with_column :: "sql_expr \<Rightarrow> string option \<Rightarrow> (string option \<times> string) list" where
  "collect_placeholders_with_column (Placeholder p) column = [(column, p)]"
| "collect_placeholders_with_column (Nested inner) column = collect_placeholders_with_column inner column"
| "collect_placeholders_with_column (CastExpr e) column = collect_placeholders_with_column e column"
| "collect_placeholders_with_column (BinaryOp left right) column =
     collect_placeholders_with_column left column @ collect_placeholders_with_column right column"
| "collect_placeholders_with_column (BetweenExpr e low high) column =
     collect_placeholders_with_column low column @ collect_placeholders_with_column high column"
| "collect_placeholders_with_column (InList e items) column =
     concat (map (\<lambda>item. collect_placeholders_with_column item column) items)"
| "collect_placeholders_with_column _ column = []"

fun collect_params_from_expr :: "sql_expr \<Rightarrow> (string option \<times> string) list" where
  "collect_params_from_expr (BinaryOp left right) =
     (let from_right = (case column_name left of Some col \<Rightarrow> collect_placeholders_with_column right (Some col) | None \<Rightarrow> []) in
      if from_right \<noteq> [] then from_right
      else (let from_left = (case column_name right of Some col \<Rightarrow> collect_placeholders_with_column left (Some col) | None \<Rightarrow> []) in
        if from_left \<noteq> [] then from_left
        else collect_params_from_expr left @ collect_params_from_expr right))"
| "collect_params_from_expr (BetweenExpr e low high) =
     (case column_name e of
        Some col \<Rightarrow> collect_placeholders_with_column low (Some col) @ collect_placeholders_with_column high (Some col)
      | None \<Rightarrow> collect_params_from_expr e @ collect_params_from_expr low @ collect_params_from_expr high)"
| "collect_params_from_expr (InList e items) =
     (case column_name e of
        Some col \<Rightarrow> concat (map (\<lambda>item. collect_placeholders_with_column item (Some col)) items)
      | None \<Rightarrow> collect_params_from_expr e @ concat (map collect_params_from_expr items))"
| "collect_params_from_expr (Nested inner) = collect_params_from_expr inner"
| "collect_params_from_expr (CastExpr e) = collect_params_from_expr e"
| "collect_params_from_expr (Placeholder p) = [(None, p)]"
| "collect_params_from_expr _ = []"

definition from_selection :: "sql_expr option \<Rightarrow> (string option \<times> string) list" where
  "from_selection selection = (case selection of Some e \<Rightarrow> collect_params_from_expr e | None \<Rightarrow> [])"

definition selection_from_query :: "query_tree \<Rightarrow> sql_expr option" where
  "selection_from_query q = (case q_body q of SelectExpr from selection \<Rightarrow> selection | _ \<Rightarrow> None)"

fun collected :: "statement \<Rightarrow> (string option \<times> string) list option" where
  "collected (UpdateStmt t assignments selection) = Some (concat (map (\<lambda>(target, e).
     collect_placeholders_with_column e (column_from_assignment_target target)) assignments) @ from_selection selection)"
| "collected (DeleteStmt from selection) = Some (from_selection selection)"
| "collected (QueryStmt q) = Some (from_selection (selection_from_query q))"
| "collected _ = None"

definition parameter_columns :: "statement \<Rightarrow> string list option" where
  "parameter_columns st =
     Option.bind (collected st) (\<lambda>cols.
       if list_all (\<lambda>c. fst c \<noteq> None) cols then Some (somes (map fst cols)) else None)"

section \<open>Stripping locks\<close>

fun clear_locks :: "statement \<Rightarrow> statement option" where
  "clear_locks (QueryStmt q) = (if q_locks q = 0 then None else Some (QueryStmt (q\<lparr>q_locks := 0\<rparr>)))"
| "clear_locks _ = None"

definition strip_select_locks :: "parser \<Rightarrow> (statement \<Rightarrow> string) \<Rightarrow> string \<Rightarrow> string \<times> bool" where
  "strip_select_locks parse print sql =
     (case parse sql of None \<Rightarrow> (sql, False)
      | Some statements \<Rightarrow>
          if statements = [] then (sql, False)
          else (case clear_locks (last statements) of None \<Rightarrow> (sql, False)
            | Some cleared \<Rightarrow> (join ''; '' (map print (butlast statements @ [cleared])), True)))"

section \<open>Placeholders in the order of the text\<close>

fun placeholders :: "sql_expr \<Rightarrow> string list" where
  "placeholders (Placeholder p) = [p]"
| "placeholders (Nested e) = placeholders e"
| "placeholders (CastExpr e) = placeholders e"
| "placeholders (BinaryOp l r) = placeholders l @ placeholders r"
| "placeholders (BetweenExpr e l h) = placeholders e @ placeholders l @ placeholders h"
| "placeholders (InList e es) = placeholders e @ concat (map placeholders es)"
| "placeholders (OtherExpr es) = concat (map placeholders es)"
| "placeholders _ = []"

definition selection_placeholders :: "sql_expr option \<Rightarrow> string list" where
  "selection_placeholders s = (case s of Some e \<Rightarrow> placeholders e | None \<Rightarrow> [])"

text \<open>For a statement, those of its assignments and its selection; others may precede or follow them.\<close>

fun statement_placeholders :: "statement \<Rightarrow> string list" where
  "statement_placeholders (UpdateStmt t assignments selection) =
     concat (map (placeholders \<circ> snd) assignments) @ selection_placeholders selection"
| "statement_placeholders (DeleteStmt from selection) = selection_placeholders selection"
| "statement_placeholders (QueryStmt q) = selection_placeholders (selection_from_query q)"
| "statement_placeholders _ = []"

section \<open>Parameters are collected in the order of the text\<close>

lemma subseq_concat_map:
  "(\<And>x. x \<in> set xs \<Longrightarrow> subseq (f x) (g x)) \<Longrightarrow> subseq (concat (map f xs)) (concat (map g xs))"
  by (induction xs) (auto intro: list_emb_append_mono)

lemma subseq_append_left: "subseq ys zs \<Longrightarrow> subseq ys (xs @ zs)"
  by (rule list_emb_append2)

lemma subseq_append_right: "subseq ys xs \<Longrightarrow> subseq ys (xs @ zs)"
  using list_emb_append_mono [of "(=)" ys xs "[]" zs] by simp

lemma with_column_in_order:
  "subseq (map snd (collect_placeholders_with_column e c)) (placeholders e)"
proof (induction e c rule: collect_placeholders_with_column.induct)
  case (5 e low high c)
  then show ?case
    using list_emb_append_mono [OF 5(1) 5(2)] by (simp add: subseq_append_left)
next
  case (6 e items c)
  have "subseq (concat (map (map snd \<circ> (\<lambda>item. collect_placeholders_with_column item c)) items))
      (concat (map placeholders items))"
    by (rule subseq_concat_map) (simp add: 6)
  then show ?case by (simp add: map_concat subseq_append_left)
qed (auto intro: list_emb_append_mono)

lemma with_column_column:
  "(d, p) \<in> set (collect_placeholders_with_column e c) \<Longrightarrow> d = c"
  by (induction e c rule: collect_placeholders_with_column.induct) auto

lemma from_expr_in_order: "subseq (map snd (collect_params_from_expr e)) (placeholders e)"
proof (induction e rule: collect_params_from_expr.induct)
  case (1 left right)
  let ?r = "case column_name left of Some col \<Rightarrow> collect_placeholders_with_column right (Some col) | None \<Rightarrow> []"
  let ?l = "case column_name right of Some col \<Rightarrow> collect_placeholders_with_column left (Some col) | None \<Rightarrow> []"
  have r: "subseq (map snd ?r) (placeholders left @ placeholders right)"
    by (auto split: option.splits simp: with_column_in_order intro: subseq_append_left)
  have l: "subseq (map snd ?l) (placeholders left @ placeholders right)"
    by (auto split: option.splits simp: with_column_in_order intro: subseq_append_right)
  show ?case
  proof (cases "?r = [] \<and> ?l = []")
    case True
    then show ?thesis using list_emb_append_mono [OF 1(1) 1(2)] by (simp add: Let_def)
  next
    case False
    then show ?thesis using r l by (cases "?r = []") (simp_all add: Let_def)
  qed
next
  case (2 e low high)
  show ?case
  proof (cases "column_name e")
    case None
    then show ?thesis
      using list_emb_append_mono [OF 2(1) list_emb_append_mono [OF 2(2) 2(3)]] by simp
  next
    case (Some c)
    then show ?thesis
      using list_emb_append_mono [OF with_column_in_order [of low "Some c"] with_column_in_order [of high "Some c"]]
      by (simp add: subseq_append_left)
  qed
next
  case (3 e items)
  show ?case
  proof (cases "column_name e")
    case None
    have "subseq (concat (map (map snd \<circ> collect_params_from_expr) items)) (concat (map placeholders items))"
      by (rule subseq_concat_map) (simp add: 3 None)
    then show ?thesis using None 3(1) by (simp add: map_concat list_emb_append_mono)
  next
    case (Some c)
    have "subseq (concat (map (map snd \<circ> (\<lambda>item. collect_placeholders_with_column item (Some c))) items))
        (concat (map placeholders items))"
      by (rule subseq_concat_map) (simp add: with_column_in_order)
    then show ?thesis using Some by (simp add: map_concat subseq_append_left)
  qed
qed auto

lemma from_selection_in_order: "subseq (map snd (from_selection s)) (selection_placeholders s)"
  by (cases s) (simp_all add: from_selection_def selection_placeholders_def from_expr_in_order)

lemma collected_in_order: "collected st = Some cols \<Longrightarrow> subseq (map snd cols) (statement_placeholders st)"
proof (induction st rule: collected.induct)
  case (1 t assignments selection)
  have "subseq (concat (map (map snd \<circ> (\<lambda>(target, e). collect_placeholders_with_column e (column_from_assignment_target target))) assignments))
      (concat (map (placeholders \<circ> snd) assignments))"
    by (rule subseq_concat_map) (auto simp: with_column_in_order)
  then show ?case using 1 list_emb_append_mono [OF _ from_selection_in_order] by (auto simp: map_concat)
qed (auto intro: from_selection_in_order)

lemma somes_map_fst: "list_all (\<lambda>c. fst c \<noteq> None) cols \<Longrightarrow> map Some (somes (map fst cols)) = map fst cols"
  by (induction cols) auto

text \<open>
  Where the columns found for the parameters of a statement are as many as its placeholders, the columns are those of
  the placeholders, position by position: each is what the traversal found at that placeholder, in the order of the text.
\<close>

theorem columns_of_placeholders:
  assumes "parameter_columns st = Some columns" "length columns = length (statement_placeholders st)"
  shows "collected st = Some (zip (map Some columns) (statement_placeholders st))"
proof -
  obtain cols where cols: "collected st = Some cols" "list_all (\<lambda>c. fst c \<noteq> None) cols" "columns = somes (map fst cols)"
    using assms(1) by (auto simp: parameter_columns_def split: bind_splits if_splits)
  have fsts: "map Some columns = map fst cols" using cols(2,3) somes_map_fst by simp
  then have "length (map snd cols) = length (statement_placeholders st)"
    using assms(2) by (metis length_map)
  then have "map snd cols = statement_placeholders st"
    using subseq_same_length [OF collected_in_order [OF cols(1)]] by simp
  then show ?thesis using cols(1) fsts zip_map_fst_snd [of cols] by simp
qed

definition sample_update :: statement where
  "sample_update = UpdateStmt (NamedTable [''users''])
     [(ColumnName [''name''], Placeholder ''?''), (ColumnName [''age''], BinaryOp (Identifier ''age'') (Placeholder ''?''))]
     (Some (BinaryOp (BinaryOp (Identifier ''id'') (Placeholder ''?''))
        (InList (CompoundIdentifier [''users'', ''kind'']) [Placeholder ''?'', Placeholder ''?''])))"

lemma sample_update_columns:
  "parameter_columns sample_update = Some [''name'', ''age'', ''id'', ''kind'', ''kind'']"
  by (simp add: parameter_columns_def sample_update_def from_selection_def object_name_last_part_def)

theorem columns_of_placeholders_witness:
  "collected sample_update = Some (zip (map Some [''name'', ''age'', ''id'', ''kind'', ''kind'']) (replicate 5 ''?''))"
proof -
  have "statement_placeholders sample_update = replicate 5 ''?''"
    by (simp add: sample_update_def selection_placeholders_def numeral_eq_Suc)
  then show ?thesis using columns_of_placeholders [OF sample_update_columns] by simp
qed

text \<open>
  The traversal is not that of the conditions: a bare column beside \<open>AND\<close> takes the placeholders of the other side, so
  the parameter of \<open>WHERE active AND id = ?\<close> is described as the column \<open>active\<close>; and a numbered placeholder is described by where
  it stands, not by its number.
\<close>

lemma placeholder_of_another_column:
  "parameter_columns (QueryStmt \<lparr>q_body = SelectExpr [NamedTable [''users'']]
     (Some (BinaryOp (Identifier ''active'') (BinaryOp (Identifier ''id'') (Placeholder ''?'')))), q_locks = 0\<rparr>) = Some [''active'']"
  by (simp add: parameter_columns_def from_selection_def selection_from_query_def)

lemma numbered_by_position:
  "parameter_columns (QueryStmt \<lparr>q_body = SelectExpr [NamedTable [''users'']]
     (Some (BinaryOp (BinaryOp (Identifier ''name'') (Placeholder ''$2'')) (BinaryOp (Identifier ''id'') (Placeholder ''$1'')))), q_locks = 0\<rparr>)
     = Some [''name'', ''id'']"
  by (simp add: parameter_columns_def from_selection_def selection_from_query_def)

section \<open>What stripping locks keeps\<close>

definition unlock :: "statement list \<Rightarrow> statement list" where
  "unlock statements = (if statements = [] then []
     else case clear_locks (last statements) of None \<Rightarrow> statements | Some cleared \<Rightarrow> butlast statements @ [cleared])"

lemma clear_locks_cleared: "clear_locks st = Some cleared \<Longrightarrow> clear_locks cleared = None"
  by (cases st) (auto split: if_splits)

lemma strip_select_locks_unlock:
  "strip_select_locks parse print sql =
     (case parse sql of None \<Rightarrow> (sql, False)
      | Some statements \<Rightarrow> if unlock statements = statements then (sql, False)
          else (join ''; '' (map print (unlock statements)), True))"
proof -
  have "clear_locks (last sts) = Some c \<Longrightarrow> sts \<noteq> [] \<Longrightarrow> butlast sts @ [c] \<noteq> sts" for sts c
    using clear_locks_cleared by (metis append_butlast_last_id last_snoc option.distinct(1))
  then show ?thesis
    by (auto simp: strip_select_locks_def unlock_def split: option.splits)
qed

lemma unlock_unlock: "unlock (unlock sts) = unlock sts"
  by (auto simp: unlock_def clear_locks_cleared split: option.splits)

lemma unlock_butlast: "butlast (unlock sts) = butlast sts"
  by (auto simp: unlock_def split: option.splits)

text \<open>
  A text whose last statement takes no locks is left as it is, byte for byte; otherwise the new text, where the
  printer gives a text of the statements it printed, reads as the same statements without the locks of the last one, and a second
  pass leaves it as it is.
\<close>

theorem strip_select_locks_once:
  assumes "parse sql = Some statements"
    "parse (join ''; '' (map print (unlock statements))) = Some (unlock statements)"
  shows "parse (fst (strip_select_locks parse print sql)) = Some (unlock statements)
    \<and> snd (strip_select_locks parse print sql) = (unlock statements \<noteq> statements)
    \<and> (unlock statements = statements \<longrightarrow> fst (strip_select_locks parse print sql) = sql)
    \<and> strip_select_locks parse print (fst (strip_select_locks parse print sql)) = (fst (strip_select_locks parse print sql), False)"
  using assms by (auto simp: strip_select_locks_unlock unlock_unlock)

definition locked_query :: "nat \<Rightarrow> statement" where
  "locked_query n = QueryStmt \<lparr>q_body = SelectExpr [NamedTable [''t'']] None, q_locks = n\<rparr>"

definition locked_text :: string where
  "locked_text = ''SELECT 1; SELECT * FROM t FOR UPDATE''"

definition sample_parse :: parser where
  "sample_parse sql = Some [locked_query 0, locked_query (if sql = locked_text then 1 else 0)]"

definition sample_print :: "statement \<Rightarrow> string" where
  "sample_print st = ''SELECT * FROM t''"

lemma sample_unlock: "unlock [locked_query 0, locked_query 1] = [locked_query 0, locked_query 0]"
  by (simp add: unlock_def locked_query_def)

lemma sample_reparsed: "sample_parse (join ''; '' (map sample_print [locked_query 0, locked_query 0])) = Some [locked_query 0, locked_query 0]"
  by (simp add: sample_parse_def sample_print_def locked_text_def)

theorem strip_select_locks_once_witness:
  "sample_parse (fst (strip_select_locks sample_parse sample_print locked_text)) = Some [locked_query 0, locked_query 0]"
proof -
  have "sample_parse locked_text = Some [locked_query 0, locked_query 1]" by (simp add: sample_parse_def)
  from strip_select_locks_once [of sample_parse, OF this, of sample_print] show ?thesis
    by (simp only: sample_unlock sample_reparsed simp_thms)
qed

end
