(* ===== verification/Handlers.thy ===== *)
theory Handlers
  imports Session_Properties Sql_Ast Batch
begin

text \<open>
  The Flight SQL handlers \<^verbatim>\<open>service/handlers/{ticket,statement,prepared,transaction}.rs\<close> with \<^verbatim>\<open>service/execute.rs\<close>
  and \<^verbatim>\<open>service/convert.rs\<close>, on the session that \<open>prepare_request\<close> returned. An error of a session becomes a status; a
  blocking task that panics becomes one too. A query's result is produced by a task that the
  response does not wait for: here it runs next, and the response carries what the producer met with. The clock, which
  only \<open>touch\<close> reads, stands still during a request. Metrics are counted elsewhere.
\<close>

type_synonym ('v, 'a, 'ty) client = "('v, ('a, 'ty) batch, 'ty field list) session"

type_synonym ('v, 'a, 'ty, 'x) handler = "(('v, 'a, 'ty) client, status, 'x) step"

type_synonym ('v, 'a, 'ty, 'q) backend = "('v, ('a, 'ty) batch, 'ty field list, 'q) engine"

text \<open>
  What the handlers take from libraries: the SQL parser and printer, Arrow, its IPC encoding of a schema, the schema of a
  \<open>FlightInfo\<close>, and the conversion of an array to engine values.
\<close>

record ('v, 'a, 'ty) front =
  fr_parse :: parser
  fr_print :: "statement \<Rightarrow> string"
  fr_arrow :: "('a, 'ty) arrow"
  fr_values :: "'a \<Rightarrow> server_error + 'v list"
  fr_utf8 :: 'ty
  fr_ipc :: "'ty field list \<Rightarrow> server_error + u8 list"
  fr_info :: "'ty field list \<Rightarrow> string + unit"

section \<open>Statuses\<close>

definition of_session :: "('st, server_error, 'x) step \<Rightarrow> ('st, status, 'x) step" where
  "of_session m s = run_map (\<lambda>(r, s'). (case r of Inl e \<Rightarrow> Inl (status_from_error e) | Inr x \<Rightarrow> Inr x, s')) (m s)"

definition panicked :: status where
  "panicked = mk_status CodeInternal ''blocking task panicked''"

text \<open>
  \<open>spawn_blocking\<close> with its two \<open>map_err\<close>. The operations that run there panic, if they do, while the statement is
  admitted, before they change the session.
\<close>

definition blocking :: "('st, server_error, 'x) step \<Rightarrow> ('st, status, 'x) step" where
  "blocking m s = (case m s of Panic \<Rightarrow> Ret (Inl panicked, s) | Ret p \<Rightarrow> of_session (\<lambda>_. Ret p) s)"

definition invalid_argument :: "string \<Rightarrow> status" where
  "invalid_argument m = mk_status CodeInvalidArgument m"

definition result_step :: "'e + 'x \<Rightarrow> ('st, 'e, 'x) step" where
  "result_step r s = Ret (r, s)"

section \<open>Tickets\<close>

datatype statement_ticket_kind = Prepared | Ephemeral

fun kind_number :: "statement_ticket_kind \<Rightarrow> int" where
  "kind_number Prepared = 1"
| "kind_number Ephemeral = 2"

record ticket_payload =
  tp_version :: nat
  tp_kind :: int
  tp_statement_handle :: "u8 list"
  tp_fallback_sql :: "string option"
  tp_returns_rows :: "bool option"

definition current_version :: nat where
  "current_version = 2"

definition ticket_new :: "statement_ticket_kind \<Rightarrow> ticket_payload" where
  "ticket_new kind = \<lparr>tp_version = current_version, tp_kind = kind_number kind, tp_statement_handle = [],
     tp_fallback_sql = None, tp_returns_rows = None\<rparr>"

definition with_handle :: "statement_handle \<Rightarrow> ticket_payload \<Rightarrow> ticket_payload" where
  "with_handle h t = t\<lparr>tp_statement_handle := handle_to_bytes h\<rparr>"

definition with_fallback_sql :: "string \<Rightarrow> ticket_payload \<Rightarrow> ticket_payload" where
  "with_fallback_sql sql t = t\<lparr>tp_fallback_sql := Some sql\<rparr>"

definition with_returns_rows :: "bool \<Rightarrow> ticket_payload \<Rightarrow> ticket_payload" where
  "with_returns_rows b t = t\<lparr>tp_returns_rows := Some b\<rparr>"

definition ticket_handle :: "ticket_payload \<Rightarrow> statement_handle option" where
  "ticket_handle t = (if tp_statement_handle t = [] then None else handle_from_bytes (tp_statement_handle t))"

definition ticket_kind :: "ticket_payload \<Rightarrow> statement_ticket_kind option" where
  "ticket_kind t = (if tp_kind t = 1 then Some Prepared else if tp_kind t = 2 then Some Ephemeral else None)"

definition returns_rows_flag :: "ticket_payload \<Rightarrow> bool" where
  "returns_rows_flag t = (case tp_returns_rows t of Some b \<Rightarrow> b | None \<Rightarrow> True)"

section \<open>What the client sends\<close>

text \<open>A stream of record batches, in which the transport or the decoding can fail.\<close>

datatype flight_error = TonicError status | OtherFlightError string

fun status_from_flight_error :: "flight_error \<Rightarrow> status" where
  "status_from_flight_error (TonicError st) = st"
| "status_from_flight_error (OtherFlightError e) = mk_status CodeInternal (''flight decode error: '' @ e)"

type_synonym ('a, 'ty) upload = "(flight_error + ('a, 'ty) batch) list"

fun collect_record_batches :: "('a, 'ty) upload \<Rightarrow> status + ('a, 'ty) batch list" where
  "collect_record_batches [] = Inr []"
| "collect_record_batches (Inl e # rest) = Inl (status_from_flight_error e)"
| "collect_record_batches (Inr b # rest) = try_ok (collect_record_batches rest) (\<lambda>bs. Inr (b # bs))"

text \<open>\<open>values[row_idx]\<close> panics where there are fewer values than rows.\<close>

definition push_column_values ::
    "('a \<Rightarrow> server_error + 'v list) \<Rightarrow> 'a \<Rightarrow> 'v list list \<Rightarrow> (server_error + 'v list list) run" where
  "push_column_values values array rows =
     (case values array of Inl e \<Rightarrow> Ret (Inl e)
      | Inr vs \<Rightarrow> if length vs < length rows then Panic else Ret (Inr (map2 (\<lambda>row v. row @ [v]) rows vs)))"

fun push_columns ::
    "('a \<Rightarrow> server_error + 'v list) \<Rightarrow> 'a list \<Rightarrow> 'v list list \<Rightarrow> (server_error + 'v list list) run" where
  "push_columns values [] rows = Ret (Inr rows)"
| "push_columns values (c # cs) rows = rbind (push_column_values values c rows)
     (\<lambda>r. case r of Inl e \<Rightarrow> Ret (Inl e) | Inr rows' \<Rightarrow> push_columns values cs rows')"

definition record_batch_to_params ::
    "('a \<Rightarrow> server_error + 'v list) \<Rightarrow> ('a, 'ty) batch \<Rightarrow> (server_error + 'v list list) run" where
  "record_batch_to_params values b = push_columns values (b_columns b) (replicate (b_rows b) [])"

fun parameter_rows ::
    "('a \<Rightarrow> server_error + 'v list) \<Rightarrow> ('a, 'ty) upload \<Rightarrow> (status + 'v list list) run" where
  "parameter_rows values [] = Ret (Inr [])"
| "parameter_rows values (Inl e # rest) = Ret (Inl (status_from_flight_error e))"
| "parameter_rows values (Inr b # rest) = rbind (record_batch_to_params values b)
     (\<lambda>r. case r of Inl e \<Rightarrow> Ret (Inl (status_from_error e))
        | Inr rows \<Rightarrow> run_map (\<lambda>q. try_ok q (\<lambda>more. Inr (rows @ more))) (parameter_rows values rest))"

definition collect_parameter_sets ::
    "('a \<Rightarrow> server_error + 'v list) \<Rightarrow> ('a, 'ty) upload \<Rightarrow> (status + 'v list list) run" where
  "collect_parameter_sets values up =
     run_map (\<lambda>r. try_ok r (\<lambda>ps. Inr (if ps = [] then [[]] else ps))) (parameter_rows values up)"

section \<open>Executing\<close>

text \<open>\<open>as i64\<close>, and the addition of a release build, which wraps.\<close>

definition wrap_i64 :: "int \<Rightarrow> int" where
  "wrap_i64 n = sint (word_of_int n :: 64 word)"

fun execute_batches ::
    "('v, 'a, 'ty, 'q) backend \<Rightarrow> nat \<Rightarrow> string \<Rightarrow> 'v list list \<Rightarrow> int \<Rightarrow> (('v, 'a, 'ty) client, server_error, int) step" where
  "execute_batches eng now sql [] total' = sret total'"
| "execute_batches eng now sql (ps # others) total' =
     sbind (execute_statement_with_params eng now sql ps)
       (\<lambda>affected. execute_batches eng now sql others (wrap_i64 (total' + wrap_i64 (int affected))))"

definition execute_statement_batches ::
    "('v, 'a, 'ty, 'q) backend \<Rightarrow> nat \<Rightarrow> string \<Rightarrow> 'v list list \<Rightarrow> (('v, 'a, 'ty) client, server_error, int) step" where
  "execute_statement_batches eng now sql param_batches =
     (if param_batches = [] then
        sbind (execute_statement_with_params eng now sql []) (\<lambda>affected. sret (wrap_i64 (int affected)))
      else execute_batches eng now sql param_batches 0)"

text \<open>The answer of a \<open>DoGet\<close>: a stream with what the producer met with, or the count of affected rows in a header.\<close>

datatype 'q get_response = StreamOf "server_error + 'q" | AffectedRows int

text \<open>
  \<open>execute_query_streaming\<close>: the two checks of the set-up (\<open>c1\<close>, before and after the monitoring connection is made) and
  the producer's own (\<open>c2\<close>). The producer does not go through \<open>execute_query\<close>: no admission, no recovery, no \<open>touch\<close>.
\<close>

definition execute_query_streaming ::
    "('v, 'a, 'ty, 'q) backend \<Rightarrow> bool \<times> bool \<Rightarrow> string \<Rightarrow> 'v list option \<Rightarrow> ('v, 'a, 'ty, 'q get_response) handler" where
  "execute_query_streaming eng c sql ps =
     sthen (blocking (check_cancelled (Some (fst c))))
       (\<lambda>s. run_map (\<lambda>(r, s'). (Inr (StreamOf r), s'))
          (sthen (check_cancelled (Some (snd c))) (sthen (ensure_lockdown eng)
             (ask (CallQuery sql ps) (\<lambda>l. e_query eng l sql ps))) s))"

text \<open>The close of an ephemeral statement, whose error is only logged.\<close>

definition close_if :: "bool \<Rightarrow> statement_handle \<Rightarrow> ('v, 'a, 'ty, unit) handler" where
  "close_if ephemeral h s =
     (if ephemeral then run_map (\<lambda>(r, s'). (Inr (), s')) (close_prepared_statement h s) else sret () s)"

definition execute_prepared_query_with_params ::
    "('v, 'a, 'ty, 'q) backend \<Rightarrow> bool \<times> bool \<Rightarrow> statement_handle \<Rightarrow> 'ty field list prepared_meta \<Rightarrow> 'v list \<Rightarrow>
     ('v, 'a, 'ty, 'q get_response) handler" where
  "execute_prepared_query_with_params eng c h meta ps =
     sthen (close_if (pm_ephemeral meta) h)
       (execute_query_streaming eng c (pm_sql meta) (if ps = [] then None else Some ps))"

definition taken_parameters :: "statement_handle \<Rightarrow> ('v, 'a, 'ty, 'v list) handler" where
  "taken_parameters h = sbind (of_session (take_prepared_statement_parameters h))
     (\<lambda>ps. sret (case ps of Some vs \<Rightarrow> vs | None \<Rightarrow> []))"

definition execute_prepared_query_handle ::
    "('v, 'a, 'ty, 'q) backend \<Rightarrow> bool \<times> bool \<Rightarrow> statement_handle \<Rightarrow> 'ty field list prepared_meta \<Rightarrow>
     ('v, 'a, 'ty, 'q get_response) handler" where
  "execute_prepared_query_handle eng c h meta =
     sbind (taken_parameters h) (execute_prepared_query_with_params eng c h meta)"

definition execute_prepared_update_handle ::
    "('v, 'a, 'ty, 'q) backend \<Rightarrow> nat \<Rightarrow> statement_handle \<Rightarrow> 'ty field list prepared_meta \<Rightarrow>
     ('v, 'a, 'ty, 'q get_response) handler" where
  "execute_prepared_update_handle eng now h meta =
     sbind (taken_parameters h) (\<lambda>ps. sthen (close_if (pm_ephemeral meta) h)
       (sbind (blocking (execute_statement_batches eng now (pm_sql meta) (if ps = [] then [] else [ps])))
         (\<lambda>rows. sret (AffectedRows rows))))"

definition execute_by_kind ::
    "('v, 'a, 'ty, 'q) backend \<Rightarrow> nat \<Rightarrow> bool \<times> bool \<Rightarrow> statement_handle \<Rightarrow> 'ty field list prepared_meta \<Rightarrow>
     ('v, 'a, 'ty, 'q get_response) handler" where
  "execute_by_kind eng now c h meta =
     (if pm_is_query meta then execute_prepared_query_handle eng c h meta
      else execute_prepared_update_handle eng now h meta)"

section \<open>Statements\<close>

text \<open>The text that is executed, whether it holds several statements, and whether one of them returns rows.\<close>

definition rewritten :: "('v, 'a, 'ty) front \<Rightarrow> string \<Rightarrow> string" where
  "rewritten fr raw = fst (strip_select_locks (fr_parse fr) (fr_print fr) raw)"

definition multi_statement :: "('v, 'a, 'ty) front \<Rightarrow> string \<Rightarrow> bool" where
  "multi_statement fr sql = (case statement_count (fr_parse fr) sql of Some n \<Rightarrow> n > 1 | None \<Rightarrow> False)"

definition returns_rows :: "('v, 'a, 'ty) front \<Rightarrow> string \<Rightarrow> bool" where
  "returns_rows fr sql = (case contains_query (fr_parse fr) sql of Some b \<Rightarrow> b
     | None \<Rightarrow> (case parse_statement (fr_parse fr) sql of Some p \<Rightarrow> is_query p | None \<Rightarrow> False))"

definition schema_failed :: "string \<Rightarrow> status" where
  "schema_failed e = mk_status CodeInternal (''failed to encode schema: '' @ e)"

definition flight_info ::
    "('v, 'a, 'ty) front \<Rightarrow> 'ty field list \<Rightarrow> ticket_payload \<Rightarrow> ('v, 'a, 'ty, 'ty field list \<times> ticket_payload) handler" where
  "flight_info fr schema ticket =
     result_step (case fr_info fr schema of Inl e \<Rightarrow> Inl (schema_failed e) | Inr _ \<Rightarrow> Inr (schema, ticket))"

text \<open>
  The planning of an ad-hoc statement: its schema, and whether it returns rows. \<open>c\<close> is the state of the request's
  cancellation.
\<close>

definition plan_statement ::
    "('v, 'a, 'ty) front \<Rightarrow> ('v, 'a, 'ty, 'q) backend \<Rightarrow> nat \<Rightarrow> bool \<Rightarrow> string \<Rightarrow> ('v, 'a, 'ty, 'ty field list \<times> bool) handler" where
  "plan_statement fr eng now c sql s =
     (let rows = returns_rows fr sql in
      if \<not> multi_statement fr sql \<and> (rows \<or> parse_statement (fr_parse fr) sql = None) then
        (case schema_for_query_cancellable eng now sql (Some c) s of
           Panic \<Rightarrow> Ret (Inl panicked, s)
         | Ret (Inr schema, s') \<Rightarrow> Ret (Inr (schema, True), s')
         | Ret (Inl Cancelled, s') \<Rightarrow> Ret (Inl (status_from_error Cancelled), s')
         | Ret (Inl e, s') \<Rightarrow> if rows then Ret (Inl (status_from_error e), s') else Ret (Inr ([], False), s'))
      else sret ([], rows) s)"

definition get_flight_info_statement ::
    "('v, 'a, 'ty) front \<Rightarrow> ('v, 'a, 'ty, 'q) backend \<Rightarrow> nat \<Rightarrow> bool \<Rightarrow> string \<Rightarrow>
     ('v, 'a, 'ty, 'ty field list \<times> ticket_payload) handler" where
  "get_flight_info_statement fr eng now c raw_sql =
     (let sql = rewritten fr raw_sql in
      sbind (plan_statement fr eng now c sql) (\<lambda>(schema, rows).
        flight_info fr schema (with_returns_rows rows (with_fallback_sql sql (ticket_new Ephemeral)))))"

definition execute_ephemeral_ticket_statement ::
    "('v, 'a, 'ty, 'q) backend \<Rightarrow> nat \<Rightarrow> bool \<times> bool \<Rightarrow> string \<Rightarrow> bool \<Rightarrow> ('v, 'a, 'ty, 'q get_response) handler" where
  "execute_ephemeral_ticket_statement eng now c sql rows =
     (if rows then
        sbind (of_session (create_prepared_statement now sql True None True)) (\<lambda>h.
        sbind (of_session (get_prepared_statement_meta h)) (execute_prepared_query_handle eng c h))
      else sbind (blocking (execute_statement eng now sql)) (\<lambda>affected. sret (AffectedRows affected)))"

text \<open>\<open>None\<close> is a ticket whose payload does not decode.\<close>

definition do_get_statement ::
    "('v, 'a, 'ty, 'q) backend \<Rightarrow> nat \<Rightarrow> bool \<times> bool \<Rightarrow> ticket_payload option \<Rightarrow> ('v, 'a, 'ty, 'q get_response) handler" where
  "do_get_statement eng now c ticket s =
     (case ticket of None \<Rightarrow> sfail (invalid_argument ''invalid ticket payload'') s
      | Some payload \<Rightarrow>
          (let fallback = (case tp_fallback_sql payload of
               Some sql \<Rightarrow> Some (execute_ephemeral_ticket_statement eng now c sql (returns_rows_flag payload)) | None \<Rightarrow> None) in
           case ticket_handle payload of
             Some h \<Rightarrow>
               rbind (get_prepared_statement_meta h s) (\<lambda>(r, s').
                 case r of
                   Inr meta \<Rightarrow> execute_by_kind eng now c h meta s'
                 | Inl PreparedStatementNotFound \<Rightarrow>
                     (case fallback of Some run \<Rightarrow> run s'
                      | None \<Rightarrow> sfail (invalid_argument ''unknown prepared statement'') s')
                 | Inl e \<Rightarrow> sfail (status_from_error e) s')
           | None \<Rightarrow>
               (case fallback of Some run \<Rightarrow> run s
                | None \<Rightarrow> sfail (invalid_argument ''invalid ticket payload'') s)))"

definition do_put_statement_update ::
    "('v, 'a, 'ty, 'q) backend \<Rightarrow> nat \<Rightarrow> string \<Rightarrow> ('v, 'a, 'ty, int) handler" where
  "do_put_statement_update eng now sql = blocking (execute_statement eng now sql)"

section \<open>Prepared statements\<close>

definition default_catalog :: string where
  "default_catalog = ''swanlake''"

definition parse_statement_handle :: "u8 list \<Rightarrow> status + statement_handle" where
  "parse_statement_handle bytes = ok_or (invalid_argument ''invalid prepared statement handle'') (handle_from_bytes bytes)"

definition resolve_session_and_meta ::
    "u8 list \<Rightarrow> ('v, 'a, 'ty, statement_handle \<times> 'ty field list prepared_meta) handler" where
  "resolve_session_and_meta bytes =
     sbind (if bytes = []
         then (\<lambda>s. result_step (ok_or (invalid_argument ''invalid prepared statement handle'') (last_prepared s)) s)
         else result_step (parse_statement_handle bytes)) (\<lambda>h.
       sbind (of_session (get_prepared_statement_meta h)) (\<lambda>meta. sret (h, meta)))"

definition find_field :: "'ty field list \<Rightarrow> string \<Rightarrow> 'ty field option" where
  "find_field schema name = find (\<lambda>field. eq_ignore_ascii_case (f_name field) name) schema"

text \<open>\<open>fields[idx % fields.len()]\<close>, which panics when there are none.\<close>

definition repeated_fields :: "nat \<Rightarrow> 'ty field list \<Rightarrow> 'ty field list run" where
  "repeated_fields n fs =
     (if n > 0 \<and> fs = [] then Panic else Ret (map (\<lambda>idx. fs ! (idx mod length fs)) [0..<n]))"

definition shape_size :: "statement \<Rightarrow> nat \<Rightarrow> nat" where
  "shape_size st otherwise = (case insert_values_shape st of Some (rows, cols) \<Rightarrow> rows * cols | None \<Rightarrow> otherwise)"

definition insert_parameter_fields :: "statement \<Rightarrow> 'ty field list \<Rightarrow> nat \<Rightarrow> 'ty field list option run" where
  "insert_parameter_fields st schema param_count =
     (if \<not> insert_values_all_placeholders st then Ret None
      else (case get_insert_columns st of
         Some columns \<Rightarrow>
           if shape_size st (length columns) \<noteq> param_count then Ret None
           else (let fs = somes (map (find_field schema) columns) in
             if length fs \<noteq> length columns then Ret None
             else run_map Some (repeated_fields (shape_size st (length fs)) fs))
       | None \<Rightarrow>
           if shape_size st (length schema) \<noteq> param_count then Ret None
           else run_map Some (repeated_fields (shape_size st (length schema)) schema)))"

definition selection_parameter_fields :: "statement \<Rightarrow> 'ty field list \<Rightarrow> nat \<Rightarrow> 'ty field list option" where
  "selection_parameter_fields st schema param_count =
     Option.bind (parameter_columns st) (\<lambda>columns.
       let fs = somes (map (find_field schema) columns) in
       if length fs \<noteq> param_count then None else Some fs)"

definition target_table :: "statement \<Rightarrow> string list option" where
  "target_table st = (if is_insert st then get_insert_table st else get_statement_table st)"

definition qualified_name :: "string \<Rightarrow> string \<Rightarrow> string" where
  "qualified_name catalog table = catalog @ ''.'' @ table"

definition infer_parameter_schema ::
    "('v, 'a, 'ty) front \<Rightarrow> ('v, 'a, 'ty, 'q) backend \<Rightarrow> string \<Rightarrow> nat \<Rightarrow> ('v, 'a, 'ty, 'ty field list option) handler" where
  "infer_parameter_schema fr eng sql param_count =
     (case parse_statement (fr_parse fr) sql of None \<Rightarrow> sret None
      | Some parsed \<Rightarrow>
          (case target_table parsed of None \<Rightarrow> sret None
           | Some parts \<Rightarrow>
               sbind (of_session (resolve_catalog_and_table eng parts default_catalog)) (\<lambda>(catalog, table). \<lambda>s.
                 rbind (table_schema eng (qualified_name catalog table) s) (\<lambda>(r, s').
                   case r of Inl _ \<Rightarrow> Ret (Inr None, s')
                   | Inr schema \<Rightarrow>
                       if is_insert parsed
                       then run_map (\<lambda>f. (Inr f, s')) (insert_parameter_fields parsed schema param_count)
                       else Ret (Inr (selection_parameter_fields parsed schema param_count), s')))))"

text \<open>\<open>(1..=param_count)\<close> fields of text, named \<open>$1\<close>, \<open>$2\<close> and so on.\<close>

definition text_parameters :: "('v, 'a, 'ty) front \<Rightarrow> nat \<Rightarrow> 'ty field list" where
  "text_parameters fr n = map (\<lambda>i. \<lparr>f_name = ''$'' @ show_nat i, f_type = fr_utf8 fr, f_nullable = True\<rparr>) [1..<n + 1]"

definition parameter_schema ::
    "('v, 'a, 'ty) front \<Rightarrow> ('v, 'a, 'ty, 'q) backend \<Rightarrow> string \<Rightarrow> nat \<Rightarrow> ('v, 'a, 'ty, u8 list) handler" where
  "parameter_schema fr eng sql n =
     (if n > 0 then sbind (infer_parameter_schema fr eng sql n) (\<lambda>inferred.
        of_session (result_step (fr_ipc fr (case inferred of Some fs \<Rightarrow> fs | None \<Rightarrow> text_parameters fr n))))
      else sret [])"

definition dataset_schema ::
    "('v, 'a, 'ty) front \<Rightarrow> ('v, 'a, 'ty, 'q) backend \<Rightarrow> nat \<Rightarrow> string \<Rightarrow> ('v, 'a, 'ty, 'ty field list option \<times> u8 list) handler" where
  "dataset_schema fr eng now sql =
     (if returns_rows fr sql \<and> \<not> multi_statement fr sql then
        blocking (sbind (schema_for_query eng now sql) (\<lambda>schema.
          sbind (result_step (fr_ipc fr schema)) (\<lambda>bytes. sret (Some schema, bytes))))
      else sret (None, []))"

definition do_action_create_prepared_statement ::
    "('v, 'a, 'ty) front \<Rightarrow> ('v, 'a, 'ty, 'q) backend \<Rightarrow> nat \<Rightarrow> string \<Rightarrow>
     ('v, 'a, 'ty, u8 list \<times> u8 list \<times> u8 list) handler" where
  "do_action_create_prepared_statement fr eng now raw_sql =
     (let sql = rewritten fr raw_sql in
      sbind (dataset_schema fr eng now sql) (\<lambda>(cached, dataset).
      sbind (blocking (parameter_count eng now sql)) (\<lambda>n.
      sbind (parameter_schema fr eng sql n) (\<lambda>params.
      sbind (of_session (create_prepared_statement now sql (returns_rows fr sql) cached False)) (\<lambda>h.
      sret (handle_to_bytes h, dataset, params))))))"

definition get_flight_info_prepared_statement ::
    "('v, 'a, 'ty) front \<Rightarrow> ('v, 'a, 'ty, 'q) backend \<Rightarrow> nat \<Rightarrow> u8 list \<Rightarrow> ('v, 'a, 'ty, 'ty field list \<times> ticket_payload) handler" where
  "get_flight_info_prepared_statement fr eng now bytes =
     sbind (resolve_session_and_meta bytes) (\<lambda>(h, meta).
     sbind (if pm_is_query meta then
         (case pm_schema meta of Some schema \<Rightarrow> sret schema
          | None \<Rightarrow> sbind (blocking (schema_for_query eng now (pm_sql meta))) (\<lambda>schema.
              sthen (of_session (cache_prepared_statement_schema h schema)) (sret schema)))
       else sret [])
     (\<lambda>schema. flight_info fr schema (with_returns_rows (pm_is_query meta) (with_handle h (ticket_new Prepared)))))"

definition do_get_prepared_statement ::
    "('v, 'a, 'ty, 'q) backend \<Rightarrow> nat \<Rightarrow> bool \<times> bool \<Rightarrow> u8 list \<Rightarrow> ('v, 'a, 'ty, 'q get_response) handler" where
  "do_get_prepared_statement eng now c bytes =
     sbind (resolve_session_and_meta bytes) (\<lambda>(h, meta). execute_by_kind eng now c h meta)"

definition do_put_prepared_statement_query ::
    "('v, 'a, 'ty) front \<Rightarrow> u8 list \<Rightarrow> ('a, 'ty) upload \<Rightarrow> ('v, 'a, 'ty, unit) handler" where
  "do_put_prepared_statement_query fr bytes up =
     sbind (resolve_session_and_meta bytes) (\<lambda>(h, meta).
     sbind (\<lambda>s. run_map (\<lambda>r. (r, s)) (collect_parameter_sets (fr_values fr) up)) (\<lambda>sets.
       case sets of [] \<Rightarrow> sret () | first # _ \<Rightarrow> of_session (set_prepared_statement_parameters h first)))"

definition do_action_close_prepared_statement :: "u8 list \<Rightarrow> ('v, 'a, 'ty, unit) handler" where
  "do_action_close_prepared_statement bytes =
     sbind (result_step (parse_statement_handle bytes)) (\<lambda>h. of_session (close_prepared_statement h))"

text \<open>The batches of an \<open>INSERT\<close>, aligned where the statement names columns, go to the appender.\<close>

definition append_batches ::
    "('v, 'a, 'ty) front \<Rightarrow> ('v, 'a, 'ty, 'q) backend \<Rightarrow> nat \<Rightarrow> string list option \<Rightarrow> string \<times> string \<Rightarrow> ('a, 'ty) batch list \<Rightarrow>
     (('v, 'a, 'ty) client, server_error, int) step" where
  "append_batches fr eng now columns target batches =
     sbind (table_schema eng (qualified_name (fst target) (snd target))) (\<lambda>schema.
     sbind (result_step (case columns of None \<Rightarrow> Inr batches
         | Some cols \<Rightarrow> collect (\<lambda>b. align_batch_to_table_schema (fr_arrow fr) b schema (Some cols)) batches)) (\<lambda>aligned.
     sbind (insert_with_appender eng now (fst target) (snd target) aligned) (\<lambda>rows. sret (wrap_i64 (int rows)))))"

definition put_insert ::
    "('v, 'a, 'ty) front \<Rightarrow> ('v, 'a, 'ty, 'q) backend \<Rightarrow> nat \<Rightarrow> string \<Rightarrow> statement \<Rightarrow> string list \<Rightarrow> ('a, 'ty) upload \<Rightarrow>
     ('v, 'a, 'ty, int) handler" where
  "put_insert fr eng now sql parsed parts up =
     sbind (result_step (collect_record_batches up)) (\<lambda>batches.
       if batches = [] then blocking (execute_statement_batches eng now sql [])
       else sbind (of_session (resolve_catalog_and_table eng parts default_catalog)) (\<lambda>target.
         blocking (append_batches fr eng now (get_insert_columns parsed) target batches)))"

definition put_other ::
    "('v, 'a, 'ty) front \<Rightarrow> ('v, 'a, 'ty, 'q) backend \<Rightarrow> nat \<Rightarrow> string \<Rightarrow> ('a, 'ty) upload \<Rightarrow> ('v, 'a, 'ty, int) handler" where
  "put_other fr eng now sql up =
     sbind (\<lambda>s. run_map (\<lambda>r. (r, s)) (collect_parameter_sets (fr_values fr) up))
       (\<lambda>sets. blocking (execute_statement_batches eng now sql sets))"

definition insert_target :: "('v, 'a, 'ty) front \<Rightarrow> string \<Rightarrow> (statement \<times> string list) option" where
  "insert_target fr sql = Option.bind (parse_statement (fr_parse fr) sql)
     (\<lambda>p. if is_insert p then map_option (Pair p) (get_insert_table p) else None)"

definition do_put_prepared_statement_update ::
    "('v, 'a, 'ty) front \<Rightarrow> ('v, 'a, 'ty, 'q) backend \<Rightarrow> nat \<Rightarrow> u8 list \<Rightarrow> ('a, 'ty) upload \<Rightarrow> ('v, 'a, 'ty, int) handler" where
  "do_put_prepared_statement_update fr eng now bytes up =
     sbind (resolve_session_and_meta bytes) (\<lambda>(h, meta).
       if pm_is_query meta then sfail (invalid_argument ''prepared statement returns rows; use ExecuteQuery'')
       else (case insert_target fr (pm_sql meta) of
           Some (parsed, parts) \<Rightarrow> put_insert fr eng now (pm_sql meta) parsed parts up
         | None \<Rightarrow> put_other fr eng now (pm_sql meta) up))"

section \<open>Transactions\<close>

definition do_action_begin_transaction :: "('v, 'a, 'ty, 'q) backend \<Rightarrow> nat \<Rightarrow> ('v, 'a, 'ty, u8 list) handler" where
  "do_action_begin_transaction eng now = sbind (blocking (begin_transaction eng now)) (\<lambda>t. sret (tx_to_bytes t))"

definition tolerated :: "int \<Rightarrow> string \<Rightarrow> bool" where
  "tolerated action message =
     (if action = 1 then contains_str ''Cannot commit when autocommit is enabled'' message
      else contains_str ''cannot rollback when autocommit is enabled'' message)"

definition do_action_end_transaction ::
    "('v, 'a, 'ty, 'q) backend \<Rightarrow> nat \<Rightarrow> u8 list \<Rightarrow> int \<Rightarrow> ('v, 'a, 'ty, unit) handler" where
  "do_action_end_transaction eng now bytes action =
     (case tx_from_bytes bytes of None \<Rightarrow> sfail (invalid_argument ''invalid transaction ID'')
      | Some t \<Rightarrow> (\<lambda>s. run_map (\<lambda>(r, s'). (case r of
            Inl st \<Rightarrow> if tolerated action (st_message st) then Inr () else Inl st | Inr _ \<Rightarrow> Inr (), s'))
          (blocking (if action = 1 then commit_transaction eng now t else rollback_transaction eng now t) s)))"

end
