(* ===== verification/Handlers_Properties.thy ===== *)
theory Handlers_Properties
  imports Handlers Gate
begin

text \<open>
  What a session may be asked: the requests of the Flight SQL front as one function, the invariant that only admitted SQL is kept and
  run, and what the handlers make of statements, tickets, parameters and uploads.
\<close>

section \<open>Invariants of steps\<close>

definition keeps :: "('st \<Rightarrow> bool) \<Rightarrow> ('st, 'e, 'x) step \<Rightarrow> bool" where
  "keeps I m \<longleftrightarrow> (\<forall>s r s'. I s \<longrightarrow> m s = Ret (r, s') \<longrightarrow> I s')"

named_theorems keeps_intros \<open>rules for invariants of steps\<close>

lemma keepsI: "(\<And>s r s'. I s \<Longrightarrow> m s = Ret (r, s') \<Longrightarrow> I s') \<Longrightarrow> keeps I m"
  by (simp add: keeps_def)

lemma keepsD: "keeps I m \<Longrightarrow> I s \<Longrightarrow> m s = Ret (r, s') \<Longrightarrow> I s'"
  by (simp add: keeps_def)

lemma keeps_ret [keeps_intros]: "keeps I (sret x)"
  by (simp add: keeps_def sret_def)

lemma keeps_fail [keeps_intros]: "keeps I (sfail e)"
  by (simp add: keeps_def sfail_def)

lemma keeps_result [keeps_intros]: "keeps I (result_step r)"
  by (simp add: keeps_def result_step_def)

lemma keeps_modify: "(\<And>s. I s \<Longrightarrow> I (f s)) \<Longrightarrow> keeps I (smodify f)"
  by (simp add: keeps_def smodify_def)

lemma keeps_bind_value:
  assumes "keeps I m" "\<And>s x s'. I s \<Longrightarrow> m s = Ret (Inr x, s') \<Longrightarrow> keeps I (f x)"
  shows "keeps I (sbind m f)"
proof (rule keepsI)
  fix s r s' assume I: "I s" "sbind m f s = Ret (r, s')"
  from I(2) show "I s'"
  proof (cases rule: sbind_cases)
    case (error e)
    show ?thesis by (rule keepsD [OF assms(1) I(1) error(1)])
  next
    case (ok x t)
    show ?thesis by (rule keepsD [OF assms(2) [OF I(1) ok(1)] keepsD [OF assms(1) I(1) ok(1)] ok(2)])
  qed
qed

lemma keeps_bind [keeps_intros]: "keeps I m \<Longrightarrow> (\<And>x. keeps I (f x)) \<Longrightarrow> keeps I (sbind m f)"
  by (rule keeps_bind_value)

lemma keeps_then_value:
  assumes "keeps I m" "\<And>s s' x. I s \<Longrightarrow> m s = Ret (Inr x, s') \<Longrightarrow> keeps I n"
  shows "keeps I (sthen m n)"
proof (rule keepsI)
  fix s r s' assume I: "I s" "sthen m n s = Ret (r, s')"
  from I(2) show "I s'"
  proof (cases rule: sthen_cases)
    case (error e)
    show ?thesis by (rule keepsD [OF assms(1) I(1) error(1)])
  next
    case (ok x t)
    show ?thesis by (rule keepsD [OF assms(2) [OF I(1) ok(1)] keepsD [OF assms(1) I(1) ok(1)] ok(2)])
  qed
qed

lemma keeps_then [keeps_intros]: "keeps I m \<Longrightarrow> keeps I n \<Longrightarrow> keeps I (sthen m n)"
  by (rule keeps_then_value)

lemma keeps_if [keeps_intros]: "(c \<Longrightarrow> keeps I m) \<Longrightarrow> (\<not> c \<Longrightarrow> keeps I n) \<Longrightarrow> keeps I (if c then m else n)"
  by simp

lemma keeps_option [keeps_intros]:
  "keeps I m \<Longrightarrow> (\<And>x. keeps I (f x)) \<Longrightarrow> keeps I (case p of None \<Rightarrow> m | Some x \<Rightarrow> f x)"
  by (cases p) auto

lemma keeps_list [keeps_intros]:
  "keeps I m \<Longrightarrow> (\<And>x xs. keeps I (f x xs)) \<Longrightarrow> keeps I (case p of [] \<Rightarrow> m | x # xs \<Rightarrow> f x xs)"
  by (cases p) auto

lemma keeps_prod [keeps_intros]: "(\<And>x y. keeps I (f x y)) \<Longrightarrow> keeps I (case p of (x, y) \<Rightarrow> f x y)"
  by (cases p) auto

lemma keeps_map [keeps_intros]: "keeps I m \<Longrightarrow> keeps I (\<lambda>s. run_map (\<lambda>(r, s'). (g r, s')) (m s))"
  by (fastforce simp: keeps_def run_map_def run_simps)

lemma keeps_still [keeps_intros]: "keeps I (\<lambda>s. run_map (\<lambda>r. (r, s)) (c s))"
  by (auto simp: keeps_def run_map_def run_simps)

lemma keeps_rbind [keeps_intros]:
  assumes "keeps I m" "\<And>r. keeps I (f r)"
  shows "keeps I (\<lambda>s. rbind (m s) (\<lambda>(r, s'). f r s'))"
proof (rule keepsI)
  fix s r s' assume "I s" "rbind (m s) (\<lambda>(r, s'). f r s') = Ret (r, s')"
  then show "I s'" using assms by (auto simp: run_simps dest: keepsD)
qed

lemma keeps_of_session [keeps_intros]: "keeps I m \<Longrightarrow> keeps I (of_session m)"
  unfolding of_session_def by (rule keeps_map)

lemma blocking_Ret:
  "blocking m s = Ret (r, s') \<longleftrightarrow> m s = Panic \<and> r = Inl panicked \<and> s' = s \<or> of_session m s = Ret (r, s') \<and> m s \<noteq> Panic"
  by (cases "m s") (auto simp: blocking_def of_session_def)

lemma keeps_blocking [keeps_intros]: "keeps I m \<Longrightarrow> keeps I (blocking m)"
  by (rule keepsI) (metis blocking_Ret keepsD [OF keeps_of_session])

lemma keeps_recovery:
  assumes "keeps I m" "\<And>e s. I s \<Longrightarrow> I (recover_from_transaction_abort eng e s)"
  shows "keeps I (with_transaction_recovery eng m b)"
proof (rule keepsI)
  fix s r s' assume I: "I s" "with_transaction_recovery eng m b s = Ret (r, s')"
  from I(2) consider x where "m s = Ret (Inr x, s')"
    | e t where "m s = Ret (Inl e, t)" "s' = t \<or> s' = recover_from_transaction_abort eng e t
        \<or> m (recover_from_transaction_abort eng e t) = Ret (r, s')"
    unfolding with_recovery_Ret_iff by (auto split: if_splits)
  then show "I s'"
  proof cases
    case 1
    show ?thesis by (rule keepsD [OF assms(1) I(1) 1])
  next
    case 2
    have t: "I t" by (rule keepsD [OF assms(1) I(1) 2(1)])
    from 2(2) t assms(2) [OF t, of e] keepsD [OF assms(1) assms(2) [OF t]] show ?thesis by blast
  qed
qed

section \<open>Only admitted SQL\<close>

abbreviation passes :: "session_auth option \<Rightarrow> string \<Rightarrow> bool" where
  "passes auth sql \<equiv> validate_user_sql auth sql = Ret (Inr ())"

text \<open>A call whose SQL the server wrote itself, or whose SQL was admitted. A count of parameters is not asked for its SQL.\<close>

fun admitted_call :: "session_auth option \<Rightarrow> ('v, 'b) call \<Rightarrow> bool" where
  "admitted_call auth (CallQuery sql _) = passes auth sql"
| "admitted_call auth (CallStatement o' sql) = (o' = User \<longrightarrow> passes auth sql)"
| "admitted_call auth (CallStatementTelemetry sql _) = passes auth sql"
| "admitted_call auth (CallStatementParams sql _) = passes auth sql"
| "admitted_call auth (CallSchema sql) = passes auth sql"
| "admitted_call auth _ = True"

definition orderly :: "session_auth option \<Rightarrow> ('v, 'b, 's) session \<Rightarrow> bool" where
  "orderly auth s \<longleftrightarrow> s_auth s = auth \<and> (\<forall>c\<in>set (log s). admitted_call auth c)
     \<and> (\<forall>h p. prepared s h = Some p \<longrightarrow> passes auth (pm_sql (ps_meta p)))"

lemma orderly_updates [simp]:
  "orderly auth (s\<lparr>last_activity := n\<rparr>) = orderly auth s"
  "orderly auth (s\<lparr>cache := c\<rparr>) = orderly auth s"
  "orderly auth (s\<lparr>roots := rs\<rparr>) = orderly auth s"
  "orderly auth (s\<lparr>applied := b\<rparr>) = orderly auth s"
  "orderly auth (s\<lparr>aborted := ab\<rparr>) = orderly auth s"
  "orderly auth (s\<lparr>transactions := ts\<rparr>) = orderly auth s"
  "orderly auth (s\<lparr>transactions := ts, aborted := ab\<rparr>) = orderly auth s"
  "orderly auth (s\<lparr>tx_gen := g\<rparr>) = orderly auth s"
  "orderly auth (s\<lparr>executions := m\<rparr>) = orderly auth s"
  "orderly auth (s\<lparr>handle_gen := g\<rparr>) = orderly auth s"
  by (simp_all add: orderly_def)

lemma orderly_log: "orderly auth s \<Longrightarrow> admitted_call auth c \<Longrightarrow> orderly auth (s\<lparr>log := log s @ [c]\<rparr>)"
  by (auto simp: orderly_def)

lemma orderly_recover: "orderly auth s \<Longrightarrow> orderly auth (recover_from_transaction_abort eng e s)"
  by (auto simp: recover_from_transaction_abort_def orderly_def Let_def split: sum.splits)

lemma ask_orderly [keeps_intros]: "admitted_call auth c \<Longrightarrow> keeps (orderly auth) (ask c f)"
  by (auto simp: keeps_def ask_def orderly_log)

lemma recovery_orderly [keeps_intros]:
  "keeps (orderly auth) m \<Longrightarrow> keeps (orderly auth) (with_transaction_recovery eng m b)"
  by (rule keeps_recovery) (simp_all add: orderly_recover)

lemma touch_orderly [keeps_intros]: "keeps (orderly auth) (touch n)"
  by (simp add: touch_def keeps_modify)

lemma admit_orderly [keeps_intros]: "keeps (orderly auth) (admit sql)"
  by (auto simp: keeps_def admit_def run_map_def run_simps)

lemma admit_passes: "orderly auth s \<Longrightarrow> admit sql s = Ret (Inr x, s') \<Longrightarrow> passes auth sql"
  by (auto simp: admit_def run_map_def run_simps orderly_def)

lemma lockdown_orderly [keeps_intros]: "keeps (orderly auth) (ensure_lockdown eng)"
proof (rule keepsI)
  fix s r s' assume I: "orderly auth s" "ensure_lockdown eng s = Ret (r, s')"
  have k: "keeps (orderly auth) (sthen (ask (CallCreateDir d) f) (sthen (ask (CallBatch b) g) (smodify (\<lambda>t. t\<lparr>applied := True\<rparr>))))"
    for d b f g by (intro keeps_intros keeps_modify) simp_all
  from I show "orderly auth s'"
    by (auto simp: ensure_lockdown_def sret_def split: option.splits if_splits dest: keepsD [OF k])
qed

lemma enter_orderly [keeps_intros]: "keeps (orderly auth) (enter eng now sql)"
  unfolding enter_def by (intro keeps_intros)

lemma enter_passes: "orderly auth s \<Longrightarrow> enter eng now sql s = Ret (Inr x, s') \<Longrightarrow> passes auth sql"
  by (auto simp: enter_def sthen_def run_simps split: sum.splits dest: admit_passes)

lemma clear_orderly [keeps_intros]: "keeps (orderly auth) clear_schema_cache"
  by (simp add: clear_schema_cache_def keeps_modify)

lemma invalidating_orderly [keeps_intros]: "keeps (orderly auth) m \<Longrightarrow> keeps (orderly auth) (invalidating sql m)"
  unfolding invalidating_def by (intro keeps_intros)

lemma statement_orderly [keeps_intros]: "keeps (orderly auth) (execute_statement eng now sql)"
  unfolding execute_statement_def execute_statement_inner_def
  by (rule keeps_then_value [OF admit_orderly]) (intro keeps_intros; auto dest: admit_passes)

lemma statement_params_orderly [keeps_intros]: "keeps (orderly auth) (execute_statement_with_params eng now sql ps)"
  unfolding execute_statement_with_params_def
  by (rule keeps_then_value [OF enter_orderly]) (intro keeps_intros; auto dest: enter_passes)

lemma check_cancelled_orderly [keeps_intros]: "keeps (orderly auth) (check_cancelled c)"
  unfolding check_cancelled_def by (intro keeps_intros)

lemma cache_orderly [keeps_intros]:
  "keeps (orderly auth) (cache_lookup k)" "keeps (orderly auth) (cache_store k sc)"
  by (auto simp: keeps_def cache_lookup_def cache_store_def sret_def smodify_def split: if_splits prod.splits)

lemma schema_orderly [keeps_intros]: "keeps (orderly auth) (schema_for_query_cancellable eng now sql c)"
  unfolding schema_for_query_cancellable_def
  by (rule keeps_then [OF check_cancelled_orderly keeps_then_value [OF enter_orderly]])
    (intro keeps_intros; auto dest: enter_passes)

lemma schema_for_query_orderly [keeps_intros]: "keeps (orderly auth) (schema_for_query eng now sql)"
  unfolding schema_for_query_def by (rule schema_orderly)

lemma count_orderly [keeps_intros]: "keeps (orderly auth) (parameter_count eng now sql)"
  unfolding parameter_count_def by (intro keeps_intros) simp

lemma table_schema_orderly [keeps_intros]: "keeps (orderly auth) (table_schema eng t)"
  and catalog_orderly [keeps_intros]: "keeps (orderly auth) (current_catalog eng)"
  and appender_orderly [keeps_intros]: "keeps (orderly auth) (insert_with_appender eng now ca ta bs)"
  unfolding table_schema_def current_catalog_def insert_with_appender_def by (intro keeps_intros; simp)+

lemma resolve_orderly [keeps_intros]: "keeps (orderly auth) (resolve_catalog_and_table eng ps d)"
proof (rule keepsI)
  fix s r s' assume "orderly auth s" "resolve_catalog_and_table eng ps d s = Ret (r, s')"
  then show "orderly auth s'"
    by (auto simp: resolve_catalog_and_table_def run_simps split: list.splits dest: keepsD [OF catalog_orderly])
qed

lemma find_orderly [keeps_intros]: "keeps (orderly auth) (find_prepared h)"
  by (auto simp: keeps_def find_prepared_def)

lemma find_passes: "orderly auth s \<Longrightarrow> find_prepared h s = Ret (Inr p, s') \<Longrightarrow> passes auth (pm_sql (ps_meta p))"
  by (auto simp: find_prepared_def orderly_def ok_or_def split: option.splits)

lemma put_orderly: "passes auth (pm_sql (ps_meta p)) \<Longrightarrow> keeps (orderly auth) (put_prepared h p)"
  by (auto simp: put_prepared_def orderly_def intro!: keeps_modify)

lemma prepared_orderly [keeps_intros]:
  "keeps (orderly auth) (get_prepared_statement_meta h)"
  "keeps (orderly auth) (cache_prepared_statement_schema h sc)"
  "keeps (orderly auth) (set_prepared_statement_parameters h ps)"
  "keeps (orderly auth) (take_prepared_statement_parameters h)"
  unfolding get_prepared_statement_meta_def cache_prepared_statement_schema_def
    set_prepared_statement_parameters_def take_prepared_statement_parameters_def
  by (rule keeps_bind_value [OF find_orderly]; intro keeps_intros put_orderly; auto dest: find_passes)+

lemma meta_passes: "orderly auth s \<Longrightarrow> get_prepared_statement_meta h s = Ret (Inr m, s') \<Longrightarrow> passes auth (pm_sql m)"
  unfolding get_prepared_statement_meta_def by (erule sbind_cases) (auto simp: sret_def dest: find_passes)

lemma close_orderly [keeps_intros]: "keeps (orderly auth) (close_prepared_statement h)"
  unfolding close_prepared_statement_def
  by (intro keeps_intros keeps_modify) (auto simp: orderly_def split: if_splits)

lemma create_orderly [keeps_intros]: "keeps (orderly auth) (create_prepared_statement now sql q sc e)"
proof -
  have "passes auth sql \<Longrightarrow> keeps (orderly auth) (\<lambda>s. case next_handle (handle_gen s) of (h, g) \<Rightarrow>
          Ret (Inr h, s\<lparr>handle_gen := g,
            prepared := (prepared s)(h \<mapsto> \<lparr>ps_meta = \<lparr>pm_sql = sql, pm_is_query = q,
              pm_schema = sc, pm_ephemeral = e\<rparr>, ps_pending = None\<rparr>),
            last_prepared := Some h\<rparr>))"
    by (auto simp: keeps_def next_handle_def orderly_def)
  with admit_passes show ?thesis unfolding create_prepared_statement_def
    by (intro keeps_then_value [OF admit_orderly] keeps_then [OF touch_orderly]) blast
qed

lemma begin_orderly [keeps_intros]: "keeps (orderly auth) (begin_transaction eng now)"
  unfolding begin_transaction_def
  by (intro keeps_intros) (auto simp: keeps_def next_transaction_def orderly_def)

lemma end_orderly: "keeps (orderly auth) (end_transaction eng now t sql)"
proof -
  have absent: "keeps (orderly auth) (transaction_absent t)"
    by (auto simp: keeps_def transaction_absent_def sfail_def sret_def split: if_splits)
  have ended: "keeps (orderly auth) (sthen (with_transaction_recovery eng (ask (CallBatch sql) f) True)
      (smodify (\<lambda>s. s\<lparr>transactions := transactions s - {t}, aborted := aborted s - {t}\<rparr>)))" for f
    by (intro keeps_intros keeps_modify) simp_all
  show ?thesis unfolding end_transaction_def
    by (rule keeps_then [OF touch_orderly], rule keepsI)
      (auto split: if_splits dest: keepsD [OF absent] keepsD [OF ended])
qed

lemma commit_orderly [keeps_intros]: "keeps (orderly auth) (commit_transaction eng now t)"
  and rollback_orderly [keeps_intros]: "keeps (orderly auth) (rollback_transaction eng now t)"
  unfolding commit_transaction_def rollback_transaction_def by (rule end_orderly)+

section \<open>Requests\<close>

text \<open>The requests a client can make of its session, with the clock reading of each.\<close>

datatype ('a, 'ty) request =
    RawSql nat string bool
  | GetFlightInfoStatement nat bool string
  | DoGetStatement nat "bool \<times> bool" "ticket_payload option"
  | DoPutStatementUpdate nat string
  | CreatePrepared nat string
  | GetFlightInfoPrepared nat "u8 list"
  | DoGetPrepared nat "bool \<times> bool" "u8 list"
  | DoPutPreparedQuery "u8 list" "('a, 'ty) upload"
  | DoPutPreparedUpdate nat "u8 list" "('a, 'ty) upload"
  | ClosePrepared "u8 list"
  | BeginTransaction nat
  | EndTransaction nat "u8 list" int

fun serve ::
    "('v, 'a, 'ty) front \<Rightarrow> ('v, 'a, 'ty, 'q) backend \<Rightarrow> ('a, 'ty) request \<Rightarrow> ('v, 'a, 'ty) client \<Rightarrow> ('v, 'a, 'ty) client run" where
  "serve fr eng (RawSql now sql c) = state_after (raw_sql_flight_info eng now sql c)"
| "serve fr eng (GetFlightInfoStatement now c sql) = state_after (get_flight_info_statement fr eng now c sql)"
| "serve fr eng (DoGetStatement now c ticket) = state_after (do_get_statement eng now c ticket)"
| "serve fr eng (DoPutStatementUpdate now sql) = state_after (do_put_statement_update eng now sql)"
| "serve fr eng (CreatePrepared now sql) = state_after (do_action_create_prepared_statement fr eng now sql)"
| "serve fr eng (GetFlightInfoPrepared now bytes) = state_after (get_flight_info_prepared_statement fr eng now bytes)"
| "serve fr eng (DoGetPrepared now c bytes) = state_after (do_get_prepared_statement eng now c bytes)"
| "serve fr eng (DoPutPreparedQuery bytes up) = state_after (do_put_prepared_statement_query fr bytes up)"
| "serve fr eng (DoPutPreparedUpdate now bytes up) = state_after (do_put_prepared_statement_update fr eng now bytes up)"
| "serve fr eng (ClosePrepared bytes) = state_after (do_action_close_prepared_statement bytes)"
| "serve fr eng (BeginTransaction now) = state_after (do_action_begin_transaction eng now)"
| "serve fr eng (EndTransaction now bytes action) = state_after (do_action_end_transaction eng now bytes action)"

text \<open>A session that has served requests one after the other.\<close>

inductive served ::
    "('v, 'a, 'ty) front \<Rightarrow> ('v, 'a, 'ty, 'q) backend \<Rightarrow> session_auth option \<Rightarrow> lockdown_template option \<Rightarrow> ('v, 'a, 'ty) client \<Rightarrow> bool"
    for fr eng auth tmpl where
  served_new: "served fr eng auth tmpl (new_session auth tmpl now)"
| served_request: "served fr eng auth tmpl s \<Longrightarrow> serve fr eng rq s = Ret s' \<Longrightarrow> served fr eng auth tmpl s'"

lemma raw_sql_orderly: "keeps (orderly auth) (raw_sql_flight_info eng now sql c)"
  unfolding raw_sql_flight_info_def
  by (rule keeps_then_value [OF admit_orderly]) (intro keeps_intros; auto dest: admit_passes)

lemma streaming_orderly: "passes auth sql \<Longrightarrow> keeps (orderly auth) (execute_query_streaming eng c sql ps)"
  unfolding execute_query_streaming_def by (intro keeps_intros) simp

lemma close_if_orderly [keeps_intros]: "keeps (orderly auth) (close_if e h)"
proof (rule keepsI)
  fix s r s' assume "orderly auth s" "close_if e h s = Ret (r, s')"
  then show "orderly auth s'"
    using keepsD [OF close_orderly, of auth s h]
    by (auto simp: close_if_def sret_def run_map_def run_simps split: if_splits)
qed

lemma taken_orderly [keeps_intros]: "keeps (orderly auth) (taken_parameters h)"
  unfolding taken_parameters_def by (intro keeps_intros)

lemma query_handle_orderly:
  "passes auth (pm_sql meta) \<Longrightarrow> keeps (orderly auth) (execute_prepared_query_handle eng c h meta)"
  unfolding execute_prepared_query_handle_def execute_prepared_query_with_params_def
  by (intro keeps_intros streaming_orderly)

lemma execute_batches_orderly [keeps_intros]: "keeps (orderly auth) (execute_batches eng now sql pss n)"
  by (induction eng now sql pss n rule: execute_batches.induct) (auto intro: keeps_intros)

lemma statement_batches_orderly [keeps_intros]: "keeps (orderly auth) (execute_statement_batches eng now sql pss)"
  unfolding execute_statement_batches_def by (intro keeps_intros)

lemma execute_by_kind_orderly:
  "passes auth (pm_sql meta) \<Longrightarrow> keeps (orderly auth) (execute_by_kind eng now c h meta)"
  unfolding execute_by_kind_def execute_prepared_update_handle_def
  by (intro keeps_intros query_handle_orderly)

lemma plan_orderly [keeps_intros]: "keeps (orderly auth) (plan_statement fr eng now c sql)"
proof (rule keepsI)
  fix s r s' assume "orderly auth s" "plan_statement fr eng now c sql s = Ret (r, s')"
  then show "orderly auth s'"
    by (auto simp: plan_statement_def Let_def sret_def split: if_splits run.splits prod.splits sum.splits server_error.splits
        dest: keepsD [OF schema_orderly])
qed

lemma of_session_Inr: "of_session m s = Ret (Inr x, s') \<longleftrightarrow> m s = Ret (Inr x, s')"
  by (cases "m s") (auto simp: of_session_def split: prod.splits sum.splits)

lemma ephemeral_orderly [keeps_intros]: "keeps (orderly auth) (execute_ephemeral_ticket_statement eng now c sql rows)"
  unfolding execute_ephemeral_ticket_statement_def
  by (intro keeps_intros keeps_bind_value [where m = "of_session (get_prepared_statement_meta h)" for h] query_handle_orderly)
    (auto simp: of_session_Inr dest: meta_passes)

lemma do_get_statement_orderly: "keeps (orderly auth) (do_get_statement eng now c ticket)"
proof (rule keepsI)
  fix s r s' assume s: "orderly auth s" and run: "do_get_statement eng now c ticket s = Ret (r, s')"
  note eph = keepsD [OF ephemeral_orderly]
  show "orderly auth s'"
  proof (cases ticket)
    case None
    with s run show ?thesis by (simp add: do_get_statement_def sfail_def)
  next
    case (Some payload)
    show ?thesis
    proof (cases "ticket_handle payload")
      case None
      with Some s run show ?thesis by (auto simp: do_get_statement_def sfail_def split: option.splits dest: eph)
    next
      case (Some h)
      with \<open>ticket = Some payload\<close> run obtain q t where q: "get_prepared_statement_meta h s = Ret (q, t)"
        by (cases "get_prepared_statement_meta h s") (auto simp: do_get_statement_def Let_def)
      have t: "orderly auth t" by (rule keepsD [OF prepared_orderly(1) s q])
      show ?thesis
      proof (cases q)
        case (Inr meta)
        with q run Some \<open>ticket = Some payload\<close> have "execute_by_kind eng now c h meta t = Ret (r, s')"
          by (simp add: do_get_statement_def Let_def)
        then show ?thesis using keepsD [OF execute_by_kind_orderly] t meta_passes [OF s] q Inr by blast
      next
        case (Inl e)
        with q run Some \<open>ticket = Some payload\<close> t show ?thesis
          by (cases e) (auto simp: do_get_statement_def sfail_def split: option.splits dest: eph)
      qed
    qed
  qed
qed

lemma resolve_meta_orderly [keeps_intros]: "keeps (orderly auth) (resolve_session_and_meta bytes)"
  unfolding resolve_session_and_meta_def
  by (intro keeps_intros) (auto simp: keeps_def result_step_def)

lemma resolve_meta_passes:
  assumes "orderly auth s" "resolve_session_and_meta bytes s = Ret (Inr (h, meta), s')"
  shows "passes auth (pm_sql meta)"
proof -
  have "keeps (orderly auth) (if bytes = []
         then (\<lambda>s. result_step (ok_or (invalid_argument ''invalid prepared statement handle'') (last_prepared s)) s)
         else result_step (parse_statement_handle bytes))" (is "keeps _ ?first")
    by (intro keeps_intros) (auto simp: keeps_def result_step_def)
  with assms show ?thesis unfolding resolve_session_and_meta_def
    by (auto simp: sbind_Ret_iff of_session_Inr sret_def dest: meta_passes keepsD)
qed

definition inferred_from ::
    "statement \<Rightarrow> nat \<Rightarrow> server_error + 'ty field list \<Rightarrow> ('v, 'a, 'ty, 'ty field list option) handler" where
  "inferred_from p n r = (\<lambda>s'. case r of Inl _ \<Rightarrow> Ret (Inr None, s')
     | Inr schema \<Rightarrow> if is_insert p then run_map (\<lambda>f. (Inr f, s')) (insert_parameter_fields p schema n)
         else Ret (Inr (selection_parameter_fields p schema n), s'))"

lemma inferred_keeps [keeps_intros]: "keeps I (inferred_from p n r)"
  by (auto simp: keeps_def inferred_from_def run_map_def run_simps split: sum.splits if_splits)

lemma infer_parameter_schema_alt:
  "infer_parameter_schema fr eng sql n =
     (case parse_statement (fr_parse fr) sql of None \<Rightarrow> sret None
      | Some parsed \<Rightarrow> (case target_table parsed of None \<Rightarrow> sret None
         | Some parts \<Rightarrow> sbind (of_session (resolve_catalog_and_table eng parts default_catalog)) (\<lambda>(catalog, table).
             \<lambda>s. rbind (table_schema eng (qualified_name catalog table) s) (\<lambda>(r, s'). inferred_from parsed n r s'))))"
  unfolding infer_parameter_schema_def inferred_from_def by (rule refl)

lemma infer_orderly [keeps_intros]: "keeps (orderly auth) (infer_parameter_schema fr eng sql n)"
  unfolding infer_parameter_schema_alt by (intro keeps_intros)

lemma create_handler_orderly: "keeps (orderly auth) (do_action_create_prepared_statement fr eng now sql)"
  unfolding do_action_create_prepared_statement_def Let_def dataset_schema_def parameter_schema_def
  by (intro keeps_intros)

lemma flight_info_orderly [keeps_intros]: "keeps (orderly auth) (flight_info fr schema t)"
  unfolding flight_info_def by (intro keeps_intros)

lemma info_handlers_orderly:
  "keeps (orderly auth) (get_flight_info_statement fr eng now c sql)"
  "keeps (orderly auth) (get_flight_info_prepared_statement fr eng now bytes)"
  unfolding get_flight_info_statement_def get_flight_info_prepared_statement_def Let_def
  by (intro keeps_intros)+

lemma append_orderly [keeps_intros]: "keeps (orderly auth) (append_batches fr eng now cols target bs)"
  unfolding append_batches_def by (intro keeps_intros)

lemma put_handlers_orderly:
  "keeps (orderly auth) (do_put_statement_update eng now sql)"
  "keeps (orderly auth) (do_put_prepared_statement_query fr bytes up)"
  "keeps (orderly auth) (do_put_prepared_statement_update fr eng now bytes up)"
  unfolding do_put_statement_update_def do_put_prepared_statement_query_def do_put_prepared_statement_update_def
    put_insert_def put_other_def
  by (intro keeps_intros)+

lemma do_get_prepared_orderly: "keeps (orderly auth) (do_get_prepared_statement eng now c bytes)"
  unfolding do_get_prepared_statement_def
  by (rule keeps_bind_value [OF resolve_meta_orderly])
    (auto intro!: execute_by_kind_orderly dest: resolve_meta_passes)

lemma other_handlers_orderly:
  "keeps (orderly auth) (do_action_close_prepared_statement bytes)"
  "keeps (orderly auth) (do_action_begin_transaction eng now)"
  unfolding do_action_close_prepared_statement_def do_action_begin_transaction_def by (intro keeps_intros)+

lemma end_handler_orderly: "keeps (orderly auth) (do_action_end_transaction eng now bytes action)"
  unfolding do_action_end_transaction_def by (intro keeps_intros)

lemma keeps_state_after: "keeps I m \<Longrightarrow> I s \<Longrightarrow> state_after m s = Ret s' \<Longrightarrow> I s'"
  by (cases "m s") (auto simp: state_after_def dest: keepsD)

lemmas handlers_orderly =
  raw_sql_orderly [THEN keeps_state_after] info_handlers_orderly [THEN keeps_state_after]
  do_get_statement_orderly [THEN keeps_state_after] put_handlers_orderly [THEN keeps_state_after]
  create_handler_orderly [THEN keeps_state_after] do_get_prepared_orderly [THEN keeps_state_after]
  other_handlers_orderly [THEN keeps_state_after] end_handler_orderly [THEN keeps_state_after]

lemma serve_orderly: "orderly auth s \<Longrightarrow> serve fr eng rq s = Ret s' \<Longrightarrow> orderly auth s'"
  by (cases rq) (auto dest: handlers_orderly)

lemma served_orderly: "served fr eng auth tmpl s \<Longrightarrow> orderly auth s"
proof (induction rule: served.induct)
  case (served_new now)
  show ?case by (simp add: orderly_def new_session_def)
next
  case (served_request s rq s')
  show ?case by (rule serve_orderly [OF served_request.IH served_request.hyps(2)])
qed

text \<open>
  Whatever a client asks of its session in whatever order, with tickets of its own making, an
  empty or a foreign handle, and however the engine answers, the SQL of every query, statement and
  schema request that reaches the connection on the client's behalf was admitted for this session,
  though results are streamed on a path that does not ask again; only the statement whose
  parameters are counted need not have been.
\<close>

theorem served_sql_is_admitted:
  assumes "served fr eng auth tmpl s" "c \<in> set (log s)"
  shows "case c of CallQuery sql _ \<Rightarrow> validate_user_sql auth sql = Ret (Inr ())
    | CallStatement User sql \<Rightarrow> validate_user_sql auth sql = Ret (Inr ())
    | CallStatementTelemetry sql _ \<Rightarrow> validate_user_sql auth sql = Ret (Inr ())
    | CallStatementParams sql _ \<Rightarrow> validate_user_sql auth sql = Ret (Inr ())
    | CallSchema sql \<Rightarrow> validate_user_sql auth sql = Ret (Inr ())
    | _ \<Rightarrow> True"
  using served_orderly [OF assms(1)] assms(2) by (cases c) (auto simp: orderly_def split: origin.splits)

section \<open>Counting parameters\<close>

text \<open>The session's binding, and a call that is in its log, stay.\<close>

definition logged :: "session_auth option \<Rightarrow> ('v, 'b) call \<Rightarrow> ('v, 'b, 's) session \<Rightarrow> bool" where
  "logged auth c s \<longleftrightarrow> s_auth s = auth \<and> c \<in> set (log s)"

lemma ask_logged [keeps_intros]: "keeps (logged auth c) (ask d f)"
  by (auto simp: keeps_def ask_def logged_def)

lemma recover_logged: "logged auth c s \<Longrightarrow> logged auth c (recover_from_transaction_abort eng e s)"
  by (auto simp: recover_from_transaction_abort_def logged_def Let_def split: sum.splits)

lemma recovery_logged [keeps_intros]: "keeps (logged auth c) m \<Longrightarrow> keeps (logged auth c) (with_transaction_recovery eng m b)"
  by (rule keeps_recovery) (simp_all add: recover_logged)

lemma resolve_logged [keeps_intros]: "keeps (logged auth c) (resolve_catalog_and_table eng ps d)"
proof (rule keepsI)
  have "keeps (logged auth c) (current_catalog eng)" unfolding current_catalog_def by (intro keeps_intros)
  moreover fix s r s' assume "logged auth c s" "resolve_catalog_and_table eng ps d s = Ret (r, s')"
  ultimately show "logged auth c s'"
    by (auto simp: resolve_catalog_and_table_def run_simps split: list.splits dest: keepsD)
qed

lemma parameter_schema_logged: "keeps (logged auth c) (parameter_schema fr eng sql n)"
  unfolding parameter_schema_def infer_parameter_schema_alt table_schema_def by (intro keeps_intros)

lemma recover_auth [simp]: "s_auth (recover_from_transaction_abort eng e t) = s_auth t"
  by (simp add: recover_from_transaction_abort_def Let_def split: sum.splits)

lemma asked_logged:
  assumes "s_auth s = auth" "with_transaction_recovery eng (ask c f) b s = Ret (r, s')"
  shows "logged auth c s'"
proof -
  have c: "ask c f t = Ret (q, t') \<Longrightarrow> s_auth t = auth \<Longrightarrow> logged auth c t'" for t q t'
    by (auto simp: ask_def logged_def)
  from assms(2) consider x where "ask c f s = Ret (Inr x, s')"
    | e t where "ask c f s = Ret (Inl e, t)" "s' = t \<or> s' = recover_from_transaction_abort eng e t
        \<or> ask c f (recover_from_transaction_abort eng e t) = Ret (r, s')"
    unfolding with_recovery_Ret_iff by (auto split: if_splits)
  then show ?thesis
  proof cases
    case 1
    show ?thesis by (rule c [OF 1 assms(1)])
  next
    case 2
    have t: "logged auth c t" by (rule c [OF 2(1) assms(1)])
    then have "s_auth t = auth" by (simp add: logged_def)
    with 2(2) t recover_logged [OF t, of eng e] c [of "recover_from_transaction_abort eng e t"] show ?thesis by auto
  qed
qed

lemma lockdown_auth: "ensure_lockdown eng s = Ret (r, s') \<Longrightarrow> s_auth s' = s_auth s"
  by (auto simp: ensure_lockdown_def sthen_def sbind_Ret_iff ask_def smodify_def sret_def split: option.splits if_splits)

lemma parameter_count_logged:
  assumes "parameter_count eng now sql s = Ret (r, s')" "ensure_lockdown eng s = Ret (Inr (), s0)" "s_auth s = auth"
  shows "logged auth (CallParameterCount sql) s'"
proof -
  have "s_auth (s0\<lparr>last_activity := now\<rparr>) = auth" using lockdown_auth [OF assms(2)] assms(3) by simp
  moreover have "with_transaction_recovery eng (ask (CallParameterCount sql) (\<lambda>l. e_parameter_count eng l sql)) True
      (s0\<lparr>last_activity := now\<rparr>) = Ret (r, s')"
    using assms(1,2) by (simp add: parameter_count_def sthen_def sbind_def touch_def smodify_def)
  ultimately show ?thesis by (rule asked_logged)
qed

text \<open>
  The SQL of a statement to prepare reaches the engine before it is asked whether it may. Unless the text is
  one statement that returns rows, a statement that admission refuses is handed to the connection to count its
  parameters, and only then does the request fail.
\<close>

theorem counted_before_admission:
  assumes "validate_user_sql (s_auth s) (rewritten fr raw) = Ret (Inl e)"
    "\<not> returns_rows fr (rewritten fr raw) \<or> multi_statement fr (rewritten fr raw)"
    "ensure_lockdown eng s = Ret (Inr (), s0)"
    "do_action_create_prepared_statement fr eng now raw s = Ret (r, s')"
  shows "(\<exists>st. r = Inl st) \<and> CallParameterCount (rewritten fr raw) \<in> set (log s')"
proof -
  let ?sql = "rewritten fr raw"
  let ?I = "logged (s_auth s) (CallParameterCount ?sql)"
  have d: "dataset_schema fr eng now ?sql s = Ret (Inr (None, []), s)"
    using assms(2) by (auto simp: dataset_schema_def sret_def)
  obtain n t where n: "blocking (parameter_count eng now ?sql) s = Ret (n, t)"
    and rest: "(case n of Inl st \<Rightarrow> Ret (Inl st, t) | Inr k \<Rightarrow>
      sbind (parameter_schema fr eng ?sql k) (\<lambda>params.
      sbind (of_session (create_prepared_statement now ?sql (returns_rows fr ?sql) None False)) (\<lambda>h.
      sret (handle_to_bytes h, [], params))) t) = Ret (r, s')"
    using assms(4) d by (cases "blocking (parameter_count eng now ?sql) s")
      (auto simp: do_action_create_prepared_statement_def sbind_def Let_def)
  have "parameter_count eng now ?sql s \<noteq> Panic"
    using assms(3) by (simp add: parameter_count_def sthen_def sbind_def touch_def smodify_def
        with_transaction_recovery_def ask_def Let_def split: sum.splits)
  then obtain q where "parameter_count eng now ?sql s = Ret (q, t)"
    using n by (cases "parameter_count eng now ?sql s") (auto simp: blocking_def of_session_def)
  from parameter_count_logged [OF this assms(3) refl] have t: "?I t" .
  have refused: "of_session (create_prepared_statement now ?sql b None False) u = Ret (Inl (status_from_error e), u)"
    if "?I u" for u b
    using that assms(1) by (simp add: create_prepared_statement_def sthen_def sbind_def admit_def of_session_def logged_def)
  show ?thesis
  proof (cases n)
    case (Inl st)
    with rest t show ?thesis by (auto simp: logged_def)
  next
    case (Inr k)
    with rest have "sbind (parameter_schema fr eng ?sql k) (\<lambda>params.
      sbind (of_session (create_prepared_statement now ?sql (returns_rows fr ?sql) None False)) (\<lambda>h.
      sret (handle_to_bytes h, [], params))) t = Ret (r, s')" by simp
    then show ?thesis
    proof (cases rule: sbind_cases)
      case (error st)
      with keepsD [OF parameter_schema_logged t error(1)] show ?thesis by (simp add: logged_def)
    next
      case (ok params u)
      have "?I u" by (rule keepsD [OF parameter_schema_logged t ok(1)])
      with ok(2) refused [OF this] show ?thesis by (auto simp: sbind_def logged_def)
    qed
  qed
qed

section \<open>A sample front\<close>

definition plain_arrow :: "(nat list, nat) arrow" where
  "plain_arrow = \<lparr>ar_null = (\<lambda>ty n. replicate n 0), ar_cast = (\<lambda>a ty. Inr a), ar_slice = (\<lambda>a i n. take n (drop i a)),
     ar_concat = (\<lambda>as. Inr (concat as)), ar_try_new = (\<lambda>fs cs. Inr \<lparr>b_fields = fs, b_columns = cs, b_rows = 1\<rparr>),
     ar_index_of = (\<lambda>fs n. None), ar_show_schema = (\<lambda>fs. '''')\<rparr>"

text \<open>A parser that knows three texts; nothing else parses.\<close>

definition insert_text :: string where "insert_text = ''INSERT INTO t VALUES (?)''"

definition insert_plus_text :: string where "insert_plus_text = ''INSERT INTO t VALUES (? + 1)''"

definition query_text :: string where "query_text = ''SELECT 1''"

definition few_texts :: parser where
  "few_texts sql =
     (if sql = insert_text then Some [InsertStmt (Some [''t'']) [] (Some \<lparr>q_body = ValuesExpr [[Placeholder ''?'']], q_locks = 0\<rparr>)]
      else if sql = insert_plus_text then Some [InsertStmt (Some [''t'']) []
        (Some \<lparr>q_body = ValuesExpr [[BinaryOp (Placeholder ''?'') (OtherExpr [])]], q_locks = 0\<rparr>)]
      else if sql = query_text then Some [QueryStmt \<lparr>q_body = SelectExpr [] None, q_locks = 0\<rparr>]
      else None)"

definition sample_front :: "(nat, nat list, nat) front" where
  "sample_front = \<lparr>fr_parse = few_texts, fr_print = (\<lambda>st. []), fr_arrow = plain_arrow, fr_values = (\<lambda>a. Inr a),
     fr_utf8 = 0, fr_ipc = (\<lambda>fs. Inr []), fr_info = (\<lambda>fs. Inr ())\<rparr>"

definition sample_backend :: "(nat, nat list, nat, nat) backend" where
  "sample_backend = \<lparr>e_batch = (\<lambda>l sql. Inr ()), e_query = (\<lambda>l sql ps. Inr 7), e_statement = (\<lambda>l sql. Inr 1),
     e_statement_params = (\<lambda>l sql ps. Inr 1), e_parameter_count = (\<lambda>l sql. Inr 0), e_schema = (\<lambda>l sql. Inr []),
     e_appender = (\<lambda>l c t bs. Inr 1), e_table_schema = (\<lambda>l t. Inr []), e_current_catalog = (\<lambda>l. Inr ''lake''),
     e_attached = (\<lambda>l c. Inr False), e_data_roots = (\<lambda>l sql. Inr []), e_create_dir = (\<lambda>l d. Inr ())\<rparr>"

lemma backend_answers [simp]:
  "e_batch sample_backend l sql = Inr ()" "e_query sample_backend l sql ps = Inr 7"
  "e_statement sample_backend l sql = Inr 1" "e_statement_params sample_backend l sql vs = Inr 1"
  "e_parameter_count sample_backend l sql = Inr 0" "e_appender sample_backend l ca ta bs = Inr 1"
  "e_table_schema sample_backend l ta = Inr []" "e_current_catalog sample_backend l = Inr ''lake''"
  "e_create_dir sample_backend l d = Inr ()" "e_schema sample_backend l sql = Inr []"
  by (simp_all add: sample_backend_def)

definition sample_client :: "(nat, nat list, nat) client" where
  "sample_client = new_session (Some sample_auth) (Some sample_template) 0"

lemma client_fields:
  "s_auth sample_client = Some sample_auth" "s_template sample_client = Some sample_template"
  "log sample_client = []" "applied sample_client = False" "handle_gen sample_client = 1"
  "prepared sample_client = Map.empty" "last_prepared sample_client = None"
  by (simp_all add: sample_client_def new_session_def generator_start_def)

definition sample_lockdown :: string where
  "sample_lockdown = lockdown_sql sample_template False {}"

text \<open>The client's session after its lockdown.\<close>

definition locked_client :: "(nat, nat list, nat) client" where
  "locked_client = sample_client\<lparr>log := [CallCreateDir ''/s'', CallBatch sample_lockdown], applied := True\<rparr>"

lemma sample_locks: "ensure_lockdown sample_backend sample_client = Ret (Inr (), locked_client)"
  by (simp add: ensure_lockdown_def step_defs client_fields locked_client_def sample_lockdown_def)
    (simp add: sample_client_def new_session_def sample_auth_def sample_template_def)

lemma locked_client_fields:
  "s_auth locked_client = Some sample_auth" "ready locked_client" "prepared locked_client = Map.empty"
  "handle_gen locked_client = 1" "last_prepared locked_client = None"
  by (simp_all add: locked_client_def client_fields ready_def)

lemma lockdown_ready: "ready s \<Longrightarrow> ensure_lockdown eng s = Ret (Inr (), s)"
  by (auto simp: ensure_lockdown_def ready_def hardened_def sret_def split: option.splits)

lemma enter_ready: "ready s \<Longrightarrow> passes (s_auth s) sql \<Longrightarrow> enter eng now sql s = Ret (Inr (), s\<lparr>last_activity := now\<rparr>)"
  by (simp add: enter_def admit_def sthen_def sbind_def touch_def smodify_def lockdown_ready)

definition raw_attach_text :: string where "raw_attach_text = ''ATTACH 'x' AS y''"

lemma attach_refused: "validate_user_sql (Some sample_auth) raw_attach_text = Ret (Inl AttachNotPermitted)"
  unfolding raw_attach_text_def by code_simp

lemma query_passes: "passes (Some sample_auth) query_text"
  unfolding query_text_def by code_simp

lemma few_texts_attach: "few_texts raw_attach_text = None"
  by (simp add: few_texts_def raw_attach_text_def insert_text_def insert_plus_text_def query_text_def)

lemma sample_parses [simp]: "fr_parse sample_front = few_texts"
  by (simp add: sample_front_def)

lemma attach_shape: "returns_rows sample_front raw_attach_text = False" "multi_statement sample_front raw_attach_text = False"
  by (simp_all add: returns_rows_def multi_statement_def contains_query_def statement_count_def parse_statement_def
      few_texts_attach)

lemma rewritten_attach: "rewritten sample_front raw_attach_text = raw_attach_text"
  by (simp add: rewritten_def strip_select_locks_def few_texts_attach)

lemma counted_before_admission_witness:
  "\<exists>r s'. do_action_create_prepared_statement sample_front sample_backend 1 raw_attach_text sample_client = Ret (r, s')
    \<and> (\<exists>st. r = Inl st) \<and> CallParameterCount raw_attach_text \<in> set (log s')"
proof -
  let ?run = "do_action_create_prepared_statement sample_front sample_backend 1 raw_attach_text sample_client"
  have a: "validate_user_sql (s_auth sample_client) (rewritten sample_front raw_attach_text) = Ret (Inl AttachNotPermitted)"
    using attach_refused by (simp only: rewritten_attach client_fields)
  have b: "\<not> returns_rows sample_front (rewritten sample_front raw_attach_text) \<or> multi_statement sample_front (rewritten sample_front raw_attach_text)"
    by (simp add: rewritten_attach attach_shape)
  have "?run \<noteq> Panic"
    using a by (simp add: do_action_create_prepared_statement_def rewritten_attach Let_def dataset_schema_def attach_shape
        parameter_count_def parameter_schema_def
        blocking_def of_session_def sample_locks with_transaction_recovery_def create_prepared_statement_def admit_def
        step_defs client_fields locked_client_fields)
  then obtain r s' where run: "?run = Ret (r, s')" by (cases ?run) auto
  from counted_before_admission [OF a b sample_locks run] run show ?thesis by (simp add: rewritten_attach)
qed

lemma served_client: "served sample_front sample_backend (Some sample_auth) (Some sample_template) sample_client"
  unfolding sample_client_def by (rule served_new)

end
