(* ===== verification/Handlers_Results.thy ===== *)
theory Handlers_Results
  imports Handlers_Properties
begin

text \<open>
  What the handlers make of a ticket, of bound parameters and of an upload: the calls they put on the connection, in order,
  and what they leave in the session.
\<close>

lemmas handler_defs = of_session_def blocking_def sbind_def sthen_def sret_def sfail_def smodify_def ask_def touch_def result_step_def

lemma handle_bytes: "handle_to_bytes h \<noteq> []" "handle_from_bytes (handle_to_bytes h) = Some h"
proof -
  show "handle_from_bytes (handle_to_bytes h) = Some h" by (rule handle_codec.dec_enc)
  have "length (handle_to_bytes h) = 8" by (cases h) (simp add: handle_to_bytes_def)
  then show "handle_to_bytes h \<noteq> []" by auto
qed

section \<open>Ad-hoc queries\<close>

lemma streaming_ready:
  assumes "ready s"
  shows "execute_query_streaming eng (False, False) sql ps s
    = Ret (Inr (StreamOf (e_query eng (log s) sql ps)), s\<lparr>log := log s @ [CallQuery sql ps]\<rparr>)"
  using assms by (simp add: execute_query_streaming_def check_cancelled_def handler_defs lockdown_ready)

lemma ready_more [simp]:
  "ready (s\<lparr>handle_gen := g\<rparr>) = ready s" "ready (s\<lparr>last_prepared := q\<rparr>) = ready s"
  "ready (s\<lparr>prepared := p\<rparr>) = ready s" "ready (s\<lparr>last_activity := n\<rparr>) = ready s" "ready (s\<lparr>log := l\<rparr>) = ready s"
  by (simp_all add: ready_def hardened_def)

lemma ephemeral_query:
  assumes "passes (s_auth t) sql" "ready t" "prepared t (StatementHandle (handle_gen t)) = None"
  shows "\<exists>t'. execute_ephemeral_ticket_statement eng now (False, False) sql True t
      = Ret (Inr (StreamOf (e_query eng (log t) sql None)), t')
    \<and> log t' = log t @ [CallQuery sql None] \<and> prepared t' = prepared t \<and> last_prepared t' = None \<and> ready t'"
proof -
  have "(prepared t)(StatementHandle (handle_gen t) := None) = prepared t" using assms(3) by auto
  with assms show ?thesis
    by (simp add: execute_ephemeral_ticket_statement_def create_prepared_statement_def admit_def next_handle_def
        get_prepared_statement_meta_def find_prepared_def execute_prepared_query_handle_def taken_parameters_def
        take_prepared_statement_parameters_def put_prepared_def execute_prepared_query_with_params_def close_if_def
        close_prepared_statement_def handler_defs streaming_ready [unfolded ask_def])
qed

lemma planned_ticket:
  assumes "get_flight_info_statement fr eng now c raw s = Ret (Inr (schema, ticket), s1)" "returns_rows fr (rewritten fr raw)"
  shows "ticket_handle ticket = None \<and> tp_fallback_sql ticket = Some (rewritten fr raw) \<and> returns_rows_flag ticket"
proof -
  let ?sql = "rewritten fr raw"
  obtain r t where r: "plan_statement fr eng now c ?sql s = Ret (r, t)"
    using assms(1) by (cases "plan_statement fr eng now c ?sql s") (auto simp: get_flight_info_statement_def Let_def sbind_def)
  have "\<exists>sc. r = Inr (sc, True)" if "r = Inr p" for p
    using r assms(2) that
    by (auto simp: plan_statement_def Let_def sret_def split: if_splits run.splits prod.splits sum.splits server_error.splits)
  with assms(1) r show ?thesis
    by (cases r) (auto simp: get_flight_info_statement_def Let_def sbind_def flight_info_def result_step_def ticket_new_def
        with_fallback_sql_def with_returns_rows_def ticket_handle_def returns_rows_flag_def split: sum.splits)
qed

text \<open>
  The ticket of an ad-hoc query runs the query that was planned. Redeemed on any session that has been locked down and admits
  it, in whatever state, it puts the rewritten text on the connection once, without parameters, and streams the engine's answer
  to it; the prepared statements are as before. The last handle, however, to which an empty one falls back, is gone.
\<close>

theorem adhoc_ticket_runs_its_query:
  assumes "get_flight_info_statement fr eng now c raw s = Ret (Inr (schema, ticket), s1)" "returns_rows fr (rewritten fr raw)"
    and "validate_user_sql (s_auth t) (rewritten fr raw) = Ret (Inr ())" "ready t"
      "prepared t (StatementHandle (handle_gen t)) = None"
  shows "\<exists>t'. do_get_statement eng now' (False, False) (Some ticket) t
      = Ret (Inr (StreamOf (e_query eng (log t) (rewritten fr raw) None)), t')
    \<and> log t' = log t @ [CallQuery (rewritten fr raw) None] \<and> prepared t' = prepared t \<and> last_prepared t' = None"
  using planned_ticket [OF assms(1,2)] ephemeral_query [OF assms(3-5), of eng now'] by (auto simp: do_get_statement_def)

lemma rewritten_query: "rewritten sample_front query_text = query_text"
  by (simp add: rewritten_def strip_select_locks_def few_texts_def query_text_def insert_text_def insert_plus_text_def)

lemma query_shape: "returns_rows sample_front query_text" "\<not> multi_statement sample_front query_text"
  by (simp_all add: returns_rows_def multi_statement_def contains_query_def statement_count_def few_texts_def query_text_def
      insert_text_def insert_plus_text_def)

lemma sample_planned:
  "\<exists>s1. get_flight_info_statement sample_front sample_backend 1 False query_text sample_client
    = Ret (Inr ([], with_returns_rows True (with_fallback_sql query_text (ticket_new Ephemeral))), s1)"
proof -
  have "fr_info sample_front fs = Inr ()" for fs by (simp add: sample_front_def)
  moreover have "cache_get k (cache locked_client) = (None, cache locked_client)" for k
    by (simp add: locked_client_def sample_client_def new_session_def cache_get_def cache_new_def)
  ultimately show ?thesis
    using query_passes
    by (simp add: get_flight_info_statement_def rewritten_query Let_def plan_statement_def query_shape
        schema_for_query_cancellable_def check_cancelled_def enter_def admit_def client_fields handler_defs sample_locks
        cache_lookup_def cache_store_def with_transaction_recovery_def flight_info_def)
qed

lemma adhoc_ticket_runs_its_query_witness:
  "\<exists>ticket t'. do_get_statement sample_backend 2 (False, False) (Some ticket) locked_client
      = Ret (Inr (StreamOf (Inr 7)), t')
    \<and> log t' = log locked_client @ [CallQuery query_text None]"
proof -
  obtain s1 where p: "get_flight_info_statement sample_front sample_backend 1 False query_text sample_client
    = Ret (Inr ([], with_returns_rows True (with_fallback_sql query_text (ticket_new Ephemeral))), s1)"
    using sample_planned by blast
  from adhoc_ticket_runs_its_query [OF p, of locked_client 2] query_passes show ?thesis
    by (auto simp: rewritten_query query_shape locked_client_fields)
qed

definition forged_ticket :: ticket_payload where
  "forged_ticket = with_fallback_sql query_text (ticket_new Ephemeral)"

lemma served_sql_is_admitted_witness:
  "\<exists>s. served sample_front sample_backend (Some sample_auth) (Some sample_template) s
    \<and> CallQuery query_text None \<in> set (log s) \<and> validate_user_sql (Some sample_auth) query_text = Ret (Inr ())"
proof -
  let ?served = "served sample_front sample_backend (Some sample_auth) (Some sample_template)"
  obtain s1 where p: "get_flight_info_statement sample_front sample_backend 1 False query_text sample_client
    = Ret (Inr ([], with_returns_rows True (with_fallback_sql query_text (ticket_new Ephemeral))), s1)"
    using sample_planned by blast
  let ?rq = "DoGetStatement 2 (False, False) (Some forged_ticket)"
  have eph: "do_get_statement eng now c (Some forged_ticket) t = execute_ephemeral_ticket_statement eng now c query_text True t" for eng now c t
    by (simp add: do_get_statement_def forged_ticket_def with_fallback_sql_def ticket_new_def ticket_handle_def returns_rows_flag_def)
  let ?s = "sample_client\<lparr>last_activity := 2, handle_gen := 2, last_prepared := None\<rparr>"
  have "passes (s_auth sample_client) query_text" using query_passes by (simp add: client_fields)
  then have "\<exists>s. serve sample_front sample_backend ?rq sample_client = Ret s \<and> CallQuery query_text None \<in> set (log s)"
    by (simp add: state_after_def eph execute_ephemeral_ticket_statement_def create_prepared_statement_def admit_def next_handle_def
        get_prepared_statement_meta_def find_prepared_def execute_prepared_query_handle_def taken_parameters_def
        take_prepared_statement_parameters_def put_prepared_def execute_prepared_query_with_params_def close_if_def
        close_prepared_statement_def handler_defs execute_query_streaming_def check_cancelled_def ensure_lockdown_def client_fields)
  then obtain s where s: "serve sample_front sample_backend ?rq sample_client = Ret s" "CallQuery query_text None \<in> set (log s)"
    by blast
  from served_request [OF served_client s(1)] have sv: "?served s" .
  from served_sql_is_admitted [OF sv s(2)] sv s(2) show ?thesis by auto
qed

section \<open>Bound parameters\<close>

lemma resolve_given:
  "prepared s h = Some p \<Longrightarrow> resolve_session_and_meta (handle_to_bytes h) s = Ret (Inr (h, ps_meta p), s)"
  by (simp add: resolve_session_and_meta_def handle_bytes parse_statement_handle_def get_prepared_statement_meta_def
      find_prepared_def handler_defs)

definition rebound :: "statement_handle \<Rightarrow> ('v, 's) prepared_state \<Rightarrow> 'v list option \<Rightarrow> ('v, 'b, 's) session \<Rightarrow> ('v, 'b, 's) session" where
  "rebound h p vs s = s\<lparr>prepared := (prepared s)(h \<mapsto> p\<lparr>ps_pending := vs\<rparr>)\<rparr>"

lemma rebound_simps [simp]:
  "ready (rebound h p vs s) = ready s" "log (rebound h p vs s) = log s"
  "prepared (rebound h p vs s) h = Some (p\<lparr>ps_pending := vs\<rparr>)"
  by (simp_all add: rebound_def)

lemma taken_given:
  "prepared s h = Some p \<Longrightarrow>
    taken_parameters h s = Ret (Inr (case ps_pending p of Some vs \<Rightarrow> vs | None \<Rightarrow> []), rebound h p None s)"
  by (simp add: taken_parameters_def take_prepared_statement_parameters_def find_prepared_def put_prepared_def rebound_def handler_defs)

lemma get_prepared_query:
  assumes "prepared s h = Some p" "pm_is_query (ps_meta p)" "\<not> pm_ephemeral (ps_meta p)" "ready s"
  shows "do_get_prepared_statement eng now (False, False) (handle_to_bytes h) s =
    (let vs = (case ps_pending p of Some vs \<Rightarrow> vs | None \<Rightarrow> []); c = (if vs = [] then None else Some vs) in
     Ret (Inr (StreamOf (e_query eng (log s) (pm_sql (ps_meta p)) c)),
       (rebound h p None s)\<lparr>log := log s @ [CallQuery (pm_sql (ps_meta p)) c]\<rparr>))"
  using assms
  by (simp add: do_get_prepared_statement_def sbind_def resolve_given execute_by_kind_def execute_prepared_query_handle_def
      taken_given execute_prepared_query_with_params_def sthen_def close_if_def sret_def streaming_ready Let_def)

text \<open>
  C23: parameters that a client binds to a prepared query are those its next execution runs with, and only that one: of the
  uploaded rows the first is bound, the query reaches the engine with it, and executed once more it reaches the engine
  with none.
\<close>

theorem bound_parameters_run_once:
  assumes "prepared s h = Some p" "pm_is_query (ps_meta p)" "\<not> pm_ephemeral (ps_meta p)" "ready s"
    and "collect_parameter_sets (fr_values fr) up = Ret (Inr (vs # others))" "vs \<noteq> []"
  shows "\<exists>s1 s2 s3. do_put_prepared_statement_query fr (handle_to_bytes h) up s = Ret (Inr (), s1)
    \<and> do_get_prepared_statement eng now (False, False) (handle_to_bytes h) s1
        = Ret (Inr (StreamOf (e_query eng (log s) (pm_sql (ps_meta p)) (Some vs))), s2)
    \<and> do_get_prepared_statement eng now' (False, False) (handle_to_bytes h) s2
        = Ret (Inr (StreamOf (e_query eng (log s2) (pm_sql (ps_meta p)) None)), s3)
    \<and> log s3 = log s @ [CallQuery (pm_sql (ps_meta p)) (Some vs), CallQuery (pm_sql (ps_meta p)) None]"
proof -
  have "do_put_prepared_statement_query fr (handle_to_bytes h) up s = Ret (Inr (), rebound h p (Some vs) s)"
    using assms(1,5) by (simp add: do_put_prepared_statement_query_def sbind_def resolve_given of_session_def
        set_prepared_statement_parameters_def find_prepared_def put_prepared_def smodify_def rebound_def)
  moreover let ?s1 = "rebound h p (Some vs) s"
  let ?p1 = "p\<lparr>ps_pending := Some vs\<rparr>"
  let ?s2 = "(rebound h ?p1 None ?s1)\<lparr>log := log s @ [CallQuery (pm_sql (ps_meta p)) (Some vs)]\<rparr>"
  have "do_get_prepared_statement eng now (False, False) (handle_to_bytes h) ?s1
        = Ret (Inr (StreamOf (e_query eng (log s) (pm_sql (ps_meta p)) (Some vs))), ?s2)"
    using get_prepared_query [of ?s1 h ?p1 eng now] assms by (simp add: Let_def)
  moreover have "prepared ?s2 h = Some (?p1\<lparr>ps_pending := None\<rparr>)" "ready ?s2"
    using assms(4) by (simp_all add: rebound_def)
  then have "\<exists>s3. do_get_prepared_statement eng now' (False, False) (handle_to_bytes h) ?s2
        = Ret (Inr (StreamOf (e_query eng (log ?s2) (pm_sql (ps_meta p)) None)), s3)
      \<and> log s3 = log ?s2 @ [CallQuery (pm_sql (ps_meta p)) None]"
    using get_prepared_query [of ?s2 h "?p1\<lparr>ps_pending := None\<rparr>" eng now'] assms(2,3) by (simp add: Let_def)
  ultimately show ?thesis by fastforce
qed

definition query_prepared :: "(nat, nat field list) prepared_state" where
  "query_prepared = \<lparr>ps_meta = \<lparr>pm_sql = query_text, pm_is_query = True, pm_schema = None, pm_ephemeral = False\<rparr>, ps_pending = None\<rparr>"

definition client_with_query :: "(nat, nat list, nat) client" where
  "client_with_query = locked_client\<lparr>prepared := [StatementHandle 1 \<mapsto> query_prepared]\<rparr>"

definition two_rows :: "(nat list, nat) upload" where
  "two_rows = [Inr \<lparr>b_fields = [], b_columns = [[3, 5], [4, 6]], b_rows = 2\<rparr>]"

lemma two_rows_sets: "collect_parameter_sets (fr_values sample_front) two_rows = Ret (Inr [[3, 4], [5, 6]])"
  by (simp add: collect_parameter_sets_def two_rows_def record_batch_to_params_def push_column_values_def sample_front_def
      numeral_2_eq_2)

lemma bound_parameters_run_once_witness:
  "\<exists>s1 s2 s3. do_put_prepared_statement_query sample_front (handle_to_bytes (StatementHandle 1)) two_rows client_with_query = Ret (Inr (), s1)
    \<and> do_get_prepared_statement sample_backend 1 (False, False) (handle_to_bytes (StatementHandle 1)) s1 = Ret (Inr (StreamOf (Inr 7)), s2)
    \<and> do_get_prepared_statement sample_backend 2 (False, False) (handle_to_bytes (StatementHandle 1)) s2 = Ret (Inr (StreamOf (Inr 7)), s3)
    \<and> log s3 = log client_with_query @ [CallQuery query_text (Some [3, 4]), CallQuery query_text None]"
  using bound_parameters_run_once [of client_with_query "StatementHandle 1" query_prepared sample_front two_rows "[3, 4]" "[[5, 6]]"
      sample_backend 1 2] two_rows_sets
  by (simp add: client_with_query_def query_prepared_def locked_client_fields)

section \<open>Updates\<close>

lemma params_call:
  assumes "passes (s_auth s) sql" "ready s" "\<not> should_invalidate_schema_cache sql"
  shows "e_statement_params eng (log s) sql ps = Inr n \<Longrightarrow> execute_statement_with_params eng now sql ps s
      = Ret (Inr n, s\<lparr>last_activity := now, log := log s @ [CallStatementParams sql ps]\<rparr>)"
    and "e_statement_params eng (log s) sql ps = Inl e \<Longrightarrow> \<not> is_transaction_abort_error e \<Longrightarrow>
      execute_statement_with_params eng now sql ps s
      = Ret (Inl e, s\<lparr>last_activity := now, log := log s @ [CallStatementParams sql ps]\<rparr>)"
  using assms by (simp_all add: execute_statement_with_params_def invalidating_def sthen_def sbind_def enter_ready sret_def
      with_transaction_recovery_def ask_def)

definition params_calls :: "string \<Rightarrow> 'v list list \<Rightarrow> ('v, 'b) call list" where
  "params_calls sql pss = map (CallStatementParams sql) pss"

text \<open>The engine takes the rows one after the other, with these counts.\<close>

fun accepts :: "('v, 'b, 's, 'q) engine \<Rightarrow> string \<Rightarrow> ('v, 'b) call list \<Rightarrow> 'v list list \<Rightarrow> nat list \<Rightarrow> bool" where
  "accepts eng sql l [] ns = (ns = [])"
| "accepts eng sql l (ps # pss) ns = (case ns of [] \<Rightarrow> False
     | n # ns' \<Rightarrow> e_statement_params eng l sql ps = Inr n \<and> accepts eng sql (l @ [CallStatementParams sql ps]) pss ns')"

lemma wrap_i64_add [simp]: "wrap_i64 (wrap_i64 a + wrap_i64 b) = wrap_i64 (a + b)"
  by (simp add: wrap_i64_def wi_hom_add [symmetric])

lemma wrap_i64_idem [simp]: "wrap_i64 (wrap_i64 a) = wrap_i64 a" "wrap_i64 (a + wrap_i64 b) = wrap_i64 (a + b)" "wrap_i64 (wrap_i64 a + b) = wrap_i64 (a + b)"
  by (simp_all add: wrap_i64_def wi_hom_add [symmetric])

lemma execute_batches_prefix:
  assumes "passes (s_auth s) sql" "ready s" "\<not> should_invalidate_schema_cache sql" "accepts eng sql (log s) pss ns"
  shows "\<exists>s'. (\<forall>others. execute_batches eng now sql (pss @ others) (wrap_i64 k) s
        = execute_batches eng now sql others (wrap_i64 (k + int (sum_list ns))) s')
    \<and> log s' = log s @ params_calls sql pss \<and> s_auth s' = s_auth s \<and> ready s'"
  using assms
proof (induction pss arbitrary: s ns k)
  case Nil
  then show ?case by (auto simp: params_calls_def)
next
  case (Cons ps pss)
  then obtain n ns' where n: "ns = n # ns'" "e_statement_params eng (log s) sql ps = Inr n"
    "accepts eng sql (log s @ [CallStatementParams sql ps]) pss ns'"
    by (cases ns) auto
  let ?t = "s\<lparr>last_activity := now, log := log s @ [CallStatementParams sql ps]\<rparr>"
  have step: "execute_batches eng now sql ((ps # pss) @ others) (wrap_i64 k) s
      = execute_batches eng now sql (pss @ others) (wrap_i64 (k + int n)) ?t" for others
    using params_call(1) [OF Cons.prems(1-3) n(2)] by (simp add: sbind_def)
  from Cons.IH [of ?t ns' "k + int n"] Cons.prems n(3) obtain s' where
    "\<forall>others. execute_batches eng now sql (pss @ others) (wrap_i64 (k + int n)) ?t
        = execute_batches eng now sql others (wrap_i64 (k + int n + int (sum_list ns'))) s'"
    "log s' = log ?t @ params_calls sql pss" "s_auth s' = s_auth ?t" "ready s'" by auto
  with step n(1) show ?case by (auto simp: params_calls_def add.assoc)
qed

text \<open>
  C22: the rows of an update run in the order of the upload, and stop at the first that fails. Where the engine accepts all, the
  client learns the sum of their counts as a 64-bit number; where it accepts some and then refuses one, the client learns the
  refusal only, and the accepted rows have been executed.
\<close>

theorem update_rows_in_order:
  assumes "validate_user_sql (s_auth s) sql = Ret (Inr ())" "ready s" "\<not> should_invalidate_schema_cache sql"
    and "accepts eng sql (log s) pss ns" "pss @ others \<noteq> []"
    and "case others of [] \<Rightarrow> True | bad # _ \<Rightarrow> e_statement_params eng (log s @ params_calls sql pss) sql bad = Inl e
      \<and> \<not> is_transaction_abort_error e"
  shows "\<exists>s'. execute_statement_batches eng now sql (pss @ others) s
      = Ret (if others = [] then Inr (wrap_i64 (int (sum_list ns))) else Inl e, s')
    \<and> log s' = log s @ params_calls sql (pss @ take 1 others)"
proof -
  from execute_batches_prefix [OF assms(1-4), of now 0] obtain s' where
    s': "execute_batches eng now sql (pss @ others) 0 s = execute_batches eng now sql others (wrap_i64 (int (sum_list ns))) s'"
    "log s' = log s @ params_calls sql pss" "s_auth s' = s_auth s" "ready s'"
    by (auto simp: wrap_i64_def)
  have run: "execute_statement_batches eng now sql (pss @ others) s
      = execute_batches eng now sql others (wrap_i64 (int (sum_list ns))) s'"
    using assms(5) s'(1) by (auto simp: execute_statement_batches_def)
  show ?thesis
  proof (cases others)
    case Nil
    with run s' show ?thesis by (simp add: sret_def)
  next
    case (Cons bad rest)
    then have "execute_statement_with_params eng now sql bad s'
        = Ret (Inl e, s'\<lparr>last_activity := now, log := log s' @ [CallStatementParams sql bad]\<rparr>)"
      using assms(1,3,6) s' params_call(2) [of s' sql eng bad e now] by simp
    with run Cons s' show ?thesis by (simp add: sbind_def params_calls_def)
  qed
qed

definition update_text :: string where "update_text = ''UPDATE t SET a = ?''"

lemma update_passes: "passes (Some sample_auth) update_text" "\<not> should_invalidate_schema_cache update_text"
  unfolding update_text_def by code_simp+

definition second_fails :: "(nat, nat list, nat, nat) backend" where
  "second_fails = sample_backend\<lparr>e_statement_params := (\<lambda>l sql ps. if ps = [2] then Inl (DuckDb ''constraint'') else Inr 1)\<rparr>"

lemma update_rows_in_order_witness:
  "\<exists>s'. execute_statement_batches second_fails 1 update_text [[1], [2], [3]] locked_client = Ret (Inl (DuckDb ''constraint''), s')
    \<and> log s' = log locked_client @ [CallStatementParams update_text [1], CallStatementParams update_text [2]]"
proof -
  have "\<not> is_transaction_abort_error (DuckDb ''constraint'')" by code_simp
  then show ?thesis
    using update_rows_in_order [of locked_client update_text second_fails "[[1]]" "[1]" "[[2], [3]]" "DuckDb ''constraint''" 1] update_passes
    by (simp add: locked_client_fields second_fails_def params_calls_def)
qed

section \<open>Uploads to an INSERT\<close>

text \<open>
  An upload to a prepared \<open>INSERT\<close> does not run the statement. Two prepared statements that insert into the same
  table with the same column list, whatever their sources, \<open>VALUES\<close> with expressions or defaults or a \<open>SELECT\<close>, and
  whatever statements precede them in their texts, do the same with an upload: its batches go to the table's appender.
\<close>

theorem upload_ignores_the_source:
  assumes "prepared s h1 = Some p1" "prepared s h2 = Some p2"
    "\<not> pm_is_query (ps_meta p1)" "\<not> pm_is_query (ps_meta p2)"
    and "insert_target fr (pm_sql (ps_meta p1)) = Some (st1, parts)" "insert_target fr (pm_sql (ps_meta p2)) = Some (st2, parts)"
    and "get_insert_columns st1 = get_insert_columns st2" "collect_record_batches up = Inr batches" "batches \<noteq> []"
  shows "do_put_prepared_statement_update fr eng now (handle_to_bytes h1) up s
    = do_put_prepared_statement_update fr eng now (handle_to_bytes h2) up s"
  using assms by (simp add: do_put_prepared_statement_update_def sbind_def resolve_given put_insert_def result_step_def)

definition insert_prepared :: "string \<Rightarrow> (nat, nat field list) prepared_state" where
  "insert_prepared sql = \<lparr>ps_meta = \<lparr>pm_sql = sql, pm_is_query = False, pm_schema = None, pm_ephemeral = False\<rparr>, ps_pending = None\<rparr>"

definition client_with_inserts :: "(nat, nat list, nat) client" where
  "client_with_inserts = locked_client\<lparr>prepared := [StatementHandle 1 \<mapsto> insert_prepared insert_text,
     StatementHandle 2 \<mapsto> insert_prepared insert_plus_text]\<rparr>"

lemma sample_targets:
  "insert_target sample_front insert_text
    = Some (InsertStmt (Some [''t'']) [] (Some \<lparr>q_body = ValuesExpr [[Placeholder ''?'']], q_locks = 0\<rparr>), [''t''])"
  "insert_target sample_front insert_plus_text
    = Some (InsertStmt (Some [''t'']) [] (Some \<lparr>q_body = ValuesExpr [[BinaryOp (Placeholder ''?'') (OtherExpr [])]], q_locks = 0\<rparr>), [''t''])"
  by (simp_all add: insert_target_def parse_statement_def few_texts_def insert_text_def insert_plus_text_def)

lemma upload_ignores_the_source_witness:
  "do_put_prepared_statement_update sample_front sample_backend 1 (handle_to_bytes (StatementHandle 1)) two_rows client_with_inserts
    = do_put_prepared_statement_update sample_front sample_backend 1 (handle_to_bytes (StatementHandle 2)) two_rows client_with_inserts"
proof (rule upload_ignores_the_source)
  show "prepared client_with_inserts (StatementHandle 1) = Some (insert_prepared insert_text)"
    and "prepared client_with_inserts (StatementHandle 2) = Some (insert_prepared insert_plus_text)"
    by (simp_all add: client_with_inserts_def)
  show "insert_target sample_front (pm_sql (ps_meta (insert_prepared insert_text)))
      = Some (InsertStmt (Some [''t'']) [] (Some \<lparr>q_body = ValuesExpr [[Placeholder ''?'']], q_locks = 0\<rparr>), [''t''])"
    and "insert_target sample_front (pm_sql (ps_meta (insert_prepared insert_plus_text)))
      = Some (InsertStmt (Some [''t'']) []
          (Some \<lparr>q_body = ValuesExpr [[BinaryOp (Placeholder ''?'') (OtherExpr [])]], q_locks = 0\<rparr>), [''t''])"
    by (simp_all add: insert_prepared_def sample_targets)
  show "collect_record_batches two_rows = Inr [\<lparr>b_fields = [], b_columns = [[3, 5], [4, 6]], b_rows = 2\<rparr>]"
    by (simp add: two_rows_def)
qed (simp_all add: insert_prepared_def)

end
