(* ===== verification/Types.thy ===== *)
theory Types
  imports Errors
begin

text \<open>
  \<^verbatim>\<open>types.rs\<close> and the two type translations of \<^verbatim>\<open>handlers/action.rs\<close>: DuckDB type names, Arrow types, and the engine values of an
  Arrow array. An array of the Arrow library is its typed values, \<open>None\<close> for a null; a field of a nested type is its name, type and
  nullability.
\<close>

datatype time_unit = Second | Millisecond | Microsecond | Nanosecond

datatype interval_unit = YearMonth | DayTime | MonthDayNano

datatype data_type =
    NullType | Boolean | Int8 | Int16 | Int32 | Int64 | UInt8 | UInt16 | UInt32 | UInt64 | Float32 | Float64
  | Utf8 | LargeUtf8 | Binary | LargeBinary | FixedSizeBinary nat
  | Date32 | Date64 | Time32 time_unit | Time64 time_unit | Timestamp time_unit "string option" | Interval interval_unit
  | Decimal128 nat int | Decimal256 nat int
  | ListType string data_type bool | LargeListType string data_type bool
  | StructType "(string \<times> data_type \<times> bool) list" | MapType string data_type bool bool
  | OtherType string

section \<open>DuckDB type names\<close>

definition strip_suffix :: "string \<Rightarrow> string \<Rightarrow> string option" where
  "strip_suffix p s = (if suffix p s then Some (take (length s - length p) s) else None)"

definition parse_array_type :: "string \<Rightarrow> string option" where
  "parse_array_type s = strip_suffix ''[]'' (trim s)"

definition nth_number :: "string list \<Rightarrow> nat \<Rightarrow> nat \<Rightarrow> nat" where
  "nth_number parts i otherwise =
     (case (if i < length parts then parse_u64 (parts ! i) else None) of Some n \<Rightarrow> n | None \<Rightarrow> otherwise)"

definition parse_decimal_precision_scale :: "string \<Rightarrow> nat \<times> nat" where
  "parse_decimal_precision_scale spec =
     (case dropWhile (\<lambda>c. c \<noteq> CHR ''('') spec of [] \<Rightarrow> (18, 3)
      | _ # rest \<Rightarrow>
          (let inner = trim (takeWhile (\<lambda>c. c \<noteq> CHR '')'') rest) in
           if inner = [] then (18, 3)
           else (let parts = filter (\<lambda>p. p \<noteq> []) (map trim (split_char (CHR '','') inner)) in
             (nth_number parts 0 18, nth_number parts 1 0))))"

definition exact_types :: "(string list \<times> data_type) list" where
  "exact_types =
     [([''BIGINT'', ''INT8'', ''LONG''], Int64), ([''INTEGER'', ''INT'', ''INT4'', ''SIGNED''], Int32),
      ([''SMALLINT'', ''INT2'', ''SHORT''], Int16), ([''TINYINT'', ''INT1''], Int8),
      ([''UBIGINT''], UInt64), ([''UINTEGER''], UInt32), ([''USMALLINT''], UInt16), ([''UTINYINT''], UInt8),
      ([''VARCHAR'', ''CHAR'', ''BPCHAR'', ''TEXT'', ''STRING''], Utf8), ([''BOOLEAN'', ''BOOL'', ''LOGICAL''], Boolean),
      ([''DOUBLE'', ''DOUBLE PRECISION'', ''FLOAT8''], Float64), ([''FLOAT'', ''FLOAT4'', ''REAL''], Float32),
      ([''DATE''], Date32), ([''TIME''], Time64 Microsecond), ([''TIMESTAMP'', ''DATETIME''], Timestamp Microsecond None),
      ([''TIMESTAMP WITH TIME ZONE'', ''TIMESTAMPTZ''], Timestamp Microsecond (Some ''UTC'')),
      ([''BLOB'', ''BYTEA'', ''BINARY'', ''VARBINARY''], Binary), ([''UUID''], FixedSizeBinary 16), ([''JSON''], Utf8),
      ([''BIT'', ''BITSTRING''], Binary)]"

fun lookup_type :: "(string list \<times> data_type) list \<Rightarrow> string \<Rightarrow> data_type option" where
  "lookup_type [] name = None"
| "lookup_type ((names, t) # rest) name = (if name \<in> set names then Some t else lookup_type rest name)"

definition decimal_type :: "string \<Rightarrow> data_type" where
  "decimal_type spec =
     (case parse_decimal_precision_scale spec of (precision_raw, scale_raw) \<Rightarrow>
        (let precision = min precision_raw 76; scale = min scale_raw precision in
         if precision \<le> 38 then Decimal128 precision (int scale) else Decimal256 precision (int scale)))"

definition scalar_type :: "string \<Rightarrow> string \<Rightarrow> server_error + data_type" where
  "scalar_type duckdb_type upper =
     (case lookup_type exact_types upper of Some t \<Rightarrow> Inr t
      | None \<Rightarrow>
          if prefix ''INTERVAL'' upper then Inr (Interval MonthDayNano)
          else if prefix ''DECIMAL'' upper \<or> prefix ''NUMERIC'' upper then Inr (decimal_type duckdb_type)
          else if upper \<in> {''BIGNUM'', ''HUGEINT'', ''UHUGEINT''} then Inr (Decimal128 38 0)
          else Inl (InternalError (''unsupported DuckDB type: '' @ duckdb_type)))"

text \<open>The recursion ends because upper-casing and trimming make no brackets, and an array type gives one up.\<close>

definition brackets :: "string \<Rightarrow> nat" where
  "brackets s = length (filter (\<lambda>c. c = CHR ''['') s)"

lemma brackets_append: "brackets (s @ t) = brackets s + brackets t"
  by (simp add: brackets_def)

lemma brackets_rev: "brackets (rev s) = brackets s"
  by (simp add: brackets_def rev_filter [symmetric])

lemma brackets_drop: "brackets (drop n s) \<le> brackets s"
  by (metis append_take_drop_id brackets_append le_add2)

lemma brackets_trim_codes: "brackets (trim_codes ws s) \<le> brackets s"
proof (induction ws s rule: trim_codes.induct)
  case (1 ws s)
  have "strip_any ws s = Some t \<Longrightarrow> brackets t \<le> brackets s" for t
    by (induction ws) (auto split: if_splits simp: brackets_drop)
  then show ?case
    using 1 by (subst trim_codes.simps) (auto split: option.split intro: order_trans)
qed

lemma brackets_trim: "brackets (trim s) \<le> brackets s"
proof -
  have "brackets (trim s) = brackets (trim_codes (map rev ws_codes) (rev (trim_start s)))"
    by (simp add: trim_def trim_end_def brackets_rev)
  also have "\<dots> \<le> brackets (rev (trim_start s))" by (rule brackets_trim_codes)
  also have "\<dots> \<le> brackets s" by (simp add: brackets_rev trim_start_def brackets_trim_codes)
  finally show ?thesis .
qed

lemma upper_code_brackets: "upper_code ws s = Some (u, n) \<Longrightarrow> (\<forall>(w, v)\<in>set ws. brackets v = 0) \<Longrightarrow> brackets u = 0"
  by (induction ws) (auto split: if_splits)

lemma upper_codes_brackets: "\<forall>(w, v)\<in>set upper_codes. brackets v = 0"
  by code_simp

lemma to_upper_bracket: "to_upper c = CHR ''['' \<longleftrightarrow> c = CHR ''[''"
  by (auto simp: to_upper_def is_lower_def byte_eq_iff [symmetric] byte_def)

lemma brackets_Cons: "brackets (c # s) = (if c = CHR ''['' then 1 else 0) + brackets s"
  by (simp add: brackets_def)

lemma brackets_to_uppercase: "brackets (to_uppercase s) \<le> brackets s"
proof (induction s rule: to_uppercase.induct)
  case (2 c s)
  show ?case
  proof (cases "ascii c")
    case True
    with 2(1) show ?thesis by (simp add: brackets_Cons to_upper_bracket)
  next
    case False
    show ?thesis
    proof (cases "upper_code upper_codes (c # s)")
      case None
      with False 2 show ?thesis by (simp add: brackets_Cons)
    next
      case (Some p)
      obtain u n where p: "p = (u, n)" by (cases p)
      have "brackets (to_uppercase (drop (n - 1) s)) \<le> brackets (drop (n - 1) s)"
        by (rule 2(3) [OF False]) (simp_all add: Some p)
      also have "\<dots> \<le> brackets s" by (rule brackets_drop)
      finally show ?thesis
        using False Some p upper_code_brackets [OF _ upper_codes_brackets, of "c # s" u n]
        by (simp add: brackets_append brackets_Cons)
    qed
  qed
qed (simp add: brackets_def)

lemma parse_array_brackets: "parse_array_type s = Some e \<Longrightarrow> brackets e < brackets s"
proof -
  assume "parse_array_type s = Some e"
  then have "trim s = e @ ''[]''" by (auto simp: parse_array_type_def strip_suffix_def suffix_def split: if_splits)
  then have "brackets (trim s) = brackets e + 1" by (simp add: brackets_append brackets_def)
  with brackets_trim [of s] show ?thesis by simp
qed

function duckdb_type_to_arrow :: "string \<Rightarrow> server_error + data_type" where
  "duckdb_type_to_arrow duckdb_type =
     (case parse_array_type (to_uppercase (trim duckdb_type)) of
        Some element_type \<Rightarrow> try_ok (duckdb_type_to_arrow element_type) (\<lambda>inner. Inr (ListType ''item'' inner True))
      | None \<Rightarrow> scalar_type duckdb_type (to_uppercase (trim duckdb_type)))"
  by pat_completeness auto
termination
proof (relation "measure brackets")
  fix s e assume "parse_array_type (to_uppercase (trim s)) = Some e"
  from parse_array_brackets [OF this] brackets_to_uppercase [of "trim s"] brackets_trim [of s]
  show "(e, s) \<in> measure brackets" by simp
qed simp

declare duckdb_type_to_arrow.simps [simp del]

text \<open>\<open>duckdb_type_to_arrow\<close> of \<^verbatim>\<open>action.rs\<close>, which describes the tables of a schema to the Airport client.\<close>

definition listed_types :: "(string list \<times> data_type) list" where
  "listed_types =
     [([''BIGINT'', ''INT8'', ''LONG''], Int64), ([''INTEGER'', ''INT4'', ''INT'', ''SIGNED''], Int32),
      ([''SMALLINT'', ''INT2'', ''SHORT''], Int16), ([''TINYINT'', ''INT1''], Int8),
      ([''UBIGINT''], UInt64), ([''UINTEGER''], UInt32), ([''USMALLINT''], UInt16), ([''UTINYINT''], UInt8),
      ([''DOUBLE'', ''FLOAT8'', ''NUMERIC'', ''REAL''], Float64), ([''FLOAT'', ''FLOAT4''], Float32),
      ([''BOOLEAN'', ''BOOL'', ''LOGICAL''], Boolean), ([''VARCHAR'', ''CHAR'', ''BPCHAR'', ''TEXT'', ''STRING''], Utf8),
      ([''BLOB'', ''BYTEA'', ''BINARY'', ''VARBINARY''], Binary), ([''DATE''], Date32), ([''TIME''], Time64 Microsecond),
      ([''TIMESTAMP'', ''DATETIME''], Timestamp Microsecond None),
      ([''TIMESTAMP WITH TIME ZONE'', ''TIMESTAMPTZ''], Timestamp Microsecond (Some ''UTC'')),
      ([''INTERVAL''], Interval MonthDayNano), ([''UUID''], Utf8), ([''JSON''], Utf8)]"

definition listed_type :: "string \<Rightarrow> data_type" where
  "listed_type type_name =
     (case lookup_type listed_types (to_uppercase type_name) of Some t \<Rightarrow> t
      | None \<Rightarrow> if prefix ''DECIMAL'' type_name \<or> prefix ''NUMERIC'' type_name then Float64 else Utf8)"

section \<open>Type names for a new table\<close>

definition show_int :: "int \<Rightarrow> string" where
  "show_int n = (if n < 0 then ''-'' @ show_nat (nat (- n)) else show_nat (nat n))"

fun arrow_type_to_duckdb_sql :: "data_type \<Rightarrow> string" where
  "arrow_type_to_duckdb_sql Boolean = ''BOOLEAN''"
| "arrow_type_to_duckdb_sql Int8 = ''TINYINT''"
| "arrow_type_to_duckdb_sql Int16 = ''SMALLINT''"
| "arrow_type_to_duckdb_sql Int32 = ''INTEGER''"
| "arrow_type_to_duckdb_sql Int64 = ''BIGINT''"
| "arrow_type_to_duckdb_sql UInt8 = ''UTINYINT''"
| "arrow_type_to_duckdb_sql UInt16 = ''USMALLINT''"
| "arrow_type_to_duckdb_sql UInt32 = ''UINTEGER''"
| "arrow_type_to_duckdb_sql UInt64 = ''UBIGINT''"
| "arrow_type_to_duckdb_sql Float32 = ''FLOAT''"
| "arrow_type_to_duckdb_sql Float64 = ''DOUBLE''"
| "arrow_type_to_duckdb_sql Utf8 = ''VARCHAR''"
| "arrow_type_to_duckdb_sql LargeUtf8 = ''VARCHAR''"
| "arrow_type_to_duckdb_sql Binary = ''BLOB''"
| "arrow_type_to_duckdb_sql LargeBinary = ''BLOB''"
| "arrow_type_to_duckdb_sql Date32 = ''DATE''"
| "arrow_type_to_duckdb_sql Date64 = ''DATE''"
| "arrow_type_to_duckdb_sql (Time32 u) = ''TIME''"
| "arrow_type_to_duckdb_sql (Time64 u) = ''TIME''"
| "arrow_type_to_duckdb_sql (Timestamp u None) = ''TIMESTAMP''"
| "arrow_type_to_duckdb_sql (Timestamp u (Some tz)) = ''TIMESTAMPTZ''"
| "arrow_type_to_duckdb_sql (Interval u) = ''INTERVAL''"
| "arrow_type_to_duckdb_sql (Decimal128 p s) = ''DECIMAL('' @ show_nat p @ '', '' @ show_int s @ '')''"
| "arrow_type_to_duckdb_sql (Decimal256 p s) = ''DECIMAL('' @ show_nat p @ '', '' @ show_int s @ '')''"
| "arrow_type_to_duckdb_sql (ListType n t b) = arrow_type_to_duckdb_sql t @ ''[]''"
| "arrow_type_to_duckdb_sql (LargeListType n t b) = arrow_type_to_duckdb_sql t @ ''[]''"
| "arrow_type_to_duckdb_sql (StructType fs) =
     ''STRUCT('' @ join '', '' (map (\<lambda>(n, t, b). n @ '' '' @ arrow_type_to_duckdb_sql t) fs) @ '')''"
| "arrow_type_to_duckdb_sql (MapType n (StructType [(kn, k, kb), (vn, v, vb)]) b srt) =
     ''MAP('' @ arrow_type_to_duckdb_sql k @ '', '' @ arrow_type_to_duckdb_sql v @ '')''"
| "arrow_type_to_duckdb_sql (MapType n t b srt) = ''JSON''"
| "arrow_type_to_duckdb_sql _ = ''VARCHAR''"

section \<open>Values of an array\<close>

type_synonym i8 = "8 word"
type_synonym i16 = "16 word"
type_synonym i32 = "32 word"
type_synonym i64 = "64 word"

text \<open>Arrays by their type; a floating-point value is its bits. \<open>OtherArray\<close> has a type the conversion does not know.\<close>

datatype arrow_array =
    NullArray nat | BooleanArray "bool option list" | Int8Array "i8 option list" | Int16Array "i16 option list"
  | Int32Array "i32 option list" | Int64Array "i64 option list" | UInt8Array "i8 option list" | UInt16Array "i16 option list"
  | UInt32Array "i32 option list" | UInt64Array "i64 option list" | Float32Array "i32 option list" | Float64Array "i64 option list"
  | StringArray "string option list" | LargeStringArray "string option list" | BinaryArray "string option list"
  | LargeBinaryArray "string option list" | Date32Array "i32 option list" | Date64Array "i64 option list"
  | Time32Array time_unit "i32 option list" | Time64Array time_unit "i64 option list"
  | IntervalYearMonthArray "i32 option list" | IntervalDayTimeArray "(i32 \<times> i32) option list"
  | IntervalMonthDayNanoArray "(i32 \<times> i32 \<times> i64) option list" | TimestampArray time_unit "string option" "i64 option list"
  | OtherArray data_type nat

datatype duck_value =
    NullValue | BooleanValue bool | TinyInt i8 | SmallInt i16 | IntValue i32 | BigInt i64 | UTinyInt i8 | USmallInt i16
  | UInt i32 | UBigInt i64 | FloatValue i32 | DoubleValue i64 | TextValue string | BlobValue string
  | TimestampValue time_unit i64 | IntervalValue i32 i32 i64

fun array_type :: "arrow_array \<Rightarrow> data_type" where
  "array_type (NullArray n) = NullType"
| "array_type (BooleanArray xs) = Boolean"
| "array_type (Int8Array xs) = Int8" | "array_type (Int16Array xs) = Int16"
| "array_type (Int32Array xs) = Int32" | "array_type (Int64Array xs) = Int64"
| "array_type (UInt8Array xs) = UInt8" | "array_type (UInt16Array xs) = UInt16"
| "array_type (UInt32Array xs) = UInt32" | "array_type (UInt64Array xs) = UInt64"
| "array_type (Float32Array xs) = Float32" | "array_type (Float64Array xs) = Float64"
| "array_type (StringArray xs) = Utf8" | "array_type (LargeStringArray xs) = LargeUtf8"
| "array_type (BinaryArray xs) = Binary" | "array_type (LargeBinaryArray xs) = LargeBinary"
| "array_type (Date32Array xs) = Date32" | "array_type (Date64Array xs) = Date64"
| "array_type (Time32Array u xs) = Time32 u" | "array_type (Time64Array u xs) = Time64 u"
| "array_type (IntervalYearMonthArray xs) = Interval YearMonth" | "array_type (IntervalDayTimeArray xs) = Interval DayTime"
| "array_type (IntervalMonthDayNanoArray xs) = Interval MonthDayNano"
| "array_type (TimestampArray u tz xs) = Timestamp u tz" | "array_type (OtherArray t n) = t"

fun array_length :: "arrow_array \<Rightarrow> nat" where
  "array_length (NullArray n) = n" | "array_length (BooleanArray xs) = length xs"
| "array_length (Int8Array xs) = length xs" | "array_length (Int16Array xs) = length xs"
| "array_length (Int32Array xs) = length xs" | "array_length (Int64Array xs) = length xs"
| "array_length (UInt8Array xs) = length xs" | "array_length (UInt16Array xs) = length xs"
| "array_length (UInt32Array xs) = length xs" | "array_length (UInt64Array xs) = length xs"
| "array_length (Float32Array xs) = length xs" | "array_length (Float64Array xs) = length xs"
| "array_length (StringArray xs) = length xs" | "array_length (LargeStringArray xs) = length xs"
| "array_length (BinaryArray xs) = length xs" | "array_length (LargeBinaryArray xs) = length xs"
| "array_length (Date32Array xs) = length xs" | "array_length (Date64Array xs) = length xs"
| "array_length (Time32Array u xs) = length xs" | "array_length (Time64Array u xs) = length xs"
| "array_length (IntervalYearMonthArray xs) = length xs" | "array_length (IntervalDayTimeArray xs) = length xs"
| "array_length (IntervalMonthDayNanoArray xs) = length xs" | "array_length (TimestampArray u tz xs) = length xs"
| "array_length (OtherArray t n) = n"

text \<open>The loop of the macros: a null, or the value in its variant.\<close>

definition push_values :: "('x \<Rightarrow> duck_value) \<Rightarrow> 'x option list \<Rightarrow> server_error + duck_value list" where
  "push_values variant xs = Inr (map (\<lambda>x. case x of None \<Rightarrow> NullValue | Some v \<Rightarrow> variant v) xs)"

definition unsupported_unit :: "string \<Rightarrow> time_unit \<Rightarrow> server_error" where
  "unsupported_unit kind unit = UnsupportedParameter (kind @ '' with unit '' @
     (case unit of Second \<Rightarrow> ''Second'' | Millisecond \<Rightarrow> ''Millisecond'' | Microsecond \<Rightarrow> ''Microsecond'' | Nanosecond \<Rightarrow> ''Nanosecond''))"

text \<open>\<open>display\<close> is the text of a type the conversion refuses. \<open>scast\<close> is \<open>as i64\<close>; products wrap in a release build.\<close>

fun arrow_array_to_duckdb_values :: "(data_type \<Rightarrow> string) \<Rightarrow> arrow_array \<Rightarrow> server_error + duck_value list" where
  "arrow_array_to_duckdb_values display (NullArray n) = Inr (replicate n NullValue)"
| "arrow_array_to_duckdb_values display (BooleanArray xs) = push_values BooleanValue xs"
| "arrow_array_to_duckdb_values display (Int8Array xs) = push_values TinyInt xs"
| "arrow_array_to_duckdb_values display (Int16Array xs) = push_values SmallInt xs"
| "arrow_array_to_duckdb_values display (Int32Array xs) = push_values IntValue xs"
| "arrow_array_to_duckdb_values display (Int64Array xs) = push_values BigInt xs"
| "arrow_array_to_duckdb_values display (UInt8Array xs) = push_values UTinyInt xs"
| "arrow_array_to_duckdb_values display (UInt16Array xs) = push_values USmallInt xs"
| "arrow_array_to_duckdb_values display (UInt32Array xs) = push_values UInt xs"
| "arrow_array_to_duckdb_values display (UInt64Array xs) = push_values UBigInt xs"
| "arrow_array_to_duckdb_values display (Float32Array xs) = push_values FloatValue xs"
| "arrow_array_to_duckdb_values display (Float64Array xs) = push_values DoubleValue xs"
| "arrow_array_to_duckdb_values display (StringArray xs) = push_values TextValue xs"
| "arrow_array_to_duckdb_values display (LargeStringArray xs) = push_values TextValue xs"
| "arrow_array_to_duckdb_values display (BinaryArray xs) = push_values BlobValue xs"
| "arrow_array_to_duckdb_values display (LargeBinaryArray xs) = push_values BlobValue xs"
| "arrow_array_to_duckdb_values display (Date32Array xs) = push_values (\<lambda>d. TimestampValue Second (scast d * 86400)) xs"
| "arrow_array_to_duckdb_values display (Date64Array xs) = push_values (TimestampValue Millisecond) xs"
| "arrow_array_to_duckdb_values display (Time32Array unit xs) =
     (case unit of Second \<Rightarrow> push_values (\<lambda>v. TimestampValue Second (scast v)) xs
      | Millisecond \<Rightarrow> push_values (\<lambda>v. TimestampValue Millisecond (scast v)) xs
      | _ \<Rightarrow> Inl (unsupported_unit ''Time32'' unit))"
| "arrow_array_to_duckdb_values display (Time64Array unit xs) =
     (case unit of Microsecond \<Rightarrow> push_values (TimestampValue Microsecond) xs
      | Nanosecond \<Rightarrow> push_values (TimestampValue Nanosecond) xs
      | _ \<Rightarrow> Inl (unsupported_unit ''Time64'' unit))"
| "arrow_array_to_duckdb_values display (IntervalYearMonthArray xs) = push_values (\<lambda>months. IntervalValue months 0 0) xs"
| "arrow_array_to_duckdb_values display (IntervalDayTimeArray xs) =
     push_values (\<lambda>(days, milliseconds). IntervalValue 0 days (scast milliseconds * 1000000)) xs"
| "arrow_array_to_duckdb_values display (IntervalMonthDayNanoArray xs) =
     push_values (\<lambda>(months, days, nanoseconds). IntervalValue months days nanoseconds) xs"
| "arrow_array_to_duckdb_values display (TimestampArray unit tz xs) = push_values (TimestampValue unit) xs"
| "arrow_array_to_duckdb_values display (OtherArray t n) = Inl (UnsupportedParameter (display t))"

section \<open>Recursion\<close>

text \<open>The translation with a bound on its recursion, \<open>None\<close> when the bound is reached.\<close>

fun type_within :: "nat \<Rightarrow> string \<Rightarrow> (server_error + data_type) option" where
  "type_within 0 s = None"
| "type_within (Suc n) s =
     (case parse_array_type (to_uppercase (trim s)) of
        Some e \<Rightarrow> map_option (\<lambda>r. try_ok r (\<lambda>inner. Inr (ListType ''item'' inner True))) (type_within n e)
      | None \<Rightarrow> Some (scalar_type s (to_uppercase (trim s))))"

text \<open>
  C27: the translation of a type name ends: it recurses at most once for each opening bracket of the name.
\<close>

theorem type_recursion_ends:
  "brackets s < n \<Longrightarrow> type_within n s = Some (duckdb_type_to_arrow s)"
proof (induction n arbitrary: s)
  case (Suc n)
  show ?case
  proof (cases "parse_array_type (to_uppercase (trim s))")
    case None
    then show ?thesis by (simp add: duckdb_type_to_arrow.simps [of s])
  next
    case (Some e)
    have "brackets e < brackets s"
      using parse_array_brackets [OF Some] brackets_to_uppercase [of "trim s"] brackets_trim [of s] by simp
    then have "type_within n e = Some (duckdb_type_to_arrow e)" using Suc by simp
    with Some show ?thesis by (simp add: duckdb_type_to_arrow.simps [of s])
  qed
qed simp

lemma type_recursion_ends_witness:
  "type_within 3 ''INTEGER[][]'' = Some (duckdb_type_to_arrow ''INTEGER[][]'')"
  by (rule type_recursion_ends) (simp add: brackets_def)

section \<open>Well-formed types\<close>

fun decimals_ok :: "data_type \<Rightarrow> bool" where
  "decimals_ok (Decimal128 p s) = (p \<le> 38 \<and> 0 \<le> s \<and> s \<le> int p)"
| "decimals_ok (Decimal256 p s) = (38 < p \<and> p \<le> 76 \<and> 0 \<le> s \<and> s \<le> int p)"
| "decimals_ok (ListType n t b) = decimals_ok t"
| "decimals_ok _ = True"

lemma lookup_type_in: "lookup_type ts name = Some t \<Longrightarrow> t \<in> snd ` set ts"
  by (induction ts) (auto split: if_splits)

lemma exact_types_ok: "t \<in> snd ` set exact_types \<Longrightarrow> decimals_ok t"
  by (auto simp: exact_types_def)

lemma decimal_type_ok: "decimals_ok (decimal_type spec)"
  by (auto simp: decimal_type_def Let_def split: prod.splits)

lemma scalar_type_ok: "scalar_type s u = Inr t \<Longrightarrow> decimals_ok t"
  by (auto simp: scalar_type_def decimal_type_ok dest!: lookup_type_in intro: exact_types_ok split: option.splits if_splits)


section \<open>Round trip\<close>

text \<open>The types that DuckDB has under their own name.\<close>

fun plain_type :: "data_type \<Rightarrow> bool" where
  "plain_type (Decimal128 p s) = (p \<le> 38 \<and> 0 \<le> s \<and> s \<le> int p)"
| "plain_type (Time64 u) = (u = Microsecond)"
| "plain_type (Timestamp u tz) = (u = Microsecond \<and> (tz = None \<or> tz = Some ''UTC''))"
| "plain_type (Interval u) = (u = MonthDayNano)"
| "plain_type (ListType n t b) = (n = ''item'' \<and> b \<and> plain_type t)"
| "plain_type t = (t \<in> {Boolean, Int8, Int16, Int32, Int64, UInt8, UInt16, UInt32, UInt64, Float32, Float64, Utf8, Binary, Date32})"

definition clean :: "string \<Rightarrow> bool" where
  "clean s \<longleftrightarrow> s \<noteq> [] \<and> list_all (\<lambda>c. ascii c \<and> \<not> is_lower c) s \<and> \<not> is_ws (hd s) \<and> \<not> is_ws (last s)"

lemma to_uppercase_upper: "list_all (\<lambda>c. ascii c \<and> \<not> is_lower c) s \<Longrightarrow> to_uppercase s = s"
  by (induction s) (auto simp: to_upper_def)

lemma clean_stays: "clean s \<Longrightarrow> trim s = s" "clean s \<Longrightarrow> to_uppercase s = s"
  by (auto simp: clean_def to_uppercase_upper list_all_iff intro!: trim_solid)

lemma clean_append: "clean s \<Longrightarrow> clean t \<Longrightarrow> clean (s @ t)"
  by (auto simp: clean_def)

lemma parse_array_append: "clean s \<Longrightarrow> parse_array_type (s @ ''[]'') = Some s"
proof -
  assume s: "clean s"
  have "clean ''[]''" by (simp add: clean_def char_class_defs)
  with s have "trim (s @ ''[]'') = s @ ''[]''" by (intro clean_stays clean_append)
  then show ?thesis by (simp add: parse_array_type_def strip_suffix_def suffix_def)
qed

lemma array_name:
  assumes "clean s"
  shows "duckdb_type_to_arrow (s @ ''[]'') = try_ok (duckdb_type_to_arrow s) (\<lambda>inner. Inr (ListType ''item'' inner True))"
proof -
  have "clean (s @ ''[]'')" using assms by (intro clean_append) (simp_all add: clean_def char_class_defs)
  then show ?thesis
    using parse_array_append [OF assms] by (simp add: duckdb_type_to_arrow.simps [of "s @ ''[]''"] clean_stays)
qed

lemma show_nat_clean: "list_all (\<lambda>c. ascii c \<and> \<not> is_lower c \<and> \<not> is_ws c \<and> is_digit c) (show_nat n)"
  using show_nat_decimal [of n] by (auto simp: list_all_iff char_class_defs)

lemma show_nat_nonempty [simp]: "show_nat n \<noteq> []"
  using show_nat_decimal [of n] by blast

lemma digits_not: "c \<in> set (show_nat n) \<Longrightarrow> c \<noteq> CHR '','' \<and> c \<noteq> CHR '')'' \<and> c \<noteq> CHR ''(''"
  using show_nat_clean [of n] by (auto simp: list_all_iff is_digit_def byte_def)

definition decimal_name :: "nat \<Rightarrow> nat \<Rightarrow> string" where
  "decimal_name p s = ''DECIMAL('' @ show_nat p @ '', '' @ show_nat s @ '')''"

lemma decimal_name_clean: "clean (decimal_name p s)"
  using show_nat_clean [of p] show_nat_clean [of s]
  by (auto simp: decimal_name_def clean_def list_all_iff char_class_defs)

lemma split_char_none: "c \<notin> set s \<Longrightarrow> split_char c s = [s]"
  by (induction s) auto

lemma split_char_once: "c \<notin> set s \<Longrightarrow> split_char c (s @ c # t) = s # split_char c t"
  by (induction s) auto

lemma trim_digits: "trim (show_nat n) = show_nat n"
  using show_nat_clean [of n] by (intro clean_stays(1)) (auto simp: clean_def list_all_iff)

lemma strip_any_single:
  "[c] \<in> set ws \<Longrightarrow> \<forall>w\<in>set ws. w \<noteq> [] \<longrightarrow> hd w = c \<longrightarrow> w = [c] \<Longrightarrow> strip_any ws (c # s) = Some s"
proof (induction ws)
  case (Cons w ws)
  show ?case
  proof (cases "w \<noteq> [] \<and> prefix w (c # s)")
    case True
    then have "hd w = c" by (cases w) auto
    with True Cons.prems(2) have "w = [c]" by simp
    then show ?thesis by simp
  next
    case False
    with Cons show ?thesis by auto
  qed
qed simp

lemma ws_space: "[CHR '' ''] \<in> set ws_codes" "\<forall>w\<in>set ws_codes. w \<noteq> [] \<longrightarrow> hd w = CHR '' '' \<longrightarrow> w = [CHR '' '']"
  by code_simp+

lemma trim_space_digits: "trim (CHR '' '' # show_nat n) = show_nat n"
proof -
  have "strip_any ws_codes (CHR '' '' # show_nat n) = Some (show_nat n)"
    by (rule strip_any_single [OF ws_space])
  then have "trim_start (CHR '' '' # show_nat n) = trim_start (show_nat n)"
    by (simp add: trim_start_def trim_codes.simps [of _ "CHR '' '' # show_nat n"])
  then show ?thesis using trim_digits by (simp add: trim_def)
qed

lemma decimal_parsed:
  assumes "p < 2 ^ 64" "s < 2 ^ 64"
  shows "parse_decimal_precision_scale (decimal_name p s) = (p, s)"
proof -
  let ?inner = "show_nat p @ '', '' @ show_nat s"
  have d: "dropWhile (\<lambda>c. c \<noteq> CHR ''('') (decimal_name p s) = CHR ''('' # ?inner @ '')''"
    by (simp add: decimal_name_def)
  have "\<forall>c\<in>set ?inner. c \<noteq> CHR '')''" using digits_not by auto
  then have t: "takeWhile (\<lambda>c. c \<noteq> CHR '')'') (?inner @ '')'') = ?inner"
    by (simp add: takeWhile_append2 del: set_append append_assoc)
  have c: "trim ?inner = ?inner"
    using show_nat_clean [of p] show_nat_clean [of s]
    by (intro clean_stays(1)) (auto simp: clean_def list_all_iff char_class_defs)
  have "split_char (CHR '','') ?inner = [show_nat p, CHR '' '' # show_nat s]"
    using digits_not [of _ p] digits_not [of _ s] split_char_none [of "CHR '',''" "CHR '' '' # show_nat s"]
    by (subst append_Cons, subst split_char_once) auto
  then show ?thesis
    using assms d t c by (simp add: parse_decimal_precision_scale_def Let_def trim_digits trim_space_digits nth_number_def parse_show_nat)
qed

lemma scalar_name: "clean s \<Longrightarrow> last s \<noteq> CHR '']'' \<Longrightarrow> duckdb_type_to_arrow s = scalar_type s s"
  by (auto simp: duckdb_type_to_arrow.simps [of s] clean_stays parse_array_type_def strip_suffix_def suffix_def)

lemma decimal_name_head: "lookup_type exact_types (decimal_name p s) = None" "prefix ''DECIMAL'' (decimal_name p s)"
  "\<not> prefix ''INTERVAL'' (decimal_name p s)" "last (decimal_name p s) = CHR '')''"
  by (simp_all add: exact_types_def decimal_name_def)

lemma decimal_name_type: "p \<le> 38 \<Longrightarrow> s \<le> p \<Longrightarrow> duckdb_type_to_arrow (decimal_name p s) = Inr (Decimal128 p (int s))"
  using decimal_name_head [of p s] decimal_name_clean [of p s] decimal_parsed [of p s]
  by (simp add: scalar_name scalar_type_def decimal_type_def min_def)

lemma plain_type_clean: "plain_type t \<Longrightarrow> clean (arrow_type_to_duckdb_sql t)"
proof (induction t)
  case (ListType n t b)
  have "clean ''[]''" by (simp add: clean_def char_class_defs)
  with ListType show ?case by (auto intro: clean_append)
next
  case (Decimal128 p s)
  then have "arrow_type_to_duckdb_sql (Decimal128 p s) = decimal_name p (nat s)"
    by (simp add: decimal_name_def show_int_def)
  then show ?case by (simp only: decimal_name_clean)
next
  case (Timestamp u tz)
  then show ?case by (cases tz) (simp_all add: clean_def char_class_defs)
qed (simp_all add: clean_def char_class_defs)




text \<open>The tables of a schema are described with other types than those their results have.\<close>

lemma listed_types_differ:
  "listed_type ''DECIMAL(18,3)'' = Float64 \<and> listed_type ''UUID'' = Utf8 \<and> listed_type ''INTEGER[]'' = Utf8"
  by code_simp

section \<open>Parameters\<close>

definition converted :: "(data_type \<Rightarrow> string) \<Rightarrow> arrow_array \<Rightarrow> bool" where
  "converted display a \<longleftrightarrow> (\<exists>vs. arrow_array_to_duckdb_values display a = Inr vs)"

text \<open>The types that have arrays of their own, with the units that Arrow has.\<close>

fun native_type :: "data_type \<Rightarrow> bool" where
  "native_type (FixedSizeBinary n) = False"
| "native_type (Decimal128 p s) = False"
| "native_type (Decimal256 p s) = False"
| "native_type (ListType n t b) = False"
| "native_type (LargeListType n t b) = False"
| "native_type (StructType fs) = False"
| "native_type (MapType n t b s) = False"
| "native_type (OtherType s) = False"
| "native_type _ = True"

fun arrow_ok :: "arrow_array \<Rightarrow> bool" where
  "arrow_ok (OtherArray t n) = (\<not> native_type t)"
| "arrow_ok (Time32Array u xs) = (u = Second \<or> u = Millisecond)"
| "arrow_ok (Time64Array u xs) = (u = Microsecond \<or> u = Nanosecond)"
| "arrow_ok _ = True"

lemma converted_iff: "arrow_ok a \<Longrightarrow> converted display a \<longleftrightarrow> native_type (array_type a)"
  by (cases a) (auto simp: converted_def push_values_def)

lemma exact_types_native: "t \<in> snd ` set exact_types \<Longrightarrow> native_type t \<or> t = FixedSizeBinary 16"
  by (auto simp: exact_types_def)

lemma lookup_native: "lookup_type exact_types n = Some t \<Longrightarrow> native_type t \<or> t = FixedSizeBinary 16"
  by (rule exact_types_native [OF lookup_type_in])

lemma scalar_type_native:
  "scalar_type s u = Inr t \<Longrightarrow> native_type t \<or> t = FixedSizeBinary 16 \<or> (\<exists>p q. t = Decimal128 p q \<or> t = Decimal256 p q)"
  by (auto simp: scalar_type_def decimal_type_def Let_def split: option.splits if_splits prod.splits
      dest: lookup_native)

text \<open>
  The types a table's columns are announced with are not all types that parameters may have: an array of the column's type is
  refused as an unsupported parameter exactly when the column is a decimal, a UUID or a list.
\<close>

theorem announced_types_accepted:
  assumes "duckdb_type_to_arrow s = Inr t" "array_type a = t" "arrow_ok a"
  shows "(\<exists>vs. arrow_array_to_duckdb_values display a = Inr vs)
    \<longleftrightarrow> \<not> ((\<exists>p q. t = Decimal128 p q \<or> t = Decimal256 p q) \<or> t = FixedSizeBinary 16 \<or> (\<exists>u. t = ListType ''item'' u True))"
proof -
  have "native_type t \<longleftrightarrow> \<not> ((\<exists>p q. t = Decimal128 p q \<or> t = Decimal256 p q) \<or> t = FixedSizeBinary 16 \<or> (\<exists>u. t = ListType ''item'' u True))"
  proof (cases "parse_array_type (to_uppercase (trim s))")
    case None
    with assms(1) have "scalar_type s (to_uppercase (trim s)) = Inr t" by (simp add: duckdb_type_to_arrow.simps [of s])
    from scalar_type_native [OF this] show ?thesis by auto
  next
    case (Some e)
    with assms(1) obtain u where "t = ListType ''item'' u True" by (auto simp: duckdb_type_to_arrow.simps [of s] run_simps)
    then show ?thesis by auto
  qed
  with converted_iff [OF assms(3), of display] assms(2) show ?thesis by (simp add: converted_def)
qed

lemma announced_types_accepted_witness:
  "\<not> (\<exists>vs. arrow_array_to_duckdb_values (\<lambda>t. ''Decimal128(18, 3)'') (OtherArray (Decimal128 18 3) 1) = Inr vs)"
proof -
  have "duckdb_type_to_arrow (decimal_name 18 3) = Inr (Decimal128 18 3)" using decimal_name_type [of 18 3] by simp
  from announced_types_accepted [OF this, of "OtherArray (Decimal128 18 3) 1"] show ?thesis by simp
qed

lemma sint_scast: "sint (scast (w :: i32) :: i64) = sint w"
  by (rule sint_up_scast) (simp add: is_up)

lemma scaled_exact:
  assumes "0 \<le> k" "k \<le> 1000000"
  shows "sint (scast (w :: i32) * word_of_int k :: i64) = sint w * k"
proof -
  have b: "- (2 ^ 31) \<le> sint w" "sint w < 2 ^ 31"
    using sint_ge [of w] sint_lt [of w] by simp_all
  have "\<bar>sint w * k\<bar> \<le> 2 ^ 31 * 1000000"
    unfolding abs_mult using b assms by (intro mult_mono) auto
  then have "- (2 ^ 63) \<le> sint w * k" "sint w * k < 2 ^ 63" by auto
  moreover have "scast w * word_of_int k = (word_of_int (sint w * k) :: i64)"
    by (simp only: scast_eq wi_hom_mult)
  moreover have "sint (word_of_int n :: i64) = n" if "- (2 ^ 63) \<le> n" "n < 2 ^ 63" for n
    using that by (simp add: signed_of_int signed_take_bit_int_eq_self)
  ultimately show ?thesis by metis
qed

text \<open>
  Converting a parameter column loses no row and no null, and its arithmetic does not overflow: a date is its number of
  days in seconds, an interval of milliseconds its number of nanoseconds, for every value the column can hold.
\<close>

theorem parameters_exact:
  "arrow_array_to_duckdb_values display a = Inr vs \<Longrightarrow>
    length vs = array_length a
    \<and> (\<forall>xs i. a = Date32Array xs \<longrightarrow> i < length xs \<longrightarrow>
        (case xs ! i of None \<Rightarrow> vs ! i = NullValue
         | Some d \<Rightarrow> \<exists>secs. vs ! i = TimestampValue Second secs \<and> sint secs = sint d * 86400))
    \<and> (\<forall>xs i. a = IntervalDayTimeArray xs \<longrightarrow> i < length xs \<longrightarrow>
        (case xs ! i of None \<Rightarrow> vs ! i = NullValue
         | Some (d, ms) \<Rightarrow> \<exists>nanos. vs ! i = IntervalValue 0 d nanos \<and> sint nanos = sint ms * 1000000))"
  using scaled_exact [of 86400] scaled_exact [of 1000000]
  by (cases a) (auto simp: push_values_def split: option.splits time_unit.splits)

lemma parameters_exact_witness:
  "length [TimestampValue Second 172800, NullValue] = array_length (Date32Array [Some 2, None])"
proof -
  have "arrow_array_to_duckdb_values (\<lambda>t. []) (Date32Array [Some 2, None]) = Inr [TimestampValue Second 172800, NullValue]"
    by (simp add: push_values_def)
  from parameters_exact [OF this] show ?thesis by blast
qed

end
