(* ===== verification/Duckvis_Api.thy ===== *)
theory Duckvis_Api
  imports Errors Json
begin

text \<open>
  The calls to the duckvis API: the service account's token of \<^verbatim>\<open>duckvis/sa.rs\<close> and the authorization calls of
  \<^verbatim>\<open>duckvis/api.rs\<close>. The network is a function of the calls that were sent before; signing, Base64 and the decoding of JSON into
  the response types are libraries. Each operation holds the token's lock as the code does; \<open>ap_others\<close> is what other
  requests do in between.
\<close>

section \<open>Calls\<close>

record check_request =
  cr_subject :: string
  cr_permission :: string
  cr_object :: "string \<times> string"

record resolve_request =
  rr_subject :: string
  rr_project_id :: string
  rr_bind_id :: string

datatype api_body = CheckBody check_request | ResolveBody resolve_request

text \<open>A form is posted without a token, a JSON body with one.\<close>

datatype api_call = PostForm string "(string \<times> string) list" | PostJson string api_body string

record attach_secret =
  as_name :: string
  as_kind :: string
  as_fields :: "(string \<times> string) list"

record resolved_attachment =
  ra_attachment_id :: string
  ra_name :: string
  ra_kind :: string
  ra_secret_config :: string
  ra_secrets :: "attach_secret list"

record resolve_response =
  re_allow :: bool
  re_attachment_id :: "string option"
  re_name :: "string option"
  re_kind :: "string option"
  re_secret_config :: "string option"
  re_secrets :: "attach_secret list option"

record oauth_response =
  or_access_token :: string
  or_expires_in :: "nat option"

record api_response =
  rs_status :: nat
  rs_body :: string

text \<open>A cached token with its expiry; times are in nanoseconds.\<close>

record sa_token =
  access_token :: string
  expires_at :: nat

record api_state =
  sa_cache :: "sa_token option"
  sent :: "api_call list"

record api_env =
  api_url :: string
  ap_client_id :: string
  ap_issuer :: string
  ap_send :: "api_call list \<Rightarrow> api_call \<Rightarrow> api_response option"
  ap_clock :: "api_call list \<Rightarrow> nat"
  ap_now_secs :: "api_call list \<Rightarrow> int"
  ap_others :: "api_state \<Rightarrow> api_state"
  ap_b64 :: "string \<Rightarrow> string"
  ap_sign :: "string \<Rightarrow> string"
  ap_json :: "(string \<times> string + string \<times> int) list \<Rightarrow> string"
  ap_oauth :: "string \<Rightarrow> oauth_response option"
  ap_check :: "string \<Rightarrow> bool option"
  ap_resolve :: "string \<Rightarrow> resolve_response option"

type_synonym 'x api_step = "(api_state, duckvis_error, 'x) step"

definition trim_slashes :: "string \<Rightarrow> string" where
  "trim_slashes s = rev (dropWhile (\<lambda>c. c = CHR ''/'') (rev s))"

definition is_success :: "nat \<Rightarrow> bool" where
  "is_success code \<longleftrightarrow> 200 \<le> code \<and> code < 300"

definition between :: "api_env \<Rightarrow> unit api_step" where
  "between env = smodify (ap_others env)"

text \<open>A call is sent; what fails on the way is not told apart.\<close>

definition send_call :: "api_env \<Rightarrow> api_call \<Rightarrow> api_response api_step" where
  "send_call env c s = Ret (ok_or Unavailable (ap_send env (sent s) c), s\<lparr>sent := sent s @ [c]\<rparr>)"

section \<open>The service account's token\<close>

definition refresh_margin :: nat where "refresh_margin = 60 * 10 ^ 9"

definition is_fresh :: "nat \<Rightarrow> sa_token \<Rightarrow> bool" where
  "is_fresh now t \<longleftrightarrow> now \<le> expires_at t \<and> expires_at t - now > refresh_margin"

definition assertion_ttl_secs :: int where "assertion_ttl_secs = 240"

definition assertion_header :: string where
  "assertion_header = replace_char CHR ''Q'' [CHR 0x22] ''{QalgQ:QEdDSAQ,QtypQ:QJWTQ}''"

definition build_client_assertion :: "api_env \<Rightarrow> int \<Rightarrow> string" where
  "build_client_assertion env now =
     (let claims = [Inl (''iss'', ap_client_id env), Inl (''sub'', ap_client_id env), Inl (''aud'', ap_issuer env),
            Inr (''iat'', now), Inr (''exp'', now + assertion_ttl_secs)];
          signing_input = ap_b64 env assertion_header @ ''.'' @ ap_b64 env (ap_json env claims)
      in signing_input @ ''.'' @ ap_b64 env (ap_sign env signing_input))"

definition mint_form :: "api_env \<Rightarrow> int \<Rightarrow> api_call" where
  "mint_form env now = PostForm (trim_slashes (api_url env) @ ''/v1/auth/oauth/token'')
     [(''grant_type'', ''client_credentials''),
      (''client_assertion_type'', ''urn:ietf:params:oauth:client-assertion-type:jwt-bearer''),
      (''client_assertion'', build_client_assertion env now), (''resource'', ''duckvis-api'')]"

text \<open>\<open>Instant + Duration\<close> panics when the seconds leave an \<open>i64\<close>.\<close>

definition token_expiry :: "nat \<Rightarrow> nat \<Rightarrow> nat run" where
  "token_expiry now ttl = (if now div 10 ^ 9 + ttl < 2 ^ 63 then Ret (now + ttl * 10 ^ 9) else Panic)"

definition mint :: "api_env \<Rightarrow> sa_token api_step" where
  "mint env s =
     sbind (send_call env (mint_form env (ap_now_secs env (sent s)))) (\<lambda>resp t.
       if \<not> is_success (rs_status resp) then sfail Unavailable t
       else (case ap_oauth env (rs_body resp) of None \<Rightarrow> sfail Unavailable t
         | Some body \<Rightarrow>
             rbind (token_expiry (ap_clock env (sent t)) (case or_expires_in body of Some n \<Rightarrow> n | None \<Rightarrow> 600)) (\<lambda>ex.
               sret \<lparr>access_token = or_access_token body, expires_at = ex\<rparr> t))) s"

definition store_minted :: "api_env \<Rightarrow> string api_step" where
  "store_minted env = sbind (mint env) (\<lambda>t. sthen (smodify (\<lambda>s. s\<lparr>sa_cache := Some t\<rparr>)) (sret (access_token t)))"

definition get_token :: "api_env \<Rightarrow> string api_step" where
  "get_token env s =
     (case sa_cache s of
        Some t \<Rightarrow> if is_fresh (ap_clock env (sent s)) t then sret (access_token t) s else store_minted env s
      | None \<Rightarrow> store_minted env s)"

definition force_refresh :: "api_env \<Rightarrow> string api_step" where
  "force_refresh env = sthen (smodify (\<lambda>s. s\<lparr>sa_cache := None\<rparr>)) (store_minted env)"

section \<open>Authorization\<close>

definition parsed :: "(string \<Rightarrow> 'r option) \<Rightarrow> api_response \<Rightarrow> duckvis_error + 'r" where
  "parsed decode resp = ok_or Unavailable (decode (rs_body resp))"

definition answer :: "(string \<Rightarrow> 'r option) \<Rightarrow> api_response \<Rightarrow> 'r api_step" where
  "answer decode resp s = (if \<not> is_success (rs_status resp) then sfail Unavailable s else Ret (parsed decode resp, s))"

definition retry_json :: "api_env \<Rightarrow> (string \<Rightarrow> 'r option) \<Rightarrow> string \<Rightarrow> api_body \<Rightarrow> 'r api_step" where
  "retry_json env decode url body =
     sthen (between env) (sbind (force_refresh env) (\<lambda>fresh.
       sthen (between env) (sbind (send_call env (PostJson url body fresh)) (answer decode))))"

definition post_json_with_retry :: "api_env \<Rightarrow> (string \<Rightarrow> 'r option) \<Rightarrow> string \<Rightarrow> api_body \<Rightarrow> 'r api_step" where
  "post_json_with_retry env decode url body =
     sbind (get_token env) (\<lambda>token.
       sthen (between env) (sbind (send_call env (PostJson url body token)) (\<lambda>resp.
         if rs_status resp = 401 then retry_json env decode url body else answer decode resp)))"

definition project_check_request :: "string \<Rightarrow> string \<Rightarrow> string \<Rightarrow> check_request" where
  "project_check_request subject project_id permission =
     \<lparr>cr_subject = subject, cr_permission = permission, cr_object = (''project'', project_id)\<rparr>"

definition check_url :: "api_env \<Rightarrow> string" where
  "check_url env = trim_slashes (api_url env) @ ''/v1/authz/check''"

definition check_project :: "api_env \<Rightarrow> string \<Rightarrow> string \<Rightarrow> string \<Rightarrow> bool api_step" where
  "check_project env subject project_id permission =
     post_json_with_retry env (ap_check env) (check_url env) (CheckBody (project_check_request subject project_id permission))"

definition check_project_view :: "api_env \<Rightarrow> string \<Rightarrow> string \<Rightarrow> bool api_step" where
  "check_project_view env subject project_id = check_project env subject project_id ''Project.view''"

definition check_project_mutate_data :: "api_env \<Rightarrow> string \<Rightarrow> string \<Rightarrow> bool api_step" where
  "check_project_mutate_data env subject project_id = check_project env subject project_id ''Project.mutate_data''"

definition resolve_attachment_request :: "string \<Rightarrow> string \<Rightarrow> string \<Rightarrow> resolve_request" where
  "resolve_attachment_request subject project_id bind_id =
     \<lparr>rr_subject = subject, rr_project_id = project_id, rr_bind_id = bind_id\<rparr>"

definition resolve_url :: "api_env \<Rightarrow> string" where
  "resolve_url env = trim_slashes (api_url env) @ ''/v1/authz/resolve-attachment''"

definition resolved :: "resolve_response \<Rightarrow> duckvis_error + resolved_attachment option" where
  "resolved resp =
     (if \<not> re_allow resp then Inr None
      else (case (re_attachment_id resp, re_name resp, re_secret_config resp) of
          (Some a, Some n, Some c) \<Rightarrow>
            Inr (Some \<lparr>ra_attachment_id = a, ra_name = n, ra_kind = (case re_kind resp of Some k \<Rightarrow> k | None \<Rightarrow> ''connection''),
              ra_secret_config = c, ra_secrets = (case re_secrets resp of Some xs \<Rightarrow> xs | None \<Rightarrow> [])\<rparr>)
        | _ \<Rightarrow> Inl Unavailable))"

definition resolve_attachment :: "api_env \<Rightarrow> string \<Rightarrow> string \<Rightarrow> string \<Rightarrow> resolved_attachment option api_step" where
  "resolve_attachment env subject project_id bind_id =
     sbind (post_json_with_retry env (ap_resolve env) (resolve_url env)
         (ResolveBody (resolve_attachment_request subject project_id bind_id)))
       (\<lambda>resp s. Ret (resolved resp, s))"

section \<open>What a decision rests on\<close>

lemma send_call_cases: "send_call env c s = Ret (r, t) \<longleftrightarrow> r = ok_or Unavailable (ap_send env (sent s) c) \<and> t = s\<lparr>sent := sent s @ [c]\<rparr>"
  by (auto simp: send_call_def)

lemma ok_or_iff: "ok_or e m = Inr x \<longleftrightarrow> m = Some x" "ok_or e m = Inl e' \<longleftrightarrow> m = None \<and> e' = e"
  "Inr x = ok_or e m \<longleftrightarrow> m = Some x" "Inl e' = ok_or e m \<longleftrightarrow> m = None \<and> e' = e"
  by (cases m; auto)+

text \<open>The only failure of these calls is \<open>Unavailable\<close>.\<close>

definition only_unavailable :: "'x api_step \<Rightarrow> bool" where
  "only_unavailable m \<longleftrightarrow> (\<forall>s e t. m s = Ret (Inl e, t) \<longrightarrow> e = Unavailable)"

lemma unavailableD: "only_unavailable m \<Longrightarrow> m s = Ret (Inl e, t) \<Longrightarrow> e = Unavailable"
  unfolding only_unavailable_def by blast

named_theorems unavailable_intros \<open>rules for calls that fail as unavailable\<close>

lemma unavailable_bind [unavailable_intros]:
  "only_unavailable m \<Longrightarrow> (\<And>x. only_unavailable (f x)) \<Longrightarrow> only_unavailable (sbind m f)"
  unfolding only_unavailable_def sbind_Ret_iff by blast

lemma unavailable_then [unavailable_intros]: "only_unavailable m \<Longrightarrow> only_unavailable n \<Longrightarrow> only_unavailable (sthen m n)"
  unfolding sthen_def by (rule unavailable_bind)

lemma unavailable_if [unavailable_intros]:
  "only_unavailable m \<Longrightarrow> only_unavailable n \<Longrightarrow> only_unavailable (if b then m else n)"
  by simp

lemma unavailable_basic [unavailable_intros]:
  "only_unavailable (smodify f)" "only_unavailable (sret x)" "only_unavailable (send_call env c)" "only_unavailable (between env)"
  "only_unavailable (answer decode resp)"
  by (auto simp: only_unavailable_def smodify_def sret_def send_call_def between_def answer_def parsed_def sfail_def ok_or_iff split: if_splits)

lemma unavailable_mint [unavailable_intros]: "only_unavailable (mint env)"
  unfolding only_unavailable_def mint_def sbind_Ret_iff
  by (auto simp: send_call_cases ok_or_iff sfail_def sret_def run_simps split: if_splits option.splits)

lemma unavailable_minted [unavailable_intros]: "only_unavailable (store_minted env)" "only_unavailable (force_refresh env)"
  unfolding force_refresh_def store_minted_def by (intro unavailable_intros)+

lemma unavailable_token [unavailable_intros]: "only_unavailable (get_token env)"
  using unavailable_minted(1) [of env] by (auto simp: only_unavailable_def get_token_def sret_def split: option.splits if_splits)

lemma unavailable_post [unavailable_intros]: "only_unavailable (post_json_with_retry env decode url body)"
  unfolding post_json_with_retry_def retry_json_def by (intro unavailable_intros)

text \<open>A result is the decoded body of the last answer, which was a success.\<close>

definition decided :: "api_env \<Rightarrow> (string \<Rightarrow> 'r option) \<Rightarrow> string \<Rightarrow> api_body \<Rightarrow> api_state \<Rightarrow> 'r \<Rightarrow> bool" where
  "decided env decode url body s x \<longleftrightarrow> (\<exists>before token resp. sent s = before @ [PostJson url body token]
     \<and> ap_send env before (PostJson url body token) = Some resp \<and> is_success (rs_status resp) \<and> decode (rs_body resp) = Some x)"

lemma answered_decided:
  "ap_send env (sent q) (PostJson url body token) = Some resp \<Longrightarrow> answer decode resp (q\<lparr>sent := sent q @ [PostJson url body token]\<rparr>) = Ret (Inr x, s)
    \<Longrightarrow> decided env decode url body s x"
  by (auto simp: decided_def answer_def parsed_def sfail_def ok_or_iff split: if_splits)

lemma post_decided: "post_json_with_retry env decode url body s = Ret (Inr x, s') \<Longrightarrow> decided env decode url body s' x"
  unfolding post_json_with_retry_def retry_json_def
  by (elim sbind_cases sthen_cases) (auto simp: send_call_cases ok_or_iff split: if_splits
      elim!: sbind_cases sthen_cases intro: answered_decided)

text \<open>
  C31: Authorization fails closed. Whatever the service account's token is, whatever the network answers and other requests do, a
  check allows only if the last call sent was this very question (this subject, project and permission) and its answer was a
  success whose body says so; an attachment is resolved only from such an answer that allows it and has all the required fields.
  Everything else is a denial that was answered, or \<open>Unavailable\<close>.
\<close>

theorem authorization_fails_closed:
  "(check_project env sub' project permission s = Ret (r, s') \<longrightarrow>
      (case r of Inl e \<Rightarrow> e = Unavailable
       | Inr allow \<Rightarrow> decided env (ap_check env) (check_url env)
           (CheckBody \<lparr>cr_subject = sub', cr_permission = permission, cr_object = (''project'', project)\<rparr>) s' allow))
   \<and> (resolve_attachment env sub' project bind s = Ret (q, s') \<longrightarrow>
      (case q of Inl e \<Rightarrow> e = Unavailable
       | Inr a \<Rightarrow> (\<exists>resp. decided env (ap_resolve env) (resolve_url env)
             (ResolveBody \<lparr>rr_subject = sub', rr_project_id = project, rr_bind_id = bind\<rparr>) s' resp
           \<and> (re_allow resp \<longleftrightarrow> a \<noteq> None)
           \<and> (\<forall>x. a = Some x \<longrightarrow> re_attachment_id resp = Some (ra_attachment_id x) \<and> re_name resp = Some (ra_name x)
               \<and> re_secret_config resp = Some (ra_secret_config x)))))"
proof (intro conjI impI)
  assume "check_project env sub' project permission s = Ret (r, s')"
  then show "case r of Inl e \<Rightarrow> e = Unavailable | Inr allow \<Rightarrow> decided env (ap_check env) (check_url env)
      (CheckBody \<lparr>cr_subject = sub', cr_permission = permission, cr_object = (''project'', project)\<rparr>) s' allow"
    by (auto simp: check_project_def project_check_request_def split: sum.split dest: unavailableD [OF unavailable_post] post_decided)
next
  assume "resolve_attachment env sub' project bind s = Ret (q, s')"
  then show "case q of Inl e \<Rightarrow> e = Unavailable
       | Inr a \<Rightarrow> (\<exists>resp. decided env (ap_resolve env) (resolve_url env)
             (ResolveBody \<lparr>rr_subject = sub', rr_project_id = project, rr_bind_id = bind\<rparr>) s' resp
           \<and> (re_allow resp \<longleftrightarrow> a \<noteq> None)
           \<and> (\<forall>x. a = Some x \<longrightarrow> re_attachment_id resp = Some (ra_attachment_id x) \<and> re_name resp = Some (ra_name x)
               \<and> re_secret_config resp = Some (ra_secret_config x)))"
    unfolding resolve_attachment_def
  proof (cases rule: sbind_cases)
    case (error e)
    then show ?thesis by (auto dest: unavailableD [OF unavailable_post])
  next
    case (ok resp t)
    from post_decided [OF ok(1)] ok(2) show ?thesis
      by (auto simp: resolved_def resolve_attachment_request_def split: if_splits option.splits sum.split)
  qed
qed

section \<open>One retry\<close>

definition mints :: "api_env \<Rightarrow> api_call list \<Rightarrow> bool" where
  "mints env cs \<longleftrightarrow> (\<exists>now. cs = [mint_form env now])"

lemma store_minted_sends:
  assumes "store_minted env s = Ret (r, t)"
  shows "\<exists>m. sent t = sent s @ m \<and> mints env m \<and> (\<forall>k. r = Inr k \<longrightarrow> (\<exists>x. sa_cache t = Some x \<and> access_token x = k))"
  using assms unfolding store_minted_def mint_def mints_def
  by (auto simp: sbind_Ret_iff sthen_def send_call_cases smodify_def sret_def sfail_def run_simps split: if_splits option.splits)

lemma get_token_sends:
  assumes "get_token env s = Ret (r, t)"
  shows "\<exists>m. sent t = sent s @ m \<and> (m = [] \<or> mints env m) \<and> (\<forall>k. r = Inr k \<longrightarrow> (\<exists>x. sa_cache t = Some x \<and> access_token x = k))"
  using assms store_minted_sends [of env s r t]
  by (auto simp: get_token_def sret_def split: option.splits if_splits)

lemma force_refresh_sends:
  assumes "force_refresh env s = Ret (r, t)"
  shows "\<exists>m. sent t = sent s @ m \<and> mints env m \<and> (\<forall>k. r = Inr k \<longrightarrow> (\<exists>x. sa_cache t = Some x \<and> access_token x = k))"
  using assms store_minted_sends [of env "s\<lparr>sa_cache := None\<rparr>" r t]
  by (auto simp: force_refresh_def sthen_def sbind_def smodify_def)

lemma between_idle: "ap_others env = (\<lambda>s. s) \<Longrightarrow> sthen (between env) m = m"
  by (auto simp: between_def sthen_def sbind_def smodify_def)

lemma answer_same: "answer decode resp s = Ret (r, t) \<Longrightarrow> t = s"
  by (auto simp: answer_def sfail_def split: if_splits)

lemma retry_sends:
  assumes "ap_others env = (\<lambda>s. s)" "retry_json env decode url body s = Ret (r, t)"
  shows "\<exists>m. mints env m \<and> (sent t = sent s @ m \<or>
    (\<exists>x. sent t = sent s @ m @ [PostJson url body (access_token x)] \<and> sa_cache t = Some x))"
  using assms(2) unfolding retry_json_def between_idle [OF assms(1)]
proof (cases rule: sbind_cases)
  case (error e)
  with force_refresh_sends [OF error(1)] show ?thesis by blast
next
  case (ok k u)
  from force_refresh_sends [OF ok(1)] obtain m x
    where m: "sent u = sent s @ m" "mints env m" "sa_cache u = Some x" "access_token x = k" by auto
  from ok(2) have "t = u\<lparr>sent := sent u @ [PostJson url body k]\<rparr>"
    by (cases rule: sbind_cases) (auto simp: send_call_cases dest: answer_same)
  with m show ?thesis by (intro exI [of _ m]) auto
qed

text \<open>
  A rejected token is replaced once. When no other request interferes, a question is sent at most twice: the second time only
  when the first was answered with 401, after one token was minted, and with that token, which is then the cached one. A token is minted
  before the question only when the cached one is missing or has no more than a minute left.
\<close>

theorem question_repeated_once:
  assumes "ap_others env = (\<lambda>s. s)" "post_json_with_retry env decode url body s = Ret (r, t)"
  shows "\<exists>m tail. sent t = sent s @ m @ tail
    \<and> (m = [] \<or> mints env m \<and> (\<forall>x. sa_cache s = Some x \<longrightarrow> \<not> is_fresh (ap_clock env (sent s)) x))
    \<and> (tail = [] \<or> (\<exists>k. tail = [PostJson url body k])
       \<or> (\<exists>k m' resp. mints env m' \<and> ap_send env (sent s @ m) (PostJson url body k) = Some resp \<and> rs_status resp = 401
          \<and> (tail = PostJson url body k # m'
             \<or> (\<exists>x. tail = PostJson url body k # m' @ [PostJson url body (access_token x)] \<and> sa_cache t = Some x))))"
proof -
  from assms(2) obtain q u where g: "get_token env s = Ret (q, u)"
    unfolding post_json_with_retry_def by (auto elim: sbind_cases)
  obtain m where m: "sent u = sent s @ m"
    "m = [] \<or> mints env m \<and> (\<forall>x. sa_cache s = Some x \<longrightarrow> \<not> is_fresh (ap_clock env (sent s)) x)"
  proof (cases "\<exists>x. sa_cache s = Some x \<and> is_fresh (ap_clock env (sent s)) x")
    case True
    with g have "u = s" by (auto simp: get_token_def sret_def)
    then show ?thesis using that [of "[]"] by simp
  next
    case False
    with get_token_sends [OF g] that show ?thesis by blast
  qed
  show ?thesis
  proof (cases q)
    case (Inl e)
    with g assms(2) have "t = u" unfolding post_json_with_retry_def by (auto simp: sbind_def)
    with m show ?thesis by (intro exI [of _ m] exI [of _ "[]"]) simp
  next
    case (Inr k)
    let ?c = "PostJson url body k" and ?v = "u\<lparr>sent := sent u @ [PostJson url body k]\<rparr>"
    from g Inr assms(2) have s2: "sbind (send_call env ?c) (\<lambda>resp.
        if rs_status resp = 401 then retry_json env decode url body else answer decode resp) u = Ret (r, t)"
      unfolding post_json_with_retry_def between_idle [OF assms(1)] by (simp add: sbind_def)
    then show ?thesis
    proof (cases rule: sbind_cases)
      case (error e)
      with m show ?thesis by (intro exI [of _ m] exI [of _ "[?c]"]) (auto simp: send_call_cases)
    next
      case (ok resp v)
      then have v: "v = ?v" and a: "ap_send env (sent s @ m) ?c = Some resp" using m by (auto simp: send_call_cases ok_or_iff)
      show ?thesis
      proof (cases "rs_status resp = 401")
        case False
        with ok v have "t = ?v" by (auto dest: answer_same)
        with m show ?thesis by (intro exI [of _ m] exI [of _ "[?c]"]) simp
      next
        case True
        with ok v have "retry_json env decode url body ?v = Ret (r, t)" by simp
        from retry_sends [OF assms(1) this] obtain m' where m': "mints env m'"
          "sent t = sent ?v @ m' \<or> (\<exists>x. sent t = sent ?v @ m' @ [PostJson url body (access_token x)] \<and> sa_cache t = Some x)" by blast
        then show ?thesis
        proof (elim disjE exE conjE)
          assume "sent t = sent ?v @ m'"
          with m m'(1) a True show ?thesis by (intro exI [of _ m] exI [of _ "?c # m'"]) auto
        next
          fix x assume "sent t = sent ?v @ m' @ [PostJson url body (access_token x)]" "sa_cache t = Some x"
          with m m'(1) a True show ?thesis
            by (intro exI [of _ m] exI [of _ "?c # m' @ [PostJson url body (access_token x)]"]) auto
        qed
      qed
    qed
  qed
qed

text \<open>A service that rejects the first token it minted.\<close>

definition sample_send :: "api_call list \<Rightarrow> api_call \<Rightarrow> api_response option" where
  "sample_send l c = (case c of
     PostForm _ _ \<Rightarrow> Some \<lparr>rs_status = 200, rs_body = (if l = [] then ''t1'' else ''t2'')\<rparr>
   | PostJson _ _ k \<Rightarrow> Some (if k = ''t1'' then \<lparr>rs_status = 401, rs_body = []\<rparr> else \<lparr>rs_status = 200, rs_body = ''yes''\<rparr>))"

definition sample_api :: api_env where
  "sample_api = \<lparr>api_url = ''h/'', ap_client_id = ''c'', ap_issuer = ''i'', ap_send = sample_send, ap_clock = (\<lambda>_. 0),
     ap_now_secs = (\<lambda>_. 0), ap_others = (\<lambda>s. s), ap_b64 = (\<lambda>s. s), ap_sign = (\<lambda>s. ''s''), ap_json = (\<lambda>_. ''{}''),
     ap_oauth = (\<lambda>b. Some \<lparr>or_access_token = b, or_expires_in = None\<rparr>), ap_check = (\<lambda>b. Some (b = ''yes'')),
     ap_resolve = (\<lambda>_. None)\<rparr>"

lemma sample_check:
  "check_project sample_api ''u'' ''p'' ''Project.view'' \<lparr>sa_cache = None, sent = []\<rparr>
   = Ret (Inr True, \<lparr>sa_cache = Some \<lparr>access_token = ''t2'', expires_at = 600 * 10 ^ 9\<rparr>,
       sent = [mint_form sample_api 0, PostJson (check_url sample_api) (CheckBody (project_check_request ''u'' ''p'' ''Project.view'')) ''t1'',
         mint_form sample_api 0, PostJson (check_url sample_api) (CheckBody (project_check_request ''u'' ''p'' ''Project.view'')) ''t2'']\<rparr>)"
proof -
  have f: "\<exists>u fs. mint_form sample_api n = PostForm u fs" for n by (simp add: mint_form_def)
  have s: "ap_send sample_api l (mint_form sample_api n) = Some \<lparr>rs_status = 200, rs_body = (if l = [] then ''t1'' else ''t2'')\<rparr>" for l n
    using f [of n] by (auto simp: sample_api_def sample_send_def)
  have c: "ap_send sample_api l (PostJson u b k) = Some (if k = ''t1'' then \<lparr>rs_status = 401, rs_body = []\<rparr> else \<lparr>rs_status = 200, rs_body = ''yes''\<rparr>)" for l u b k
    by (simp add: sample_api_def sample_send_def)
  have o: "ap_others sample_api = (\<lambda>s. s)" "ap_clock sample_api = (\<lambda>_. 0)" "ap_now_secs sample_api = (\<lambda>_. 0)"
    "ap_oauth sample_api = (\<lambda>b. Some \<lparr>or_access_token = b, or_expires_in = None\<rparr>)" "ap_check sample_api = (\<lambda>b. Some (b = ''yes''))"
    by (simp_all add: sample_api_def)
  show ?thesis
    by (simp add: check_project_def post_json_with_retry_def retry_json_def between_def get_token_def force_refresh_def
        store_minted_def mint_def send_call_def s c o sbind_def sthen_def smodify_def sret_def token_expiry_def is_success_def
        answer_def parsed_def)
qed

lemma authorization_fails_closed_witness:
  "\<exists>s'. check_project sample_api ''u'' ''p'' ''Project.view'' \<lparr>sa_cache = None, sent = []\<rparr> = Ret (Inr True, s')
    \<and> decided sample_api (ap_check sample_api) (check_url sample_api)
        (CheckBody \<lparr>cr_subject = ''u'', cr_permission = ''Project.view'', cr_object = (''project'', ''p'')\<rparr>) s' True"
  using authorization_fails_closed [of sample_api "''u''" "''p''" "''Project.view''"] sample_check by fastforce

lemma question_repeated_once_witness:
  "\<exists>t m tail. check_project sample_api ''u'' ''p'' ''Project.view'' \<lparr>sa_cache = None, sent = []\<rparr> = Ret (Inr True, t)
    \<and> sent t = m @ tail \<and> (m = [] \<or> mints sample_api m)"
proof -
  have o: "ap_others sample_api = (\<lambda>s. s)" by (simp add: sample_api_def)
  obtain t where t: "check_project sample_api ''u'' ''p'' ''Project.view'' \<lparr>sa_cache = None, sent = []\<rparr> = Ret (Inr True, t)"
    using sample_check by blast
  from question_repeated_once [OF o t [unfolded check_project_def]] t show ?thesis by auto
qed

end
