(* ===== verification/Actions.thy ===== *)
theory Actions
  imports Handlers_Results Types Attach_Read_Only Duckvis_Api
begin

text \<open>
  \<^verbatim>\<open>service/handlers/action.rs\<close> and the fallback of \<^verbatim>\<open>handlers/mod.rs\<close>: the actions of the Airport client, of loaders that follow the
  execution of their statements, and of duckvis. A body that is encoded in MessagePack or JSON is given decoded; the decoders that are
  tried in turn are in \<open>action_codecs\<close>. Responses are the values that are encoded into them.
\<close>

section \<open>Execute\<close>

text \<open>A header may hold bytes that are no visible ASCII text.\<close>

datatype header_value = OpaqueHeader | TextHeader string

type_synonym headers = "string \<Rightarrow> header_value option"

record action_codecs =
  ac_uuid :: "string \<Rightarrow> bool"
  ac_hex :: "string \<Rightarrow> string option"
  ac_json :: "string \<Rightarrow> bool"
  ac_map_sql :: "string \<Rightarrow> string option"
  ac_str_sql :: "string \<Rightarrow> string option"

type_synonym ('v, 'b, 's, 'x) action = "(('v, 'b, 's) session, status, 'x) step"

definition generation_changed :: status where
  "generation_changed = mk_status CodeFailedPrecondition ''SwanLake execution generation changed''"

definition check_generation :: "string \<Rightarrow> headers \<Rightarrow> status + unit" where
  "check_generation generation hs =
     (case hs ''x-swanlake-generation'' of None \<Rightarrow> Inr ()
      | Some v \<Rightarrow> if v \<noteq> TextHeader generation then Inl generation_changed else Inr ())"

text \<open>\<open>request\<close> is the new request, \<open>live\<close> the registered requests that are still held.\<close>

definition register_request ::
    "action_codecs \<Rightarrow> nat set \<Rightarrow> nat \<Rightarrow> headers \<Rightarrow> ('v, 'b, 's, unit) action" where
  "register_request ac live rq hs =
     (case hs ''x-swanlake-request-id'' of None \<Rightarrow> sret ()
      | Some OpaqueHeader \<Rightarrow> sfail (invalid_argument ''invalid request ID'')
      | Some (TextHeader ident) \<Rightarrow>
          if \<not> ac_uuid ac ident then sfail (invalid_argument ''request ID must be a UUID'')
          else of_session (register_execution live ident rq))"

definition execution_metadata :: "action_codecs \<Rightarrow> headers \<Rightarrow> status + string option" where
  "execution_metadata ac hs =
     (let invalid = invalid_argument ''invalid execution metadata'' in
      case hs ''x-duckvis-execution'' of None \<Rightarrow> Inr None
      | Some OpaqueHeader \<Rightarrow> Inl invalid
      | Some (TextHeader encoded) \<Rightarrow>
          if length encoded > 32768 then Inl (invalid_argument ''execution metadata too large'')
          else (case ac_hex ac encoded of None \<Rightarrow> Inl invalid
            | Some bytes \<Rightarrow>
                if \<not> valid_utf8 bytes then Inl invalid
                else if \<not> ac_json ac bytes then Inl invalid
                else Inr (Some bytes)))"

definition body_sql :: "action_codecs \<Rightarrow> string \<Rightarrow> status + string" where
  "body_sql ac body =
     (if body = [] then Inl (invalid_argument ''execute action requires SQL in body'')
      else (case ac_map_sql ac body of Some sql \<Rightarrow> Inr sql
        | None \<Rightarrow> (case ac_str_sql ac body of Some sql \<Rightarrow> Inr sql
          | None \<Rightarrow> if valid_utf8 body then Inr body
              else Inl (invalid_argument ''execute action body must be SQL string''))))"

definition do_action_execute ::
    "action_codecs \<Rightarrow> ('v, 'b, 's, 'q) engine \<Rightarrow> nat \<Rightarrow> string \<Rightarrow> nat set \<Rightarrow> nat \<Rightarrow> headers \<Rightarrow> string \<Rightarrow> ('v, 'b, 's, int) action" where
  "do_action_execute ac eng now generation live rq hs body =
     sthen (result_step (check_generation generation hs))
       (sthen (register_request ac live rq hs)
         (sbind (result_step (execution_metadata ac hs)) (\<lambda>execution.
           sbind (result_step (body_sql ac body)) (\<lambda>sql.
             blocking (execute_statement_with_telemetry eng now sql execution)))))"

text \<open>\<open>execute_guarded\<close> answers with the code and message of the error, if there was one.\<close>

definition do_action_execute_guarded ::
    "action_codecs \<Rightarrow> ('v, 'b, 's, 'q) engine \<Rightarrow> nat \<Rightarrow> string \<Rightarrow> nat set \<Rightarrow> nat \<Rightarrow> headers \<Rightarrow> string \<Rightarrow>
     ('v, 'b, 's, status option) action" where
  "do_action_execute_guarded ac eng now generation live rq hs body s =
     run_map (\<lambda>(r, s'). (Inr (case r of Inl st \<Rightarrow> Some st | Inr _ \<Rightarrow> None), s'))
       (do_action_execute ac eng now generation live rq hs body s)"

text \<open>The request to interrupt, if it is there: \<open>cancelled\<close>, or \<open>not_found\<close>.\<close>

definition do_action_cancel_execution ::
    "action_codecs \<Rightarrow> nat set \<Rightarrow> string \<Rightarrow> ('v, 'b, 's, nat option) action" where
  "do_action_cancel_execution ac live body =
     (if \<not> valid_utf8 body then sfail (invalid_argument ''invalid request ID'')
      else if \<not> ac_uuid ac body then sfail (invalid_argument ''request ID must be a UUID'')
      else (\<lambda>s. sret (cancel_execution live body s) s))"

definition do_action_execute_sql :: "('v, 'b, 's, 'q) engine \<Rightarrow> nat \<Rightarrow> string \<Rightarrow> ('v, 'b, 's, int) action" where
  "do_action_execute_sql eng now sql = blocking (execute_statement eng now sql)"

definition do_action_create_transaction :: "('v, 'b, 's, 'q) engine \<Rightarrow> nat \<Rightarrow> ('v, 'b, 's, transaction_id) action" where
  "do_action_create_transaction eng now = blocking (begin_transaction eng now)"

text \<open>The kernel's updates, from an extension's store; \<open>updates\<close> is its answer.\<close>

definition do_action_execution_updates ::
    "(string \<Rightarrow> server_error + string) \<Rightarrow> headers \<Rightarrow> (unit \<Rightarrow> status + unit) \<Rightarrow> string \<Rightarrow> status + string" where
  "do_action_execution_updates updates hs prepare body =
     (case hs ''x-expected-session-nonce'' of
        Some (TextHeader v) \<Rightarrow>
          if v = [] then Inl (mk_status CodeFailedPrecondition ''telemetry requires a session nonce'')
          else try_ok (prepare ()) (\<lambda>_.
            if length body > 16384 then Inl (invalid_argument ''telemetry request too large'')
            else if \<not> valid_utf8 body then Inl (invalid_argument ''invalid telemetry request'')
            else (case updates body of Inl e \<Rightarrow> Inl (status_from_error e) | Inr out \<Rightarrow> Inr out))
      | _ \<Rightarrow> Inl (mk_status CodeFailedPrecondition ''telemetry requires a session nonce''))"

section \<open>Schemas and tables\<close>

definition quoted_name :: "string \<Rightarrow> string" where
  "quoted_name n = CHR 0x22 # n @ [CHR 0x22]"

definition create_schema_sql :: "string \<Rightarrow> string" where
  "create_schema_sql schema = ''CREATE SCHEMA IF NOT EXISTS '' @ quoted_name schema"

definition do_action_create_schema :: "('v, 'b, 's, 'q) engine \<Rightarrow> nat \<Rightarrow> string \<Rightarrow> ('v, 'b, 's, unit) action" where
  "do_action_create_schema eng now schema =
     sbind (blocking (execute_statement eng now (create_schema_sql schema))) (\<lambda>_. sret ())"

record create_table_parameters =
  ct_catalog_name :: string
  ct_schema_name :: string
  ct_table_name :: string
  ct_on_conflict :: string
  ct_not_null_constraints :: "nat list"
  ct_unique_constraints :: "nat list"
  ct_check_constraints :: "string list"
  ct_primary_key_columns :: "string list"
  ct_unique_columns :: "string list"
  ct_multi_key_primary_keys :: "string list"
  ct_extra_constraints :: "string list"

definition column_definition :: "create_table_parameters \<Rightarrow> nat \<Rightarrow> data_type field \<Rightarrow> string" where
  "column_definition p idx f =
     quoted_name (f_name f) @ '' '' @ arrow_type_to_duckdb_sql (f_type f)
     @ (if idx \<in> set (ct_not_null_constraints p) \<or> \<not> f_nullable f then '' NOT NULL'' else [])"

definition column_list_constraint :: "string \<Rightarrow> string list \<Rightarrow> string list" where
  "column_list_constraint kind columns =
     (if columns = [] then [] else [kind @ '' ('' @ join '', '' (map quoted_name columns) @ '')''])"

definition create_table_sql :: "create_table_parameters \<Rightarrow> data_type field list \<Rightarrow> string" where
  "create_table_sql p schema =
     (let column_defs = map (\<lambda>(idx, f). column_definition p idx f) (zip [0..<length schema] schema);
          constraints = column_list_constraint ''PRIMARY KEY'' (ct_primary_key_columns p)
            @ column_list_constraint ''UNIQUE'' (ct_unique_columns p);
          name = (if ct_schema_name p = [] then quoted_name (ct_table_name p)
            else quoted_name (ct_schema_name p) @ ''.'' @ quoted_name (ct_table_name p))
      in ''CREATE TABLE '' @ (if ct_on_conflict p = ''ignore'' then ''IF NOT EXISTS '' else []) @ name @ '' ('' @ join '', '' column_defs
         @ (if constraints \<noteq> [] then '', '' @ join '', '' constraints else []) @ '')'')"

text \<open>
  What a table is described by: its app metadata (schema, catalog, name), path, and its columns, all nullable. \<open>info\<close> is
  the failure of encoding the schema.
\<close>

record table_info =
  ti_catalog :: string
  ti_path :: "string \<times> string"
  ti_columns :: "data_type field list"

definition build_table_flight_info ::
    "(data_type field list \<Rightarrow> string + unit) \<Rightarrow> string \<Rightarrow> string \<Rightarrow> string \<Rightarrow> (string \<times> data_type) list \<Rightarrow> status + table_info" where
  "build_table_flight_info info catalog schema table columns =
     (let fs = map (\<lambda>(n, t). \<lparr>f_name = n, f_type = t, f_nullable = True\<rparr>) columns in
      case info fs of Inl e \<Rightarrow> Inl (mk_status CodeInternal (''Failed to build FlightInfo: '' @ e))
      | Inr _ \<Rightarrow> Inr \<lparr>ti_catalog = catalog, ti_path = (schema, table), ti_columns = fs\<rparr>)"

definition do_action_create_table ::
    "(data_type field list \<Rightarrow> string + unit) \<Rightarrow> ('v, 'b, 's, 'q) engine \<Rightarrow> nat \<Rightarrow> create_table_parameters \<Rightarrow> data_type field list \<Rightarrow>
     ('v, 'b, 's, table_info) action" where
  "do_action_create_table info eng now p schema =
     sthen (blocking (execute_statement eng now (create_table_sql p schema)))
       (result_step (build_table_flight_info info (ct_catalog_name p) (ct_schema_name p) (ct_table_name p)
          (map (\<lambda>f. (f_name f, f_type f)) schema)))"

definition schemas_sql :: string where
  "schemas_sql = ''SELECT DISTINCT schema_name FROM information_schema.schemata ORDER BY schema_name''"

definition tables_sql :: "string \<Rightarrow> string" where
  "tables_sql schema = ''SELECT table_name, column_name, data_type FROM information_schema.columns WHERE table_schema = ''
     @ [CHR 0x27] @ schema @ [CHR 0x27] @ '' ORDER BY table_name, ordinal_position''"

text \<open>The columns of each table, in the order of the rows.\<close>

definition columns_of :: "(string \<times> string \<times> string) list \<Rightarrow> string \<Rightarrow> (string \<times> data_type) list" where
  "columns_of rows table = map (\<lambda>(t, c, ty). (c, listed_type ty)) (filter (\<lambda>(t, c, ty). t = table) rows)"

text \<open>
  \<open>names\<close> and \<open>rows\<close> read the answers of the two queries; the second panics on a column that is no text. \<open>tables\<close> is the
  order in which the map of tables is iterated.
\<close>

record 'q listing =
  li_names :: "'q \<Rightarrow> status + string list"
  li_rows :: "'q \<Rightarrow> (string \<times> string \<times> string) list run"
  li_tables :: "string set \<Rightarrow> string list"
  li_info :: "data_type field list \<Rightarrow> string + unit"

definition table_infos :: "'q listing \<Rightarrow> string \<Rightarrow> string \<Rightarrow> (string \<times> string \<times> string) list \<Rightarrow> status + table_info list" where
  "table_infos li catalog schema rows =
     collect (\<lambda>t. build_table_flight_info (li_info li) catalog schema t (columns_of rows t)) (li_tables li (fst ` set rows))"

fun list_tables ::
    "'q listing \<Rightarrow> ('v, 'b, 's, 'q) engine \<Rightarrow> nat \<Rightarrow> string \<Rightarrow> string list \<Rightarrow> ('v, 'b, 's, (string \<times> bool \<times> table_info list) list) action" where
  "list_tables li eng now catalog [] = sret []"
| "list_tables li eng now catalog (schema # schemas) =
     sbind (blocking (execute_query eng now (tables_sql schema))) (\<lambda>q.
     sbind (\<lambda>s. run_map (\<lambda>rows. (Inr rows, s)) (li_rows li q)) (\<lambda>rows.
     sbind (result_step (table_infos li catalog schema rows)) (\<lambda>infos.
     sbind (list_tables li eng now catalog schemas) (\<lambda>others. sret ((schema, schema = ''main'', infos) # others)))))"

definition do_action_list_schemas ::
    "'q listing \<Rightarrow> ('v, 'b, 's, 'q) engine \<Rightarrow> nat \<Rightarrow> string \<Rightarrow> ('v, 'b, 's, (string \<times> bool \<times> table_info list) list) action" where
  "do_action_list_schemas li eng now catalog =
     sbind (blocking (execute_query eng now schemas_sql)) (\<lambda>q.
     sbind (result_step (li_names li q)) (list_tables li eng now catalog))"

section \<open>Attachments\<close>

definition attach_body_status :: status where \<open>
  attach_body_status = invalid_argument ''duckvis_attach body must be JSON {"bind_id":"<uuid>"}''\<close>

text \<open>\<open>body\<close> is the decoded JSON body: the bind id and whether to put the catalog on the search path.\<close>

definition do_action_duckvis_attach ::
    "(string \<Rightarrow> bool) \<Rightarrow> (string \<Rightarrow> string \<Rightarrow> string \<Rightarrow> duckvis_error + resolved_attachment option) \<Rightarrow> ('v, 'b, 's, 'q) engine \<Rightarrow> nat \<Rightarrow>
     (string \<times> bool) option \<Rightarrow> ('v, 'b, 's, string \<times> string) action" where
  "do_action_duckvis_attach uuid resolve eng now body s =
     (case s_auth s of None \<Rightarrow> sfail missing_auth_status s
      | Some auth \<Rightarrow>
        (case body of None \<Rightarrow> sfail attach_body_status s
         | Some (raw_id, add_to_search_path) \<Rightarrow>
           (let bind_id = trim raw_id in
            if \<not> uuid bind_id then sfail (invalid_argument ''bind_id must be a valid uuid'') s
            else (case resolve (subject auth) (project_id auth) bind_id of
                Inl e \<Rightarrow> sfail (into_status e) s
              | Inr None \<Rightarrow> sfail (into_status AttachmentNotResolvable) s
              | Inr (Some res) \<Rightarrow>
                  rbind (normalize_attach (ra_secret_config res) (ra_name res) (\<not> writer auth)) (\<lambda>norm.
                  sbind (result_step (into_status_err norm)) (\<lambda>sql.
                  sbind (result_step (into_status_err (collect (\<lambda>x. secret_statement (as_name x) (as_kind x) (as_fields x)) (ra_secrets res)))) (\<lambda>secrets.
                  sbind (result_step (into_status_err (if add_to_search_path
                      then try_ok (catalog_search_path_sql (ra_name res)) (\<lambda>p. Inr (Some p)) else Inr None))) (\<lambda>search_path.
                  sthen (blocking (attach_catalog eng now (ra_name res) secrets sql search_path))
                    (sthen (of_session clear_schema_cache) (sret (ra_name res, ra_attachment_id res)))))) s)))))"

section \<open>Dispatch\<close>

datatype action_kind =
    ListSchemas | CreateSchema | CreateTable | CreateTransaction | CatalogVersion | Endpoints | Execute | ExecutionIdentity
  | ExecuteGuarded | CancelExecution | ExecutionUpdates | SessionInfo | CloseSession | DuckvisAttach | ExecuteSql string

definition action_names :: "(string \<times> action_kind) list" where
  "action_names =
     [(''list_schemas'', ListSchemas), (''create_schema'', CreateSchema), (''create_table'', CreateTable),
      (''create_transaction'', CreateTransaction), (''catalog_version'', CatalogVersion), (''endpoints'', Endpoints),
      (''execute'', Execute), (''execution_identity'', ExecutionIdentity), (''execute_guarded'', ExecuteGuarded),
      (''cancel_execution'', CancelExecution), (''execution_updates'', ExecutionUpdates), (''session_info'', SessionInfo),
      (''close_session'', CloseSession), (''duckvis_attach'', DuckvisAttach)]"

definition sql_action_words :: "string list" where
  "sql_action_words = [''CREATE'', ''DROP'', ''ALTER'', ''INSERT'', ''UPDATE'', ''DELETE'', ''TRUNCATE'', ''ATTACH'', ''DETACH'']"

text \<open>\<open>debug\<close> is the debug rendering of a string.\<close>

definition do_action_fallback :: "(string \<Rightarrow> string) \<Rightarrow> string \<Rightarrow> status + action_kind" where
  "do_action_fallback debug action_type =
     (case map_of action_names action_type of Some k \<Rightarrow> Inr k
      | None \<Rightarrow> if list_ex (\<lambda>w. prefix w (to_uppercase (trim action_type))) sql_action_words then Inr (ExecuteSql action_type)
          else Inl (invalid_argument (''do_action: The defined request is invalid: '' @ debug action_type)))"

end
