(* ===== verification/Actions_Properties.thy ===== *)
theory Actions_Properties
  imports Actions
begin

text \<open>
  What the actions do to a session and its connection: a loader's statement is checked before it is run, can be
  cancelled under its id, and the privileged path runs the statements of the resolved attachment only.
\<close>

section \<open>Calls of an operation\<close>

text \<open>The calls that lock a session's connection down.\<close>

definition lockdown_call :: "('v, 'b, 's) session \<Rightarrow> ('v, 'b) call \<Rightarrow> bool" where
  "lockdown_call s c \<longleftrightarrow> (\<exists>t a. s_template s = Some t \<and> s_auth s = Some a
     \<and> (c = CallCreateDir (scratch_directory t) \<or> c = CallBatch (lockdown_sql t (writer a) (roots s))))"

text \<open>An invariant that only the calls \<open>P\<close> keep, among those an operation makes on the connection.\<close>

locale call_invariant =
  fixes I :: "('v, 'b, 's) session \<Rightarrow> bool" and P :: "('v, 'b) call \<Rightarrow> bool"
  assumes c_log: "I s \<Longrightarrow> P c \<Longrightarrow> I (s\<lparr>log := log s @ [c]\<rparr>)"
    and c_rollback: "P (CallBatch ''ROLLBACK'')"
    and c_other: "I s \<Longrightarrow> I (s\<lparr>last_activity := n\<rparr>)" "I s \<Longrightarrow> I (s\<lparr>cache := c'\<rparr>)" "I s \<Longrightarrow> I (s\<lparr>applied := b\<rparr>)"
      "I s \<Longrightarrow> I (s\<lparr>transactions := ts, aborted := ab\<rparr>)"
begin

lemma ask_keeps: "P c \<Longrightarrow> keeps I (ask c f)"
  by (auto simp: keeps_def ask_def c_log)

lemma recover_keeps: "I s \<Longrightarrow> I (recover_from_transaction_abort eng e s)"
  using c_log [OF _ c_rollback, of s] c_other(4) [of "s\<lparr>log := log s @ [CallBatch ''ROLLBACK'']\<rparr>"]
  by (auto simp: recover_from_transaction_abort_def Let_def split: sum.splits)

lemma asked_keeps: "P c \<Longrightarrow> keeps I (with_transaction_recovery eng (ask c f) b)"
  by (intro keeps_recovery ask_keeps recover_keeps)

lemma touch_keeps: "keeps I (touch n)"
  by (simp add: touch_def keeps_modify c_other(1))

lemma clear_keeps: "keeps I clear_schema_cache"
  by (simp add: clear_schema_cache_def keeps_modify c_other(2))

lemma invalidating_keeps: "keeps I m \<Longrightarrow> keeps I (invalidating sql m)"
  unfolding invalidating_def by (intro keeps_intros clear_keeps)

lemma admit_keeps: "keeps I (admit sql)"
  by (auto simp: keeps_def admit_def run_map_def run_simps)

lemma lockdown_keeps:
  assumes "\<And>s c. I s \<Longrightarrow> lockdown_call s c \<Longrightarrow> P c"
  shows "keeps I (ensure_lockdown eng)"
proof (rule keepsI)
  fix s r s' assume I: "I s" "ensure_lockdown eng s = Ret (r, s')"
  have k: "keeps I (sthen (ask (CallCreateDir (scratch_directory t)) f) (sthen (ask (CallBatch (lockdown_sql t (writer a) (roots s))) g)
      (smodify (\<lambda>t. t\<lparr>applied := True\<rparr>))))" if "s_template s = Some t" "s_auth s = Some a" for t a f g
    using that by (intro keeps_intros keeps_modify ask_keeps assms [OF I(1)] c_other(3)) (auto simp: lockdown_call_def)
  from I show "I s'"
    by (auto simp: ensure_lockdown_def sret_def split: option.splits if_splits dest: keepsD [OF k])
qed

lemma telemetry_keeps:
  assumes "\<And>s c. I s \<Longrightarrow> lockdown_call s c \<Longrightarrow> P c" "P (CallStatementTelemetry sql ex)"
  shows "keeps I (execute_statement_with_telemetry eng now sql ex)"
  unfolding execute_statement_with_telemetry_def enter_def
  by (intro keeps_intros admit_keeps lockdown_keeps touch_keeps invalidating_keeps asked_keeps assms)

lemma privileged_keeps:
  assumes "P (CallStatement Server sql)"
  shows "keeps I (execute_statement_privileged eng now sql)"
  unfolding execute_statement_privileged_def execute_statement_inner_def
  by (intro keeps_intros touch_keeps invalidating_keeps asked_keeps assms)

lemma secrets_keep:
  assumes "\<And>sql. sql \<in> set secrets \<Longrightarrow> P (CallStatement Server sql)"
  shows "keeps I (arm_secrets eng now secrets)"
  using assms
proof (induction secrets)
  case (Cons sql secrets)
  show ?case
  proof (rule keepsI)
    fix s r s' assume I: "I s" and run: "arm_secrets eng now (sql # secrets) s = Ret (r, s')"
    then obtain q t where q: "execute_statement_privileged eng now sql s = Ret (q, t)"
      by (cases "execute_statement_privileged eng now sql s") auto
    have "I t" by (rule keepsD [OF privileged_keeps I q]) (simp add: Cons.prems)
    with run q Cons show "I s'" by (auto simp: sfail_def split: sum.splits dest: keepsD)
  qed
qed (simp add: keeps_def sret_def)

end

locale attach_invariant = call_invariant I P
  for I :: "('v, 'b, 's) session \<Rightarrow> bool" and P :: "('v, 'b) call \<Rightarrow> bool" +
  assumes c_roots: "I s \<Longrightarrow> I (s\<lparr>roots := rs\<rparr>)"
begin

lemma collect_keeps:
  assumes "\<And>sql. P (CallDataRoots sql)"
  shows "keeps I (collect_roots eng c sql)"
proof (rule keepsI)
  fix s r s' assume I: "I s" and run: "collect_roots eng c sql s = Ret (r, s')"
  have add: "keeps I (add_roots rs)" for rs by (simp add: add_roots_def keeps_modify c_roots)
  have k: "keeps I (sthen (add_roots rs) (sbind (ask (CallDataRoots q) f)
      (\<lambda>r. case r of Inr rs \<Rightarrow> add_roots (set rs) | Inl _ \<Rightarrow> sret ())))" for rs q and f :: "_ \<Rightarrow> server_error + (server_error + string list)"
    using add by (intro keeps_intros ask_keeps assms) (auto split: sum.split intro: keeps_intros)
  from run I show "I s'" by (auto simp: collect_roots_def run_simps dest: keepsD [OF k])
qed

lemma attach_keeps:
  assumes "P (CallAttached c)" "\<And>q. P (CallDataRoots q)" "P (CallStatement Server sql)"
    "\<And>q. q \<in> set secrets \<Longrightarrow> P (CallStatement Server q)" "\<And>q. path = Some q \<Longrightarrow> P (CallStatement Server q)"
  shows "keeps I (attach_catalog eng now c secrets sql path)"
proof -
  have present: "keeps I (require_attached eng c)"
    unfolding require_attached_def by (intro keeps_intros ask_keeps assms(1))
  have searched: "keeps I (case path of None \<Rightarrow> sret ()
      | Some p \<Rightarrow> sthen (execute_statement_privileged eng now p) (sret ()))"
    using assms(5) by (cases path) (auto intro: keeps_intros privileged_keeps)
  have "keeps I (attach_steps eng now c secrets sql path x y)" for x y
    unfolding attach_steps_def
    by (rule keeps_then [OF _ keeps_then [OF secrets_keep [OF assms(4)]
        keeps_then [OF privileged_keeps [OF assms(3)] keeps_then [OF _ searched]]]])
      (auto intro: keeps_ret present collect_keeps assms(2))
  then show ?thesis unfolding attach_catalog_def keeps_def by blast
qed

end

text \<open>The registered executions are such an invariant, and that what was added to a log satisfies \<open>P\<close>.\<close>

interpretation registered: attach_invariant "\<lambda>s. executions s = m" "\<lambda>_. True" for m
  by unfold_locales simp_all

definition adds_only :: "('v, 'b, 's) session \<Rightarrow> (('v, 'b) call \<Rightarrow> bool) \<Rightarrow> ('v, 'b, 's) session \<Rightarrow> bool" where
  "adds_only s0 P s \<longleftrightarrow> (\<exists>new. log s = log s0 @ new \<and> (\<forall>c\<in>set new. P c \<or> c = CallBatch ''ROLLBACK''))"

interpretation added: attach_invariant "adds_only s0 P" "\<lambda>c. P c \<or> c = CallBatch ''ROLLBACK''" for s0 P
proof unfold_locales
  fix s c assume "adds_only s0 P s" "P c \<or> c = CallBatch ''ROLLBACK''"
  then show "adds_only s0 P (s\<lparr>log := log s @ [c]\<rparr>)" by (auto simp: adds_only_def)
qed (simp_all add: adds_only_def)

text \<open>The same, of a session whose roots and lockdown are not changed.\<close>

definition runs_only :: "('v, 'b, 's) session \<Rightarrow> (('v, 'b) call \<Rightarrow> bool) \<Rightarrow> ('v, 'b, 's) session \<Rightarrow> bool" where
  "runs_only s0 P s \<longleftrightarrow> adds_only s0 (\<lambda>c. P c \<or> lockdown_call s0 c) s
     \<and> s_template s = s_template s0 \<and> s_auth s = s_auth s0 \<and> roots s = roots s0"

interpretation ran: call_invariant "runs_only s0 P" "\<lambda>c. (P c \<or> lockdown_call s0 c) \<or> c = CallBatch ''ROLLBACK''" for s0 P
  by unfold_locales (simp_all add: runs_only_def added.c_log added.c_other)

lemma only_start: "adds_only s P s" "runs_only s P s"
  by (simp_all add: adds_only_def runs_only_def)

lemma ran_lockdown: "runs_only s0 P s \<Longrightarrow> lockdown_call s c \<Longrightarrow> lockdown_call s0 c"
  by (simp add: runs_only_def lockdown_call_def)

section \<open>Loaders\<close>

text \<open>What the headers and the body of an execution must satisfy before its statement is run.\<close>

definition accepted_request ::
    "action_codecs \<Rightarrow> string \<Rightarrow> nat set \<Rightarrow> headers \<Rightarrow> string \<Rightarrow> ('v, 'b, 's) session \<Rightarrow> string \<Rightarrow> string option \<Rightarrow> bool" where
  "accepted_request ac generation live hs body s sql ex \<longleftrightarrow>
     (\<forall>v. hs ''x-swanlake-generation'' = Some v \<longrightarrow> v = TextHeader generation)
     \<and> (\<forall>v. hs ''x-swanlake-request-id'' = Some v \<longrightarrow>
          (\<exists>i. v = TextHeader i \<and> ac_uuid ac i \<and> cancel_execution live i s = None))
     \<and> execution_metadata ac hs = Inr ex \<and> body_sql ac body = Inr sql \<and> passes (s_auth s) sql"

lemma register_log: "register_request ac live rq hs s = Ret (r, t) \<Longrightarrow>
    log t = log s \<and> s_auth t = s_auth s \<and> runs_only s P t
    \<and> (r = Inr x \<longrightarrow> (\<forall>v. hs ''x-swanlake-request-id'' = Some v \<longrightarrow>
        (\<exists>i. v = TextHeader i \<and> ac_uuid ac i \<and> cancel_execution live i s = None \<and> executions t i = Some rq)))"
  by (auto simp: register_request_def of_session_def run_map_def run_simps register_execution_def cancel_execution_def Let_def
      sret_def sfail_def runs_only_def adds_only_def split: option.splits header_value.splits if_splits)

lemma telemetry_unadmitted:
  assumes "\<not> passes (s_auth s) sql" "execute_statement_with_telemetry eng now sql ex s \<noteq> Panic"
  obtains e where "execute_statement_with_telemetry eng now sql ex s = Ret (Inl e, s)"
proof (cases "validate_user_sql (s_auth s) sql")
  case Panic
  with assms(2) show ?thesis
    by (simp add: execute_statement_with_telemetry_def enter_def admit_def sthen_def sbind_def run_map_def)
next
  case (Ret q)
  with assms(1) obtain e where "q = Inl e" by (cases q) auto
  with Ret that [of e] show ?thesis
    by (simp add: execute_statement_with_telemetry_def enter_def admit_def sthen_def sbind_def run_map_def)
qed

lemma execute_parts:
  assumes "do_action_execute ac eng now generation live rq hs body s = Ret (r, s')"
  obtains (refused) "\<exists>e. r = Inl e" "log s' = log s"
  | (run) sql ex t where "register_request ac live rq hs s = Ret (Inr (), t)"
      "accepted_request ac generation live hs body s sql ex"
      "blocking (execute_statement_with_telemetry eng now sql ex) t = Ret (r, s')"
proof (cases "check_generation generation hs")
  case Inl
  with assms show ?thesis by (intro refused) (auto simp: do_action_execute_def sthen_def sbind_def result_step_def)
next
  case gen: (Inr u)
  obtain q t where q: "register_request ac live rq hs s = Ret (q, t)"
    using assms gen by (cases "register_request ac live rq hs s") (auto simp: do_action_execute_def sthen_def sbind_def result_step_def)
  note reg = register_log [OF q]
  show ?thesis
  proof (cases "\<exists>sql ex. q = Inr () \<and> execution_metadata ac hs = Inr ex \<and> body_sql ac body = Inr sql")
    case False
    with assms gen q reg show ?thesis
      by (intro refused) (auto simp: do_action_execute_def sthen_def sbind_def result_step_def split: sum.splits)
  next
    case True
    then obtain sql ex where ok: "q = Inr ()" "execution_metadata ac hs = Inr ex" "body_sql ac body = Inr sql" by blast
    with assms gen q have b: "blocking (execute_statement_with_telemetry eng now sql ex) t = Ret (r, s')"
      by (simp add: do_action_execute_def sthen_def sbind_def result_step_def)
    show ?thesis
    proof (cases "passes (s_auth s) sql")
      case True
      with reg ok gen q b show ?thesis
        by (intro run [of t sql ex]) (auto simp: accepted_request_def check_generation_def split: option.splits if_splits)
    next
      case no: False
      have a: "s_auth t = s_auth s" "log t = log s" using reg by simp_all
      from b have "\<exists>e. r = Inl e \<and> s' = t"
        unfolding blocking_Ret
      proof (elim disjE conjE)
        assume o: "of_session (execute_statement_with_telemetry eng now sql ex) t = Ret (r, s')"
          and np: "execute_statement_with_telemetry eng now sql ex t \<noteq> Panic"
        from no have "\<not> passes (s_auth t) sql" using a(1) by simp
        then obtain e where "execute_statement_with_telemetry eng now sql ex t = Ret (Inl e, t)"
          using np by (rule telemetry_unadmitted)
        with o show ?thesis by (auto simp: of_session_def run_map_def)
      qed simp
      with a show ?thesis using refused by auto
    qed
  qed
qed

text \<open>
  C16: A loader's execution checks everything before it runs anything. Either it fails and the connection is not used, or the
  server's generation is the one the client expects, the request ID is a UUID of no request that is still running, the metadata is
  readable, and the SQL of the body passes the session's admission; then all that is run is that SQL, with its metadata, after the session's
  lockdown, and the rollback of an aborted transaction.
\<close>

theorem execution_checks_first:
  assumes "do_action_execute ac eng now generation live rq hs body s = Ret (r, s')"
  shows "(\<exists>e. r = Inl e) \<and> log s' = log s
    \<or> (\<exists>sql ex new. accepted_request ac generation live hs body s sql ex \<and> log s' = log s @ new
        \<and> (\<forall>c\<in>set new. c = CallStatementTelemetry sql ex \<or> lockdown_call s c \<or> c = CallBatch ''ROLLBACK''))"
  using assms
proof (cases rule: execute_parts)
  case (run sql ex t)
  have k: "keeps (runs_only s (\<lambda>c. c = CallStatementTelemetry sql ex)) (execute_statement_with_telemetry eng now sql ex)"
    by (rule ran.telemetry_keeps) (simp_all add: ran_lockdown)
  have "runs_only s (\<lambda>c. c = CallStatementTelemetry sql ex) s'"
    using keepsD [OF keeps_blocking [OF k] _ run(3)] register_log [OF run(1)] by blast
  with run(2) show ?thesis by (fastforce simp: runs_only_def adds_only_def)
qed blast

text \<open>
  C18: An execution whose statement reached the connection is registered under its request ID: while its client waits, a cancellation names
  it, and a second execution with the same ID is refused without using the connection, whatever its SQL.
\<close>

theorem running_execution_is_cancellable:
  assumes "hs ''x-swanlake-request-id'' = Some (TextHeader i)"
    "do_action_execute ac eng now generation live rq hs body s = Ret (r, s')" "log s' \<noteq> log s"
    "rq \<in> live'" "ac_uuid ac i" "valid_utf8 i"
    "hs' ''x-swanlake-request-id'' = Some (TextHeader i)" "check_generation generation hs' = Inr ()"
  shows "do_action_cancel_execution ac live' i s' = Ret (Inr (Some rq), s') \<and>
    (\<exists>s''. do_action_execute ac eng' now' generation live' rq' hs' body' s'
        = Ret (Inl (status_from_error (InternalError ''execution request ID is already active'')), s'') \<and> log s'' = log s')"
  using assms(2)
proof (cases rule: execute_parts)
  case (run sql ex t)
  have "executions t i = Some rq" using register_log [OF run(1), where x = "()"] assms(1) by auto
  moreover have "executions s' = executions t"
    using keepsD [OF keeps_blocking [OF registered.telemetry_keeps] refl run(3)] by simp
  ultimately have "executions s' i = Some rq" by simp
  with assms show ?thesis
    by (simp add: do_action_cancel_execution_def cancel_execution_def sret_def do_action_execute_def sthen_def sbind_def result_step_def
        register_request_def of_session_def register_execution_def Let_def sfail_def run_map_def)
qed (use assms(3) in simp)

section \<open>Attachments\<close>

text \<open>A call that stays on a log.\<close>

interpretation logged: attach_invariant "\<lambda>s. c \<in> set (log s)" "\<lambda>_. True" for c
  by unfold_locales auto

lemma privileged_logged:
  "execute_statement_privileged eng now sql s = Ret (Inr x, t) \<Longrightarrow> CallStatement Server sql \<in> set (log t)"
  unfolding execute_statement_privileged_def execute_statement_inner_def invalidating_def
  by (auto simp: sthen_def touch_def smodify_def sret_def clear_schema_cache_def ask_def with_recovery_Ret_iff
      elim!: sbind_cases split: if_splits)

lemma attach_logged:
  assumes "attach_catalog eng now c secrets sql path s = Ret (Inr u, t)"
  shows "CallStatement Server sql \<in> set (log t)"
proof -
  let ?I = "\<lambda>s. CallStatement Server sql \<in> set (log s)"
  have "keeps ?I (if x \<and> \<not> y then collect_roots eng c sql else sret ())"
    "keeps ?I (case path of None \<Rightarrow> sret () | Some p \<Rightarrow> sthen (execute_statement_privileged eng now p) (sret ()))" for x y
    by (intro keeps_intros logged.collect_keeps logged.privileged_keeps; simp)+
  note k = this [THEN keepsD]
  have split: "\<exists>t1 t2 t3 x y. execute_statement_privileged eng now sql t1 = Ret (Inr x, t2)
      \<and> (if confined s \<and> \<not> applied s then collect_roots eng c sql else sret ()) t2 = Ret (Inr y, t3)
      \<and> (case path of None \<Rightarrow> sret () | Some p \<Rightarrow> sthen (execute_statement_privileged eng now p) (sret ())) t3 = Ret (Inr u, t)"
    using assms unfolding attach_catalog_def attach_steps_def by (elim sthen_cases) blast+
  then obtain t1 t2 t3 x y where "execute_statement_privileged eng now sql t1 = Ret (Inr x, t2)"
    and r: "(if confined s \<and> \<not> applied s then collect_roots eng c sql else sret ()) t2 = Ret (Inr y, t3)"
      "(case path of None \<Rightarrow> sret () | Some p \<Rightarrow> sthen (execute_statement_privileged eng now p) (sret ())) t3 = Ret (Inr u, t)"
    by blast
  from privileged_logged [OF this(1)] have "?I t2" .
  from k(2) [OF k(1) [OF this r(1)] r(2)] show ?thesis .
qed

text \<open>What attaching \<open>res\<close> may ask of the connection, besides the rollback of an aborted transaction.\<close>

fun attach_call :: "string \<Rightarrow> string set \<Rightarrow> ('v, 'b) call \<Rightarrow> bool" where
  "attach_call name sqls (CallStatement o' q) \<longleftrightarrow> o' = Server \<and> q \<in> sqls"
| "attach_call name sqls (CallAttached n) \<longleftrightarrow> n = name"
| "attach_call name sqls (CallDataRoots _) \<longleftrightarrow> True"
| "attach_call name sqls _ \<longleftrightarrow> False"

lemma attach_catalog_runs:
  assumes "attach_catalog eng now name secrets sql path s = Ret (r, t)"
  shows "adds_only s (attach_call name (insert sql (set secrets \<union> set_option path))) t"
proof -
  let ?P = "attach_call name (insert sql (set secrets \<union> set_option path))"
  have "keeps (adds_only s ?P) (attach_catalog eng now name secrets sql path)"
    by (rule added.attach_keeps) auto
  from keepsD [OF this _ assms] show ?thesis by (simp add: only_start)
qed

lemma require_attached_cases: "require_attached eng name s = Ret (r, t) \<Longrightarrow> log t = log s @ [CallAttached name]"
  by (auto simp: require_attached_def ask_def sbind_def sret_def sfail_def split: sum.splits if_splits)

text \<open>The statements of a resolved attachment.\<close>

definition attachment_statements ::
    "bool \<Rightarrow> bool \<Rightarrow> resolved_attachment \<Rightarrow> string \<Rightarrow> string list \<Rightarrow> string option \<Rightarrow> bool" where
  "attachment_statements wr add res sql secrets path \<longleftrightarrow>
     normalize_attach (ra_secret_config res) (ra_name res) (\<not> wr) = Ret (Inr sql)
     \<and> collect (\<lambda>x. secret_statement (as_name x) (as_kind x) (as_fields x)) (ra_secrets res) = Inr secrets
     \<and> (if add then \<exists>p. catalog_search_path_sql (ra_name res) = Inr p \<and> path = Some p else path = None)"

lemma attach_action_parts:
  assumes "do_action_duckvis_attach uuid resolve eng now body s = Ret (r, s')"
  obtains (refused) "\<exists>e. r = Inl e" "s' = s"
  | (run) auth raw add res sql secrets path where "s_auth s = Some auth" "body = Some (raw, add)" "uuid (trim raw)"
      "resolve (subject auth) (project_id auth) (trim raw) = Inr (Some res)"
      "attachment_statements (writer auth) add res sql secrets path"
      "sthen (blocking (attach_catalog eng now (ra_name res) secrets sql path))
        (sthen (of_session clear_schema_cache) (sret (ra_name res, ra_attachment_id res))) s = Ret (r, s')"
proof (cases "\<exists>auth raw add res. s_auth s = Some auth \<and> body = Some (raw, add) \<and> uuid (trim raw)
    \<and> resolve (subject auth) (project_id auth) (trim raw) = Inr (Some res)")
  case False
  with assms show ?thesis
    by (intro refused) (auto simp: do_action_duckvis_attach_def sfail_def Let_def split: option.splits if_splits sum.splits)
next
  case True
  then obtain auth raw add res where ok: "s_auth s = Some auth" "body = Some (raw, add)" "uuid (trim raw)"
    "resolve (subject auth) (project_id auth) (trim raw) = Inr (Some res)" by blast
  show ?thesis
  proof (cases "\<exists>sql secrets path. attachment_statements (writer auth) add res sql secrets path")
    case True
    then obtain sql secrets path where a: "attachment_statements (writer auth) add res sql secrets path" by blast
    with ok assms show ?thesis
      by (intro run [of auth raw add res sql secrets path])
        (auto simp: do_action_duckvis_attach_def attachment_statements_def sbind_def result_step_def into_status_err_def
          split: if_splits)
  next
    case False
    with ok assms show ?thesis
      by (intro refused) (auto simp: do_action_duckvis_attach_def attachment_statements_def sbind_def result_step_def
          into_status_err_def run_simps split: if_splits sum.splits)
  qed
qed

text \<open>
  C17: \<open>duckvis_attach\<close> uses the server's privileges for the attachment that the control plane resolved, and for nothing else.
  The statements it runs as the server are the normalized ATTACH of the resolved configuration (read-only unless the user is a writer), the
  attachment's secrets, and the search path if it was asked for; beside them it reads the session's catalogs and data paths and rolls an
  aborted transaction back. If anything is missing, the session is not touched; if it succeeds, the ATTACH was run.
\<close>

theorem attach_action_runs_its_statements:
  assumes "do_action_duckvis_attach uuid resolve eng now body s = Ret (r, s')"
  shows "(\<exists>e. r = Inl e) \<and> s' = s \<or>
    (\<exists>auth raw add res sql secrets path new. s_auth s = Some auth \<and> body = Some (raw, add) \<and> uuid (trim raw)
      \<and> resolve (subject auth) (project_id auth) (trim raw) = Inr (Some res)
      \<and> attachment_statements (writer auth) add res sql secrets path
      \<and> log s' = log s @ new
      \<and> (\<forall>c\<in>set new. attach_call (ra_name res) (insert sql (set secrets \<union> set_option path)) c \<or> c = CallBatch ''ROLLBACK'')
      \<and> (\<forall>n. r = Inr n \<longrightarrow> n = (ra_name res, ra_attachment_id res) \<and> CallStatement Server sql \<in> set (log s')))"
  using assms
proof (cases rule: attach_action_parts)
  case (run auth raw add res sql secrets path)
  let ?P = "attach_call (ra_name res) (insert sql (set secrets \<union> set_option path))"
  let ?attach = "attach_catalog eng now (ra_name res) secrets sql path"
  have "keeps (adds_only s ?P) (sthen (blocking ?attach) (sthen (of_session clear_schema_cache) (sret (ra_name res, ra_attachment_id res))))"
    by (intro keeps_intros added.attach_keeps added.clear_keeps) auto
  from keepsD [OF this only_start(1) run(6)] obtain new
    where new: "log s' = log s @ new" "\<forall>c\<in>set new. ?P c \<or> c = CallBatch ''ROLLBACK''" by (auto simp: adds_only_def)
  have "n = (ra_name res, ra_attachment_id res) \<and> CallStatement Server sql \<in> set (log s')" if "r = Inr n" for n
  proof -
    from run(6) that obtain u t where "?attach s = Ret (Inr u, t)" "log s' = log t" "n = (ra_name res, ra_attachment_id res)"
      by (cases "?attach s") (auto simp: sthen_def sbind_def blocking_def of_session_def run_map_def clear_schema_cache_def
          smodify_def sret_def split: sum.splits)
    then show ?thesis using attach_logged by fastforce
  qed
  with run(1-5) new show ?thesis by blast
qed blast

section \<open>Samples\<close>

definition sample_codecs :: action_codecs where
  "sample_codecs = \<lparr>ac_uuid = (\<lambda>_. True), ac_hex = Some, ac_json = (\<lambda>_. True), ac_map_sql = (\<lambda>_. None), ac_str_sql = Some\<rparr>"

definition loader_headers :: headers where
  "loader_headers = [''x-swanlake-request-id'' \<mapsto> TextHeader ''r'']"

definition running_client :: "(nat, nat list, nat) client" where
  "running_client = locked_client\<lparr>executions := [''r'' \<mapsto> 4], last_activity := 1,
     log := [CallCreateDir ''/s'', CallBatch sample_lockdown, CallStatementTelemetry query_text None]\<rparr>"

lemma sample_execution:
  "do_action_execute sample_codecs sample_backend 1 ''g'' {} 4 loader_headers query_text sample_client
     = Ret (Inr 1, running_client)"
proof -
  have a: "should_invalidate_schema_cache query_text = False" unfolding query_text_def by code_simp
  have "s_auth (sample_client\<lparr>executions := e\<rparr>) = Some sample_auth" "executions sample_client = Map.empty" for e
    by (simp_all add: client_fields) (simp add: sample_client_def new_session_def)
  moreover have "ensure_lockdown sample_backend (sample_client\<lparr>executions := e\<rparr>)
      = Ret (Inr (), locked_client\<lparr>executions := e\<rparr>)" for e
    by (simp add: ensure_lockdown_def step_defs client_fields locked_client_def sample_lockdown_def)
      (simp add: sample_client_def new_session_def sample_auth_def sample_template_def)
  ultimately show ?thesis
    using query_passes a
    by (simp add: do_action_execute_def check_generation_def loader_headers_def register_request_def sample_codecs_def
        execution_metadata_def body_sql_def handler_defs register_execution_def run_map_def execute_statement_with_telemetry_def
        enter_def admit_def invalidating_def with_transaction_recovery_def running_client_def locked_client_def client_fields
        query_text_def)
qed

lemma execution_checks_first_witness:
  "\<exists>sql ex new. accepted_request sample_codecs ''g'' {} loader_headers query_text sample_client sql ex
    \<and> log running_client = new \<and> (\<forall>c\<in>set new. c = CallStatementTelemetry sql ex \<or> lockdown_call sample_client c \<or> c = CallBatch ''ROLLBACK'')"
  using execution_checks_first [OF sample_execution] by (simp add: client_fields)

lemma running_execution_is_cancellable_witness:
  "do_action_cancel_execution sample_codecs {4} ''r'' running_client = Ret (Inr (Some 4), running_client)
    \<and> (\<exists>s''. do_action_execute sample_codecs sample_backend 1 ''g'' {4} 5 loader_headers query_text running_client
        = Ret (Inl (status_from_error (InternalError ''execution request ID is already active'')), s'')
      \<and> log s'' = log running_client)"
  by (rule running_execution_is_cancellable [OF _ sample_execution])
    (simp_all add: loader_headers_def sample_codecs_def running_client_def client_fields check_generation_def, code_simp)

definition sample_attachment :: resolved_attachment where
  "sample_attachment = \<lparr>ra_attachment_id = ''a'', ra_name = ''db'', ra_kind = ''connection'', ra_secret_config = ''ATTACH 'p' AS x'', ra_secrets = []\<rparr>"

definition read_only_attach :: string where
  "read_only_attach = ''ATTACH OR REPLACE 'p' AS '' @ quoted_name ''db'' @ '' (READ_ONLY)''"

lemma sample_normalized: "normalize_attach (ra_secret_config sample_attachment) (ra_name sample_attachment) True = Ret (Inr read_only_attach)"
  unfolding sample_attachment_def read_only_attach_def by code_simp

lemma attach_action_runs_its_statements_witness:
  "\<exists>r s'. do_action_duckvis_attach (\<lambda>_. True) (\<lambda>_ _ _. Inr (Some sample_attachment)) sample_backend 1 (Some (''b'', False)) sample_client
      = Ret (r, s') \<and> CallStatement Server read_only_attach \<in> set (log s')"
proof -
  let ?run = "do_action_duckvis_attach (\<lambda>_. True) (\<lambda>_ _ _. Inr (Some sample_attachment)) sample_backend 1 (Some (''b'', False)) sample_client"
  note n = sample_normalized
  have "attach_data_path read_only_attach = Ret None" unfolding read_only_attach_def by code_simp
  moreover have "should_invalidate_schema_cache read_only_attach" unfolding read_only_attach_def by code_simp
  moreover
  have "writer sample_auth = False" by (simp add: sample_auth_def)
  moreover have "e_data_roots sample_backend l q = Inr []" "e_attached sample_backend l q = Inr False" for l q
    by (simp_all add: sample_backend_def)
  ultimately have "\<exists>s' x. ?run = Ret (Inr x, s')"
    using n
    by (simp add: do_action_duckvis_attach_def client_fields handler_defs into_status_err_def run_map_def attach_catalog_def
        attach_steps_def sample_attachment_def execute_statement_privileged_def execute_statement_inner_def invalidating_def
        with_transaction_recovery_def clear_schema_cache_def collect_roots_def add_roots_def)
  then obtain s' x where run: "?run = Ret (Inr x, s')" by blast
  have "CallStatement Server read_only_attach \<in> set (log s')"
    using attach_action_runs_its_statements [OF run] n
    by (auto simp: client_fields attachment_statements_def sample_auth_def)
  with run show ?thesis by blast
qed

section \<open>What the schema actions leave out\<close>

text \<open>The constraints by index, the checks, the multi-column keys and the catalog of a new table are not in its statement.\<close>

lemma create_table_leaves_out:
  "create_table_sql (p\<lparr>ct_catalog_name := c, ct_unique_constraints := u, ct_check_constraints := ch,
     ct_multi_key_primary_keys := k, ct_extra_constraints := x\<rparr>) fs = create_table_sql p fs"
  by (simp add: create_table_sql_def column_definition_def Let_def)

text \<open>Any conflict rule but \<open>ignore\<close>, as \<open>replace\<close>, is that of an error.\<close>

lemma create_table_replace: "r \<noteq> ''ignore'' \<Longrightarrow> create_table_sql (p\<lparr>ct_on_conflict := r\<rparr>) fs = create_table_sql (p\<lparr>ct_on_conflict := ''error''\<rparr>) fs"
  by (simp add: create_table_sql_def column_definition_def Let_def)

text \<open>A quote in a name ends the name: these two names make two statements each.\<close>

definition two_statement_schema :: string where
  "two_statement_schema = ''a'' @ [CHR 0x22] @ '';DROP TABLE t'' @ [CHR 0x22]"

definition two_statement_listing :: string where
  "two_statement_listing = ''a'' @ [CHR 0x27] @ '';SELECT '' @ [CHR 0x27]"

lemma unquoted_names:
  "length (split_top_level_statements (create_schema_sql two_statement_schema)) = 2"
  "length (split_top_level_statements (tables_sql two_statement_listing)) = 2"
  unfolding two_statement_schema_def two_statement_listing_def by code_simp+

end
