(* ===== verification/Service_Actions.thy ===== *)
theory Service_Actions
  imports Actions_Properties Airport_Filters
begin

text \<open>
  The actions of \<^verbatim>\<open>service/handlers/action.rs\<close> about a session as a whole and about the catalog: closing a session, its
  nonce, the catalog's version, the ticket of a table scan and the packed contents of a schema.
\<close>

section \<open>Sessions\<close>

definition do_action_session_info ::
    "bool \<Rightarrow> ('v, 'b, 's) gate_env \<Rightarrow> session_id_mode \<Rightarrow> string \<Rightarrow> rpc_request \<Rightarrow> ('v, 'b, 's) registry \<Rightarrow>
     (status + string) \<times> ('v, 'b, 's) registry" where
  "do_action_session_info duckvis ge mode uuid rq r =
     (case prepare_request duckvis ge mode uuid rq r of
        (Inl st, r') \<Rightarrow> (Inl st, r') | (Inr e, r') \<Rightarrow> (Inr (en_nonce e), r'))"

text \<open>
  \<open>u1\<close> and \<open>u2\<close> are the random ids that the two readings of the session id draw; \<open>others\<close> is what other requests do
  between the gate and the removal.
\<close>

definition do_action_close_session ::
    "(('v, 'b, 's) registry \<Rightarrow> ('v, 'b, 's) registry) \<Rightarrow> bool \<Rightarrow> ('v, 'b, 's) gate_env \<Rightarrow> session_id_mode \<Rightarrow> string \<Rightarrow> string \<Rightarrow>
     rpc_request \<Rightarrow> ('v, 'b, 's) registry \<Rightarrow> (status + bool) \<times> ('v, 'b, 's) registry" where
  "do_action_close_session others duckvis ge mode u1 u2 rq r =
     (let sid = extract_session_id mode u1 rq in
      case prepare_request duckvis ge mode u2 rq r of
        (Inl st, r') \<Rightarrow> (Inl st, r')
      | (Inr e, r') \<Rightarrow> (case remove_session sid (en_nonce e) (others r') of (removed, r'') \<Rightarrow> (Inr removed, r'')))"

lemma removed_session:
  "remove_session sid nonce r = (True, r') \<Longrightarrow> \<exists>e. get_by_id sid r = Some e \<and> en_nonce e = nonce
     \<and> sessions r' = filter (\<lambda>(k, _). k \<noteq> sid) (sessions r) \<and> permits r' = permits r + 1"
  "remove_session sid nonce r = (False, r') \<Longrightarrow> r' = r"
  by (auto simp: remove_session_def split: option.splits if_splits)

text \<open>
  C37: A caller can close only a session of their own. When \<open>close_session\<close> succeeds in duckvis mode, the session that the gate
  admitted is bound to the subject of the caller's valid token and to the project they named; and whatever other requests did between the gate
  and the removal, at most the session under that id with the admitted nonce leaves the registry, giving one permit back; every other
  session stays, the one that replaced an evicted session included.
\<close>

theorem close_session_is_the_callers:
  assumes "do_action_close_session others True ge mode u1 u2 rq r = (Inr removed, r')"
  shows "\<exists>e r1 bearer claims a. prepare_request True ge mode u2 rq r = (Inr e, r1)
    \<and> bearer_token rq = Some bearer \<and> g_validate ge bearer = Inr claims
    \<and> s_auth (en_session e) = Some a \<and> subject a = cl_sub claims
    \<and> (case duckvis_project_header rq of Some p \<Rightarrow> project_id a = p | None \<Rightarrow> True)
    \<and> (if removed
       then (\<exists>x. get_by_id (extract_session_id mode u1 rq) (others r1) = Some x \<and> en_nonce x = en_nonce e)
         \<and> sessions r' = filter (\<lambda>(k, _). k \<noteq> extract_session_id mode u1 rq) (sessions (others r1))
         \<and> permits r' = permits (others r1) + 1
       else r' = others r1)"
proof -
  from assms obtain e r1 where p: "prepare_request True ge mode u2 rq r = (Inr e, r1)"
    and rm: "remove_session (extract_session_id mode u1 rq) (en_nonce e) (others r1) = (removed, r')"
    by (auto simp: do_action_close_session_def Let_def split: prod.splits sum.splits)
  from p obtain r2 where g: "prepare_request_duckvis ge rq (extract_session_id mode u2 rq) r = (Inr e, r2)"
    using check_nonce_same unfolding prepare_request_def Let_def
    by (cases "prepare_request_duckvis ge rq (extract_session_id mode u2 rq) r") (force simp: run_simps)
  from gate_duckvis_ok [OF g] obtain bearer claims a
    where b: "bearer_token rq = Some bearer" "g_validate ge bearer = Inr claims" "s_auth (en_session e) = Some a"
      "subject a = cl_sub claims" "case duckvis_project_header rq of Some p \<Rightarrow> project_id a = p | None \<Rightarrow> True" by blast
  from rm have "if removed
       then (\<exists>x. get_by_id (extract_session_id mode u1 rq) (others r1) = Some x \<and> en_nonce x = en_nonce e)
         \<and> sessions r' = filter (\<lambda>(k, _). k \<noteq> extract_session_id mode u1 rq) (sessions (others r1))
         \<and> permits r' = permits (others r1) + 1
       else r' = others r1"
    by (cases removed) (auto dest!: removed_session)
  with p b show ?thesis by blast
qed

lemma close_session_is_the_callers_witness:
  "\<exists>r' bearer. do_action_close_session (\<lambda>r. r) True sample_gate PeerIp ''x'' ''y'' sample_request sample_registry = (Inr True, r')
    \<and> sessions r' = [] \<and> permits r' = 1 \<and> bearer_token sample_request = Some bearer"
proof -
  let ?r1 = "sample_registry\<lparr>sessions := [(''a'', sample_entry)], permits := 0\<rparr>"
  have p: "prepare_request True sample_gate PeerIp u sample_request sample_registry = (Inr sample_entry, ?r1)" for u
    using sample_prepared by (simp add: prepare_request_def extract_session_id_def nonempty_header_def sample_request_def Let_def)
  obtain r' where c: "do_action_close_session (\<lambda>r. r) True sample_gate PeerIp ''x'' ''y'' sample_request sample_registry = (Inr True, r')"
    by (simp add: do_action_close_session_def p sample_request_facts remove_session_def get_by_id_def)
  from close_session_is_the_callers [OF c] c show ?thesis
    by (auto simp: p sample_request_facts)
qed

text \<open>
  Without a header and an address, the two readings of the session id differ: the session that \<open>close_session\<close> opens
  for the request stays, and nothing is closed.
\<close>

lemma anonymous_close_leaves_a_session:
  assumes "nonempty_header ''airport-client-session-id'' rq = None" "nonempty_header ''x-session-id'' rq = None"
    "rq_remote_addr rq = None" "get_by_id u1 r1 = None" "prepare_request duckvis ge mode u2 rq r = (Inr e, r1)"
  shows "do_action_close_session (\<lambda>r. r) duckvis ge mode u1 u2 rq r = (Inr False, r1)"
  using assms by (cases mode) (simp_all add: do_action_close_session_def extract_session_id_def remove_session_def)

section \<open>Table scans\<close>

record descriptor =
  d_cmd :: string
  d_path :: "string list"

text \<open>The catalog's version, which is always the same and not fixed.\<close>

definition do_action_catalog_version :: "nat \<times> bool" where
  "do_action_catalog_version = (1, False)"

text \<open>
  \<open>request\<close> is the decoded body with its descriptor, or which of the two could not be decoded, and why; \<open>utf8_error\<close> is what is wrong with the bytes of a command. The answer is the payload of
  the one endpoint's ticket.
\<close>

definition do_action_endpoints ::
    "(json \<Rightarrow> string) \<Rightarrow> (string \<Rightarrow> string) \<Rightarrow> (string \<Rightarrow> filter_expr list option) \<Rightarrow> (string + string + (descriptor \<times> string)) \<Rightarrow> status + ticket_payload" where
  "do_action_endpoints show_json utf8_error parse request =
     (case request of
        Inl e \<Rightarrow> Inl (invalid_argument (''Failed to parse endpoints request: '' @ e))
      | Inr (Inl e) \<Rightarrow> Inl (invalid_argument (''Failed to decode flight descriptor: '' @ e))
      | Inr (Inr (d, json_filters)) \<Rightarrow>
          if d_cmd d \<noteq> [] \<and> \<not> valid_utf8 (d_cmd d) then Inl (invalid_argument (''Invalid UTF-8 in SQL: '' @ utf8_error (d_cmd d)))
          else Inr (with_returns_rows True (with_fallback_sql
            (endpoint_sql show_json parse (d_cmd d) (d_path d) json_filters) (ticket_new Ephemeral))))"

section \<open>Contents of a schema\<close>

text \<open>The encoders of the libraries: MessagePack's headers and pairs, zstd at level 3, SHA-256 in hexadecimal.\<close>

record packers =
  pk_array_len :: "nat \<Rightarrow> string + string"
  pk_str_len :: "nat \<Rightarrow> string + string"
  pk_zstd :: "string \<Rightarrow> string + string"
  pk_pair :: "nat \<times> string \<Rightarrow> string + string"
  pk_sha256 :: "string \<Rightarrow> string"

record contents =
  co_sha256 :: string
  co_url :: "string option"
  co_serialized :: "string option"

definition internal_failure :: "string \<Rightarrow> string + 'a \<Rightarrow> status + 'a" where
  "internal_failure what r = (case r of Inl e \<Rightarrow> Inl (mk_status CodeInternal (what @ e)) | Inr x \<Rightarrow> Inr x)"

lemma internal_failure_Inr [simp]: "internal_failure what r = Inr x \<longleftrightarrow> r = Inr x"
  by (simp add: internal_failure_def split: sum.split)

text \<open>\<open>as u32\<close> of a length.\<close>

definition as_u32 :: "nat \<Rightarrow> nat" where
  "as_u32 n = n mod 2 ^ 32"

fun packed_infos :: "packers \<Rightarrow> string list \<Rightarrow> status + string" where
  "packed_infos pk [] = Inr []"
| "packed_infos pk (info # infos) =
     try_ok (internal_failure ''Failed to write msgpack str len: '' (pk_str_len pk (as_u32 (length info)))) (\<lambda>h.
       try_ok (packed_infos pk infos) (\<lambda>rest. Inr (h @ info @ rest)))"

definition serialize_schema_contents :: "packers \<Rightarrow> string list \<Rightarrow> status + contents" where
  "serialize_schema_contents pk infos =
     try_ok (internal_failure ''Failed to write msgpack array len: '' (pk_array_len pk (as_u32 (length infos)))) (\<lambda>h.
     try_ok (packed_infos pk infos) (\<lambda>rest.
     try_ok (internal_failure ''Failed to zstd compress schema contents: '' (pk_zstd pk (h @ rest))) (\<lambda>compressed.
     try_ok (internal_failure ''Failed to msgpack encode compressed content: '' (pk_pair pk (as_u32 (length (h @ rest)), compressed))) (\<lambda>wrapper.
       Inr \<lparr>co_sha256 = pk_sha256 pk wrapper, co_url = None, co_serialized = Some wrapper\<rparr>))))"

section \<open>The answer of the listing\<close>

text \<open>
  The records that are sent, and the encoders of the whole: a table's description, the catalog, and a pair. The contents of each
  schema are encoded here after all queries; the code does it schema by schema, which differs only when an encoder fails.
\<close>

record airport_schema =
  as_name :: string
  as_description :: string
  as_tags :: "(string \<times> string) list"
  as_contents :: contents
  as_is_default :: "bool option"

record catalog_root =
  cg_contents :: contents
  cg_schemas :: "airport_schema list"
  cg_version_info :: "nat \<times> bool"

record catalog_packers = packers +
  pk_info :: "table_info \<Rightarrow> string"
  pk_root :: "catalog_root \<Rightarrow> string + string"

definition airport_schema_of :: "('x) catalog_packers_scheme \<Rightarrow> string \<times> bool \<times> table_info list \<Rightarrow> status + airport_schema" where
  "airport_schema_of pk s =
     (case s of (schema_name, is_default, infos) \<Rightarrow>
        try_ok (serialize_schema_contents (packers.truncate pk) (map (pk_info pk) infos)) (\<lambda>c.
          Inr \<lparr>as_name = schema_name, as_description = [], as_tags = [], as_contents = c, as_is_default = Some is_default\<rparr>))"

definition catalog_root_of :: "airport_schema list \<Rightarrow> catalog_root" where
  "catalog_root_of schemas = \<lparr>cg_contents = \<lparr>co_sha256 = [], co_url = None, co_serialized = None\<rparr>, cg_schemas = schemas,
     cg_version_info = do_action_catalog_version\<rparr>"

definition list_schemas_answer :: "('x) catalog_packers_scheme \<Rightarrow> (string \<times> bool \<times> table_info list) list \<Rightarrow> status + string" where
  "list_schemas_answer pk listed =
     try_ok (collect (airport_schema_of pk) listed) (\<lambda>schemas.
     try_ok (internal_failure ''Failed to msgpack encode catalog root: '' (pk_root pk (catalog_root_of schemas))) (\<lambda>serialized.
     try_ok (internal_failure ''Failed to zstd compress: '' (pk_zstd pk serialized)) (\<lambda>compressed.
       internal_failure ''Failed to msgpack encode compressed content: '' (pk_pair pk (as_u32 (length serialized), compressed)))))"

definition list_schemas ::
    "('x) catalog_packers_scheme \<Rightarrow> 'q listing \<Rightarrow> ('v, 'b, 's, 'q) engine \<Rightarrow> nat \<Rightarrow> string \<Rightarrow> ('v, 'b, 's, string) action" where
  "list_schemas pk li eng now catalog =
     sbind (do_action_list_schemas li eng now catalog) (\<lambda>listed. result_step (list_schemas_answer pk listed))"

text \<open>
  What a client needs to read the answer back: readers that undo the encoders. They are laws of MessagePack and zstd; a header
  is read off the front of the bytes it precedes.
\<close>

record readers =
  rd_array_len :: "string \<Rightarrow> (nat \<times> string) option"
  rd_str :: "string \<Rightarrow> (string \<times> string) option"
  rd_unzstd :: "string \<Rightarrow> string option"
  rd_pair :: "string \<Rightarrow> (nat \<times> string) option"

definition reads_back :: "('x) packers_scheme \<Rightarrow> readers \<Rightarrow> bool" where
  "reads_back pk rd \<longleftrightarrow>
     (\<forall>n h s. pk_array_len pk n = Inr h \<longrightarrow> rd_array_len rd (h @ s) = Some (n, s))
     \<and> (\<forall>x h s. pk_str_len pk (length x) = Inr h \<longrightarrow> rd_str rd (h @ x @ s) = Some (x, s))
     \<and> (\<forall>x y. pk_zstd pk x = Inr y \<longrightarrow> rd_unzstd rd y = Some x)
     \<and> (\<forall>x y. pk_pair pk x = Inr y \<longrightarrow> rd_pair rd y = Some x)"

fun read_infos :: "readers \<Rightarrow> nat \<Rightarrow> string \<Rightarrow> string list option" where
  "read_infos rd 0 s = (if s = [] then Some [] else None)"
| "read_infos rd (Suc n) s =
     (case rd_str rd s of None \<Rightarrow> None | Some (x, s') \<Rightarrow> map_option ((#) x) (read_infos rd n s'))"

definition read_contents :: "readers \<Rightarrow> contents \<Rightarrow> (nat \<times> string list) option" where
  "read_contents rd c =
     Option.bind (co_serialized c) (\<lambda>wrapper. Option.bind (rd_pair rd wrapper) (\<lambda>(len, compressed).
       Option.bind (rd_unzstd rd compressed) (\<lambda>s. Option.bind (rd_array_len rd s) (\<lambda>(n, rest).
         map_option (Pair len) (read_infos rd n rest)))))"

lemma packed_infos_read:
  assumes "reads_back pk rd"
  shows "packed_infos pk infos = Inr s \<Longrightarrow> list_all (\<lambda>i. length i < 2 ^ 32) infos \<Longrightarrow> read_infos rd (length infos) s = Some infos"
proof (induction infos arbitrary: s)
  case (Cons i infos)
  then obtain h rest where h: "pk_str_len pk (length i) = Inr h" "packed_infos pk infos = Inr rest" "s = h @ i @ rest"
    by (auto simp: run_simps as_u32_def)
  with assms have "rd_str rd s = Some (i, rest)" by (simp add: reads_back_def)
  with Cons h show ?case by simp
qed simp

lemma contents_read_back:
  assumes "reads_back pk rd" "serialize_schema_contents pk infos = Inr c"
    and "length infos < 2 ^ 32" "list_all (\<lambda>i. length i < 2 ^ 32) infos"
  shows "\<exists>s :: string. read_contents rd c = Some (length s mod 2 ^ 32, infos) \<and> co_sha256 c = pk_sha256 pk (the (co_serialized c))"
proof -
  from assms(2,3) obtain h rest z w where s: "pk_array_len pk (length infos) = Inr h" "packed_infos pk infos = Inr rest"
      "pk_zstd pk (h @ rest) = Inr z" "pk_pair pk (as_u32 (length (h @ rest)), z) = Inr w"
      "c = \<lparr>co_sha256 = pk_sha256 pk w, co_url = None, co_serialized = Some w\<rparr>"
    by (auto simp: serialize_schema_contents_def run_simps as_u32_def)
  with assms(1) packed_infos_read [OF assms(1) s(2) assms(4)] show ?thesis
    by (intro exI [of _ "h @ rest"]) (simp add: read_contents_def reads_back_def as_u32_def)
qed

end
