(* ===== verification/Execution_Identity.thy ===== *)
theory Execution_Identity
  imports Gate
begin

text \<open>
  \<^verbatim>\<open>execution_identity.rs\<close>: the identity of the server process, whose owner is kept in a locked file. The file's state is its
  contents and the process that holds its lock; a lock ends with its process, or when a failed start drops it.
\<close>

record execution_identity =
  ei_version :: nat
  ei_owner :: "string option"
  ei_generation :: string

definition identity_default :: "string \<Rightarrow> execution_identity" where
  "identity_default generation = \<lparr>ei_version = 1, ei_owner = None, ei_generation = generation\<rparr>"

record owner_file =
  of_contents :: string
  of_holder :: "nat option"

datatype owner_error = AlreadyLocked | NotText | WriteFailed | NotUuid

text \<open>
  \<open>new_owner\<close> is the random UUID of an empty file. \<open>torn\<close> is how much of it was written when writing failed, or when
  the process died of it; \<open>None\<close> if all was written and synced.
\<close>

definition acquire ::
    "(string \<Rightarrow> bool) \<Rightarrow> nat \<Rightarrow> string \<Rightarrow> string \<Rightarrow> nat option \<Rightarrow> owner_file \<Rightarrow> (owner_error + execution_identity) \<times> owner_file" where
  "acquire uuid process new_owner generation torn f =
     (if of_holder f \<noteq> None then (Inl AlreadyLocked, f)
      else if \<not> valid_utf8 (of_contents f) then (Inl NotText, f)
      else (case (of_contents f = [], torn) of
          (True, Some n) \<Rightarrow> (Inl WriteFailed, f\<lparr>of_contents := take n new_owner\<rparr>)
        | (blank, _) \<Rightarrow>
            (let owner = (if blank then new_owner else of_contents f) in
             if \<not> uuid owner then (Inl NotUuid, f\<lparr>of_contents := owner\<rparr>)
             else (Inr ((identity_default generation)\<lparr>ei_owner := Some owner\<rparr>),
               f\<lparr>of_contents := owner, of_holder := Some process\<rparr>))))"

definition for_process ::
    "(string \<Rightarrow> bool) \<Rightarrow> nat \<Rightarrow> string \<Rightarrow> string \<Rightarrow> nat option \<Rightarrow> owner_file option \<Rightarrow>
     (owner_error + execution_identity) \<times> owner_file option" where
  "for_process uuid process new_owner generation torn file =
     (case file of None \<Rightarrow> (Inr (identity_default generation), None)
      | Some f \<Rightarrow> (case acquire uuid process new_owner generation torn f of (r, f') \<Rightarrow> (r, Some f')))"

section \<open>Processes over one file\<close>

datatype owner_event = Start nat string string "nat option" | Exit nat

text \<open>The identities that were given out, the latest first, and the file.\<close>

type_synonym owner_history = "(nat \<times> execution_identity) list \<times> owner_file"

fun owner_step :: "(string \<Rightarrow> bool) \<Rightarrow> owner_history \<Rightarrow> owner_event \<Rightarrow> owner_history" where
  "owner_step uuid (given, f) (Start p new_owner generation torn) =
     (case acquire uuid p new_owner generation torn f of (Inl _, f') \<Rightarrow> (given, f') | (Inr i, f') \<Rightarrow> ((p, i) # given, f'))"
| "owner_step uuid (given, f) (Exit p) = (given, if of_holder f = Some p then f\<lparr>of_holder := None\<rparr> else f)"

abbreviation owner_run :: "(string \<Rightarrow> bool) \<Rightarrow> owner_history \<Rightarrow> owner_event list \<Rightarrow> owner_history" where
  "owner_run uuid \<equiv> foldl (owner_step uuid)"

text \<open>Every identity given out names the owner in the file.\<close>

definition same_owner :: "(string \<Rightarrow> bool) \<Rightarrow> owner_history \<Rightarrow> bool" where
  "same_owner uuid h \<longleftrightarrow> (\<forall>(p, i)\<in>set (fst h). ei_owner i = Some (of_contents (snd h)) \<and> uuid (of_contents (snd h)) \<and> of_contents (snd h) \<noteq> [])"

lemma same_owner_step:
  assumes "\<not> uuid []" "same_owner uuid h" shows "same_owner uuid (owner_step uuid h e)"
proof (cases h)
  case (Pair given f)
  with assms show ?thesis
    by (cases e) (auto simp: same_owner_def acquire_def Let_def identity_default_def split: option.splits bool.splits if_splits)
qed

lemma same_owner_run: "\<not> uuid [] \<Longrightarrow> same_owner uuid h \<Longrightarrow> same_owner uuid (owner_run uuid h es)"
  by (induction es arbitrary: h) (simp_all add: same_owner_step)

lemma held_run:
  assumes "of_holder f = Some p" "Exit p \<notin> set es"
  shows "owner_run uuid (given, f) es = (given, f)"
  using assms(2)
proof (induction es)
  case (Cons e es)
  with assms(1) have "owner_step uuid (given, f) e = (given, f)" by (cases e) (auto simp: acquire_def)
  with Cons show ?case by simp
qed simp

text \<open>
  C34: The owner is exclusive and never reinvented. Over one file, whatever processes start, die and fail while writing it, all
  identities that are ever given out name the same owner, the UUID that is in the file; and while the process with the last one
  lives, no other process gets an identity and the file stays as it is. A torn or damaged file therefore fails every start.
\<close>

theorem owner_exclusive_and_stable:
  assumes "\<not> uuid []" "owner_run uuid ([], f0) es = (given, f)"
  shows "(\<forall>(p, i)\<in>set given. ei_owner i = Some (of_contents f) \<and> uuid (of_contents f))
    \<and> (\<forall>p i f' more'. owner_step uuid (given, f) (Start p n g torn) = ((p, i) # given, f') \<and> Exit p \<notin> set more' \<longrightarrow>
        owner_run uuid ((p, i) # given, f') more' = ((p, i) # given, f'))
    \<and> (valid_utf8 (of_contents f) \<longrightarrow> of_contents f \<noteq> [] \<longrightarrow> \<not> uuid (of_contents f) \<longrightarrow>
        given = [] \<and> owner_step uuid (given, f) (Start p n g torn) = (given, f))"
proof (intro conjI allI impI)
  have inv: "same_owner uuid (given, f)"
    using same_owner_run [where uuid = uuid and h = "([], f0)" and es = es] assms by (simp add: same_owner_def)
  then show "\<forall>(p, i)\<in>set given. ei_owner i = Some (of_contents f) \<and> uuid (of_contents f)"
    by (auto simp: same_owner_def)
  assume v: "valid_utf8 (of_contents f)" "of_contents f \<noteq> []" and u: "\<not> uuid (of_contents f)"
  from inv u show "given = []" by (cases given) (auto simp: same_owner_def)
  with v u show "owner_step uuid (given, f) (Start p n g torn) = (given, f)"
    by (simp add: acquire_def Let_def)
next
  fix p i f' more'
  assume a: "owner_step uuid (given, f) (Start p n g torn) = ((p, i) # given, f') \<and> Exit p \<notin> set more'"
  then have "of_holder f' = Some p"
    by (auto simp: acquire_def Let_def split: option.splits bool.splits if_splits)
  with a show "owner_run uuid ((p, i) # given, f') more' = ((p, i) # given, f')" by (simp add: held_run)
qed

lemma owner_exclusive_and_stable_witness:
  "owner_run (\<lambda>u. u = ''u1'' \<or> u = ''u2'') ([], \<lparr>of_contents = [], of_holder = None\<rparr>)
      [Start 1 ''u1'' ''a'' None, Start 2 ''u2'' ''b'' None, Exit 1, Start 3 ''u2'' ''c'' None]
    = ([(3, \<lparr>ei_version = 1, ei_owner = Some ''u1'', ei_generation = ''c''\<rparr>), (1, \<lparr>ei_version = 1, ei_owner = Some ''u1'', ei_generation = ''a''\<rparr>)],
       \<lparr>of_contents = ''u1'', of_holder = Some 3\<rparr>)
   \<and> list_all (\<lambda>(p, i). ei_owner i = Some ''u1'') [(3::nat, \<lparr>ei_version = 1, ei_owner = Some ''u1'', ei_generation = ''c''\<rparr>),
       (1, \<lparr>ei_version = 1, ei_owner = Some ''u1'', ei_generation = ''a''\<rparr>)]"
proof -
  have r: "owner_run (\<lambda>u. u = ''u1'' \<or> u = ''u2'') ([], \<lparr>of_contents = [], of_holder = None\<rparr>)
      [Start 1 ''u1'' ''a'' None, Start 2 ''u2'' ''b'' None, Exit 1, Start 3 ''u2'' ''c'' None]
    = ([(3, \<lparr>ei_version = 1, ei_owner = Some ''u1'', ei_generation = ''c''\<rparr>), (1, \<lparr>ei_version = 1, ei_owner = Some ''u1'', ei_generation = ''a''\<rparr>)],
       \<lparr>of_contents = ''u1'', of_holder = Some 3\<rparr>)" by code_simp
  from owner_exclusive_and_stable [OF _ r] r show ?thesis by auto
qed

end
