(* ===== verification/Float64.thy ===== *)
theory Float64
  imports Main
begin

text \<open>
  The rounding of double precision, on integers: what the percentiles of the metrics and the share of the memory limit are
  computed with.
\<close>

text \<open>
  A product of a \<open>f64\<close> \<open>m / 2 ^ 53\<close> with an integer below \<open>2 ^ 53\<close>, in units of \<open>2 ^ - 53\<close>: it is rounded to 53 significant
  bits, halves to even.
\<close>

function spare_bits :: "nat \<Rightarrow> nat" where
  "spare_bits p = (if p < 2 ^ 53 then 0 else Suc (spare_bits (p div 2)))"
  by pat_completeness auto
termination by (relation "measure id") auto

declare spare_bits.simps [simp del]

definition round_f64 :: "nat \<Rightarrow> nat" where
  "round_f64 p =
     (let s = spare_bits p; q = p div 2 ^ s; r = p mod 2 ^ s in
      (if 2 * r > 2 ^ s \<or> 2 * r = 2 ^ s \<and> odd q then q + 1 else q) * 2 ^ s)"

lemma spare_bits_le: "2 ^ 53 \<le> p \<Longrightarrow> 2 ^ spare_bits p * 2 ^ 52 \<le> p"
proof (induction p rule: spare_bits.induct)
  case (1 p)
  show ?case
  proof (cases "p div 2 < 2 ^ 53")
    case True
    with 1(2) show ?thesis by (simp add: spare_bits.simps [of p] spare_bits.simps [of "p div 2"])
  next
    case False
    with 1 have "2 ^ spare_bits (p div 2) * 2 ^ 52 \<le> p div 2" by simp
    with 1(2) show ?thesis by (simp add: spare_bits.simps [of p])
  qed
qed

text \<open>Rounding to 53 bits is off by at most one part in \<open>2 ^ 53\<close>.\<close>

lemma round_f64_bounds: "2 ^ 53 * round_f64 p \<le> (2 ^ 53 + 1) * p \<and> (2 ^ 53 - 1) * p \<le> 2 ^ 53 * round_f64 p"
proof (cases "p < 2 ^ 53")
  case True
  then show ?thesis by (simp add: round_f64_def spare_bits.simps)
next
  case False
  let ?s = "2 ^ spare_bits p :: nat"
  have s: "?s * 2 ^ 52 \<le> p" using False spare_bits_le by simp
  have p: "p div ?s * ?s + p mod ?s = p" "p mod ?s < ?s" by (rule div_mult_mod_eq) simp
  have "2 * round_f64 p \<le> 2 * p + ?s \<and> 2 * p \<le> 2 * round_f64 p + ?s"
  proof (cases "2 * (p mod ?s) > ?s \<or> 2 * (p mod ?s) = ?s \<and> odd (p div ?s)")
    case True
    then have "round_f64 p = p div ?s * ?s + ?s" "2 * (p mod ?s) \<ge> ?s" by (auto simp: round_f64_def Let_def)
    with p show ?thesis by linarith
  next
    case False
    then have "round_f64 p = p div ?s * ?s" "2 * (p mod ?s) \<le> ?s" by (auto simp: round_f64_def Let_def)
    with p show ?thesis by linarith
  qed
  with s show ?thesis by simp
qed

end
