(* ===== verification/Metrics.thy ===== *)
theory Metrics
  imports Registry Float64
begin

text \<open>
  \<^verbatim>\<open>metrics.rs\<close>: counters, histories of bounded size, latencies and the summary of slow statements. A duration is in
  nanoseconds, a time in milliseconds. Each operation is atomic here; in the code each of its counters and histories is updated
  atomically, one after the other.
\<close>

section \<open>State\<close>

record slow_query =
  sq_timestamp_ms :: u64
  sq_duration_ms :: u64
  sq_sql :: string
  sq_rows :: "u64 option"
  sq_bytes :: "u64 option"
  sq_is_query :: bool
  sq_reasons :: "string list"

record error_event =
  ee_timestamp_ms :: u64
  ee_message :: string
  ee_sql :: "string option"
  ee_context :: string

record metrics =
  started_at :: nat
  started_at_ms :: u64
  slow_query_threshold :: nat
  history_size :: nat
  total_queries :: u64
  total_updates :: u64
  total_errors :: u64
  total_slow_queries :: u64
  in_flight_queries :: u64
  in_flight_updates :: u64
  query_latencies :: "u64 list"
  update_latencies :: "u64 list"
  slow_queries :: "slow_query list"
  recent_errors :: "error_event list"

text \<open>\<open>Duration::as_millis\<close> as a \<open>u64\<close>.\<close>

definition as_millis :: "nat \<Rightarrow> u64" where
  "as_millis d = of_nat (d div 1000000)"

definition metrics_new :: "nat \<Rightarrow> u64 \<Rightarrow> nat \<Rightarrow> nat \<Rightarrow> metrics" where
  "metrics_new started started_ms slow_query_threshold_ms history =
     \<lparr>started_at = started, started_at_ms = started_ms,
      slow_query_threshold = (if slow_query_threshold_ms = 0 then 1000 else slow_query_threshold_ms) * 1000000,
      history_size = (if history = 0 then 200 else history), total_queries = 0, total_updates = 0, total_errors = 0,
      total_slow_queries = 0, in_flight_queries = 0, in_flight_updates = 0, query_latencies = [], update_latencies = [],
      slow_queries = [], recent_errors = []\<rparr>"

definition push_ring :: "'a list \<Rightarrow> 'a \<Rightarrow> nat \<Rightarrow> 'a list" where
  "push_ring target v limit = (if length target \<ge> limit then tl target else target) @ [v]"

section \<open>Texts\<close>

text \<open>\<open>str::split_whitespace\<close>; \<open>word\<close> is the current piece, reversed.\<close>

function split_ws :: "string \<Rightarrow> string \<Rightarrow> string list" where
  "split_ws piece s =
     (case strip_any ws_codes s of
        Some t \<Rightarrow> (if piece = [] then [] else [rev piece]) @ split_ws [] t
      | None \<Rightarrow> (case s of [] \<Rightarrow> (if piece = [] then [] else [rev piece]) | c # t \<Rightarrow> split_ws (c # piece) t))"
  by pat_completeness auto
termination
  by (relation "measure (\<lambda>(piece, s). length s)") (auto dest: strip_any_shorter)

declare split_ws.simps [simp del]

text \<open>The characters of a text are its bytes that continue no other; \<open>chars().take(n)\<close>.\<close>

definition char_count :: "string \<Rightarrow> nat" where
  "char_count s = length (filter (\<lambda>c. \<not> is_cont c) s)"

fun take_chars :: "nat \<Rightarrow> string \<Rightarrow> string" where
  "take_chars n [] = []"
| "take_chars n (c # s) =
     (if is_cont c then c # take_chars n s else if n = 0 then [] else c # take_chars (n - 1) s)"

definition truncate_ascii_like :: "string \<Rightarrow> nat \<Rightarrow> string" where
  "truncate_ascii_like s max_len = take_chars max_len s @ (if char_count s > max_len then ''...'' else [])"

definition max_sql_len :: nat where "max_sql_len = 2048"

definition compact_sql :: "string \<Rightarrow> string" where
  "compact_sql sql = truncate_ascii_like (join '' '' (split_ws [] sql)) max_sql_len"

definition saturating_mul :: "u64 \<Rightarrow> u64 \<Rightarrow> u64" where
  "saturating_mul a b = (if unat a * unat b < 2 ^ 64 then a * b else - 1)"

definition aggregation_words :: "string list" where
  "aggregation_words = ['' join '', '' group by '', '' order by '', '' distinct '', '' union '', '' window '']"

definition infer_reasons :: "string \<Rightarrow> bool \<Rightarrow> u64 option \<Rightarrow> u64 option \<Rightarrow> u64 \<Rightarrow> u64 \<Rightarrow> bool \<Rightarrow> string list" where
  "infer_reasons sql is_query rows bytes duration_ms slow_threshold_ms had_error =
     (let lower = to_ascii_lowercase sql; wild = CHR 0x27 # ''%'' in
      (case rows of Some n \<Rightarrow> (if n \<ge> 100000 then [''Large result set''] else []) | None \<Rightarrow> [])
      @ (case bytes of Some n \<Rightarrow> (if n \<ge> 50 * 1024 * 1024 then [''Large payload''] else []) | None \<Rightarrow> [])
      @ (if list_ex (\<lambda>w. contains_str w lower) aggregation_words then [''Join/aggregation/sort''] else [])
      @ (if contains_str ''select *'' lower then [''Wide select''] else [])
      @ (if contains_str ('' like '' @ wild) lower \<or> contains_str ('' ilike '' @ wild) lower then [''Leading wildcard match''] else [])
      @ (if \<not> is_query then [''Write-heavy statement''] else [])
      @ (if duration_ms \<ge> saturating_mul slow_threshold_ms 3 then [''Very long-running''] else [])
      @ (if had_error then [''Errored before completion''] else []))"

section \<open>Recording\<close>

definition record_error :: "u64 \<Rightarrow> string \<Rightarrow> string option \<Rightarrow> string \<Rightarrow> metrics \<Rightarrow> metrics" where
  "record_error now context sql message m =
     m\<lparr>total_errors := total_errors m + 1,
       recent_errors := push_ring (recent_errors m)
         \<lparr>ee_timestamp_ms = now, ee_message = message, ee_sql = sql, ee_context = context\<rparr> (history_size m)\<rparr>"

definition record_common ::
    "u64 \<Rightarrow> string \<Rightarrow> nat \<Rightarrow> u64 option \<Rightarrow> u64 option \<Rightarrow> bool \<Rightarrow> string option \<Rightarrow> metrics \<Rightarrow> metrics" where
  "record_common now sql duration rows bytes is_query error m =
     (let truncated_sql = compact_sql sql;
          m1 = (case error of Some message \<Rightarrow> record_error now ''execution'' (Some truncated_sql) message m | None \<Rightarrow> m) in
      if duration \<ge> slow_query_threshold m
      then m1\<lparr>total_slow_queries := total_slow_queries m1 + 1,
        slow_queries := push_ring (slow_queries m1)
          \<lparr>sq_timestamp_ms = now, sq_duration_ms = as_millis duration, sq_sql = truncated_sql, sq_rows = rows,
           sq_bytes = bytes, sq_is_query = is_query,
           sq_reasons = infer_reasons truncated_sql is_query rows bytes (as_millis duration)
             (as_millis (slow_query_threshold m)) (error \<noteq> None)\<rparr> (history_size m)\<rparr>
      else m1)"

definition record_query_result ::
    "u64 \<Rightarrow> string \<Rightarrow> nat \<Rightarrow> u64 option \<Rightarrow> u64 option \<Rightarrow> string option \<Rightarrow> metrics \<Rightarrow> metrics" where
  "record_query_result now sql duration rows bytes error m =
     record_common now sql duration rows bytes True error
       (m\<lparr>total_queries := total_queries m + 1,
          query_latencies := push_ring (query_latencies m) (as_millis duration) (history_size m)\<rparr>)"

definition record_update_result :: "u64 \<Rightarrow> string \<Rightarrow> nat \<Rightarrow> u64 option \<Rightarrow> string option \<Rightarrow> metrics \<Rightarrow> metrics" where
  "record_update_result now sql duration rows error m =
     record_common now sql duration rows None False error
       (m\<lparr>total_updates := total_updates m + 1,
          update_latencies := push_ring (update_latencies m) (as_millis duration) (history_size m)\<rparr>)"

definition record_query_success :: "u64 \<Rightarrow> string \<Rightarrow> nat \<Rightarrow> nat \<Rightarrow> nat \<Rightarrow> metrics \<Rightarrow> metrics" where
  "record_query_success now sql duration rows bytes =
     record_query_result now sql duration (Some (of_nat rows)) (Some (of_nat bytes)) None"

definition record_query_error :: "u64 \<Rightarrow> string \<Rightarrow> nat \<Rightarrow> string \<Rightarrow> metrics \<Rightarrow> metrics" where
  "record_query_error now sql duration message = record_query_result now sql duration None None (Some message)"

definition record_update_success :: "u64 \<Rightarrow> string \<Rightarrow> nat \<Rightarrow> int option \<Rightarrow> metrics \<Rightarrow> metrics" where
  "record_update_success now sql duration affected_rows =
     record_update_result now sql duration
       (Option.bind affected_rows (\<lambda>v. if v \<ge> 0 then Some (of_int v) else None)) None"

definition record_update_error :: "u64 \<Rightarrow> string \<Rightarrow> nat \<Rightarrow> string \<Rightarrow> metrics \<Rightarrow> metrics" where
  "record_update_error now sql duration message = record_update_result now sql duration None (Some message)"

text \<open>A guard counts a request while it lives.\<close>

datatype in_flight_kind = Query | Update

definition start_guard :: "in_flight_kind \<Rightarrow> metrics \<Rightarrow> metrics" where
  "start_guard k m = (case k of Query \<Rightarrow> m\<lparr>in_flight_queries := in_flight_queries m + 1\<rparr>
     | Update \<Rightarrow> m\<lparr>in_flight_updates := in_flight_updates m + 1\<rparr>)"

definition end_guard :: "in_flight_kind \<Rightarrow> metrics \<Rightarrow> metrics" where
  "end_guard k m = (case k of Query \<Rightarrow> m\<lparr>in_flight_queries := in_flight_queries m - 1\<rparr>
     | Update \<Rightarrow> m\<lparr>in_flight_updates := in_flight_updates m - 1\<rparr>)"

section \<open>Latencies\<close>

text \<open>The quantiles 0.50, 0.95 and 0.99 as \<open>f64\<close>, in units of \<open>2 ^ - 53\<close>.\<close>

definition quantile50 :: nat where "quantile50 = 4503599627370496"
definition quantile95 :: nat where "quantile95 = 8556839292003942"
definition quantile99 :: nat where "quantile99 = 8917127262193582"

text \<open>\<open>f64::round\<close> of the product: to the nearest, halves up.\<close>

definition rank :: "nat \<Rightarrow> nat \<Rightarrow> nat" where
  "rank quantile k = (round_f64 (quantile * k) + 2 ^ 52) div 2 ^ 53"

definition percentile :: "u64 list \<Rightarrow> nat \<Rightarrow> u64" where
  "percentile vs quantile = (if vs = [] then 0 else vs ! min (rank quantile (length vs - 1)) (length vs - 1))"

record latency_summary =
  ls_count :: nat
  ls_avg_ms :: u64
  ls_p50_ms :: u64
  ls_p95_ms :: u64
  ls_p99_ms :: u64
  ls_max_ms :: u64

definition summarize_latencies :: "u64 list \<Rightarrow> latency_summary" where
  "summarize_latencies vs =
     (if vs = [] then \<lparr>ls_count = 0, ls_avg_ms = 0, ls_p50_ms = 0, ls_p95_ms = 0, ls_p99_ms = 0, ls_max_ms = 0\<rparr>
      else (let ordered = sort vs in
        \<lparr>ls_count = length vs, ls_avg_ms = sum_list vs div of_nat (length vs), ls_p50_ms = percentile ordered quantile50,
         ls_p95_ms = percentile ordered quantile95, ls_p99_ms = percentile ordered quantile99, ls_max_ms = last ordered\<rparr>))"

section \<open>Groups of slow statements\<close>

record slow_query_group =
  sg_sql :: string
  sg_is_query :: bool
  sg_count :: u64
  sg_total_ms :: u64
  sg_avg_ms :: u64
  sg_max_ms :: u64
  sg_latest_timestamp_ms :: u64

definition group_key :: "slow_query \<Rightarrow> bool \<times> string" where
  "group_key q = (sq_is_query q, sq_sql q)"

definition group_start :: "slow_query \<Rightarrow> slow_query_group" where
  "group_start q = \<lparr>sg_sql = sq_sql q, sg_is_query = sq_is_query q, sg_count = 0, sg_total_ms = 0, sg_avg_ms = 0,
     sg_max_ms = 0, sg_latest_timestamp_ms = sq_timestamp_ms q\<rparr>"

definition group_add :: "slow_query \<Rightarrow> slow_query_group \<Rightarrow> slow_query_group" where
  "group_add q g = g\<lparr>sg_count := saturating_add (sg_count g) 1, sg_total_ms := saturating_add (sg_total_ms g) (sq_duration_ms q),
     sg_max_ms := max (sg_max_ms g) (sq_duration_ms q),
     sg_latest_timestamp_ms := max (sg_latest_timestamp_ms g) (sq_timestamp_ms q)\<rparr>"

definition grouped :: "slow_query list \<Rightarrow> (bool \<times> string) \<Rightarrow> slow_query_group option" where
  "grouped qs = foldl (\<lambda>m q. m(group_key q \<mapsto> group_add q
     (case m (group_key q) of Some g \<Rightarrow> g | None \<Rightarrow> group_start q))) Map.empty qs"

definition with_average :: "slow_query_group \<Rightarrow> slow_query_group" where
  "with_average g = (if sg_count g > 0 then g\<lparr>sg_avg_ms := sg_total_ms g div sg_count g\<rparr> else g)"

text \<open>The order of the groups: the key that is compared, descending.\<close>

definition group_rank :: "slow_query_group \<Rightarrow> nat list" where
  "group_rank g = [unat (sg_total_ms g), unat (sg_max_ms g), unat (sg_count g)]"

fun rank_before :: "nat list \<Rightarrow> nat list \<Rightarrow> bool" where
  "rank_before (a # as) (b # bs) = (a > b \<or> a = b \<and> rank_before as bs)"
| "rank_before [] _ = True"
| "rank_before _ [] = False"

fun insert_group :: "slow_query_group \<Rightarrow> slow_query_group list \<Rightarrow> slow_query_group list" where
  "insert_group g [] = [g]"
| "insert_group g (h # hs) = (if rank_before (group_rank g) (group_rank h) then g # h # hs else h # insert_group g hs)"

text \<open>\<open>keys\<close> is the order in which the map is drained; an unstable sort is a stable sort of some such order.\<close>

definition summarize_slow_query_groups ::
    "((bool \<times> string) set \<Rightarrow> (bool \<times> string) list) \<Rightarrow> slow_query list \<Rightarrow> nat \<Rightarrow> slow_query_group list" where
  "summarize_slow_query_groups keys qs limit =
     take limit (foldr insert_group (map with_average (somes (map (grouped qs) (keys (group_key ` set qs))))) [])"

section \<open>Snapshot\<close>

record metrics_snapshot =
  ms_uptime_ms :: u64
  ms_slow_query_threshold_ms :: u64
  ms_totals :: "u64 \<times> u64 \<times> u64 \<times> u64"
  ms_in_flight :: "u64 \<times> u64"
  ms_latency :: "latency_summary \<times> latency_summary"
  ms_slow_queries :: "slow_query list"
  ms_slow_query_groups :: "slow_query_group list"
  ms_recent_errors :: "error_event list"
  ms_history_size :: nat

definition metrics_snapshot_of :: "((bool \<times> string) set \<Rightarrow> (bool \<times> string) list) \<Rightarrow> nat \<Rightarrow> metrics \<Rightarrow> metrics_snapshot" where
  "metrics_snapshot_of keys now m =
     \<lparr>ms_uptime_ms = as_millis (now - started_at m), ms_slow_query_threshold_ms = as_millis (slow_query_threshold m),
      ms_totals = (total_queries m, total_updates m, total_errors m, total_slow_queries m),
      ms_in_flight = (in_flight_queries m, in_flight_updates m),
      ms_latency = (summarize_latencies (query_latencies m), summarize_latencies (update_latencies m)),
      ms_slow_queries = rev (slow_queries m),
      ms_slow_query_groups = summarize_slow_query_groups keys (rev (slow_queries m)) 10,
      ms_recent_errors = rev (recent_errors m), ms_history_size = history_size m\<rparr>"

section \<open>Histories\<close>

datatype metrics_event =
    QueryDone u64 string nat "u64 option" "u64 option" "string option"
  | UpdateDone u64 string nat "u64 option" "string option"
  | GuardStarted in_flight_kind
  | GuardDropped in_flight_kind

fun metrics_step :: "metrics \<Rightarrow> metrics_event \<Rightarrow> metrics" where
  "metrics_step m (QueryDone now sql d rows bytes e) = record_query_result now sql d rows bytes e m"
| "metrics_step m (UpdateDone now sql d rows e) = record_update_result now sql d rows e m"
| "metrics_step m (GuardStarted k) = start_guard k m"
| "metrics_step m (GuardDropped k) = end_guard k m"

text \<open>The durations of queries and of updates, and what is slow or failed, read off the events.\<close>

fun duration_of :: "in_flight_kind \<Rightarrow> metrics_event \<Rightarrow> nat option" where
  "duration_of Query (QueryDone now sql d rows bytes e) = Some d"
| "duration_of Update (UpdateDone now sql d rows e) = Some d"
| "duration_of _ _ = None"

fun failed_event :: "metrics_event \<Rightarrow> bool" where
  "failed_event (QueryDone now sql d rows bytes e) = (e \<noteq> None)"
| "failed_event (UpdateDone now sql d rows e) = (e \<noteq> None)"
| "failed_event _ = False"

definition durations :: "in_flight_kind \<Rightarrow> metrics_event list \<Rightarrow> nat list" where
  "durations k es = somes (map (duration_of k) es)"

definition slow_count :: "nat \<Rightarrow> metrics_event list \<Rightarrow> nat" where
  "slow_count limit es = length (filter (\<lambda>d. limit \<le> d) (durations Query es @ durations Update es))"

definition latest :: "nat \<Rightarrow> 'a list \<Rightarrow> 'a list" where
  "latest n xs = drop (length xs - n) xs"

lemma latest_push: "0 < n \<Longrightarrow> push_ring (latest n xs) x n = latest n (xs @ [x])"
  by (auto simp: push_ring_def latest_def drop_Suc tl_drop Suc_diff_le not_le)

lemma length_latest: "length (latest n xs) = min n (length xs)"
  by (auto simp: latest_def)

lemma durations_snoc [simp]:
  "durations k (es @ [e]) = durations k es @ (case duration_of k e of None \<Rightarrow> [] | Some d \<Rightarrow> [d])"
  by (auto simp: durations_def split: option.split)

lemma record_common_fields [simp]:
  "query_latencies (record_common now sql d rows bytes q e m) = query_latencies m"
  "update_latencies (record_common now sql d rows bytes q e m) = update_latencies m"
  "total_queries (record_common now sql d rows bytes q e m) = total_queries m"
  "total_updates (record_common now sql d rows bytes q e m) = total_updates m"
  "in_flight_queries (record_common now sql d rows bytes q e m) = in_flight_queries m"
  "in_flight_updates (record_common now sql d rows bytes q e m) = in_flight_updates m"
  "history_size (record_common now sql d rows bytes q e m) = history_size m"
  "slow_query_threshold (record_common now sql d rows bytes q e m) = slow_query_threshold m"
  "total_errors (record_common now sql d rows bytes q e m) = total_errors m + of_bool (e \<noteq> None)"
  "total_slow_queries (record_common now sql d rows bytes q e m) = total_slow_queries m + of_bool (slow_query_threshold m \<le> d)"
  by (auto simp: record_common_def record_error_def Let_def split: option.split)

lemma guard_fields [simp]:
  "query_latencies (start_guard k m) = query_latencies m" "update_latencies (start_guard k m) = update_latencies m"
  "total_queries (start_guard k m) = total_queries m" "total_updates (start_guard k m) = total_updates m"
  "total_errors (start_guard k m) = total_errors m" "total_slow_queries (start_guard k m) = total_slow_queries m"
  "history_size (start_guard k m) = history_size m" "slow_query_threshold (start_guard k m) = slow_query_threshold m"
  "query_latencies (end_guard k m) = query_latencies m" "update_latencies (end_guard k m) = update_latencies m"
  "total_queries (end_guard k m) = total_queries m" "total_updates (end_guard k m) = total_updates m"
  "total_errors (end_guard k m) = total_errors m" "total_slow_queries (end_guard k m) = total_slow_queries m"
  "history_size (end_guard k m) = history_size m" "slow_query_threshold (end_guard k m) = slow_query_threshold m"
  by (cases k; simp add: start_guard_def end_guard_def)+

text \<open>What the metrics are after the events, as a function of the events.\<close>

definition metrics_of :: "nat \<Rightarrow> nat \<Rightarrow> metrics_event list \<Rightarrow> metrics \<Rightarrow> bool" where
  "metrics_of threshold n es m \<longleftrightarrow>
     history_size m = n \<and> slow_query_threshold m = threshold
     \<and> query_latencies m = latest n (map as_millis (durations Query es))
     \<and> update_latencies m = latest n (map as_millis (durations Update es))
     \<and> total_queries m = of_nat (length (durations Query es)) \<and> total_updates m = of_nat (length (durations Update es))
     \<and> total_errors m = of_nat (length (filter failed_event es)) \<and> total_slow_queries m = of_nat (slow_count threshold es)
     \<and> in_flight_queries m + of_nat (count_list es (GuardDropped Query)) = of_nat (count_list es (GuardStarted Query))
     \<and> in_flight_updates m + of_nat (count_list es (GuardDropped Update)) = of_nat (count_list es (GuardStarted Update))
     \<and> length (slow_queries m) \<le> n \<and> length (recent_errors m) \<le> n"

lemma length_push: "length xs \<le> n \<Longrightarrow> 0 < n \<Longrightarrow> length (push_ring xs x n) \<le> n"
  by (cases xs) (auto simp: push_ring_def)

lemma record_common_lengths:
  "length (slow_queries m) \<le> n \<Longrightarrow> history_size m = n \<Longrightarrow> 0 < n \<Longrightarrow>
    length (slow_queries (record_common now sql d rows bytes q e m)) \<le> n"
  "length (recent_errors m) \<le> n \<Longrightarrow> history_size m = n \<Longrightarrow> 0 < n \<Longrightarrow>
    length (recent_errors (record_common now sql d rows bytes q e m)) \<le> n"
  by (auto simp: record_common_def record_error_def Let_def length_push split: option.split)

lemma count_list_snoc [simp]: "count_list (xs @ [x]) y = count_list xs y + of_bool (x = y)"
  by (induction xs) auto

lemma metrics_of_step:
  assumes "metrics_of threshold n es m" "0 < n"
  shows "metrics_of threshold n (es @ [e]) (metrics_step m e)"
proof (cases e)
  case (QueryDone now sql d rows bytes err)
  with assms show ?thesis
    by (auto simp: metrics_of_def record_query_result_def latest_push slow_count_def record_common_lengths)
next
  case (UpdateDone now sql d rows err)
  with assms show ?thesis
    by (auto simp: metrics_of_def record_update_result_def latest_push slow_count_def record_common_lengths)
next
  case (GuardStarted k)
  with assms show ?thesis
    by (cases k) (auto simp: metrics_of_def slow_count_def start_guard_def)
next
  case (GuardDropped k)
  with assms show ?thesis
    by (cases k) (auto simp: metrics_of_def slow_count_def end_guard_def)
qed


section \<open>Percentiles\<close>

lemma quantile_order:
  assumes "(2 ^ 53 + 1) * a \<le> (2 ^ 53 - 1) * b"
  shows "rank a k \<le> rank b k"
proof -
  have "2 ^ 53 * round_f64 (a * k) \<le> (2 ^ 53 + 1) * (a * k)" using round_f64_bounds by blast
  also have "\<dots> = ((2 ^ 53 + 1) * a) * k" by (simp only: mult.assoc)
  also have "\<dots> \<le> ((2 ^ 53 - 1) * b) * k" using assms by (rule mult_le_mono1)
  also have "\<dots> = (2 ^ 53 - 1) * (b * k)" by (simp only: mult.assoc)
  also have "\<dots> \<le> 2 ^ 53 * round_f64 (b * k)" using round_f64_bounds by blast
  finally have "round_f64 (a * k) \<le> round_f64 (b * k)" by simp
  then show ?thesis unfolding rank_def by (intro div_le_mono add_le_mono1)
qed

lemma rank_quantiles: "rank quantile50 k \<le> rank quantile95 k" "rank quantile95 k \<le> rank quantile99 k" "rank quantile99 k \<le> k"
proof -
  show "rank quantile50 k \<le> rank quantile95 k" by (rule quantile_order) (simp add: quantile50_def quantile95_def)
  show "rank quantile95 k \<le> rank quantile99 k" by (rule quantile_order) (simp add: quantile95_def quantile99_def)
  have "2 ^ 53 * round_f64 (quantile99 * k) \<le> (2 ^ 53 + 1) * (quantile99 * k)" using round_f64_bounds by blast
  also have "\<dots> = ((2 ^ 53 + 1) * quantile99) * k" by (simp only: mult.assoc)
  also have "\<dots> \<le> (2 ^ 53 * 2 ^ 53) * k" by (rule mult_le_mono1) (simp add: quantile99_def)
  finally have "round_f64 (quantile99 * k) \<le> 2 ^ 53 * k" by simp
  then show "rank quantile99 k \<le> k" by (simp add: rank_def)
qed

lemma sort_nth_mono: "i \<le> j \<Longrightarrow> j < length vs \<Longrightarrow> sort vs ! i \<le> sort (vs :: u64 list) ! j"
  by (rule sorted_nth_mono) simp_all

lemma sort_Nil_iff: "sort vs = [] \<longleftrightarrow> vs = ([] :: u64 list)"
  by (metis length_0_conv length_sort)

lemma last_sort:
  assumes "vs \<noteq> []" shows "last (sort (vs :: u64 list)) = Max (set vs)"
proof (rule Max_eqI [symmetric])
  have ne: "sort vs \<noteq> []" using assms by (simp add: sort_Nil_iff)
  then show "last (sort vs) \<in> set vs" by (metis last_in_set set_sort)
  fix v assume "v \<in> set vs"
  then obtain i where "i < length vs" "sort vs ! i = v" by (metis in_set_conv_nth length_sort set_sort)
  then show "v \<le> last (sort vs)" using ne by (auto simp: last_conv_nth intro!: sort_nth_mono)
qed simp

lemma unat_sum_list: "(\<Sum>v\<leftarrow>vs. unat v) < 2 ^ 64 \<Longrightarrow> unat (sum_list (vs :: u64 list)) = (\<Sum>v\<leftarrow>vs. unat v)"
proof (induction vs)
  case (Cons v vs)
  then show ?case by (simp add: unat_word_ariths)
qed simp

lemma average_le:
  assumes "vs \<noteq> []" "(\<Sum>v\<leftarrow>vs. unat v) < 2 ^ 64" "length vs < 2 ^ 64"
  shows "sum_list vs div of_nat (length vs) \<le> Max (set (vs :: u64 list))"
proof -
  let ?m = "Max (set vs)"
  have "(\<Sum>v\<leftarrow>vs. unat v) \<le> (\<Sum>v\<leftarrow>vs. unat ?m)"
    by (rule sum_list_mono) (simp add: word_le_nat_alt [symmetric])
  also have "\<dots> = unat ?m * length vs" by (simp add: sum_list_triv)
  finally have "(\<Sum>v\<leftarrow>vs. unat v) div length vs \<le> unat ?m"
    using assms(1) by (metis div_le_mono length_0_conv nonzero_mult_div_cancel_right)
  moreover have "unat (of_nat (length vs) :: u64) = length vs" using assms(3) by (simp add: unat_of_nat)
  ultimately show ?thesis
    using assms(2) by (simp add: word_le_nat_alt unat_div unat_sum_list)
qed

text \<open>
  The latency summary is in order. Computed in floating point as the code does, for up to \<open>2 ^ 53\<close> latencies, the ranks of the
  percentiles stay inside the history and in order, so that p50, p95 and p99 are latencies that were measured, none above the next
  and none above the largest; and unless their sum wraps, the average is at most the largest.
\<close>

theorem latency_summary_in_order:
  assumes "vs \<noteq> []" "length vs \<le> 2 ^ 53"
  shows "ls_p50_ms (summarize_latencies vs) \<le> ls_p95_ms (summarize_latencies vs)
    \<and> ls_p95_ms (summarize_latencies vs) \<le> ls_p99_ms (summarize_latencies vs)
    \<and> ls_p99_ms (summarize_latencies vs) \<le> ls_max_ms (summarize_latencies vs)
    \<and> ls_max_ms (summarize_latencies vs) = Max (set vs)
    \<and> {ls_p50_ms (summarize_latencies vs), ls_p95_ms (summarize_latencies vs), ls_p99_ms (summarize_latencies vs)} \<subseteq> set vs
    \<and> ((\<Sum>v\<leftarrow>vs. unat v) < 2 ^ 64 \<longrightarrow> ls_avg_ms (summarize_latencies vs) \<le> ls_max_ms (summarize_latencies vs))"
proof -
  let ?k = "length vs - 1"
  have k: "?k < length vs" using assms(1) by (cases vs) simp_all
  have r: "rank quantile50 ?k \<le> rank quantile95 ?k" "rank quantile95 ?k \<le> rank quantile99 ?k" "rank quantile99 ?k \<le> ?k"
    by (rule rank_quantiles)+
  have p: "percentile (sort vs) q = sort vs ! rank q ?k" if "rank q ?k \<le> ?k" for q
    using that assms(1) by (simp add: percentile_def sort_Nil_iff)
  have i: "sort vs ! j \<in> set vs" if "j \<le> ?k" for j
    using that k nth_mem [of j "sort vs"] by simp
  have l: "last (sort vs) = sort vs ! ?k" using assms(1) by (simp add: last_conv_nth sort_Nil_iff)
  have "sort vs ! rank quantile50 ?k \<le> sort vs ! rank quantile95 ?k" "sort vs ! rank quantile95 ?k \<le> sort vs ! rank quantile99 ?k"
    "sort vs ! rank quantile99 ?k \<le> last (sort vs)" unfolding l by (rule sort_nth_mono; use r k in linarith)+
  moreover have "(\<Sum>v\<leftarrow>vs. unat v) < 2 ^ 64 \<longrightarrow> sum_list vs div of_nat (length vs) \<le> last (sort vs)"
    using average_le assms by (simp add: last_sort)
  ultimately show ?thesis
    using r assms(1) by (simp add: summarize_latencies_def Let_def p i last_sort)
qed

lemma latency_summary_in_order_witness:
  "ls_p50_ms (summarize_latencies [100, 10, 30, 20]) \<le> ls_p95_ms (summarize_latencies [100, 10, 30, 20])
    \<and> summarize_latencies [100, 10, 30, 20] = \<lparr>ls_count = 4, ls_avg_ms = 40, ls_p50_ms = 30, ls_p95_ms = 100, ls_p99_ms = 100, ls_max_ms = 100\<rparr>"
  using latency_summary_in_order [of "[100, 10, 30, 20]"]
  by (simp add: summarize_latencies_def percentile_def rank_def round_f64_def spare_bits.simps quantile50_def quantile95_def quantile99_def Let_def)

end
