(* ===== verification/Config.thy ===== *)
theory Config
  imports Gate Duckvis_Api
begin

text \<open>
  \<^verbatim>\<open>config.rs\<close> and the construction of the authenticator in \<^verbatim>\<open>duckvis/mod.rs\<close>: the settings of the server, what is required of
  them, and that an accepted configuration starts. Reading the environment is the configuration library's, and so is Base64.
\<close>

section \<open>Settings\<close>

record server_config =
  sc_host :: string
  sc_port :: nat
  sc_advertise_host :: string
  sc_database_path :: "string option"
  sc_execution_owner_path :: "string option"
  sc_external_kernel_extension :: "string option"
  sc_cache_directory :: "string option"
  sc_ducklake_init_sql :: "string option"
  sc_duckdb_threads :: "nat option"
  sc_checkpoint_databases :: "string option"
  sc_checkpoint_interval_hours :: "nat option"
  sc_checkpoint_poll_seconds :: "nat option"
  sc_max_sessions :: "nat option"
  sc_session_timeout_seconds :: "nat option"
  sc_session_id_mode :: session_id_mode
  sc_log_format :: string
  sc_status_enabled :: bool
  sc_status_host :: string
  sc_status_port :: nat
  sc_status_path_prefix :: string
  sc_metrics_slow_query_threshold_ms :: "nat option"
  sc_metrics_history_size :: "nat option"
  sc_memory_limit :: "string option"
  sc_scratch_directory :: "string option"
  sc_scratch_max_size :: "string option"
  sc_duckvis_enabled :: bool
  sc_duckvis_api_url :: "string option"
  sc_duckvis_issuer :: "string option"
  sc_duckvis_client_id :: "string option"
  sc_duckvis_private_key :: "string option"
  sc_duckvis_jwks_max_age_secs :: "nat option"
  sc_duckvis_read_only :: bool
  sc_tls_cert_path :: "string option"
  sc_tls_key_path :: "string option"
  sc_tls_terminated_upstream :: bool

definition default_config :: server_config where
  "default_config = \<lparr>sc_host = ''0.0.0.0'', sc_port = 4214, sc_advertise_host = ''localhost'', sc_database_path = None,
     sc_execution_owner_path = None, sc_external_kernel_extension = None, sc_cache_directory = None, sc_ducklake_init_sql = None,
     sc_duckdb_threads = None, sc_checkpoint_databases = None, sc_checkpoint_interval_hours = Some 24,
     sc_checkpoint_poll_seconds = Some 300, sc_max_sessions = Some 100, sc_session_timeout_seconds = Some 900,
     sc_session_id_mode = PeerAddr, sc_log_format = ''compact'', sc_status_enabled = True, sc_status_host = ''0.0.0.0'',
     sc_status_port = 4215, sc_status_path_prefix = [], sc_metrics_slow_query_threshold_ms = Some 5000,
     sc_metrics_history_size = Some 200, sc_memory_limit = None, sc_scratch_directory = None, sc_scratch_max_size = None,
     sc_duckvis_enabled = False, sc_duckvis_api_url = None, sc_duckvis_issuer = None, sc_duckvis_client_id = None,
     sc_duckvis_private_key = None, sc_duckvis_jwks_max_age_secs = None, sc_duckvis_read_only = False, sc_tls_cert_path = None,
     sc_tls_key_path = None, sc_tls_terminated_upstream = False\<rparr>"

section \<open>Validation\<close>

text \<open>The raw seed of the signing key; \<open>unbase\<close> is the decoder.\<close>

definition decode_seed :: "(string \<Rightarrow> string option) \<Rightarrow> string \<Rightarrow> string + string" where
  "decode_seed unbase key =
     (case unbase (trim key) of
        None \<Rightarrow> Inl ''SWANLAKE_DUCKVIS_PRIVATE_KEY must be base64 (standard alphabet) of the raw 32-byte Ed25519 seed''
      | Some bytes \<Rightarrow>
          if length bytes = 32 then Inr bytes
          else Inl (''SWANLAKE_DUCKVIS_PRIVATE_KEY must decode to exactly 32 bytes (got '' @ show_nat (length bytes) @ '')''))"

text \<open>The \<open>Debug\<close> text of the key.\<close>

definition debug_private_key :: "string \<Rightarrow> string" where
  "debug_private_key key = ''<redacted>''"

definition tls_enabled :: "server_config \<Rightarrow> bool" where
  "tls_enabled c \<longleftrightarrow> sc_tls_cert_path c \<noteq> None \<and> sc_tls_key_path c \<noteq> None"

definition bail_if :: "bool \<Rightarrow> string \<Rightarrow> string + unit" where
  "bail_if b e = (if b then Inl e else Inr ())"

definition missing_settings :: "server_config \<Rightarrow> string list" where
  "missing_settings c = map fst (filter snd
     [(''SWANLAKE_DUCKVIS_API_URL'', sc_duckvis_api_url c = None), (''SWANLAKE_DUCKVIS_ISSUER'', sc_duckvis_issuer c = None),
      (''SWANLAKE_DUCKVIS_CLIENT_ID'', sc_duckvis_client_id c = None),
      (''SWANLAKE_DUCKVIS_PRIVATE_KEY'', sc_duckvis_private_key c = None)])"

definition file_backed :: "server_config \<Rightarrow> bool" where
  "file_backed c = (case sc_database_path c of None \<Rightarrow> False | Some p \<Rightarrow> trim p \<noteq> [] \<and> trim p \<noteq> '':memory:'')"

definition validate_duckvis :: "(string \<Rightarrow> string option) \<Rightarrow> server_config \<Rightarrow> string + unit" where \<open>
  validate_duckvis unbase c =
     try_ok (bail_if (\<not> tls_enabled c \<and> \<not> sc_tls_terminated_upstream c)
       (''duckvis mode requires TLS: set SWANLAKE_TLS_CERT_PATH and SWANLAKE_TLS_KEY_PATH, or set ''
         @ ''SWANLAKE_TLS_TERMINATED_UPSTREAM=true only when a proxy terminates TLS before SwanLake'')) (\<lambda>_.
     try_ok (bail_if (missing_settings c \<noteq> [])
       (''duckvis mode requires the following settings: '' @ join '', '' (missing_settings c))) (\<lambda>_.
     try_ok (case sc_duckvis_private_key c of None \<Rightarrow> Inr () | Some key \<Rightarrow> try_ok (decode_seed unbase key) (\<lambda>_. Inr ())) (\<lambda>_.
     bail_if (file_backed c)
       (''SWANLAKE_DATABASE_PATH must not be a file path in duckvis mode: a file-based DuckDB database shares its attached ''
         @ ''catalog across all sessions via the instance cache, which would leak project attachments between sessions. ''
         @ ''Duckvis mode requires in-memory per-session databases (leave SWANLAKE_DATABASE_PATH unset or use ":memory:").''))))\<close>

definition validate_config :: "(string \<Rightarrow> string option) \<Rightarrow> server_config \<Rightarrow> string + unit" where
  "validate_config unbase c =
     try_ok (bail_if ((sc_tls_cert_path c \<noteq> None) \<noteq> (sc_tls_key_path c \<noteq> None))
       ''SWANLAKE_TLS_CERT_PATH and SWANLAKE_TLS_KEY_PATH must be set together (or both unset)'') (\<lambda>_.
     try_ok (bail_if (sc_checkpoint_interval_hours c = Some 0) ''SWANLAKE_CHECKPOINT_INTERVAL_HOURS must be greater than 0'') (\<lambda>_.
     try_ok (bail_if (sc_checkpoint_poll_seconds c = Some 0) ''SWANLAKE_CHECKPOINT_POLL_SECONDS must be greater than 0'') (\<lambda>_.
       if sc_duckvis_enabled c then validate_duckvis unbase c else Inr ())))"

text \<open>\<open>settings\<close> is the configuration built from the defaults and the environment.\<close>

definition load_config :: "(string \<Rightarrow> string option) \<Rightarrow> (server_config \<Rightarrow> string + server_config) \<Rightarrow> string + server_config" where
  "load_config unbase settings =
     try_ok (settings default_config) (\<lambda>c. try_ok (validate_config unbase c) (\<lambda>_. Inr c))"

definition bind_addr :: "(string \<Rightarrow> string + 'addr list) \<Rightarrow> server_config \<Rightarrow> string + 'addr" where
  "bind_addr resolve c =
     (let addr = sc_host c @ '':'' @ show_nat (sc_port c) in
      try_ok (resolve addr) (\<lambda>as. case as of a # _ \<Rightarrow> Inr a | [] \<Rightarrow> Inl (''unable to resolve bind address for '' @ addr)))"

section \<open>The authenticator\<close>

record 'k duckvis_instance =
  di_api_url :: string
  di_issuer :: string
  di_client_id :: string
  di_signing_key :: string
  di_sa_token :: "sa_token option"
  di_jwks :: "'k jwks_cache"
  di_read_only :: bool

text \<open>\<open>client\<close> tells whether the HTTP client can be built.\<close>

definition from_config :: "(string \<Rightarrow> string option) \<Rightarrow> string + unit \<Rightarrow> server_config \<Rightarrow> string + 'k duckvis_instance option" where
  "from_config unbase client c =
     (if \<not> sc_duckvis_enabled c then Inr None
      else try_ok (ok_or ''duckvis_api_url is required in duckvis mode'' (sc_duckvis_api_url c)) (\<lambda>url.
        try_ok (ok_or ''duckvis_issuer is required in duckvis mode'' (sc_duckvis_issuer c)) (\<lambda>issuer.
        try_ok (ok_or ''duckvis_client_id is required in duckvis mode'' (sc_duckvis_client_id c)) (\<lambda>client_id.
        try_ok (ok_or ''duckvis_private_key is required in duckvis mode'' (sc_duckvis_private_key c)) (\<lambda>key.
        try_ok (decode_seed unbase key) (\<lambda>seed.
        case client of Inl e \<Rightarrow> Inl (''failed to build duckvis HTTP client: '' @ e)
        | Inr _ \<Rightarrow> Inr (Some \<lparr>di_api_url = url, di_issuer = issuer, di_client_id = client_id, di_signing_key = seed,
            di_sa_token = None, di_jwks = jwks_new (case sc_duckvis_jwks_max_age_secs c of Some n \<Rightarrow> n | None \<Rightarrow> 300),
            di_read_only = sc_duckvis_read_only c\<rparr>)))))))"

section \<open>An accepted configuration\<close>

lemma bail_if_ok [simp]: "bail_if b e = Inr u \<longleftrightarrow> \<not> b"
  by (simp add: bail_if_def)

lemma missing_none: "missing_settings c = [] \<longleftrightarrow> sc_duckvis_api_url c \<noteq> None \<and> sc_duckvis_issuer c \<noteq> None
    \<and> sc_duckvis_client_id c \<noteq> None \<and> sc_duckvis_private_key c \<noteq> None"
  by (auto simp: missing_settings_def)

lemma seed_decoded: "decode_seed unbase key = Inr seed \<longleftrightarrow> unbase (trim key) = Some seed \<and> length seed = 32"
  by (auto simp: decode_seed_def split: option.splits)

lemma unit_result: "m = Inr () \<longleftrightarrow> (\<exists>u. m = Inr u)"
  by (cases m) auto

lemma validate_duckvis_ok:
  "validate_duckvis unbase c = Inr () \<longleftrightarrow> (tls_enabled c \<or> sc_tls_terminated_upstream c) \<and> missing_settings c = []
     \<and> (case sc_duckvis_private_key c of None \<Rightarrow> True | Some key \<Rightarrow> (\<exists>seed. decode_seed unbase key = Inr seed)) \<and> \<not> file_backed c"
  unfolding validate_duckvis_def try_ok_Inr_iff bail_if_ok
  by (cases "sc_duckvis_private_key c") (auto simp: try_ok_Inr_iff)

lemma validate_config_ok:
  "validate_config unbase c = Inr () \<longleftrightarrow> (sc_tls_cert_path c = None \<longleftrightarrow> sc_tls_key_path c = None)
     \<and> sc_checkpoint_interval_hours c \<noteq> Some 0 \<and> sc_checkpoint_poll_seconds c \<noteq> Some 0
     \<and> (if sc_duckvis_enabled c then validate_duckvis unbase c = Inr () else True)"
  unfolding validate_config_def try_ok_Inr_iff bail_if_ok by auto

text \<open>What an accepted configuration has in duckvis mode.\<close>

definition duckvis_settings :: "(string \<Rightarrow> string option) \<Rightarrow> server_config \<Rightarrow> string \<Rightarrow> string \<Rightarrow> string \<Rightarrow> string \<Rightarrow> bool" where
  "duckvis_settings unbase c url issuer client_id seed \<longleftrightarrow> sc_duckvis_api_url c = Some url \<and> sc_duckvis_issuer c = Some issuer
     \<and> sc_duckvis_client_id c = Some client_id
     \<and> (\<exists>key. sc_duckvis_private_key c = Some key \<and> unbase (trim key) = Some seed \<and> length seed = 32)"

lemma settings_decoded:
  "missing_settings c = [] \<and> (case sc_duckvis_private_key c of None \<Rightarrow> True | Some key \<Rightarrow> (\<exists>seed. decode_seed unbase key = Inr seed))
     \<longleftrightarrow> (\<exists>url issuer client_id seed. duckvis_settings unbase c url issuer client_id seed)"
  unfolding missing_none duckvis_settings_def seed_decoded by (cases "sc_duckvis_private_key c") auto

lemma settings_start:
  "duckvis_settings unbase c url issuer client_id seed \<Longrightarrow> sc_duckvis_enabled c \<Longrightarrow>
    from_config unbase (Inr ()) c = Inr (Some \<lparr>di_api_url = url, di_issuer = issuer, di_client_id = client_id, di_signing_key = seed,
      di_sa_token = None, di_jwks = jwks_new (case sc_duckvis_jwks_max_age_secs c of Some n \<Rightarrow> n | None \<Rightarrow> 300),
      di_read_only = sc_duckvis_read_only c\<rparr>)"
  by (auto simp: duckvis_settings_def from_config_def seed_decoded [symmetric])

text \<open>
  A configuration is accepted exactly when the certificate and its key are set together, no checkpoint period is zero and, in
  duckvis mode, transport is encrypted or declared to be, the four settings of the service account are there with a key of 32 bytes
  and the database path is blank or in-memory. Then the authenticator is built with these very settings: an accepted configuration
  never fails to start it, as long as the HTTP client can be built.
\<close>

theorem accepted_configuration_starts:
  "validate_config unbase c = Inr () \<longleftrightarrow>
      (sc_tls_cert_path c = None \<longleftrightarrow> sc_tls_key_path c = None) \<and> sc_checkpoint_interval_hours c \<noteq> Some 0 \<and> sc_checkpoint_poll_seconds c \<noteq> Some 0
       \<and> (if sc_duckvis_enabled c
          then (tls_enabled c \<or> sc_tls_terminated_upstream c)
            \<and> (\<exists>url issuer client_id seed. duckvis_settings unbase c url issuer client_id seed
                \<and> from_config unbase (Inr ()) c = Inr (Some \<lparr>di_api_url = url, di_issuer = issuer, di_client_id = client_id,
                    di_signing_key = seed, di_sa_token = None,
                    di_jwks = jwks_new (case sc_duckvis_jwks_max_age_secs c of Some n \<Rightarrow> n | None \<Rightarrow> 300),
                    di_read_only = sc_duckvis_read_only c\<rparr>))
            \<and> (case sc_database_path c of None \<Rightarrow> True | Some p \<Rightarrow> trim p \<in> {[], '':memory:''})
          else True)"
proof -
  have "\<not> file_backed c \<longleftrightarrow> (case sc_database_path c of None \<Rightarrow> True | Some p \<Rightarrow> trim p \<in> {[], '':memory:''})"
    by (cases "sc_database_path c") (auto simp: file_backed_def)
  moreover have "(\<exists>url issuer client_id seed. duckvis_settings unbase c url issuer client_id seed) \<longleftrightarrow>
      (\<exists>url issuer client_id seed. duckvis_settings unbase c url issuer client_id seed
        \<and> from_config unbase (Inr ()) c = Inr (Some \<lparr>di_api_url = url, di_issuer = issuer, di_client_id = client_id,
            di_signing_key = seed, di_sa_token = None,
            di_jwks = jwks_new (case sc_duckvis_jwks_max_age_secs c of Some n \<Rightarrow> n | None \<Rightarrow> 300),
            di_read_only = sc_duckvis_read_only c\<rparr>))" if "sc_duckvis_enabled c"
    using settings_start [OF _ that] by blast
  ultimately show ?thesis
    unfolding validate_config_ok validate_duckvis_ok using settings_decoded [where c = c and unbase = unbase]
    by (cases "sc_duckvis_enabled c") (simp_all only: if_True if_False, blast+)
qed

end
