(* ===== verification/Engine_Factory.thy ===== *)
theory Engine_Factory
  imports Config Metrics Types
begin

text \<open>
  \<^verbatim>\<open>cgroup.rs\<close> and \<^verbatim>\<open>engine/factory.rs\<close>: the memory limit of an instance, the statements each connection starts with, and the opening
  of a connection. Files are a function of their path; opening, running and loading are DuckDB's.
\<close>

section \<open>Limits of the machine\<close>

text \<open>\<open>str::lines\<close>: a line ends with a newline, after which a carriage return is dropped.\<close>

definition text_lines :: "string \<Rightarrow> string list" where
  "text_lines s =
     (let parts = split_char (CHR 0x0A) s; ends = (if last parts = [] then butlast parts else parts);
          cut = (\<lambda>l. if l \<noteq> [] \<and> last l = CHR 0x0D then butlast l else l)
      in if last parts = [] then map cut ends else map cut (butlast ends) @ [last ends])"

function trim_start_matches :: "string \<Rightarrow> string \<Rightarrow> string" where
  "trim_start_matches p s = (if p \<noteq> [] \<and> prefix p s then trim_start_matches p (drop (length p) s) else s)"
  by pat_completeness auto
termination by (relation "measure (\<lambda>(p, s). length s)") (auto simp: prefix_def)

declare trim_start_matches.simps [simp del]

definition get_cgroup_memory_limit :: "(string \<Rightarrow> string option) \<Rightarrow> nat option" where
  "get_cgroup_memory_limit files =
     Option.bind (files ''/proc/self/cgroup'') (\<lambda>content.
     Option.bind (List.find (prefix ''0::'') (text_lines content)) (\<lambda>line.
     (let cgroup_path = trim_start_matches ''0::'' line;
          memory_max_path = path_join (path_join ''/sys/fs/cgroup'' (trim_start_matches ''/'' cgroup_path)) ''memory.max'' in
      Option.bind (files memory_max_path) (\<lambda>c.
        (let memory_max = trim c in if memory_max = ''max'' then None else parse_u64 memory_max)))))"

abbreviation (input) kb :: nat where "kb \<equiv> 1024"
abbreviation (input) mb :: nat where "mb \<equiv> 1048576"
abbreviation (input) gb :: nat where "gb \<equiv> 1073741824"

definition format_bytes_for_duckdb :: "nat \<Rightarrow> string" where
  "format_bytes_for_duckdb bytes =
     (if bytes \<ge> gb \<and> bytes mod gb = 0 then show_nat (bytes div gb) @ ''GB''
      else if bytes \<ge> mb then show_nat (bytes div mb) @ ''MB''
      else show_nat bytes @ ''B'')"

definition parse_meminfo_kb :: "string \<Rightarrow> nat option" where
  "parse_meminfo_kb v = (case split_ws [] v of [] \<Rightarrow> None | n # _ \<Rightarrow> parse_u64 n)"

text \<open>The lines up to the one after which both values are known; the last value of each counts.\<close>

fun scan_meminfo :: "nat option \<Rightarrow> nat option \<Rightarrow> string list \<Rightarrow> nat option \<times> nat option" where
  "scan_meminfo mem swap [] = (mem, swap)"
| "scan_meminfo mem swap (line # ls) =
     (case (case strip_prefix ''MemTotal:'' line of Some rest \<Rightarrow> (parse_meminfo_kb rest, swap)
         | None \<Rightarrow> (case strip_prefix ''SwapTotal:'' line of Some rest \<Rightarrow> (mem, parse_meminfo_kb rest) | None \<Rightarrow> (mem, swap))) of
        (Some m, Some s) \<Rightarrow> (Some m, Some s)
      | (mem', swap') \<Rightarrow> scan_meminfo mem' swap' ls)"

definition wrap_u64 :: "nat \<Rightarrow> nat" where "wrap_u64 n = n mod 2 ^ 64"

definition compute_memory_limit_from_meminfo_content :: "string \<Rightarrow> nat option" where
  "compute_memory_limit_from_meminfo_content content =
     (case scan_meminfo None None (text_lines content) of
        (Some mem_total, Some swap_total) \<Rightarrow>
          (let mem_bytes = wrap_u64 (mem_total * kb); swap_bytes = wrap_u64 (swap_total * kb) in
           if mem_bytes \<le> 10 * gb then None else Some (wrap_u64 ((mem_bytes - 10 * gb) + swap_bytes)))
      | _ \<Rightarrow> None)"

definition compute_memory_limit_from_meminfo :: "(string \<Rightarrow> string option) \<Rightarrow> nat option" where
  "compute_memory_limit_from_meminfo files =
     Option.bind (files ''/proc/meminfo'') compute_memory_limit_from_meminfo_content"

section \<open>The factory\<close>

text \<open>\<open>0.70\<close> as \<open>f64\<close>, in units of \<open>2 ^ - 53\<close>, and its product with the limit, whose fraction is cut off.\<close>

definition share70 :: nat where "share70 = 6305039478318694"

definition duckdb_memory :: "nat \<Rightarrow> nat" where
  "duckdb_memory memory_bytes = round_f64 (share70 * round_f64 memory_bytes) div 2 ^ 53"

record engine_factory =
  ef_init_sql :: string
  ef_database_path :: "string option"
  ef_external_kernel_extension :: "string option"

definition memory_statement :: "string \<Rightarrow> string" where
  "memory_statement limit = ''SET memory_limit = '' @ [CHR 0x27] @ limit @ [CHR 0x27] @ '';''"

definition memory_statements :: "(string \<Rightarrow> string option) \<Rightarrow> server_config \<Rightarrow> string list" where
  "memory_statements files c =
     (case sc_memory_limit c of Some limit \<Rightarrow> [memory_statement limit]
      | None \<Rightarrow> (case get_cgroup_memory_limit files of
          Some memory_bytes \<Rightarrow> [memory_statement (format_bytes_for_duckdb (duckdb_memory memory_bytes))]
        | None \<Rightarrow> (case compute_memory_limit_from_meminfo files of
            Some memory_bytes \<Rightarrow> [memory_statement (format_bytes_for_duckdb memory_bytes)]
          | None \<Rightarrow> [])))"

definition cache_statement :: "string \<Rightarrow> string" where
  "cache_statement cache_dir =
     ''INSTALL cache_httpfs FROM community; LOAD cache_httpfs; SET cache_httpfs_type = '' @ [CHR 0x27] @ ''on_disk'' @ [CHR 0x27]
     @ ''; SET cache_httpfs_cache_directory = '' @ [CHR 0x27] @ cache_dir @ [CHR 0x27] @ '';''"

definition init_statements :: "(string \<Rightarrow> string option) \<Rightarrow> bool \<Rightarrow> server_config \<Rightarrow> string list" where
  "init_statements files bootstrap_extensions c =
     memory_statements files c
     @ [''PRAGMA enable_progress_bar=true; PRAGMA enable_progress_bar_print=false;'']
     @ (if bootstrap_extensions
        then [''INSTALL ducklake; INSTALL httpfs; INSTALL aws; INSTALL postgres; LOAD ducklake; LOAD httpfs; LOAD aws; LOAD postgres;'']
        else [])
     @ (case sc_cache_directory c of Some d \<Rightarrow> [cache_statement d] | None \<Rightarrow> [])
     @ (case sc_duckdb_threads c of Some n \<Rightarrow> [''SET threads = '' @ show_nat (max n 1) @ '';''] | None \<Rightarrow> [])
     @ (case sc_ducklake_init_sql c of Some sql \<Rightarrow> if trim sql = [] then [] else [trim sql] | None \<Rightarrow> [])"

definition new_with_extension_bootstrap :: "(string \<Rightarrow> string option) \<Rightarrow> server_config \<Rightarrow> bool \<Rightarrow> engine_factory" where
  "new_with_extension_bootstrap files c bootstrap_extensions =
     \<lparr>ef_init_sql = join [CHR 0x0A] (init_statements files bootstrap_extensions c),
      ef_database_path = sc_database_path c, ef_external_kernel_extension = sc_external_kernel_extension c\<rparr>"

definition factory_new :: "(string \<Rightarrow> string option) \<Rightarrow> server_config \<Rightarrow> server_error + engine_factory" where
  "factory_new files c = Inr (new_with_extension_bootstrap files c True)"

definition new_without_extension_bootstrap :: "(string \<Rightarrow> string option) \<Rightarrow> server_config \<Rightarrow> engine_factory" where
  "new_without_extension_bootstrap files c = new_with_extension_bootstrap files c False"

section \<open>Opening a connection\<close>

datatype boot_call = EnableAutoload | AllowUnsigned | OpenFile string | OpenInMemory | RunBatch string | LoadKernel string

text \<open>
  \<open>boot\<close> answers each call; the lock of the factory is held meanwhile, and is poisoned once one of them panicked under it.
\<close>

definition boot_ask :: "(boot_call list \<Rightarrow> boot_call \<Rightarrow> server_error + unit) \<Rightarrow> boot_call \<Rightarrow> (boot_call list, server_error, unit) step" where
  "boot_ask boot c l = Ret (boot l c, l @ [c])"

definition create_connection ::
    "(boot_call list \<Rightarrow> boot_call \<Rightarrow> server_error + unit) \<Rightarrow> bool \<Rightarrow> engine_factory \<Rightarrow> (boot_call list, server_error, unit) step" where
  "create_connection boot poisoned fe =
     (if poisoned then sfail (InternalError ''engine init lock poisoned'')
      else sthen (boot_ask boot EnableAutoload) (sthen (boot_ask boot AllowUnsigned)
        (sthen (boot_ask boot (case ef_database_path fe of Some path \<Rightarrow> OpenFile path | None \<Rightarrow> OpenInMemory))
        (sthen (if ef_init_sql fe \<noteq> [] then boot_ask boot (RunBatch (ef_init_sql fe)) else sret ())
        (case ef_external_kernel_extension fe of Some path \<Rightarrow> boot_ask boot (LoadKernel path) | None \<Rightarrow> sret ())))))"

section \<open>The share of the memory\<close>

lemma duckdb_memory_bounds:
  assumes "b \<le> 2 ^ 51"
  shows "10 * duckdb_memory b \<le> 7 * b" "7 * b \<le> 10 * duckdb_memory b + 12"
proof -
  have "round_f64 b = b" using assms by (simp add: round_f64_def spare_bits.simps)
  then have m: "duckdb_memory b = round_f64 (share70 * b) div 2 ^ 53" by (simp add: duckdb_memory_def)
  define r where "r = round_f64 (share70 * b)"
  have r: "2 ^ 53 * r \<le> (2 ^ 53 + 1) * (share70 * b)" "(2 ^ 53 - 1) * (share70 * b) \<le> 2 ^ 53 * r"
    using round_f64_bounds [of "share70 * b"] unfolding r_def by blast+
  have d: "2 ^ 53 * duckdb_memory b \<le> r" "r < 2 ^ 53 * duckdb_memory b + 2 ^ 53"
    unfolding m r_def [symmetric] by (simp, simp add: dividend_less_times_div)
  from r d assms show "10 * duckdb_memory b \<le> 7 * b" "7 * b \<le> 10 * duckdb_memory b + 12"
    unfolding share70_def by simp_all
qed

lemma format_parts:
  "\<exists>n u. (u, s) \<in> {(''GB'', gb), (''MB'', mb), (''B'', 1)} \<and> format_bytes_for_duckdb m = show_nat n @ u \<and> n * s \<le> m \<and> m < n * s + mb"
  if "s = (if m \<ge> gb \<and> m mod gb = 0 then gb else if m \<ge> mb then mb else 1)"
  using that mod_less_divisor [of mb m] div_mult_mod_eq [of m mb] div_mult_mod_eq [of m gb]
  by (auto simp: format_bytes_for_duckdb_def intro!: exI)


lemma sample_group:
  "Option.bind (List.find (prefix ''0::'') (text_lines ''0::/a'')) (\<lambda>line.
      Some (path_join (path_join ''/sys/fs/cgroup'' (trim_start_matches ''/'' (trim_start_matches ''0::'' line))) ''memory.max''))
    = Some ''/sys/fs/cgroup/a/memory.max''"
  by code_simp


section \<open>What a session opens\<close>

text \<open>The whole of a start.\<close>

definition boot_calls :: "engine_factory \<Rightarrow> boot_call list" where
  "boot_calls fe =
     [EnableAutoload, AllowUnsigned, case ef_database_path fe of Some p \<Rightarrow> OpenFile p | None \<Rightarrow> OpenInMemory]
     @ (if ef_init_sql fe \<noteq> [] then [RunBatch (ef_init_sql fe)] else [])
     @ (case ef_external_kernel_extension fe of Some p \<Rightarrow> [LoadKernel p] | None \<Rightarrow> [])"

lemma join_Nil: "join s xs = [] \<Longrightarrow> x \<in> set xs \<Longrightarrow> x = []"
  by (induction s xs rule: join.induct) auto

lemma init_sql_not_empty: "ef_init_sql (new_with_extension_bootstrap files c b) \<noteq> []"
proof
  assume "ef_init_sql (new_with_extension_bootstrap files c b) = []"
  then have "join [CHR 0x0A] (init_statements files b c) = []" by (simp add: new_with_extension_bootstrap_def)
  from join_Nil [OF this, of "''PRAGMA enable_progress_bar=true; PRAGMA enable_progress_bar_print=false;''"] show False
    by (simp add: init_statements_def)
qed

lemma boot_prefix: "create_connection boot poisoned fe [] = Ret (r, l) \<Longrightarrow> prefix l (boot_calls fe)"
  by (auto simp: create_connection_def boot_calls_def boot_ask_def sthen_def sbind_def sret_def sfail_def
      split: if_splits sum.splits option.splits)

text \<open>
  A connection runs nothing before the statements of its factory: it is handed out exactly when the extensions were enabled, the
  configured database opened, the initial statements run as one batch and the kernel's extension loaded, in this order and each
  with success; when one fails the rest is not tried.
\<close>

theorem connection_starts_initialised:
  "create_connection boot poisoned (new_with_extension_bootstrap files c b) [] =
     (if poisoned then Ret (Inl (InternalError ''engine init lock poisoned''), [])
      else Ret (let calls = [EnableAutoload, AllowUnsigned, case sc_database_path c of Some p \<Rightarrow> OpenFile p | None \<Rightarrow> OpenInMemory,
              RunBatch (join [CHR 0x0A] (init_statements files b c))]
            @ (case sc_external_kernel_extension c of Some p \<Rightarrow> [LoadKernel p] | None \<Rightarrow> []);
          oks = takeWhile (\<lambda>n. boot (take n calls) (calls ! n) = Inr ()) [0..<length calls]
        in if length oks = length calls then (Inr (), calls)
           else (boot (take (length oks) calls) (calls ! length oks), take (Suc (length oks)) calls)))"
  using init_sql_not_empty [of files c b]
  by (cases "sc_external_kernel_extension c")
    (simp_all add: create_connection_def boot_ask_def sthen_def sbind_def sret_def sfail_def new_with_extension_bootstrap_def Let_def
      upt_rec split: sum.split)


text \<open>A configuration in duckvis mode, and a connection that opens whatever it is asked to.\<close>

definition sample_duckvis :: "string \<Rightarrow> server_config" where
  "sample_duckvis path = default_config\<lparr>sc_database_path := Some path, sc_duckvis_enabled := True, sc_duckvis_api_url := Some ''u'',
     sc_duckvis_issuer := Some ''i'', sc_duckvis_client_id := Some ''c'', sc_duckvis_private_key := Some ''k'',
     sc_tls_terminated_upstream := True\<rparr>"

lemma sample_accepted:
  assumes "trim path = '':memory:''"
  shows "load_config (\<lambda>_. Some (replicate 32 CHR ''k'')) (\<lambda>_. Inr (sample_duckvis path)) = Inr (sample_duckvis path)"
  using assms by (simp add: load_config_def validate_config_def validate_duckvis_def bail_if_def tls_enabled_def missing_settings_def
      file_backed_def decode_seed_def sample_duckvis_def default_config_def)

lemma sample_opened:
  "create_connection (\<lambda>_ _. Inr ()) False (new_with_extension_bootstrap files (sample_duckvis path) False) [] =
     Ret (Inr (), [EnableAutoload, AllowUnsigned, OpenFile path, RunBatch (join [CHR 0x0A] (init_statements files False (sample_duckvis path)))])"
  using init_sql_not_empty [of files "sample_duckvis path" False]
  by (simp add: create_connection_def boot_ask_def sthen_def sbind_def sret_def new_with_extension_bootstrap_def sample_duckvis_def
      default_config_def)


text \<open>
  With a blank before it, the path is accepted as the in-memory database by the validation, which trims it, and opened as a file of
  that name by every connection, which does not: the sessions share one database.
\<close>

lemma padded_path_is_shared:
  "load_config (\<lambda>_. Some (replicate 32 CHR ''k'')) (\<lambda>_. Inr (sample_duckvis '' :memory:'')) = Inr (sample_duckvis '' :memory:'')
   \<and> sc_duckvis_enabled (sample_duckvis '' :memory:'')
   \<and> (\<exists>l. create_connection (\<lambda>_ _. Inr ()) False (new_with_extension_bootstrap files (sample_duckvis '' :memory:'') False) [] = Ret (Inr (), l)
       \<and> OpenFile '' :memory:'' \<in> set l)"
proof (intro conjI exI)
  show "load_config (\<lambda>_. Some (replicate 32 CHR ''k'')) (\<lambda>_. Inr (sample_duckvis '' :memory:'')) = Inr (sample_duckvis '' :memory:'')"
    by (rule sample_accepted) code_simp
qed (simp add: sample_duckvis_def, rule sample_opened, simp)

end
