(* ===== verification/Checkpoint.thy ===== *)
theory Checkpoint
  imports Engine_Factory
begin

text \<open>
  \<^verbatim>\<open>maintenance/{mod,lock,postgres}.rs\<close>: the periodic checkpoints of the configured databases. Instances share a table of the last
  checkpoints and advisory locks in PostgreSQL; a lock lives as long as the connection that took it. The clock is one for all
  instances and the table's \<open>NOW()\<close>.
\<close>

section \<open>Settings\<close>

record checkpoint_config =
  cp_databases :: "string list"
  cp_interval :: nat
  cp_tick :: nat

definition parse_checkpoint_databases :: "string option \<Rightarrow> string list" where
  "parse_checkpoint_databases raw =
     (case raw of None \<Rightarrow> [] | Some v \<Rightarrow> filter (\<lambda>s. s \<noteq> []) (map trim (split_char (CHR '','') v)))"

definition check_tick_secs :: nat where "check_tick_secs = 300"

definition from_server_config :: "server_config \<Rightarrow> checkpoint_config option" where
  "from_server_config c =
     (let databases = parse_checkpoint_databases (sc_checkpoint_databases c) in
      if databases = [] then None
      else Some \<lparr>cp_databases = databases,
        cp_interval = min ((case sc_checkpoint_interval_hours c of Some h \<Rightarrow> h | None \<Rightarrow> 24) * 3600) (2 ^ 64 - 1),
        cp_tick = (case sc_checkpoint_poll_seconds c of Some n \<Rightarrow> n | None \<Rightarrow> check_tick_secs)\<rparr>)"

section \<open>Connecting to PostgreSQL\<close>

datatype pg_ssl_mode = Disable | Prefer | Require | VerifyCa | VerifyFull

text \<open>Beyond ASCII no letter has one of these in lower case.\<close>

definition ssl_mode_from_str :: "string \<Rightarrow> pg_ssl_mode" where
  "ssl_mode_from_str v =
     (let s = to_ascii_lowercase v in
      if s = ''prefer'' then Prefer else if s = ''require'' then Require else if s = ''verify-ca'' then VerifyCa
      else if s = ''verify-full'' then VerifyFull else Disable)"

definition or_default :: "string option \<Rightarrow> string \<Rightarrow> string" where
  "or_default v d = (case v of Some x \<Rightarrow> x | None \<Rightarrow> d)"

definition ssl_mode_from_env :: "(string \<Rightarrow> string option) \<Rightarrow> pg_ssl_mode" where
  "ssl_mode_from_env env = ssl_mode_from_str (or_default (env ''PGSSLMODE'') ''disable'')"

record pg_config =
  pg_connection_string :: string
  pg_mode :: pg_ssl_mode

definition pg_config_from_env :: "(string \<Rightarrow> string option) \<Rightarrow> pg_config" where
  "pg_config_from_env env =
     \<lparr>pg_connection_string = ''host='' @ or_default (env ''PGHOST'') ''localhost'' @ '' port='' @ or_default (env ''PGPORT'') ''5432''
         @ '' user='' @ or_default (env ''PGUSER'') ''postgres'' @ '' dbname='' @ or_default (env ''PGDATABASE'') ''postgres''
         @ (case env ''PGPASSWORD'' of Some pwd \<Rightarrow> '' password='' @ pwd | None \<Rightarrow> []),
      pg_mode = ssl_mode_from_env env\<rparr>"

record tls_connector =
  accept_invalid_certs :: bool
  accept_invalid_hostnames :: bool

datatype tls_config = TlsNone | TlsPrefer tls_connector | TlsEnforced tls_connector

text \<open>\<open>builds\<close> tells whether the TLS library can build a connector.\<close>

fun build_tls_connector :: "(tls_connector \<Rightarrow> bool) \<Rightarrow> pg_ssl_mode \<Rightarrow> string + tls_connector" where
  "build_tls_connector builds Prefer = (let c = \<lparr>accept_invalid_certs = True, accept_invalid_hostnames = True\<rparr> in
     if builds c then Inr c else Inl ''failed to build TLS connector for PGSSLMODE=require'')"
| "build_tls_connector builds Require = (let c = \<lparr>accept_invalid_certs = True, accept_invalid_hostnames = True\<rparr> in
     if builds c then Inr c else Inl ''failed to build TLS connector for PGSSLMODE=require'')"
| "build_tls_connector builds VerifyCa = (let c = \<lparr>accept_invalid_certs = False, accept_invalid_hostnames = True\<rparr> in
     if builds c then Inr c else Inl ''failed to build TLS connector for PGSSLMODE=verify-ca'')"
| "build_tls_connector builds VerifyFull = (let c = \<lparr>accept_invalid_certs = False, accept_invalid_hostnames = False\<rparr> in
     if builds c then Inr c else Inl ''failed to build TLS connector for PGSSLMODE=verify-full'')"
| "build_tls_connector builds Disable = Inl ''PGSSLMODE=disable should not attempt to build a TLS connector''"

definition build_tls_config :: "(tls_connector \<Rightarrow> bool) \<Rightarrow> pg_ssl_mode \<Rightarrow> string + tls_config" where
  "build_tls_config builds mode =
     (case mode of Disable \<Rightarrow> Inr TlsNone
      | Prefer \<Rightarrow> try_ok (build_tls_connector builds mode) (\<lambda>c. Inr (TlsPrefer c))
      | _ \<Rightarrow> try_ok (build_tls_connector builds mode) (\<lambda>c. Inr (TlsEnforced c)))"

text \<open>The connections that are tried, with a connector or in the clear, and what comes of them.\<close>

type_synonym 'c pg_step = "(tls_connector option list, string, 'c) step"

definition pg_connect :: "(tls_connector option list \<Rightarrow> string \<Rightarrow> tls_connector option \<Rightarrow> string + 'c) \<Rightarrow> string \<Rightarrow> tls_connector option \<Rightarrow> 'c pg_step" where
  "pg_connect net cs t l = Ret (net l cs t, l @ [t])"

definition connect_client ::
    "(tls_connector \<Rightarrow> bool) \<Rightarrow> (tls_connector option list \<Rightarrow> string \<Rightarrow> tls_connector option \<Rightarrow> string + 'c) \<Rightarrow> pg_config \<Rightarrow> 'c pg_step" where
  "connect_client builds net config =
     sbind (\<lambda>l. Ret (build_tls_config builds (pg_mode config), l)) (\<lambda>t.
       case t of TlsNone \<Rightarrow> pg_connect net (pg_connection_string config) None
       | TlsPrefer c \<Rightarrow> (\<lambda>l. rbind (pg_connect net (pg_connection_string config) (Some c) l) (\<lambda>(r, l').
           case r of Inr x \<Rightarrow> Ret (Inr x, l') | Inl _ \<Rightarrow> pg_connect net (pg_connection_string config) None l'))
       | TlsEnforced c \<Rightarrow> pg_connect net (pg_connection_string config) (Some c))"

section \<open>Running a checkpoint\<close>

text \<open>
  The connection for checkpoints is kept; it is dropped when a checkpoint fails. \<open>create\<close> and \<open>exec\<close> are what comes of opening one and
  of the statements.
\<close>

definition run_checkpoint :: "string + unit \<Rightarrow> (string \<Rightarrow> string + unit) \<Rightarrow> bool \<Rightarrow> string \<Rightarrow> (bool, string, unit) step" where
  "run_checkpoint create exec poisoned db =
     (if poisoned then sfail ''checkpoint connection lock poisoned''
      else sthen (\<lambda>conn. if conn then Ret (Inr (), True) else (case create of Inl e \<Rightarrow> Ret (Inl e, False) | Inr _ \<Rightarrow> Ret (Inr (), True)))
        (\<lambda>conn. case exec (''USE '' @ db @ ''; CHECKPOINT;'') of
           Inl e \<Rightarrow> Ret (Inl ''running checkpoint'', False) | Inr _ \<Rightarrow> Ret (Inr (), conn)))"

section \<open>The rounds of the instances\<close>

text \<open>Where an instance is in \<open>process_database\<close>; of a run its start.\<close>

datatype cp_phase = Idle | Connected string | Locked string | Fresh string | Running string nat | Ran string nat

text \<open>\<open>history\<close> is what was recorded in the table, newest first; it is not in the code.\<close>

record cp_world =
  pg_locks :: "int \<Rightarrow> nat option"
  pg_last :: "string \<Rightarrow> nat option"
  cp_phases :: "nat \<Rightarrow> cp_phase"
  cp_clock :: nat
  history :: "(string \<times> nat) list"

definition lock_target :: "string \<Rightarrow> string" where
  "lock_target db = path_join ''/ducklake/checkpoint'' db"

definition release :: "nat \<Rightarrow> cp_world \<Rightarrow> cp_world" where
  "release i w = w\<lparr>pg_locks := (\<lambda>k. if pg_locks w k = Some i then None else pg_locks w k)\<rparr>"

definition go :: "nat \<Rightarrow> cp_phase \<Rightarrow> cp_world \<Rightarrow> cp_world" where
  "go i p w = w\<lparr>cp_phases := (cp_phases w)(i := p)\<rparr>"

definition leave :: "nat \<Rightarrow> cp_world \<Rightarrow> cp_world" where
  "leave i w = release i (go i Idle w)"

text \<open>\<open>key\<close> is the hash of a path. The connection of an instance that has the lock is the lock's.\<close>

definition holds_lock :: "(string \<Rightarrow> int) \<Rightarrow> nat \<Rightarrow> string \<Rightarrow> cp_world \<Rightarrow> bool" where
  "holds_lock key i db w \<longleftrightarrow> pg_locks w (key (lock_target db)) = Some i"

definition begin_round :: "nat \<Rightarrow> string \<Rightarrow> bool \<Rightarrow> cp_world \<Rightarrow> cp_world" where
  "begin_round i db ok w = (if cp_phases w i = Idle \<and> ok then go i (Connected db) w else w)"

definition try_acquire :: "(string \<Rightarrow> int) \<Rightarrow> nat \<Rightarrow> bool \<Rightarrow> cp_world \<Rightarrow> cp_world" where
  "try_acquire key i ok w =
     (case cp_phases w i of
        Connected db \<Rightarrow>
          if ok \<and> pg_locks w (key (lock_target db)) = None
          then go i (Locked db) (w\<lparr>pg_locks := (pg_locks w)(key (lock_target db) \<mapsto> i)\<rparr>)
          else leave i w
      | _ \<Rightarrow> w)"

definition last_checkpoint_at :: "(string \<Rightarrow> int) \<Rightarrow> nat \<Rightarrow> nat \<Rightarrow> bool \<Rightarrow> cp_world \<Rightarrow> cp_world" where
  "last_checkpoint_at key interval i ok w =
     (case cp_phases w i of
        Locked db \<Rightarrow>
          if \<not> (ok \<and> holds_lock key i db w) then leave i w
          else (case pg_last w db of None \<Rightarrow> go i (Fresh db) w
            | Some ts \<Rightarrow> if cp_clock w - ts < interval then leave i w else go i (Running db (cp_clock w)) w)
      | _ \<Rightarrow> w)"

definition checkpoint_ended :: "nat \<Rightarrow> bool \<Rightarrow> cp_world \<Rightarrow> cp_world" where
  "checkpoint_ended i ok w =
     (case cp_phases w i of Running db start \<Rightarrow> if ok then go i (Ran db start) w else leave i w | _ \<Rightarrow> w)"

definition upsert :: "string \<Rightarrow> cp_world \<Rightarrow> cp_world" where
  "upsert db w = w\<lparr>pg_last := (pg_last w)(db \<mapsto> cp_clock w), history := (db, cp_clock w) # history w\<rparr>"

definition record_checkpoint :: "(string \<Rightarrow> int) \<Rightarrow> nat \<Rightarrow> bool \<Rightarrow> cp_world \<Rightarrow> cp_world" where
  "record_checkpoint key i ok w =
     (case cp_phases w i of
        Fresh db \<Rightarrow> leave i (if ok \<and> holds_lock key i db w then upsert db w else w)
      | Ran db start \<Rightarrow> leave i (if ok \<and> holds_lock key i db w then upsert db w else w)
      | _ \<Rightarrow> w)"

text \<open>A connection is lost, and the server frees its lock; the instance learns it at its next query.\<close>

datatype cp_event = Round nat string bool | TryLock nat bool | ReadLast nat bool | Ended nat bool | Record nat bool | Lost nat | Tick nat

fun cp_step :: "(string \<Rightarrow> int) \<Rightarrow> nat \<Rightarrow> cp_world \<Rightarrow> cp_event \<Rightarrow> cp_world" where
  "cp_step key interval w (Round i db ok) = begin_round i db ok w"
| "cp_step key interval w (TryLock i ok) = try_acquire key i ok w"
| "cp_step key interval w (ReadLast i ok) = last_checkpoint_at key interval i ok w"
| "cp_step key interval w (Ended i ok) = checkpoint_ended i ok w"
| "cp_step key interval w (Record i ok) = record_checkpoint key i ok w"
| "cp_step key interval w (Lost i) = release i w"
| "cp_step key interval w (Tick n) = w\<lparr>cp_clock := cp_clock w + n\<rparr>"

text \<open>The steps that can happen, as a relation, and what is reached by them from instances at rest.\<close>

inductive cp_reach :: "(string \<Rightarrow> int) \<Rightarrow> nat \<Rightarrow> bool \<Rightarrow> cp_world \<Rightarrow> bool" for key interval lossy where
  start: "pg_locks w = (\<lambda>_. None) \<Longrightarrow> cp_phases w = (\<lambda>_. Idle) \<Longrightarrow> history w = [] \<Longrightarrow> cp_reach key interval lossy w"
| step: "cp_reach key interval lossy w \<Longrightarrow> lossy \<or> \<not> (\<exists>i. e = Lost i) \<Longrightarrow> cp_reach key interval lossy (cp_step key interval w e)"

section \<open>Spacing\<close>

text \<open>The database an instance works on, from when it has the lock.\<close>

fun locked_db :: "cp_phase \<Rightarrow> string option" where
  "locked_db Idle = None"
| "locked_db (Connected db) = None"
| "locked_db (Locked db) = Some db"
| "locked_db (Fresh db) = Some db"
| "locked_db (Running db start) = Some db"
| "locked_db (Ran db start) = Some db"

definition due :: "nat \<Rightarrow> cp_world \<Rightarrow> string \<Rightarrow> bool" where
  "due interval w db \<longleftrightarrow> (\<exists>ts. pg_last w db = Some ts \<and> ts + interval \<le> cp_clock w)"

text \<open>Checkpoints of one database that were recorded at least \<open>interval\<close> apart, newest first.\<close>

fun spaced :: "nat \<Rightarrow> (string \<times> nat) list \<Rightarrow> bool" where
  "spaced interval [] = True"
| "spaced interval ((db, t) # h) \<longleftrightarrow> list_all (\<lambda>(d, t'). d = db \<longrightarrow> t' + interval \<le> t) h \<and> spaced interval h"

text \<open>A lock is held for the database of its holder's phase, which knows the table when it is about to write it.\<close>

definition cp_inv :: "(string \<Rightarrow> int) \<Rightarrow> nat \<Rightarrow> cp_world \<Rightarrow> bool" where
  "cp_inv key interval w \<longleftrightarrow>
     (\<forall>k i. pg_locks w k = Some i \<longrightarrow> (\<exists>db. locked_db (cp_phases w i) = Some db \<and> k = key (lock_target db)))
     \<and> (\<forall>i db. holds_lock key i db w \<longrightarrow> cp_phases w i = Fresh db \<longrightarrow> pg_last w db = None)
     \<and> (\<forall>i db start. holds_lock key i db w \<longrightarrow> cp_phases w i \<in> {Running db start, Ran db start} \<longrightarrow> due interval w db)
     \<and> (\<forall>(db, t)\<in>set (history w). \<exists>ts. pg_last w db = Some ts \<and> t \<le> ts)
     \<and> spaced interval (history w)"

lemma inv_start: "pg_locks w = (\<lambda>_. None) \<Longrightarrow> cp_phases w = (\<lambda>_. Idle) \<Longrightarrow> history w = [] \<Longrightarrow> cp_inv key interval w"
  by (simp add: cp_inv_def holds_lock_def)

lemma leave_inv: "cp_inv key interval w \<Longrightarrow> cp_inv key interval (leave i w)"
  by (auto simp: cp_inv_def leave_def release_def go_def holds_lock_def due_def split: if_splits)

lemma release_inv: "cp_inv key interval w \<Longrightarrow> cp_inv key interval (release i w)"
  by (auto simp: cp_inv_def release_def holds_lock_def due_def split: if_splits)

lemma tick_inv: "cp_inv key interval w \<Longrightarrow> cp_inv key interval (w\<lparr>cp_clock := cp_clock w + n\<rparr>)"
  by (fastforce simp: cp_inv_def holds_lock_def due_def)

text \<open>A lock has one holder, so the record of its holder touches no other one's knowledge of the table.\<close>

lemma holds_unique: "holds_lock key i db w \<Longrightarrow> holds_lock key j db w \<Longrightarrow> i = j"
  by (simp add: holds_lock_def)

lemma inv_parts:
  assumes "cp_inv key interval w"
  shows "pg_locks w k = Some i \<Longrightarrow> \<exists>db. locked_db (cp_phases w i) = Some db \<and> k = key (lock_target db)"
    and "holds_lock key i db w \<Longrightarrow> cp_phases w i = Fresh db \<Longrightarrow> pg_last w db = None"
    and "holds_lock key i db w \<Longrightarrow> cp_phases w i = Ran db start \<or> cp_phases w i = Running db start \<Longrightarrow> due interval w db"
    and "(db, t) \<in> set (history w) \<Longrightarrow> \<exists>ts. pg_last w db = Some ts \<and> t \<le> ts" and "spaced interval (history w)"
  using assms unfolding cp_inv_def by blast+

lemma recorded_inv:
  assumes inv: "cp_inv key interval w" and held: "holds_lock key i db w" "cp_phases w i = Fresh db \<or> cp_phases w i = Ran db start"
  shows "cp_inv key interval (leave i (upsert db w))"
proof -
  have old: "t + interval \<le> cp_clock w" if "(db, t) \<in> set (history w)" for t
    using inv_parts(2-4) [OF inv] held that by (fastforce simp: due_def)
  have other: "db' \<noteq> db" if "holds_lock key j db' w" "j \<noteq> i" for j db'
    using that held(1) by (auto simp: holds_lock_def)
  show ?thesis
    unfolding cp_inv_def
  proof (intro conjI allI impI ballI)
    show "spaced interval (history (leave i (upsert db w)))"
      using old inv_parts(5) [OF inv] by (auto simp: leave_def release_def go_def upsert_def list_all_iff)
  next
    fix x assume x: "x \<in> set (history (leave i (upsert db w)))"
    obtain d t where dt: "x = (d, t)" by (cases x)
    have "\<exists>ts. pg_last w d = Some ts \<and> t \<le> ts" if "(d, t) \<in> set (history w)" by (rule inv_parts(4) [OF inv that])
    with x old [of t] show "case x of (d, t) \<Rightarrow> \<exists>ts. pg_last (leave i (upsert db w)) d = Some ts \<and> t \<le> ts"
      unfolding dt by (cases "d = db") (auto simp: leave_def release_def go_def upsert_def)
  qed (use inv_parts(1-3) [OF inv] other in \<open>auto simp: leave_def release_def go_def upsert_def holds_lock_def due_def split: if_splits\<close>)
qed

lemma phase_inv:
  assumes inv: "cp_inv key interval w" and same: "locked_db p = locked_db (cp_phases w i)"
    and new: "\<And>db. holds_lock key i db w \<Longrightarrow> p = Fresh db \<Longrightarrow> pg_last w db = None"
      "\<And>db start. holds_lock key i db w \<Longrightarrow> p = Running db start \<or> p = Ran db start \<Longrightarrow> due interval w db"
  shows "cp_inv key interval (go i p w)"
  unfolding cp_inv_def
proof (intro conjI allI impI ballI)
  fix k j assume "pg_locks (go i p w) k = Some j"
  with inv_parts(1) [OF inv, of k j] same show "\<exists>db. locked_db (cp_phases (go i p w) j) = Some db \<and> k = key (lock_target db)"
    by (auto simp: go_def)
next
  fix x assume "x \<in> set (history (go i p w))"
  then show "case x of (db, t) \<Rightarrow> \<exists>ts. pg_last (go i p w) db = Some ts \<and> t \<le> ts"
    using inv_parts(4) [OF inv] by (auto simp: go_def)
qed (use inv_parts(2,3,5) [OF inv] new in \<open>auto simp: go_def holds_lock_def due_def split: if_splits\<close>)

lemma locked_inv:
  assumes inv: "cp_inv key interval w" and p: "cp_phases w i = Connected db" "pg_locks w (key (lock_target db)) = None"
  shows "cp_inv key interval (go i (Locked db) (w\<lparr>pg_locks := (pg_locks w)(key (lock_target db) \<mapsto> i)\<rparr>))"
proof -
  have "pg_locks w k \<noteq> Some i" for k using inv_parts(1) [OF inv, of k i] p by auto
  then show ?thesis
    using inv_parts(1-5) [OF inv] unfolding cp_inv_def
    by (auto simp: go_def holds_lock_def due_def split: if_splits)
qed

lemma step_inv:
  assumes "cp_inv key interval w" "0 < interval"
  shows "cp_inv key interval (cp_step key interval w e)"
proof (cases e)
  case (Round i db ok)
  with assms show ?thesis by (auto simp: begin_round_def intro: phase_inv)
next
  case (TryLock i ok)
  with assms show ?thesis by (auto simp: try_acquire_def split: cp_phase.split intro: locked_inv leave_inv)
next
  case (ReadLast i ok)
  with assms show ?thesis
    by (auto simp: last_checkpoint_at_def due_def split: cp_phase.split option.split intro!: phase_inv leave_inv)
next
  case (Ended i ok)
  with assms show ?thesis
    by (auto simp: checkpoint_ended_def split: cp_phase.split intro!: phase_inv leave_inv dest: inv_parts(3))
next
  case (Record i ok)
  with assms show ?thesis
    by (auto simp: record_checkpoint_def split: cp_phase.split intro: recorded_inv leave_inv)
qed (use assms in \<open>auto intro: release_inv tick_inv\<close>)

lemma reach_inv: "cp_reach key interval lossy w \<Longrightarrow> 0 < interval \<Longrightarrow> cp_inv key interval w"
  by (induction rule: cp_reach.induct) (auto intro: inv_start step_inv)

text \<open>Unless connections are lost, an instance that works on a database has its lock.\<close>

lemma working_holds:
  "cp_reach key interval False w \<Longrightarrow> locked_db (cp_phases w i) = Some db \<Longrightarrow> holds_lock key i db w"
proof (induction arbitrary: i db rule: cp_reach.induct)
  case (step w e)
  have leave: "holds_lock key i db (leave j w)" if "locked_db (cp_phases (leave j w) i) = Some db" for j
    using that step.IH by (auto simp: leave_def release_def go_def holds_lock_def split: if_splits)
  have rec: "holds_lock key i db (leave j (upsert d w))" if "locked_db (cp_phases (leave j (upsert d w)) i) = Some db" for j d
    using that step.IH by (auto simp: leave_def release_def go_def holds_lock_def upsert_def split: if_splits)
  have free: "locked_db (cp_phases w j) \<noteq> Some d" if "pg_locks w k = None" "key (lock_target d) = k" for j d k
    using step.IH [of j d] that by (auto simp: holds_lock_def)
  from step free show ?case
    by (cases e) (auto simp: begin_round_def try_acquire_def last_checkpoint_at_def checkpoint_ended_def record_checkpoint_def holds_lock_def
        go_def split: cp_phase.splits option.splits if_splits dest!: leave rec)
qed simp

section \<open>What the instances guarantee\<close>

lemma validated_periods:
  assumes "validate_config unbase c = Inr ()" "from_server_config c = Some cfg"
  shows "0 < cp_interval cfg" "0 < cp_tick cfg" "\<forall>db\<in>set (cp_databases cfg). db \<noteq> []"
  using assms by (auto simp: validate_config_ok from_server_config_def Let_def check_tick_secs_def parse_checkpoint_databases_def
      split: if_splits option.splits)


text \<open>Two instances that checkpoint one database, at first one after the other, then after the first lost its connection.\<close>

definition sample_world :: cp_world where
  "sample_world = \<lparr>pg_locks = (\<lambda>_. None), pg_last = (\<lambda>_. None), cp_phases = (\<lambda>_. Idle), cp_clock = 0, history = []\<rparr>"

lemmas cp_steps = begin_round_def try_acquire_def last_checkpoint_at_def checkpoint_ended_def record_checkpoint_def upsert_def holds_lock_def
  leave_def release_def go_def

lemma reach_foldl: "(\<forall>e\<in>set es. lossy \<or> \<not> (\<exists>i. e = Lost i)) \<Longrightarrow> cp_reach key interval lossy w \<Longrightarrow>
    cp_reach key interval lossy (foldl (cp_step key interval) w es)"
  by (induction es arbitrary: w) (auto intro: cp_reach.step)

lemma reach_sample: "cp_reach key interval lossy sample_world"
  by (rule cp_reach.start) (simp_all add: sample_world_def)

definition round_of :: "nat \<Rightarrow> cp_event list" where
  "round_of i = [Round i ''lake'' True, TryLock i True, ReadLast i True]"

definition sample_checkpoints :: server_config where
  "sample_checkpoints = default_config\<lparr>sc_checkpoint_databases := Some ''lake''\<rparr>"

lemma sample_periods:
  "validate_config unbase sample_checkpoints = Inr ()"
  "from_server_config sample_checkpoints = Some \<lparr>cp_databases = [''lake''], cp_interval = 86400, cp_tick = 300\<rparr>"
proof -
  have "parse_checkpoint_databases (Some ''lake'') = [''lake'']" by code_simp
  then show "from_server_config sample_checkpoints = Some \<lparr>cp_databases = [''lake''], cp_interval = 86400, cp_tick = 300\<rparr>"
    by (simp add: from_server_config_def sample_checkpoints_def default_config_def)
qed (simp add: validate_config_ok sample_checkpoints_def default_config_def)

definition sample_rounds :: "cp_event list" where
  "sample_rounds = round_of 1 @ Record 1 True # Tick 86400 # round_of 1 @ round_of 2 @ [Ended 1 True, Tick 60, Record 1 True]"


text \<open>
  A checkpoint is not fenced: while one instance still runs, the loss of its connection lets another start. Only the second
  is then recorded.
\<close>

lemma overlapping_checkpoints:
  "map (cp_phases (foldl (cp_step (\<lambda>_. 0) 86400) sample_world (round_of 1 @ Record 1 True # Tick 86400 # round_of 1 @ Lost 1 # round_of 2)))
     [1, 2] = [Running ''lake'' 86400, Running ''lake'' 86400]"
  by (simp add: round_of_def sample_world_def cp_steps)

text \<open>
  The transport to PostgreSQL: an unknown mode is the clear, the first two modes accept any certificate, and only \<open>prefer\<close> falls
  back to the clear.
\<close>

lemma pg_transport:
  "connect_client builds net config [] = Ret (r, l) \<Longrightarrow>
     (case pg_mode config of Disable \<Rightarrow> l = [None]
      | Prefer \<Rightarrow> l = [] \<or> (\<exists>c. accept_invalid_certs c \<and> (l = [Some c] \<or> l = [Some c, None]))
      | Require \<Rightarrow> l = [] \<or> (\<exists>c. accept_invalid_certs c \<and> l = [Some c])
      | VerifyCa \<Rightarrow> l = [] \<or> (\<exists>c. \<not> accept_invalid_certs c \<and> l = [Some c])
      | VerifyFull \<Rightarrow> l = [] \<or> (\<exists>c. \<not> accept_invalid_certs c \<and> \<not> accept_invalid_hostnames c \<and> l = [Some c]))"
  by (cases "pg_mode config") (auto simp: connect_client_def build_tls_config_def pg_connect_def sbind_def run_simps Let_def split: if_splits sum.splits)

lemma unknown_mode_in_the_clear:
  "connect_client builds net (pg_config_from_env (\<lambda>v. if v = ''PGSSLMODE'' then Some ''required'' else None)) [] =
     pg_connect net ''host=localhost port=5432 user=postgres dbname=postgres'' None []"
proof -
  have "ssl_mode_from_str ''required'' = Disable" by code_simp
  then show ?thesis
    by (simp add: connect_client_def pg_config_from_env_def ssl_mode_from_env_def or_default_def build_tls_config_def sbind_def)
qed

end
