(* ===== verification/Metadata.thy ===== *)
theory Metadata
  imports Actions
begin

text \<open>
  \<^verbatim>\<open>service/handlers/{metadata,sql_info,exchange}.rs\<close>: the catalog commands, the server's capabilities and the uploads of the
  Airport client, on the session that \<open>prepare_request\<close> returned. The builders of the answers, which filter the rows by the
  patterns of the command, and the encoding of batches are Arrow Flight's.
\<close>

section \<open>Rows of the catalog\<close>

text \<open>A grave accent stands for a quote and a tilde for a backslash.\<close>

definition sql_text :: "string \<Rightarrow> string" where
  "sql_text s = replace_char (CHR ''`'') [CHR 0x27] (replace_char (CHR ''~'') [CHR 0x5C] s)"

definition schemas_query :: string where
  "schemas_query = sql_text (''SELECT catalog_name AS catalog_name, schema_name AS schema_name FROM information_schema.schemata ''
     @ ''WHERE schema_name NOT IN (`information_schema`, `pg_catalog`) ''
     @ ''AND schema_name NOT LIKE `~_~_ducklake_metadata%` ESCAPE `~`'')"

definition tables_query :: string where
  "tables_query = sql_text (''SELECT table_catalog AS table_catalog, table_schema AS table_schema, table_name AS table_name, ''
     @ ''table_type AS table_type FROM information_schema.tables ''
     @ ''WHERE table_schema NOT IN (`information_schema`, `pg_catalog`) ''
     @ ''AND table_schema NOT LIKE `~_~_ducklake_metadata%` ESCAPE `~` ''
     @ ''AND table_name NOT LIKE `ducklake~_%` ESCAPE `~`'')"

definition catalogs_query :: string where
  "catalogs_query = ''PRAGMA database_list''"

text \<open>A batch is its named columns, all of one length.\<close>

record meta_batch =
  mb_columns :: "(string \<times> arrow_array) list"
  mb_rows :: nat

definition column :: "meta_batch \<Rightarrow> nat \<Rightarrow> arrow_array run" where
  "column b i = (if i < length (mb_columns b) then Ret (snd (mb_columns b ! i)) else Panic)"

definition position :: "('x \<Rightarrow> bool) \<Rightarrow> 'x list \<Rightarrow> nat option" where
  "position P xs = (let n = length (takeWhile (\<lambda>x. \<not> P x) xs) in if n < length xs then Some n else None)"

definition column_index :: "meta_batch \<Rightarrow> string \<Rightarrow> nat option" where
  "column_index b name = position (\<lambda>(n, _). n = name) (mb_columns b)"

definition or_index :: "nat option \<Rightarrow> nat \<Rightarrow> nat" where
  "or_index i j = (case i of Some k \<Rightarrow> k | None \<Rightarrow> j)"

definition string_value :: "arrow_array \<Rightarrow> nat \<Rightarrow> string option" where
  "string_value a row = (case a of StringArray xs \<Rightarrow> xs ! row | LargeStringArray xs \<Rightarrow> xs ! row | _ \<Rightarrow> None)"

definition or_text :: "string option \<Rightarrow> string \<Rightarrow> string" where
  "or_text v d = (case v of Some s \<Rightarrow> s | None \<Rightarrow> d)"

definition extract_schema_rows :: "meta_batch \<Rightarrow> string \<Rightarrow> (string \<times> string) list run" where
  "extract_schema_rows b fallback =
     (if mb_rows b = 0 \<or> mb_columns b = [] then Ret []
      else rbind (column b (or_index (column_index b ''catalog_name'') 0)) (\<lambda>catalog_col.
        rbind (column b (or_index (column_index b ''schema_name'') 1)) (\<lambda>schema_col.
          Ret (somes (map (\<lambda>row. map_option (\<lambda>schema. (or_text (string_value catalog_col row) fallback, schema))
            (string_value schema_col row)) [0..<mb_rows b])))))"

definition extract_catalog_rows :: "meta_batch \<Rightarrow> string list run" where
  "extract_catalog_rows b =
     (if mb_rows b = 0 \<or> mb_columns b = [] then Ret []
      else rbind (column b (or_index (case column_index b ''name'' of Some i \<Rightarrow> Some i
            | None \<Rightarrow> (case column_index b ''database_name'' of Some i \<Rightarrow> Some i
                | None \<Rightarrow> position (\<lambda>(_, a). array_type a \<in> {Utf8, LargeUtf8}) (mb_columns b))) 0)) (\<lambda>name_col.
          Ret (somes (map (string_value name_col) [0..<mb_rows b]))))"

definition normalize_table_type :: "string option \<Rightarrow> string" where
  "normalize_table_type v = (case v of Some t \<Rightarrow> if t = ''BASE TABLE'' then ''TABLE'' else t | None \<Rightarrow> ''TABLE'')"

record 's table_row =
  tr_catalog :: string
  tr_schema :: string
  tr_name :: string
  tr_table_type :: string
  tr_schema_def :: 's

definition qualified_table :: "string \<Rightarrow> string \<Rightarrow> string \<Rightarrow> string" where
  "qualified_table catalog schema name = catalog @ ''.'' @ schema @ ''.'' @ name"

text \<open>The schema of one table; when it cannot be had, an empty one.\<close>

definition schema_or_empty ::
    "('v, 'b, 's, 'q) engine \<Rightarrow> 's \<Rightarrow> bool \<Rightarrow> string \<Rightarrow> (('v, 'b, 's) session, 'e, 's) step" where
  "schema_or_empty eng none include_schema name s =
     (if include_schema then run_map (\<lambda>(r, s'). (Inr (case r of Inr schema \<Rightarrow> schema | Inl _ \<Rightarrow> none), s')) (table_schema eng name s)
      else sret none s)"

text \<open>The rows that have a name, as their catalog, schema, name and type.\<close>

definition table_names :: "meta_batch \<Rightarrow> string \<Rightarrow> (string \<times> string \<times> string \<times> string) list run" where
  "table_names b fallback =
     rbind (column b (or_index (column_index b ''table_catalog'') 0)) (\<lambda>catalog_col.
     rbind (column b (or_index (column_index b ''table_schema'') 1)) (\<lambda>schema_col.
     rbind (column b (or_index (column_index b ''table_name'') 2)) (\<lambda>name_col.
     rbind (column b (or_index (column_index b ''table_type'') 3)) (\<lambda>type_col.
       Ret (somes (map (\<lambda>row. map_option (\<lambda>name. (or_text (string_value catalog_col row) fallback,
           or_text (string_value schema_col row) ''main'', name, normalize_table_type (string_value type_col row)))
         (string_value name_col row)) [0..<mb_rows b]))))))"

fun load_schemas ::
    "('v, 'b, 's, 'q) engine \<Rightarrow> 's \<Rightarrow> bool \<Rightarrow> (string \<times> string \<times> string \<times> string) list \<Rightarrow>
     (('v, 'b, 's) session, 'e, 's table_row list) step" where
  "load_schemas eng none include_schema [] = sret []"
| "load_schemas eng none include_schema ((catalog, schema, name, table_type) # rows) =
     sbind (schema_or_empty eng none include_schema (qualified_table catalog schema name)) (\<lambda>def.
     sbind (load_schemas eng none include_schema rows) (\<lambda>rest.
       sret (\<lparr>tr_catalog = catalog, tr_schema = schema, tr_name = name, tr_table_type = table_type, tr_schema_def = def\<rparr> # rest)))"

definition extract_table_rows ::
    "('v, 'b, 's, 'q) engine \<Rightarrow> 's \<Rightarrow> bool \<Rightarrow> string \<Rightarrow> meta_batch \<Rightarrow> (('v, 'b, 's) session, 'e, 's table_row list) step" where
  "extract_table_rows eng none include_schema fallback b s =
     (if mb_rows b = 0 \<or> length (mb_columns b) < 3 then sret [] s
      else rbind (table_names b fallback) (\<lambda>rows. load_schemas eng none include_schema rows s))"

section \<open>Capabilities\<close>

text \<open>The codes and enumerations are those of Flight SQL.\<close>

datatype sql_info = FlightSqlServerTransaction | SqlTransactionsSupported | SqlDefaultTransactionIsolation
  | SqlSupportedTransactionsIsolationLevels

datatype sql_info_value = SqlSupportedTransactionTransaction | SqlTransactionSerializable | InfoBool bool | InfoInt int

definition sql_info_data :: "(sql_info \<times> sql_info_value) list" where
  "sql_info_data = [(FlightSqlServerTransaction, SqlSupportedTransactionTransaction), (SqlTransactionsSupported, InfoBool True),
     (SqlDefaultTransactionIsolation, SqlTransactionSerializable), (SqlSupportedTransactionsIsolationLevels, InfoInt 30)]"

section \<open>Commands\<close>

text \<open>
  \<open>mf_batches\<close> are the batches of a result, \<open>mf_none\<close> the empty schema; the builders may fail, and so may the encoding of an
  answer.
\<close>

record ('s, 'q, 'out) meta_front =
  mf_batches :: "'q \<Rightarrow> meta_batch list"
  mf_none :: 's
  mf_catalogs :: "string list \<Rightarrow> string + 'out"
  mf_schemas :: "(string \<times> string) list \<Rightarrow> string + 'out"
  mf_append :: "'s table_row \<Rightarrow> string + unit"
  mf_tables :: "'s table_row list \<Rightarrow> string + 'out"
  mf_types :: "string list \<Rightarrow> string + 'out"
  mf_info_data :: "(sql_info \<times> sql_info_value) list \<Rightarrow> string + unit"
  mf_sql_info :: "(sql_info \<times> sql_info_value) list \<Rightarrow> string + 'out"
  mf_encode :: "'out \<Rightarrow> string + unit"

definition built :: "string \<Rightarrow> string + 'x \<Rightarrow> status + 'x" where
  "built what r = (case r of Inl e \<Rightarrow> Inl (mk_status CodeInternal (what @ e)) | Inr x \<Rightarrow> Inr x)"

definition stream_single_batch :: "('s, 'q, 'out) meta_front \<Rightarrow> 'out \<Rightarrow> status + 'out" where
  "stream_single_batch mf b = try_ok (built ''failed to convert metadata batch to flight data: '' (mf_encode mf b)) (\<lambda>_. Inr b)"

fun concat_runs :: "'x list run list \<Rightarrow> 'x list run" where
  "concat_runs [] = Ret []"
| "concat_runs (r # rs) = rbind r (\<lambda>xs. run_map (\<lambda>ys. xs @ ys) (concat_runs rs))"

fun distinct_first :: "string set \<Rightarrow> string list \<Rightarrow> string list" where
  "distinct_first seen [] = []"
| "distinct_first seen (x # xs) = (if x \<in> seen then distinct_first seen xs else x # distinct_first (insert x seen) xs)"

text \<open>A panic on the blocking thread while rows are read, after the calls that were made.\<close>

definition or_panicked :: "'x run \<Rightarrow> ('st, status, 'x) step" where
  "or_panicked r s = (case r of Panic \<Rightarrow> sfail panicked s | Ret x \<Rightarrow> sret x s)"

definition catalog_or_memory :: "('v, 'b, 's, 'q) engine \<Rightarrow> (('v, 'b, 's) session, 'e, string) step" where
  "catalog_or_memory eng s = run_map (\<lambda>(r, s'). (Inr (case r of Inr c \<Rightarrow> c | Inl _ \<Rightarrow> ''memory''), s')) (current_catalog eng s)"

type_synonym ('v, 'b, 's, 'x) meta_handler = "(('v, 'b, 's) session, status, 'x) step"

definition query_or_none :: "('v, 'b, 's, 'q) engine \<Rightarrow> nat \<Rightarrow> string \<Rightarrow> ('v, 'b, 's, 'q option) meta_handler" where
  "query_or_none eng now sql s =
     (case execute_query eng now sql s of Panic \<Rightarrow> Ret (Inl panicked, s)
      | Ret (r, s') \<Rightarrow> Ret (Inr (case r of Inr q \<Rightarrow> Some q | Inl _ \<Rightarrow> None), s'))"

definition do_get_catalogs :: "('s, 'q, 'out) meta_front \<Rightarrow> ('v, 'b, 's, 'q) engine \<Rightarrow> nat \<Rightarrow> ('v, 'b, 's, 'out) meta_handler" where
  "do_get_catalogs mf eng now =
     sbind (query_or_none eng now catalogs_query) (\<lambda>q.
     sbind (or_panicked (case q of None \<Rightarrow> Ret [] | Some r \<Rightarrow> concat_runs (map extract_catalog_rows (mf_batches mf r)))) (\<lambda>rows.
     sbind (if rows = [] then sbind (catalog_or_memory eng) (\<lambda>c. sret [c]) else sret rows) (\<lambda>catalogs.
     sbind (result_step (built ''failed to build catalogs batch: '' (mf_catalogs mf (distinct_first {} catalogs)))) (\<lambda>batch.
       result_step (stream_single_batch mf batch)))))"

definition do_get_schemas :: "('s, 'q, 'out) meta_front \<Rightarrow> ('v, 'b, 's, 'q) engine \<Rightarrow> nat \<Rightarrow> ('v, 'b, 's, 'out) meta_handler" where
  "do_get_schemas mf eng now =
     sbind (catalog_or_memory eng) (\<lambda>fallback.
     sbind (blocking (execute_query eng now schemas_query)) (\<lambda>q.
     sbind (or_panicked (concat_runs (map (\<lambda>b. extract_schema_rows b fallback) (mf_batches mf q)))) (\<lambda>rows.
     sbind (result_step (built ''failed to build schemas batch: '' (mf_schemas mf rows))) (\<lambda>batch.
       result_step (stream_single_batch mf batch)))))"

fun all_table_rows ::
    "('v, 'b, 's, 'q) engine \<Rightarrow> 's \<Rightarrow> bool \<Rightarrow> string \<Rightarrow> meta_batch list \<Rightarrow> ('v, 'b, 's, 's table_row list) meta_handler" where
  "all_table_rows eng none include_schema fallback [] = sret []"
| "all_table_rows eng none include_schema fallback (b # bs) =
     sbind (extract_table_rows eng none include_schema fallback b) (\<lambda>rows.
     sbind (all_table_rows eng none include_schema fallback bs) (\<lambda>rest. sret (rows @ rest)))"

definition do_get_tables :: "('s, 'q, 'out) meta_front \<Rightarrow> ('v, 'b, 's, 'q) engine \<Rightarrow> nat \<Rightarrow> bool \<Rightarrow> ('v, 'b, 's, 'out) meta_handler" where
  "do_get_tables mf eng now include_schema =
     sbind (catalog_or_memory eng) (\<lambda>fallback.
     sbind (blocking (execute_query eng now tables_query)) (\<lambda>q.
     sbind (all_table_rows eng (mf_none mf) include_schema fallback (mf_batches mf q)) (\<lambda>rows.
     sthen (result_step (try_ok (built ''failed to append table row: '' (collect (mf_append mf) rows)) (\<lambda>_. Inr ())))
     (sbind (result_step (built ''failed to build tables batch: '' (mf_tables mf rows))) (\<lambda>batch.
       result_step (stream_single_batch mf batch))))))"

definition do_get_table_types :: "('s, 'q, 'out) meta_front \<Rightarrow> status + 'out" where
  "do_get_table_types mf =
     try_ok (built ''failed to build table types batch: '' (mf_types mf [''TABLE'', ''VIEW''])) (stream_single_batch mf)"

text \<open>The keys of tables are not listed: the answers have a schema and no rows.\<close>

definition primary_keys_schema :: "data_type field list" where
  "primary_keys_schema = map (\<lambda>(n, t, b). \<lparr>f_name = n, f_type = t, f_nullable = b\<rparr>)
     [(''catalog_name'', Utf8, True), (''db_schema_name'', Utf8, True), (''table_name'', Utf8, False), (''column_name'', Utf8, False),
      (''key_name'', Utf8, True), (''key_sequence'', Int32, False)]"

definition foreign_keys_schema :: "data_type field list" where
  "foreign_keys_schema = map (\<lambda>(n, t, b). \<lparr>f_name = n, f_type = t, f_nullable = b\<rparr>)
     [(''pk_catalog_name'', Utf8, True), (''pk_db_schema_name'', Utf8, True), (''pk_table_name'', Utf8, False),
      (''pk_column_name'', Utf8, False), (''fk_catalog_name'', Utf8, True), (''fk_db_schema_name'', Utf8, True),
      (''fk_table_name'', Utf8, False), (''fk_column_name'', Utf8, False), (''key_sequence'', Int32, False),
      (''fk_key_name'', Utf8, True), (''pk_key_name'', Utf8, True), (''update_rule'', UInt8, False), (''delete_rule'', UInt8, False)]"

fun empty_array :: "(data_type \<Rightarrow> string) \<Rightarrow> data_type \<Rightarrow> status + arrow_array" where
  "empty_array debug Utf8 = Inr (StringArray [])"
| "empty_array debug Int32 = Inr (Int32Array [])"
| "empty_array debug UInt8 = Inr (UInt8Array [])"
| "empty_array debug other = Inl (mk_status CodeInternal (''unsupported metadata type: '' @ debug other))"

definition empty_batch :: "(data_type \<Rightarrow> string) \<Rightarrow> data_type field list \<Rightarrow> status + meta_batch" where
  "empty_batch debug schema = try_ok (collect (\<lambda>f. empty_array debug (f_type f)) schema)
     (\<lambda>columns. Inr \<lparr>mb_columns = zip (map f_name schema) columns, mb_rows = 0\<rparr>)"

definition do_get_primary_keys :: "('s, 'q, meta_batch) meta_front \<Rightarrow> (data_type \<Rightarrow> string) \<Rightarrow> status + meta_batch" where
  "do_get_primary_keys mf debug = try_ok (empty_batch debug primary_keys_schema) (stream_single_batch mf)"

definition do_get_exported_keys :: "('s, 'q, meta_batch) meta_front \<Rightarrow> (data_type \<Rightarrow> string) \<Rightarrow> status + meta_batch" where
  "do_get_exported_keys mf debug = try_ok (empty_batch debug foreign_keys_schema) (stream_single_batch mf)"

definition do_get_imported_keys :: "('s, 'q, meta_batch) meta_front \<Rightarrow> (data_type \<Rightarrow> string) \<Rightarrow> status + meta_batch" where
  "do_get_imported_keys mf debug = try_ok (empty_batch debug foreign_keys_schema) (stream_single_batch mf)"

definition do_get_cross_reference :: "('s, 'q, meta_batch) meta_front \<Rightarrow> (data_type \<Rightarrow> string) \<Rightarrow> status + meta_batch" where
  "do_get_cross_reference mf debug = try_ok (empty_batch debug foreign_keys_schema) (stream_single_batch mf)"

text \<open>
  The information about any of these commands: the schema of its answer, and a ticket that is the command itself. The schemas of
  the listings are those of Arrow Flight's builders for the command.
\<close>

definition flight_info_with_schema :: "('sc \<Rightarrow> string + unit) \<Rightarrow> 'cmd \<Rightarrow> 'sc \<Rightarrow> status + 'sc \<times> 'cmd" where
  "flight_info_with_schema encode ticket schema =
     (case encode schema of Inl e \<Rightarrow> Inl (schema_failed e) | Inr _ \<Rightarrow> Inr (schema, ticket))"

definition get_flight_info_catalogs :: "('sc \<Rightarrow> string + unit) \<Rightarrow> ('cmd \<Rightarrow> 'sc) \<Rightarrow> 'cmd \<Rightarrow> status + 'sc \<times> 'cmd" where
  "get_flight_info_catalogs encode built_schema query =
     (case encode (built_schema query) of Inl e \<Rightarrow> Inl (schema_failed e) | Inr _ \<Rightarrow> Inr (built_schema query, query))"

definition get_flight_info_schemas :: "('sc \<Rightarrow> string + unit) \<Rightarrow> ('cmd \<Rightarrow> 'sc) \<Rightarrow> 'cmd \<Rightarrow> status + 'sc \<times> 'cmd" where
  "get_flight_info_schemas encode built_schema query =
     (case encode (built_schema query) of Inl e \<Rightarrow> Inl (schema_failed e) | Inr _ \<Rightarrow> Inr (built_schema query, query))"

definition get_flight_info_tables :: "('sc \<Rightarrow> string + unit) \<Rightarrow> ('cmd \<Rightarrow> 'sc) \<Rightarrow> 'cmd \<Rightarrow> status + 'sc \<times> 'cmd" where
  "get_flight_info_tables encode built_schema query =
     (case encode (built_schema query) of Inl e \<Rightarrow> Inl (schema_failed e) | Inr _ \<Rightarrow> Inr (built_schema query, query))"

definition get_flight_info_table_types :: "('sc \<Rightarrow> string + unit) \<Rightarrow> ('cmd \<Rightarrow> 'sc) \<Rightarrow> 'cmd \<Rightarrow> status + 'sc \<times> 'cmd" where
  "get_flight_info_table_types encode built_schema query =
     (case encode (built_schema query) of Inl e \<Rightarrow> Inl (schema_failed e) | Inr _ \<Rightarrow> Inr (built_schema query, query))"

definition get_flight_info_primary_keys :: "(data_type field list \<Rightarrow> string + unit) \<Rightarrow> 'cmd \<Rightarrow> status + data_type field list \<times> 'cmd" where
  "get_flight_info_primary_keys encode query = flight_info_with_schema encode query primary_keys_schema"

definition get_flight_info_exported_keys :: "(data_type field list \<Rightarrow> string + unit) \<Rightarrow> 'cmd \<Rightarrow> status + data_type field list \<times> 'cmd" where
  "get_flight_info_exported_keys encode query = flight_info_with_schema encode query foreign_keys_schema"

definition get_flight_info_imported_keys :: "(data_type field list \<Rightarrow> string + unit) \<Rightarrow> 'cmd \<Rightarrow> status + data_type field list \<times> 'cmd" where
  "get_flight_info_imported_keys encode query = flight_info_with_schema encode query foreign_keys_schema"

definition get_flight_info_cross_reference :: "(data_type field list \<Rightarrow> string + unit) \<Rightarrow> 'cmd \<Rightarrow> status + data_type field list \<times> 'cmd" where
  "get_flight_info_cross_reference encode query = flight_info_with_schema encode query foreign_keys_schema"

definition build_sql_info_data :: "('s, 'q, 'out) meta_front \<Rightarrow> status + (sql_info \<times> sql_info_value) list" where
  "build_sql_info_data mf = try_ok (built ''Failed to build SqlInfo data: '' (mf_info_data mf sql_info_data)) (\<lambda>_. Inr sql_info_data)"

definition do_get_sql_info :: "('s, 'q, 'out) meta_front \<Rightarrow> status + 'out" where
  "do_get_sql_info mf = try_ok (build_sql_info_data mf) (\<lambda>_.
     try_ok (built ''Failed to build SqlInfo response: '' (mf_sql_info mf sql_info_data)) (\<lambda>b.
     try_ok (built ''failed to convert SqlInfo batch to flight data: '' (mf_encode mf b)) (\<lambda>_. Inr b)))"

definition get_flight_info_sql_info ::
    "('s, 'q, 'out) meta_front \<Rightarrow> ('sc \<Rightarrow> string + unit) \<Rightarrow> 'sc \<Rightarrow> 'cmd \<Rightarrow> status + 'sc \<times> 'cmd" where
  "get_flight_info_sql_info mf encode schema query = try_ok (build_sql_info_data mf) (\<lambda>_.
     case encode schema of Inl e \<Rightarrow> Inl (schema_failed e) | Inr _ \<Rightarrow> Inr (schema, query))"

section \<open>Exchange\<close>

definition trim_slash :: "string \<Rightarrow> string" where
  "trim_slash s = (let t = dropWhile (\<lambda>c. c = CHR ''/'') s in rev (dropWhile (\<lambda>c. c = CHR ''/'') (rev t)))"

definition parse_table_path :: "string \<Rightarrow> status + string \<times> string" where
  "parse_table_path path =
     (case split_char (CHR ''/'') (trim_slash path) of
        [table] \<Rightarrow> Inr ([], table) | [schema, table] \<Rightarrow> Inr (schema, table)
      | _ \<Rightarrow> Inl (invalid_argument (''Invalid table path format: '' @ path)))"

text \<open>
  The messages of the upload, up to the first that fails; \<open>decode\<close> are the batches they decode to, those left out that do not
  decode.
\<close>

fun received :: "(string + 'm) list \<Rightarrow> status + 'm list" where
  "received [] = Inr []"
| "received (Inl e # ms) = Inl (mk_status CodeInternal (''Failed to receive data: '' @ e))"
| "received (Inr m # ms) = try_ok (received ms) (\<lambda>xs. Inr (m # xs))"

definition decode_flight_data :: "('m list \<Rightarrow> (string + 'b) list) \<Rightarrow> 'm list \<Rightarrow> 'b list" where
  "decode_flight_data decode data = somes (map (\<lambda>r. case r of Inr b \<Rightarrow> Some b | Inl _ \<Rightarrow> None) (decode data))"

text \<open>The answer is one batch with the count, or nothing when that cannot be encoded.\<close>

definition create_rows_affected_response :: "(meta_batch \<Rightarrow> string + unit) \<Rightarrow> i64 \<Rightarrow> meta_batch list" where
  "create_rows_affected_response encode rows =
     (let b = \<lparr>mb_columns = [(''rows_inserted'', Int64Array [Some rows])], mb_rows = 1\<rparr>
      in case encode b of Inl _ \<Rightarrow> [] | Inr _ \<Rightarrow> [b])"

definition do_exchange_insert ::
    "(meta_batch \<Rightarrow> string + unit) \<Rightarrow> ('v, 'b, 's, 'q) engine \<Rightarrow> nat \<Rightarrow> ('m list \<Rightarrow> (string + 'b) list) \<Rightarrow> string \<Rightarrow>
     (string + 'm) list \<Rightarrow> ('v, 'b, 's, meta_batch list) meta_handler" where
  "do_exchange_insert encode eng now decode path messages =
     sbind (result_step (parse_table_path path)) (\<lambda>(schema, table).
     sbind (result_step (received messages)) (\<lambda>data.
       if data = [] then sfail (invalid_argument ''No data received for insert'')
       else (let batches = decode_flight_data decode data in
         if batches = [] then sret (create_rows_affected_response encode 0)
         else sbind (blocking (insert_with_appender eng now [] (if schema = [] then table else schema @ ''.'' @ table) batches))
           (\<lambda>n. sret (create_rows_affected_response encode (word_of_nat n))))))"

definition do_exchange_delete :: "status + meta_batch list" where
  "do_exchange_delete = Inl (mk_status CodeUnimplemented ''DELETE via DoExchange not yet implemented'')"

definition do_exchange_update :: "status + meta_batch list" where
  "do_exchange_update = Inl (mk_status CodeUnimplemented ''UPDATE via DoExchange not yet implemented'')"

definition exchange_header :: "headers \<Rightarrow> string \<Rightarrow> string" where
  "exchange_header hs name = (case hs name of Some (TextHeader v) \<Rightarrow> v | _ \<Rightarrow> [])"

definition do_exchange ::
    "(meta_batch \<Rightarrow> string + unit) \<Rightarrow> ('v, 'b, 's, 'q) engine \<Rightarrow> nat \<Rightarrow> ('m list \<Rightarrow> (string + 'b) list) \<Rightarrow> headers \<Rightarrow>
     (string + 'm) list \<Rightarrow> ('v, 'b, 's, meta_batch list) meta_handler" where
  "do_exchange encode eng now decode hs messages =
     (let operation = exchange_header hs ''airport-operation''; path = exchange_header hs ''airport-flight-path'' in
      if operation = ''insert'' then do_exchange_insert encode eng now decode path messages
      else if operation = ''delete'' then result_step do_exchange_delete
      else if operation = ''update'' then result_step do_exchange_update
      else sfail (mk_status CodeUnimplemented (''DoExchange operation not supported: '' @ operation)))"

section \<open>Handshake\<close>

text \<open>The protocol version of the first message, if there is one, with an empty payload.\<close>

definition do_handshake :: "('e + nat) option \<Rightarrow> 'e + nat \<times> string" where
  "do_handshake message = (case message of None \<Rightarrow> Inr (0, []) | Some (Inr v) \<Rightarrow> Inr (v, []) | Some (Inl e) \<Rightarrow> Inl e)"

end
