(* ===== verification/Metadata_Properties.thy ===== *)
theory Metadata_Properties
  imports Metadata Actions_Properties
begin

text \<open>
  What the catalog commands ask of the connection: their own queries, and with the schemas of the tables also the tables' names.
\<close>

lemma keeps_answer [keeps_intros]: "keeps I (or_panicked r)"
  by (auto simp: keeps_def or_panicked_def sfail_def sret_def split: run.splits)

context call_invariant
begin

lemma enter_keeps:
  "(\<And>s c. I s \<Longrightarrow> lockdown_call s c \<Longrightarrow> P c) \<Longrightarrow> keeps I (enter eng now sql)"
  unfolding enter_def by (intro keeps_intros admit_keeps lockdown_keeps touch_keeps)

lemma query_keeps:
  "(\<And>s c. I s \<Longrightarrow> lockdown_call s c \<Longrightarrow> P c) \<Longrightarrow> P (CallQuery sql None) \<Longrightarrow> keeps I (execute_query eng now sql)"
  unfolding execute_query_def by (intro keeps_intros enter_keeps asked_keeps)

lemma query_or_none_keeps:
  assumes "keeps I (execute_query eng now sql)"
  shows "keeps I (query_or_none eng now sql)"
proof (rule keepsI)
  fix s r s' assume I: "I s" "query_or_none eng now sql s = Ret (r, s')"
  note k = keepsD [OF assms I(1)]
  from I(2) show "I s'"
    by (cases "execute_query eng now sql s") (use I(1) k in \<open>auto simp: query_or_none_def split: prod.splits\<close>)
qed

lemma catalog_keeps: "P CallCurrentCatalog \<Longrightarrow> keeps I (catalog_or_memory eng)"
  unfolding catalog_or_memory_def current_catalog_def by (intro keeps_map asked_keeps)

lemma schema_keeps:
  assumes "include_schema \<Longrightarrow> P (CallTableSchema name)"
  shows "keeps I (schema_or_empty eng none include_schema name)"
proof (cases include_schema)
  case True
  have "keeps I (\<lambda>s. run_map (\<lambda>(r, s'). (Inr (case r of Inr schema \<Rightarrow> schema | Inl _ \<Rightarrow> none), s')) (table_schema eng name s))"
    unfolding table_schema_def by (intro keeps_map asked_keeps assms True)
  with True show ?thesis by (simp add: schema_or_empty_def keeps_def)
qed (simp add: schema_or_empty_def keeps_def sret_def)

lemma load_keeps:
  "(\<And>ca sc na. include_schema \<Longrightarrow> P (CallTableSchema (qualified_table ca sc na))) \<Longrightarrow> keeps I (load_schemas eng none include_schema rows)"
  by (induction eng none include_schema rows rule: load_schemas.induct) (auto intro!: keeps_intros schema_keeps)

lemma tables_keep:
  assumes "\<And>ca sc na. include_schema \<Longrightarrow> P (CallTableSchema (qualified_table ca sc na))"
  shows "keeps I (all_table_rows eng none include_schema fallback bs)"
proof (induction bs)
  case (Cons b bs)
  have "keeps I (extract_table_rows eng none include_schema fallback b)"
  proof (rule keepsI)
    fix s r s' assume I: "I s" "extract_table_rows eng none include_schema fallback b s = Ret (r, s')"
    have q: "keeps I (load_schemas eng none include_schema rows)" for rows by (rule load_keeps [OF assms])
    note k = keepsD [OF q I(1)]
    from I show "I s'" by (auto simp: extract_table_rows_def sret_def run_simps split: if_splits intro: k)
  qed
  with Cons show ?case by (auto intro!: keeps_intros)
qed (simp add: keeps_ret)

end

text \<open>What a catalog command may ask of the connection.\<close>

definition catalog_call :: "bool \<Rightarrow> ('v, 'b, 's) session \<Rightarrow> ('v, 'b) call \<Rightarrow> bool" where
  "catalog_call include_schema s c \<longleftrightarrow> c \<in> {CallQuery catalogs_query None, CallQuery schemas_query None, CallQuery tables_query None,
      CallCurrentCatalog, CallBatch ''ROLLBACK''} \<or> lockdown_call s c
    \<or> include_schema \<and> (\<exists>ca sc na. c = CallTableSchema (qualified_table ca sc na))"

lemma ran_catalog: "runs_only s (catalog_call b s) s' \<Longrightarrow> adds_only s (catalog_call b s) s'"
  by (auto simp: runs_only_def adds_only_def catalog_call_def)

lemma kept_catalog: "keeps (runs_only s (catalog_call b s)) m \<Longrightarrow>
    case m s of Panic \<Rightarrow> True | Ret (_, t) \<Rightarrow> adds_only s (catalog_call b s) t"
  by (auto intro!: ran_catalog elim!: keepsD intro: only_start(2) split: run.split)

text \<open>
  The catalog commands ask for nothing of the client's but, when the schemas of tables are wanted, the tables' names. All
  they put on the connection are their own constant queries, the question for the current catalog, the schemas of listed
  tables, the session's lockdown and the rollback of an aborted transaction.
\<close>

theorem catalog_commands_ask:
  "(case do_get_catalogs mf eng now s of Panic \<Rightarrow> True | Ret (_, t) \<Rightarrow> adds_only s (catalog_call False s) t)
   \<and> (case do_get_schemas mf eng now s of Panic \<Rightarrow> True | Ret (_, t) \<Rightarrow> adds_only s (catalog_call False s) t)
   \<and> (case do_get_tables mf eng now include_schema s of Panic \<Rightarrow> True | Ret (_, t) \<Rightarrow> adds_only s (catalog_call include_schema s) t)"
proof -
  let ?I = "\<lambda>b. runs_only s (catalog_call b s)"
  have l: "((catalog_call b s c \<or> lockdown_call s c) \<or> c = CallBatch ''ROLLBACK'')" if "?I b t" "lockdown_call t c" for b t c
    using ran_lockdown [OF that] by simp
  have "keeps (?I False) (do_get_catalogs mf eng now)"
    unfolding do_get_catalogs_def by (intro keeps_intros ran.query_or_none_keeps ran.query_keeps ran.catalog_keeps; (erule (1) l | simp add: catalog_call_def))
  moreover have "keeps (?I False) (do_get_schemas mf eng now)"
    unfolding do_get_schemas_def by (intro keeps_intros keeps_blocking ran.query_keeps ran.catalog_keeps; (erule (1) l | simp add: catalog_call_def))
  moreover have "keeps (?I include_schema) (do_get_tables mf eng now include_schema)"
    unfolding do_get_tables_def by (intro keeps_intros keeps_blocking ran.query_keeps ran.catalog_keeps ran.tables_keep; (erule (1) l | force simp: catalog_call_def))
  ultimately show ?thesis
    by (intro conjI kept_catalog)
qed

text \<open>The question about one table, and about all of them.\<close>

lemma asked_prefix: "prefix (xs @ [c]) ys \<Longrightarrow> prefix xs ys \<and> c \<in> set ys"
  by (auto dest: append_prefixD set_mono_prefix)

lemma recovery_asked:
  "\<exists>r s'. with_transaction_recovery eng (ask c f) b s = Ret (r, s') \<and> prefix (log s @ [c]) (log s')"
proof -
  have p: "prefix (log t) (log (recover_from_transaction_abort eng e t))" for e t
    by (auto simp: recover_from_transaction_abort_def Let_def split: sum.split)
  show ?thesis
  proof (cases "f (log s)")
    case (Inl e)
    define t where "t = recover_from_transaction_abort eng e (s\<lparr>log := log s @ [c]\<rparr>)"
    have "prefix (log s @ [c]) (log t)" using p [of "s\<lparr>log := log s @ [c]\<rparr>" e] by (simp add: t_def)
    with Inl show ?thesis
      by (auto simp: with_transaction_recovery_def ask_def Let_def t_def [symmetric])
  qed (simp add: with_transaction_recovery_def ask_def)
qed

lemma schema_asked:
  "\<exists>d s'. schema_or_empty eng none b name s = Ret (Inr d, s') \<and> prefix (log s) (log s')
     \<and> (b \<longrightarrow> CallTableSchema name \<in> set (log s'))"
proof (cases b)
  case True
  obtain r s' where "table_schema eng name s = Ret (r, s')" "prefix (log s @ [CallTableSchema name]) (log s')"
    using recovery_asked [of eng "CallTableSchema name" "\<lambda>l. e_table_schema eng l name" True s] unfolding table_schema_def by auto
  then have "schema_or_empty eng none b name s = Ret (Inr (case r of Inr schema \<Rightarrow> schema | Inl _ \<Rightarrow> none), s')"
      "prefix (log s) (log s')" "CallTableSchema name \<in> set (log s')"
    using True by (auto simp: schema_or_empty_def dest: asked_prefix)
  then show ?thesis by blast
qed (simp add: schema_or_empty_def sret_def)

definition row_heads :: "'s table_row list \<Rightarrow> (string \<times> string \<times> string \<times> string) list" where
  "row_heads rs = map (\<lambda>r. (tr_catalog r, tr_schema r, tr_name r, tr_table_type r)) rs"

lemma load_asked:
  fixes none :: 's
  shows "\<exists>out s'. load_schemas eng none b rows s = Ret (Inr out :: 'e + 's table_row list, s') \<and> row_heads out = rows \<and> prefix (log s) (log s')
     \<and> (b \<longrightarrow> (\<forall>(ca, sc, na, _)\<in>set rows. CallTableSchema (qualified_table ca sc na) \<in> set (log s')))"
proof (induction eng none b rows arbitrary: s rule: load_schemas.induct)
  case (2 eng none b ca sc na ty rows)
  obtain d t where a: "schema_or_empty eng none b (qualified_table ca sc na) s = Ret (Inr d :: 'e + 's, t)" "prefix (log s) (log t)"
      "b \<longrightarrow> CallTableSchema (qualified_table ca sc na) \<in> set (log t)"
    using schema_asked [where eng = eng and none = none and b = b and name = "qualified_table ca sc na" and s = s] by (elim exE conjE) (rule that)
  from "2.IH" [of t] obtain out s' where l: "load_schemas eng none b rows t = Ret (Inr out :: 'e + 's table_row list, s')" "row_heads out = rows"
      "prefix (log t) (log s')" "b \<longrightarrow> (\<forall>(ca, sc, na, _)\<in>set rows. CallTableSchema (qualified_table ca sc na) \<in> set (log s'))"
    by (elim exE conjE) (rule that)
  from a(1) l(1) have "load_schemas eng none b ((ca, sc, na, ty) # rows) s = Ret (Inr (\<lparr>tr_catalog = ca, tr_schema = sc, tr_name = na,
      tr_table_type = ty, tr_schema_def = d\<rparr> # out) :: 'e + 's table_row list, s')"
    by (simp add: sbind_def sret_def)
  moreover have "prefix (log s) (log s')" by (rule prefix_order.trans [OF a(2) l(3)])
  moreover have "row_heads (\<lparr>tr_catalog = ca, tr_schema = sc, tr_name = na, tr_table_type = ty, tr_schema_def = d\<rparr> # out)
      = (ca, sc, na, ty) # rows"
    using l(2) by (simp add: row_heads_def)
  moreover have "b \<longrightarrow> (\<forall>(ca, sc, na, _)\<in>set ((ca, sc, na, ty) # rows). CallTableSchema (qualified_table ca sc na) \<in> set (log s'))"
    using a(3) l(4) set_mono_prefix [OF l(3)] by auto
  ultimately show ?case by (intro exI conjI)
qed (simp add: sret_def row_heads_def)

text \<open>
  A listing of tables with their schemas never fails for one table: every named row of the catalog is listed, in the
  order of the rows, also when its schema cannot be had. The schema of each is asked of the connection under the bare
  concatenation of its catalog, schema and name, whoever the caller is and with no admission of the text.
\<close>

theorem tables_listed_and_asked:
  "case load_schemas eng none b rows s of Ret (Inr out :: 'e + 's table_row list, s') \<Rightarrow> row_heads out = rows
       \<and> (if b then set (map (\<lambda>(ca, sc, na, _). CallTableSchema (ca @ ''.'' @ sc @ ''.'' @ na)) rows) \<subseteq> set (log s') else True)
     | _ \<Rightarrow> False"
proof -
  obtain out s' where "load_schemas eng none b rows s = Ret (Inr out :: 'e + 's table_row list, s')" "row_heads out = rows"
      "b \<longrightarrow> (\<forall>(ca, sc, na, _)\<in>set rows. CallTableSchema (qualified_table ca sc na) \<in> set (log s'))"
    using load_asked [where eng = eng and none = none and b = b and rows = rows and s = s] by (elim exE conjE) (rule that)
  then show ?thesis by (auto simp: qualified_table_def)
qed

text \<open>A table whose name is a statement of its own, which the session's own statements are refused.\<close>

lemma table_name_is_sql:
  "validate_user_sql (Some sample_auth) (''DESC SELECT * FROM '' @ qualified_table ''a'' ''b'' (''t; ATTACH '' @ sql_text ''`x`'' @ '' AS y''))
     = Ret (Inl AttachNotPermitted)"
  by code_simp

text \<open>The guard on the columns of the catalog is one short: three columns with no table type among them end the listing.\<close>

lemma three_columns_panic:
  "extract_table_rows eng none b fallback \<lparr>mb_columns = [(''table_catalog'', StringArray [Some ''c'']),
     (''table_schema'', StringArray [Some ''s'']), (''table_name'', StringArray [Some ''t''])], mb_rows = 1\<rparr> s = Panic"
  by (simp add: extract_table_rows_def table_names_def column_def column_index_def position_def or_index_def)

text \<open>Batches of an upload that do not decode are left out of the rows that are inserted, and of the count.\<close>

lemma undecodable_batches_ignored:
  "do_exchange_insert encode eng now (\<lambda>_. [Inl e, Inr b]) path messages = do_exchange_insert encode eng now (\<lambda>_. [Inr b]) path messages"
  unfolding do_exchange_insert_def decode_flight_data_def by (simp only: list.map sum.case somes.simps)

end
