(* ===== verification/Service.thy ===== *)
theory Service
  imports Metadata_Properties Service_Actions
begin

text \<open>
  The service as a whole: every request passes the gate of \<^verbatim>\<open>service/mod.rs\<close>, which gives it the session it is handled on, as the
  handlers of \<^verbatim>\<open>service/handlers\<close> do. What holds of each handler on one session is lifted to all sessions of the registry,
  whatever requests of whatever callers come in whatever order.
\<close>

section \<open>Requests\<close>

text \<open>Requests that work on a session, with what their bodies and headers decode to.\<close>

datatype ('a, 'ty, 'm) rpc =
    SqlCommand "('a, 'ty) request"
  | GetCatalogs
  | GetDbSchemas
  | GetTables bool
  | DoExchange headers "(string + 'm) list"
  | ActionExecute "nat set" nat headers string
  | ActionExecuteGuarded "nat set" nat headers string
  | ActionCancel "nat set" string
  | ActionExecuteSql string
  | ActionCreateTransaction
  | ActionCreateSchema string
  | ActionCreateTable create_table_parameters "data_type field list"
  | ActionListSchemas string
  | ActionAttach "(string \<times> bool) option"

text \<open>What the service relies on; each session, known by its nonce, has a connection of its own.\<close>

record ('v, 'a, 'ty, 'q, 'out, 'm) service_env =
  sv_front :: "('v, 'a, 'ty) front"
  sv_engine :: "string \<Rightarrow> ('v, 'a, 'ty, 'q) backend"
  sv_meta :: "('ty field list, 'q, 'out) meta_front"
  sv_codecs :: action_codecs
  sv_listing :: "'q listing"
  sv_table_info :: "data_type field list \<Rightarrow> string + unit"
  sv_generation :: string
  sv_resolve :: "string \<Rightarrow> string \<Rightarrow> string \<Rightarrow> duckvis_error + resolved_attachment option"
  sv_encode :: "meta_batch \<Rightarrow> string + unit"
  sv_decode :: "'m list \<Rightarrow> (string + ('a, 'ty) batch) list"

fun serve_rpc ::
    "('v, 'a, 'ty, 'q, 'out, 'm) service_env \<Rightarrow> string \<Rightarrow> nat \<Rightarrow> ('a, 'ty, 'm) rpc \<Rightarrow> ('v, 'a, 'ty) client \<Rightarrow> ('v, 'a, 'ty) client run" where
  "serve_rpc sv nonce now (SqlCommand rq) = serve (sv_front sv) (sv_engine sv nonce) rq"
| "serve_rpc sv nonce now GetCatalogs = state_after (do_get_catalogs (sv_meta sv) (sv_engine sv nonce) now)"
| "serve_rpc sv nonce now GetDbSchemas = state_after (do_get_schemas (sv_meta sv) (sv_engine sv nonce) now)"
| "serve_rpc sv nonce now (GetTables include_schema) = state_after (do_get_tables (sv_meta sv) (sv_engine sv nonce) now include_schema)"
| "serve_rpc sv nonce now (DoExchange hs messages) =
     state_after (do_exchange (sv_encode sv) (sv_engine sv nonce) now (sv_decode sv) hs messages)"
| "serve_rpc sv nonce now (ActionExecute live rq hs body) =
     state_after (do_action_execute (sv_codecs sv) (sv_engine sv nonce) now (sv_generation sv) live rq hs body)"
| "serve_rpc sv nonce now (ActionExecuteGuarded live rq hs body) =
     state_after (do_action_execute_guarded (sv_codecs sv) (sv_engine sv nonce) now (sv_generation sv) live rq hs body)"
| "serve_rpc sv nonce now (ActionCancel live body) = state_after (do_action_cancel_execution (sv_codecs sv) live body)"
| "serve_rpc sv nonce now (ActionExecuteSql sql) = state_after (do_action_execute_sql (sv_engine sv nonce) now sql)"
| "serve_rpc sv nonce now ActionCreateTransaction = state_after (do_action_create_transaction (sv_engine sv nonce) now)"
| "serve_rpc sv nonce now (ActionCreateSchema schema) = state_after (do_action_create_schema (sv_engine sv nonce) now schema)"
| "serve_rpc sv nonce now (ActionCreateTable p schema) =
     state_after (do_action_create_table (sv_table_info sv) (sv_engine sv nonce) now p schema)"
| "serve_rpc sv nonce now (ActionListSchemas catalog) =
     state_after (do_action_list_schemas (sv_listing sv) (sv_engine sv nonce) now catalog)"
| "serve_rpc sv nonce now (ActionAttach body) =
     state_after (do_action_duckvis_attach (ac_uuid (sv_codecs sv)) (sv_resolve sv) (sv_engine sv nonce) now body)"

text \<open>The commands that need no session beyond the gate: constant answers, and the information about the answers of commands.\<close>

datatype static_command = SqlInfoCommand | TableTypesCommand | PrimaryKeysCommand | ExportedKeysCommand | ImportedKeysCommand | CrossReferenceCommand

fun serve_static :: "('s, 'q, meta_batch) meta_front \<Rightarrow> (data_type \<Rightarrow> string) \<Rightarrow> static_command \<Rightarrow> status + meta_batch" where
  "serve_static mf debug SqlInfoCommand = do_get_sql_info mf"
| "serve_static mf debug TableTypesCommand = do_get_table_types mf"
| "serve_static mf debug PrimaryKeysCommand = do_get_primary_keys mf debug"
| "serve_static mf debug ExportedKeysCommand = do_get_exported_keys mf debug"
| "serve_static mf debug ImportedKeysCommand = do_get_imported_keys mf debug"
| "serve_static mf debug CrossReferenceCommand = do_get_cross_reference mf debug"

datatype info_command = CatalogsInfo | SchemasInfo | TablesInfo | StaticInfo static_command

fun serve_info ::
    "('s, 'q, meta_batch) meta_front \<Rightarrow> (data_type field list \<Rightarrow> string + unit) \<Rightarrow> ('cmd \<Rightarrow> data_type field list) \<Rightarrow> info_command \<Rightarrow> 'cmd \<Rightarrow>
     status + data_type field list \<times> 'cmd" where
  "serve_info mf encode built_schema CatalogsInfo = get_flight_info_catalogs encode built_schema"
| "serve_info mf encode built_schema SchemasInfo = get_flight_info_schemas encode built_schema"
| "serve_info mf encode built_schema TablesInfo = get_flight_info_tables encode built_schema"
| "serve_info mf encode built_schema (StaticInfo SqlInfoCommand) = (\<lambda>query. get_flight_info_sql_info mf encode (built_schema query) query)"
| "serve_info mf encode built_schema (StaticInfo TableTypesCommand) = get_flight_info_table_types encode built_schema"
| "serve_info mf encode built_schema (StaticInfo PrimaryKeysCommand) = get_flight_info_primary_keys encode"
| "serve_info mf encode built_schema (StaticInfo ExportedKeysCommand) = get_flight_info_exported_keys encode"
| "serve_info mf encode built_schema (StaticInfo ImportedKeysCommand) = get_flight_info_imported_keys encode"
| "serve_info mf encode built_schema (StaticInfo CrossReferenceCommand) = get_flight_info_cross_reference encode"

text \<open>
  A request: the gate gives it a session or refuses it; what the handler leaves of the session stays registered. A handler that
  panics answers nobody; its session keeps the state it had.
\<close>

definition handle_rpc ::
    "bool \<Rightarrow> ('v, 'a, 'ty, 'q, 'out, 'm) service_env \<Rightarrow> ('v, ('a, 'ty) batch, 'ty field list) gate_env \<Rightarrow> session_id_mode \<Rightarrow> string \<Rightarrow>
     rpc_request \<Rightarrow> ('a, 'ty, 'm) rpc \<Rightarrow> ('v, ('a, 'ty) batch, 'ty field list) registry \<Rightarrow> ('v, ('a, 'ty) batch, 'ty field list) registry" where
  "handle_rpc duckvis sv ge mode uuid rq rpc r =
     (case prepare_request duckvis ge mode uuid rq r of
        (Inl st, r') \<Rightarrow> r'
      | (Inr e, r') \<Rightarrow>
          (case serve_rpc sv (en_nonce e) (g_now ge) rpc (en_session e) of
             Panic \<Rightarrow> r'
           | Ret s \<Rightarrow> registry_step r' (Touched (extract_session_id mode uuid rq) s)))"

section \<open>One session\<close>

lemma lockdown_admitted: "lockdown_call s c \<Longrightarrow> admitted_call auth c"
  by (auto simp: lockdown_call_def)

interpretation orderly: attach_invariant "orderly auth" "admitted_call auth" for auth
  by unfold_locales (auto simp: orderly_log)

lemma query_orderly [keeps_intros]: "keeps (orderly auth) (execute_query eng now sql)"
  unfolding execute_query_def
  by (rule keeps_then_value [OF enter_orderly]) (intro keeps_intros; auto dest: enter_passes)

lemma telemetry_orderly [keeps_intros]: "keeps (orderly auth) (execute_statement_with_telemetry eng now sql ex)"
  unfolding execute_statement_with_telemetry_def
  by (rule keeps_then_value [OF enter_orderly]) (intro keeps_intros; auto dest: enter_passes)

lemma register_orderly [keeps_intros]: "keeps (orderly auth) (register_request ac live rq hs)"
  by (auto simp: keeps_def register_request_def of_session_def run_map_def run_simps register_execution_def Let_def sret_def sfail_def
      orderly_def split: option.splits header_value.splits if_splits)

lemma catalogs_orderly:
  "keeps (orderly auth) (do_get_catalogs mf eng now)"
  "keeps (orderly auth) (do_get_schemas mf eng now)"
  "keeps (orderly auth) (do_get_tables mf eng now include_schema)"
  subgoal unfolding do_get_catalogs_def by (intro keeps_intros orderly.query_or_none_keeps orderly.catalog_keeps; simp)
  subgoal unfolding do_get_schemas_def by (intro keeps_intros orderly.catalog_keeps; simp)
  subgoal unfolding do_get_tables_def by (intro keeps_intros orderly.catalog_keeps orderly.tables_keep; simp)
  done

lemma exchange_orderly: "keeps (orderly auth) (do_exchange encode eng now decode hs messages)"
  unfolding do_exchange_def do_exchange_insert_def Let_def by (intro keeps_intros)

lemma execute_orderly: "keeps (orderly auth) (do_action_execute ac eng now generation live rq hs body)"
  unfolding do_action_execute_def by (intro keeps_intros)

lemma guarded_orderly: "keeps (orderly auth) (do_action_execute_guarded ac eng now generation live rq hs body)"
  unfolding do_action_execute_guarded_def by (rule keeps_map [OF execute_orderly])

lemma cancel_orderly: "keeps (orderly auth) (do_action_cancel_execution ac live body)"
  by (auto simp: keeps_def do_action_cancel_execution_def sret_def sfail_def)

lemma sql_actions_orderly:
  "keeps (orderly auth) (do_action_execute_sql eng now sql)"
  "keeps (orderly auth) (do_action_create_transaction eng now)"
  "keeps (orderly auth) (do_action_create_schema eng now schema)"
  "keeps (orderly auth) (do_action_create_table info eng now p cols)"
  unfolding do_action_execute_sql_def do_action_create_transaction_def do_action_create_schema_def do_action_create_table_def
  by (intro keeps_intros)+

lemma list_tables_orderly: "keeps (orderly auth) (list_tables li eng now catalog schemas)"
proof (induction li eng now catalog schemas rule: list_tables.induct)
  case (2 li eng now catalog schema schemas)
  have "keeps (orderly auth) (\<lambda>s. run_map (\<lambda>rows. (Inr rows, s)) (li_rows li q))" for q
    by (auto simp: keeps_def run_map_def run_simps)
  with 2 show ?case unfolding list_tables.simps by (intro keeps_intros)
qed (simp add: keeps_ret)

lemma list_orderly: "keeps (orderly auth) (do_action_list_schemas li eng now catalog)"
  unfolding do_action_list_schemas_def by (intro keeps_intros list_tables_orderly)

lemma attach_orderly: "keeps (orderly auth) (do_action_duckvis_attach uuid resolve eng now body)"
proof (rule keepsI)
  fix s r s' assume s: "orderly auth s" and run: "do_action_duckvis_attach uuid resolve eng now body s = Ret (r, s')"
  have k: "keeps (orderly auth) (sthen (blocking (attach_catalog eng now ca secrets sql path)) (sthen (of_session clear_schema_cache) (sret x)))"
    for ca secrets sql path and x :: "string \<times> string"
    by (intro keeps_intros orderly.attach_keeps) simp_all
  from run show "orderly auth s'" by (cases rule: attach_action_parts) (use s in \<open>auto dest: keepsD [OF k]\<close>)
qed

lemmas rpcs_orderly = serve_orderly catalogs_orderly [THEN keeps_state_after] exchange_orderly [THEN keeps_state_after]
  execute_orderly [THEN keeps_state_after] guarded_orderly [THEN keeps_state_after] cancel_orderly [THEN keeps_state_after]
  sql_actions_orderly [THEN keeps_state_after] list_orderly [THEN keeps_state_after] attach_orderly [THEN keeps_state_after]

lemma serve_rpc_orderly: "orderly auth s \<Longrightarrow> serve_rpc sv nonce now rpc s = Ret s' \<Longrightarrow> orderly auth s'"
  by (cases rpc) (auto dest: rpcs_orderly)

section \<open>All sessions\<close>

text \<open>Every registered session's calls were admitted for the user it is bound to.\<close>

definition sessions_orderly :: "('v, 'b, 's) registry \<Rightarrow> bool" where
  "sessions_orderly r \<longleftrightarrow> (\<forall>(sid, e)\<in>set (sessions r). orderly (s_auth (en_session e)) (en_session e))"

lemma orderly_of: "sessions_orderly r \<Longrightarrow> get_by_id sid r = Some e \<Longrightarrow> orderly (s_auth (en_session e)) (en_session e)"
  by (auto simp: sessions_orderly_def get_by_id_def dest: map_of_SomeD)

lemma new_orderly: "orderly (s_auth (en_session (new_entry t auth n now))) (en_session (new_entry t auth n now))"
  by (simp add: new_entry_def new_session_def orderly_def)

lemma created:
  assumes "get_or_create_by_id_with_auth sid auth conn nonce now r = (res, r')"
  shows "sessions_orderly r \<Longrightarrow> sessions_orderly r'"
    and "sid' \<noteq> sid \<Longrightarrow> get_by_id sid' r' = get_by_id sid' r"
    and "res = Inr e \<Longrightarrow> get_by_id sid r' = Some e"
    and "res = Inl x \<Longrightarrow> r' = r"
    and "res = Inr e \<Longrightarrow> s_auth (en_session e) \<noteq> auth \<Longrightarrow> r' = r"
  using assms new_orderly [of "template r" auth nonce now]
  by (auto simp: get_or_create_by_id_with_auth_def sessions_orderly_def get_by_id_def Let_def new_entry_def new_session_def
      split: option.splits if_splits sum.splits)

text \<open>What the gate leaves of the registry, and of what other requests made of it in between.\<close>

lemma bound_registry:
  assumes "bind_session ge sid claims project r = (res, r')"
  shows "r' = r \<and> (\<exists>e. res = Inl e) \<or> (\<exists>conn nonce now auth res'. get_or_create_by_id_with_auth sid (Some auth) conn nonce now (g_others ge r) = (res', r')
      \<and> (case res of Inr e \<Rightarrow> res' = Inr e | Inl _ \<Rightarrow> r' = g_others ge r))"
proof (cases "project = None \<or> (\<exists>p e. project = Some p \<and> (g_view ge (cl_sub claims) p \<in> {Inl e, Inr False} \<or> writer_capability ge (cl_sub claims) p = Inl e))")
  case True
  with assms show ?thesis by (auto simp: bind_session_def split: sum.splits bool.splits)
next
  case False
  then obtain p where p: "project = Some p" by auto
  with False obtain w where w: "writer_capability ge (cl_sub claims) p = Inr w"
    by (cases "writer_capability ge (cl_sub claims) p") auto
  from False p have v: "g_view ge (cl_sub claims) p = Inr True"
    by (cases "g_view ge (cl_sub claims) p") auto
  let ?a = "\<lparr>subject = cl_sub claims, project_id = p, writer = w\<rparr>"
  obtain res' r'' where g: "get_or_create_by_id_with_auth sid (Some ?a) (g_connection ge) (g_nonce ge) (g_now ge) (g_others ge r) = (res', r'')"
    by fastforce
  with assms p v w have "r'' = r'" "case res of Inr e \<Rightarrow> res' = Inr e | Inl _ \<Rightarrow> r' = g_others ge r"
    using created(4,5) [OF g]
    by (auto simp: bind_session_def Let_def split: sum.splits if_splits)
  with g show ?thesis by blast
qed

lemma gate_registry:
  assumes "prepare_request_duckvis ge rq sid r = (res, r')"
  shows "case res of Inl _ \<Rightarrow> r' \<in> {r, g_others ge r}
    | Inr e \<Rightarrow> get_by_id sid r' = Some e \<and> (sid' = sid \<or> get_by_id sid' r' \<in> {get_by_id sid' r, get_by_id sid' (g_others ge r)})"
    and "sessions_orderly r \<Longrightarrow> sessions_orderly (g_others ge r) \<Longrightarrow> sessions_orderly r'"
proof -
  consider e where "res = Inl e" "r' = r" | e where "res = Inr e" "r' = r" "get_by_id sid r = Some e"
    | claims where "bind_session ge sid claims (duckvis_project_header rq) r = (res, r')"
  proof (cases "\<exists>bearer claims. bearer_token rq = Some bearer \<and> g_validate ge bearer = Inr claims")
    case False
    with assms have "r' = r \<and> (\<exists>e. res = Inl e)"
      by (cases "bearer_token rq") (auto simp: prepare_request_duckvis_def split: sum.splits)
    then show ?thesis using that(1) by blast
  next
    case True
    then obtain bearer claims where b: "bearer_token rq = Some bearer" "g_validate ge bearer = Inr claims" by blast
    show ?thesis
    proof (cases "get_by_id sid r")
      case (Some x)
      with assms b have c: "res = check_existing claims (duckvis_project_header rq) x" "r' = r" by (auto simp: prepare_request_duckvis_def)
      show ?thesis
      proof (cases res)
        case (Inr e)
        with c check_existing_ok [of claims "duckvis_project_header rq" x e] Some that(2) show ?thesis by simp
      qed (use c(2) that(1) in blast)
    next
      case None
      with assms b that(1,3) show ?thesis
        by (cases "rq_headers rq ''x-expected-session-nonce''") (auto simp: prepare_request_duckvis_def)
    qed
  qed
  then have both: "(case res of Inl _ \<Rightarrow> r' \<in> {r, g_others ge r}
      | Inr e \<Rightarrow> get_by_id sid r' = Some e \<and> (sid' = sid \<or> get_by_id sid' r' \<in> {get_by_id sid' r, get_by_id sid' (g_others ge r)}))
    \<and> (sessions_orderly r \<longrightarrow> sessions_orderly (g_others ge r) \<longrightarrow> sessions_orderly r')"
  proof cases
    case (3 claims)
    from bound_registry [OF 3] show ?thesis
      by (elim disjE exE conjE) (auto split: sum.splits dest: created)
  qed auto
  then show "case res of Inl _ \<Rightarrow> r' \<in> {r, g_others ge r}
    | Inr e \<Rightarrow> get_by_id sid r' = Some e \<and> (sid' = sid \<or> get_by_id sid' r' \<in> {get_by_id sid' r, get_by_id sid' (g_others ge r)})"
    and "sessions_orderly r \<Longrightarrow> sessions_orderly (g_others ge r) \<Longrightarrow> sessions_orderly r'" by blast+
qed

lemma event_orderly:
  assumes "sessions_orderly r" "\<forall>sid s. ev \<noteq> Touched sid s"
  shows "sessions_orderly (registry_step r ev)"
proof (cases ev)
  case (Connected rid nonce now)
  have "sessions_orderly (register_session rid sid auth nonce now r)" for sid auth
    using assms(1) new_orderly [of "template r" auth nonce now]
    by (auto simp: register_session_def sessions_orderly_def Let_def split: option.split)
  with Connected assms(1) show ?thesis by (auto split: option.split phase.split)
qed (use assms in \<open>auto simp: sessions_orderly_def start_request_def acquire_permit_def connection_failed_def remove_session_def
    cleanup_idle_sessions_def Let_def split: option.splits phase.splits if_splits\<close>)

lemma touched_orderly: "sessions_orderly r \<Longrightarrow> orderly (s_auth s) s \<Longrightarrow> sessions_orderly (registry_step r (Touched sid s))"
  by (auto simp: sessions_orderly_def touch_entry_def)

lemma touched_lookup:
  "get_by_id sid' (registry_step r (Touched sid s)) =
     (if sid' = sid then map_option (\<lambda>e. e\<lparr>en_session := s\<rparr>) (get_by_id sid' r) else get_by_id sid' r)"
proof -
  have "map_of (touch_entry sid s xs) sid' = (if sid' = sid then map_option (\<lambda>e. e\<lparr>en_session := s\<rparr>) (map_of xs sid') else map_of xs sid')" for xs
    by (induction xs) (auto simp: touch_entry_def)
  then show ?thesis by (simp add: get_by_id_def)
qed

text \<open>
  What the registry of a service can become: requests are handled, other requests may get ahead while one is bound
  (\<open>g_others\<close>, which is what they make of the registry), and sessions are created, removed and cleaned up.
\<close>

inductive service_reach ::
    "bool \<Rightarrow> ('v, 'a, 'ty, 'q, 'out, 'm) service_env \<Rightarrow> ('v, ('a, 'ty) batch, 'ty field list) registry \<Rightarrow> bool" for duckvis sv where
  service_new: "service_reach duckvis sv (registry_new limit timeout tmpl)"
| service_rpc: "service_reach duckvis sv r \<Longrightarrow> service_reach duckvis sv (g_others ge r) \<Longrightarrow>
    service_reach duckvis sv (handle_rpc duckvis sv ge mode uuid rq rpc r)"
| service_event: "service_reach duckvis sv r \<Longrightarrow> \<forall>sid s. ev \<noteq> Touched sid s \<Longrightarrow> service_reach duckvis sv (registry_step r ev)"

lemma service_prepared_orderly:
  assumes "prepare_request duckvis ge mode uuid rq r = (res, r')" "sessions_orderly r" "sessions_orderly (g_others ge r)"
  shows "sessions_orderly r'" "res = Inr e \<Longrightarrow> get_by_id (extract_session_id mode uuid rq) r' = Some e"
proof -
  let ?sid = "extract_session_id mode uuid rq"
  have "sessions_orderly r' \<and> (\<forall>e. res = Inr e \<longrightarrow> get_by_id ?sid r' = Some e)"
  proof (cases duckvis)
    case True
    with assms(1) obtain res' where g: "prepare_request_duckvis ge rq ?sid r = (res', r')" "res = try_ok res' (check_nonce rq)"
      by (cases "prepare_request_duckvis ge rq ?sid r") (auto simp: prepare_request_def Let_def)
    with gate_registry [OF g(1)] assms(2,3) show ?thesis by (auto simp: try_ok_Inr_iff dest!: check_nonce_same)
  next
    case False
    obtain res' r'' where g: "get_or_create_by_id_with_auth ?sid None (g_connection ge) (g_nonce ge) (g_now ge) r = (res', r'')" by fastforce
    with False assms(1) have "r'' = r'" "\<forall>e. res = Inr e \<longrightarrow> res' = Inr e"
      by (auto simp: prepare_request_def get_or_create_by_id_def Let_def try_ok_Inr_iff split: sum.splits dest!: check_nonce_same)
    with created(1,3) [OF g] assms(2) show ?thesis by auto
  qed
  then show "sessions_orderly r'" "res = Inr e \<Longrightarrow> get_by_id ?sid r' = Some e" by simp_all
qed

lemma handle_orderly:
  assumes "sessions_orderly r" "sessions_orderly (g_others ge r)"
  shows "sessions_orderly (handle_rpc duckvis sv ge mode uuid rq rpc r)"
proof -
  obtain res r' where p: "prepare_request duckvis ge mode uuid rq r = (res, r')" by fastforce
  note o = service_prepared_orderly [OF p assms]
  show ?thesis
  proof (cases res)
    case (Inr e)
    have e: "orderly (s_auth (en_session e)) (en_session e)" by (rule orderly_of [OF o(1) o(2) [OF Inr]])
    show ?thesis
    proof (cases "serve_rpc sv (en_nonce e) (g_now ge) rpc (en_session e)")
      case (Ret s)
      from serve_rpc_orderly [OF e Ret] have "orderly (s_auth s) s" by (simp add: orderly_def)
      with p Inr Ret o(1) show ?thesis by (simp add: handle_rpc_def touched_orderly del: registry_step.simps)
    qed (use p Inr o(1) in \<open>simp add: handle_rpc_def\<close>)
  qed (use p o(1) in \<open>simp add: handle_rpc_def\<close>)
qed

lemma reach_orderly: "service_reach duckvis sv r \<Longrightarrow> sessions_orderly r"
proof (induction rule: service_reach.induct)
  case (service_new limit timeout tmpl)
  show ?case by (simp add: sessions_orderly_def registry_new_def Let_def)
qed (simp_all add: handle_orderly event_orderly del: registry_step.simps)


lemma nonce_creates_nothing:
  "rq_headers rq ''x-expected-session-nonce'' = Some n \<Longrightarrow> prepare_request_duckvis ge rq sid r = (res, r') \<Longrightarrow> r' = r"
  by (auto simp: prepare_request_duckvis_def split: option.splits sum.splits)

text \<open>
  C2: In duckvis mode a session serves its owner only. If a request makes a session other than it was, both before the request and
  after what other requests did meanwhile, then it is the session the request names, and the request came with a
  valid token of the user the session is bound to, for the project it is bound to if it named one; the binding itself never changes.
\<close>

theorem session_serves_its_owner:
  assumes "service_reach True sv r" "service_reach True sv (g_others ge r)"
    and "get_by_id sid (handle_rpc True sv ge mode uuid rq rpc r) = Some e"
    and "get_by_id sid r \<noteq> Some e" "get_by_id sid (g_others ge r) \<noteq> Some e"
  shows "sid = extract_session_id mode uuid rq \<and> (\<exists>bearer claims a r' e0. bearer_token rq = Some bearer
    \<and> g_validate ge bearer = Inr claims \<and> s_auth (en_session e) = Some a \<and> subject a = cl_sub claims
    \<and> (case duckvis_project_header rq of Some p \<Rightarrow> project_id a = p | None \<Rightarrow> True)
    \<and> prepare_request True ge mode uuid rq r = (Inr e0, r') \<and> s_auth (en_session e0) = Some a \<and> en_nonce e = en_nonce e0)"
proof -
  let ?sid = "extract_session_id mode uuid rq"
  note o = reach_orderly [OF assms(1)] reach_orderly [OF assms(2)]
  obtain res r' where g: "prepare_request_duckvis ge rq ?sid r = (res, r')" by fastforce
  then have p: "prepare_request True ge mode uuid rq r = (try_ok res (check_nonce rq), r')" by (simp add: prepare_request_def)
  have other: "get_by_id sid r' \<noteq> Some e" if "\<nexists>x. res = Inr x \<and> check_nonce rq x = Inr x"
  proof (cases res)
    case (Inl st)
    with gate_registry(1) [OF g] assms(4,5) show ?thesis by auto
  next
    case (Inr x)
    with that obtain n where "rq_headers rq ''x-expected-session-nonce'' = Some n"
      by (cases "rq_headers rq ''x-expected-session-nonce''") (auto simp: check_nonce_def)
    from nonce_creates_nothing [OF this g] assms(4) show ?thesis by simp
  qed
  show ?thesis
  proof (cases "\<exists>x. res = Inr x \<and> check_nonce rq x = Inr x")
    case False
    then have "\<exists>st. try_ok res (check_nonce rq) = Inl st"
      by (cases res) (auto dest: check_nonce_same simp: check_nonce_def split: option.splits if_splits)
    with p assms(3) other [OF False] show ?thesis by (auto simp: handle_rpc_def)
  next
    case True
    then obtain x where x: "res = Inr x" "check_nonce rq x = Inr x" by blast
    have reg: "sid = ?sid \<or> get_by_id sid r' \<in> {get_by_id sid r, get_by_id sid (g_others ge r)}" and own: "get_by_id ?sid r' = Some x"
      using gate_registry(1) [OF g, where sid' = sid] x(1) by auto
    obtain s where s: "get_by_id sid (registry_step r' (Touched ?sid s)) = Some e \<and> s_auth s = s_auth (en_session x)
        \<or> get_by_id sid r' = Some e"
    proof (cases "serve_rpc sv (en_nonce x) (g_now ge) rpc (en_session x)")
      case (Ret s)
      have "s_auth s = s_auth (en_session x)"
        using serve_rpc_orderly [OF orderly_of [OF gate_registry(2) [OF g o] own] Ret] by (simp add: orderly_def)
      with Ret p x assms(3) that [of s] show ?thesis by (simp add: handle_rpc_def del: registry_step.simps)
    qed (use p x assms(3) that in \<open>auto simp: handle_rpc_def\<close>)
    have sid: "sid = ?sid" using s reg assms(4,5) by (auto simp: touched_lookup simp del: registry_step.simps split: if_splits)
    have e: "s_auth (en_session e) = s_auth (en_session x)" "en_nonce e = en_nonce x"
      using s own sid by (auto simp: touched_lookup simp del: registry_step.simps)
    from gate_duckvis_ok [OF g [unfolded x(1)]] e sid p x show ?thesis by auto
  qed
qed

text \<open>A service with the connection of the samples, and a user's first statement on a new session.\<close>

definition sample_service :: "(nat, nat list, nat, nat, unit, unit) service_env" where
  "sample_service = \<lparr>sv_front = sample_front, sv_engine = (\<lambda>_. sample_backend),
     sv_meta = \<lparr>mf_batches = (\<lambda>_. []), mf_none = [], mf_catalogs = (\<lambda>_. Inr ()), mf_schemas = (\<lambda>_. Inr ()), mf_append = (\<lambda>_. Inr ()),
       mf_tables = (\<lambda>_. Inr ()), mf_types = (\<lambda>_. Inr ()), mf_info_data = (\<lambda>_. Inr ()), mf_sql_info = (\<lambda>_. Inr ()), mf_encode = (\<lambda>_. Inr ())\<rparr>,
     sv_codecs = sample_codecs,
     sv_listing = \<lparr>li_names = (\<lambda>_. Inr []), li_rows = (\<lambda>_. Ret []), li_tables = (\<lambda>_. []), li_info = (\<lambda>_. Inr ())\<rparr>,
     sv_table_info = (\<lambda>_. Inr ()), sv_generation = ''g'', sv_resolve = (\<lambda>_ _ _. Inr None), sv_encode = (\<lambda>_. Inr ()), sv_decode = (\<lambda>_. [])\<rparr>"

definition service_gate :: "(nat, (nat list, nat) batch, nat field list) gate_env" where
  "service_gate = \<lparr>g_validate = (\<lambda>t. if t = ''tok'' then Inr \<lparr>cl_sub = ''u'', cl_actor = Human\<rparr> else Inl Unauthenticated),
     g_view = (\<lambda>s p. Inr (p = ''p'')), g_mutate = (\<lambda>s p. Inr True), g_read_only = True,
     g_others = (\<lambda>r. r), g_connection = Inr (), g_nonce = ''n1'', g_now = 0\<rparr>"

abbreviation empty_service :: "(nat, (nat list, nat) batch, nat field list) registry" where
  "empty_service \<equiv> registry_new (Some 1) None sample_template"

definition served_session :: "(nat, nat list, nat) client" where
  "served_session = locked_client\<lparr>last_activity := 0, log := log locked_client @ [CallStatement User query_text]\<rparr>"

abbreviation first_rpc where
  "first_rpc \<equiv> handle_rpc True sample_service service_gate PeerIp ''x'' sample_request (ActionExecuteSql query_text)"

lemma first_statement:
  "serve_rpc sample_service ''n1'' 0 (ActionExecuteSql query_text) sample_client = Ret served_session"
proof -
  have "\<not> should_invalidate_schema_cache query_text" unfolding query_text_def by code_simp
  then show ?thesis
    using query_passes sample_locks
    by (simp add: sample_service_def state_after_def do_action_execute_sql_def blocking_def of_session_def execute_statement_def admit_def
        sthen_def sbind_def client_fields run_map_def execute_statement_inner_def touch_def smodify_def sret_def invalidating_def
        with_transaction_recovery_def ask_def served_session_def)
qed

lemma service_prepared:
  "prepare_request True service_gate PeerIp ''x'' sample_request empty_service
    = (Inr \<lparr>en_nonce = ''n1'', en_session = sample_client\<rparr>,
       empty_service\<lparr>sessions := [(''a'', \<lparr>en_nonce = ''n1'', en_session = sample_client\<rparr>)], permits := 0\<rparr>)"
proof -
  have "bind_session service_gate ''a'' \<lparr>cl_sub = ''u'', cl_actor = Human\<rparr> (Some ''p'') empty_service
      = (Inr \<lparr>en_nonce = ''n1'', en_session = sample_client\<rparr>,
         empty_service\<lparr>sessions := [(''a'', \<lparr>en_nonce = ''n1'', en_session = sample_client\<rparr>)], permits := 0\<rparr>)"
    by (simp add: bind_session_def service_gate_def registry_new_def get_by_id_def writer_capability_def get_or_create_by_id_with_auth_def
        new_entry_def sample_auth_def sample_client_def new_session_def Let_def)
  moreover have "g_validate service_gate ''tok'' = Inr \<lparr>cl_sub = ''u'', cl_actor = Human\<rparr>" "get_by_id ''a'' empty_service = None"
    by (simp_all add: service_gate_def registry_new_def get_by_id_def Let_def)
  ultimately show ?thesis
    by (simp add: prepare_request_def prepare_request_duckvis_def sample_request_facts check_nonce_def Let_def)
qed

lemma first_handled: "get_by_id ''a'' (first_rpc empty_service) = Some \<lparr>en_nonce = ''n1'', en_session = served_session\<rparr>"
proof -
  have "g_now service_gate = 0" by (simp add: service_gate_def)
  with first_statement show ?thesis
    unfolding handle_rpc_def service_prepared by (simp add: sample_request_facts get_by_id_def touch_entry_def del: serve_rpc.simps)
qed

lemma first_reached: "service_reach True sample_service empty_service" "service_reach True sample_service (first_rpc empty_service)"
proof -
  show s: "service_reach True sample_service empty_service" by (rule service_new)
  have "g_others service_gate empty_service = empty_service" by (simp add: service_gate_def)
  with s show "service_reach True sample_service (first_rpc empty_service)" by (intro service_rpc) simp_all
qed


lemma session_serves_its_owner_witness:
  "\<exists>bearer claims a. bearer_token sample_request = Some bearer \<and> g_validate service_gate bearer = Inr claims
    \<and> s_auth served_session = Some a \<and> subject a = cl_sub claims"
proof -
  have "g_others service_gate empty_service = empty_service" "get_by_id ''a'' empty_service = None"
    by (simp_all add: service_gate_def registry_new_def get_by_id_def Let_def)
  with session_serves_its_owner [OF first_reached(1) _ first_handled] first_reached(1) show ?thesis by auto
qed

end
