(* ===== verification/Admission_Limits.thy ===== *)
theory Admission_Limits
  imports Sql_Admission
begin

text \<open>
  Where the admission of \<open>Session::validate_user_sql\<close> ends: texts whose statements DuckDB reads otherwise than the routines
  of \<^verbatim>\<open>duckvis/attach.rs\<close>, each evaluated on the model. They complement the guarantees of Sql_Admission, which
  speak of the statements the splitter finds and of those that start with a letter.
\<close>

definition guest :: session_auth where
  "guest = \<lparr>subject = ''u'', project_id = ''p'', writer = False\<rparr>"

definition tick :: string where
  "tick = [CHR 0x27]"

lemmas limit_defs = guest_def tick_def

text \<open>
  A statement that starts with a parenthesis has no leading keyword and is not looked at: the same query is refused without
  the parentheses.
\<close>

lemma parenthesized_call_admitted:
  "validate_user_sql (Some guest) (''SELECT * FROM postgres_query('' @ tick @ ''host=x'' @ tick @ '')'') \<noteq> Ret (Inr ())
    \<and> validate_user_sql (Some guest) (''(SELECT * FROM postgres_query('' @ tick @ ''host=x'' @ tick @ ''))'') = Ret (Inr ())"
  by (simp only: limit_defs) code_simp

text \<open>
  The splitter knows neither dollar quotes nor the backslash of an escape string. A single quote inside either opens a
  string that runs over the next semicolon, and the statement behind it is not seen.
\<close>

lemma dollar_quote_hides_attach:
  "validate_user_sql (Some guest) (''SELECT $$'' @ tick @ ''$$; ATTACH '' @ tick @ ''x'' @ tick @ ''; --'' @ tick) = Ret (Inr ())"
  by (simp only: limit_defs) code_simp

lemma escape_string_hides_attach:
  "validate_user_sql (Some guest) (''SELECT E'' @ tick @ [CHR 0x5C] @ tick @ tick @ ''; ATTACH '' @ tick @ ''x'' @ tick @ ''; --'' @ tick)
    = Ret (Inr ())"
  by (simp only: limit_defs) code_simp

text \<open>A statement whose first character is a letter beyond ASCII makes the slice of the keyword panic.\<close>

lemma foreign_letter_panics:
  "validate_user_sql (Some guest) [CHR 0xC3, CHR 0xA9] = Panic"
  by (simp only: limit_defs) code_simp

end
