(* ===== verification/Telemetry.thy ===== *)
theory Telemetry
  imports Flight_Stream Ids
begin

text \<open>
  What is measured while a query runs. \<^verbatim>\<open>engine/resource_tracker.rs\<close>: the sampler thread and its shutdown, as a machine of
  the atomic steps of the sampler, of the readers and of the thread that drops the tracker, in any order.
  \<^verbatim>\<open>engine/progress.rs\<close>: reading a query's progress through the interrupt handle. \<^verbatim>\<open>engine/kernel_telemetry.rs\<close>: the
  telemetry functions of a native extension, as a log of calls into it.

  The atomics are read and written with \<open>Relaxed\<close> ordering; the model interleaves the accesses of one memory, which is
  among the behaviours that ordering allows. CPU time is a real number; the rounding of its product is a parameter.
\<close>

section \<open>The resource tracker\<close>

text \<open>
  Where the sampler is: before the memory query, between its two stores, before the CPU reading, before \<open>wait\<close>, inside
  \<open>wait_timeout\<close> (with whether it was notified), after the loop.
\<close>

datatype sampler = Memory | Peak nat | Cpu | AtWait | Waiting bool | Exited

text \<open>Where the owner is: using the tracker, in \<open>signal\<close> after the flag was set, in \<open>join\<close>, after \<open>drop\<close>.\<close>

datatype tracker_owner = Holding | Flagged | Joining | Dropped

record tracker =
  rt_peak :: nat
  rt_current :: nat
  rt_cpu :: nat
  rt_stopped :: bool
  rt_warned :: bool
  rt_sampler :: "sampler option"
  rt_owner :: tracker_owner

definition tracker_start :: tracker where
  "tracker_start = \<lparr>rt_peak = 0, rt_current = 0, rt_cpu = 0, rt_stopped = False, rt_warned = False,
     rt_sampler = Some Memory, rt_owner = Holding\<rparr>"

definition tracker_disabled :: tracker where
  "tracker_disabled = \<lparr>rt_peak = 0, rt_current = 0, rt_cpu = 0, rt_stopped = True, rt_warned = False,
     rt_sampler = None, rt_owner = Holding\<rparr>"

text \<open>The answer of the memory query is an error or an \<open>i64\<close>; the CPU reading is \<open>None\<close> for a null connection.\<close>

datatype tracker_event =
    MemoryQueried "string + int"
  | PeakStored
  | CpuRead "real option"
  | StopChecked
  | Woken
  | TimedOut
  | FlagSet
  | Notified
  | SamplerJoined

definition sample_memory :: "string + int \<Rightarrow> tracker \<Rightarrow> tracker" where
  "sample_memory answer t =
     (case answer of
        Inr memory \<Rightarrow>
          if 0 \<le> memory
          then t\<lparr>rt_current := nat memory, rt_warned := False, rt_sampler := Some (Peak (nat memory))\<rparr>
          else t\<lparr>rt_warned := False, rt_sampler := Some Cpu\<rparr>
      | Inl e \<Rightarrow> t\<lparr>rt_warned := True, rt_sampler := Some Cpu\<rparr>)"

text \<open>\<open>as u64\<close> on a \<open>f64\<close> truncates and saturates.\<close>

definition micros :: "(real \<Rightarrow> real) \<Rightarrow> real \<Rightarrow> nat" where
  "micros rnd seconds = min (2 ^ 64 - 1) (nat \<lfloor>rnd (seconds * 1000000)\<rfloor>)"

definition sample_cpu :: "(real \<Rightarrow> real) \<Rightarrow> real option \<Rightarrow> tracker \<Rightarrow> tracker" where
  "sample_cpu rnd reading t =
     (case reading of
        Some seconds \<Rightarrow> if 0 < seconds then t\<lparr>rt_cpu := micros rnd seconds\<rparr> else t
      | None \<Rightarrow> t)\<lparr>rt_sampler := Some AtWait\<rparr>"

text \<open>\<open>Stop::wait\<close>: under its lock it returns at once when stopped and otherwise begins to wait.\<close>

definition stop_wait :: "tracker \<Rightarrow> tracker" where
  "stop_wait t = t\<lparr>rt_sampler := Some (if rt_stopped t then Exited else Waiting False)\<rparr>"

text \<open>The end of \<open>wait_timeout\<close>, by a notification, a spurious wake-up or the period.\<close>

definition wait_over :: "tracker \<Rightarrow> tracker" where
  "wait_over t = t\<lparr>rt_sampler := Some (if rt_stopped t then Exited else Memory)\<rparr>"

definition notify_all :: "tracker \<Rightarrow> tracker" where
  "notify_all t = t\<lparr>rt_owner := Joining,
     rt_sampler := (case rt_sampler t of Some (Waiting b) \<Rightarrow> Some (Waiting True) | p \<Rightarrow> p)\<rparr>"

fun tracker_step :: "(real \<Rightarrow> real) \<Rightarrow> tracker_event \<Rightarrow> tracker \<Rightarrow> tracker option" where
  "tracker_step rnd (MemoryQueried a) t = (if rt_sampler t = Some Memory then Some (sample_memory a t) else None)"
| "tracker_step rnd PeakStored t =
     (case rt_sampler t of
        Some (Peak m) \<Rightarrow> Some (t\<lparr>rt_peak := max (rt_peak t) m, rt_sampler := Some Cpu\<rparr>)
      | _ \<Rightarrow> None)"
| "tracker_step rnd (CpuRead r) t = (if rt_sampler t = Some Cpu then Some (sample_cpu rnd r t) else None)"
| "tracker_step rnd StopChecked t = (if rt_sampler t = Some AtWait then Some (stop_wait t) else None)"
| "tracker_step rnd Woken t = (if rt_sampler t = Some (Waiting True) then Some (wait_over t) else None)"
| "tracker_step rnd TimedOut t = (if rt_sampler t = Some (Waiting False) then Some (wait_over t) else None)"
| "tracker_step rnd FlagSet t = (if rt_owner t = Holding then Some (t\<lparr>rt_stopped := True, rt_owner := Flagged\<rparr>) else None)"
| "tracker_step rnd Notified t = (if rt_owner t = Flagged then Some (notify_all t) else None)"
| "tracker_step rnd SamplerJoined t =
     (if rt_owner t = Joining \<and> rt_sampler t \<in> {None, Some Exited} then Some (t\<lparr>rt_owner := Dropped\<rparr>) else None)"

fun tracker_run :: "(real \<Rightarrow> real) \<Rightarrow> tracker_event list \<Rightarrow> tracker \<Rightarrow> tracker option" where
  "tracker_run rnd [] t = Some t"
| "tracker_run rnd (e # es) t = Option.bind (tracker_step rnd e t) (tracker_run rnd es)"

text \<open>\<open>snapshot\<close> loads the three atomics one after the other, from the states of three moments.\<close>

definition snapshot_over :: "tracker \<Rightarrow> tracker \<Rightarrow> tracker \<Rightarrow> resource_snapshot" where
  "snapshot_over t u v =
     \<lparr>peak_memory_bytes = rt_peak t, current_memory_bytes = rt_current u, cpu_time_us = rt_cpu v\<rparr>"

lemmas tracker_defs = sample_memory_def sample_cpu_def stop_wait_def wait_over_def notify_all_def

lemma tracker_run_append:
  "tracker_run rnd (es @ es') t = Option.bind (tracker_run rnd es t) (tracker_run rnd es')"
  by (induction es arbitrary: t) (auto split: Option.bind_splits)

lemma tracker_run_snoc:
  "tracker_run rnd (es @ [e]) t = Some u \<longleftrightarrow> (\<exists>s. tracker_run rnd es t = Some s \<and> tracker_step rnd e s = Some u)"
  by (auto simp: tracker_run_append bind_eq_Some_conv)

section \<open>Shutting down\<close>

text \<open>
  No wake-up is lost: the flag is checked and the wait begun under one lock, so a sampler found waiting once the notification
  is out was notified. The flag is set exactly from the owner's drop on.
\<close>

definition stop_heard :: "tracker \<Rightarrow> bool" where
  "stop_heard t \<longleftrightarrow>
     (rt_owner t \<noteq> Holding \<longrightarrow> rt_stopped t)
     \<and> (rt_owner t \<in> {Joining, Dropped} \<longrightarrow> rt_sampler t \<noteq> Some (Waiting False))"

lemma notified_waiting: "rt_sampler (notify_all t) \<noteq> Some (Waiting False)"
  by (auto simp: notify_all_def split: option.splits sampler.splits)

lemma stop_heard_step: "tracker_step rnd e t = Some u \<Longrightarrow> stop_heard t \<Longrightarrow> stop_heard u"
  by (cases "(rnd, e, t)" rule: tracker_step.cases)
    (use notified_waiting [of t] in \<open>auto simp: stop_heard_def notify_all_def sample_memory_def sample_cpu_def stop_wait_def
      wait_over_def split: if_splits sum.splits option.splits sampler.splits\<close>)

lemma stop_heard_run: "tracker_run rnd es t = Some u \<Longrightarrow> stop_heard t \<Longrightarrow> stop_heard u"
  by (induction es arbitrary: t) (auto simp: bind_eq_Some_conv dest: stop_heard_step)

text \<open>How many steps are left once the notification is out.\<close>

fun steps_left :: "sampler option \<Rightarrow> nat" where
  "steps_left (Some Memory) = 4"
| "steps_left (Some (Peak m)) = 3"
| "steps_left (Some Cpu) = 2"
| "steps_left (Some AtWait) = 1"
| "steps_left (Some (Waiting b)) = 1"
| "steps_left _ = 0"

fun owed :: "tracker \<Rightarrow> nat" where
  "owed t = steps_left (rt_sampler t) + (if rt_owner t = Joining then 1 else 0)"

fun queries_memory :: "tracker_event \<Rightarrow> bool" where
  "queries_memory (MemoryQueried a) = True"
| "queries_memory _ = False"

lemma joining_step:
  assumes "tracker_step rnd e t = Some u" "stop_heard t" "rt_owner t \<in> {Joining, Dropped}"
  shows "owed u < owed t" "rt_owner u \<in> {Joining, Dropped}" "e \<noteq> TimedOut"
    "queries_memory e \<Longrightarrow> rt_sampler t = Some Memory" "rt_sampler u \<noteq> Some Memory"
  using assms
  by (cases "(rnd, e, t)" rule: tracker_step.cases;
      auto simp: stop_heard_def tracker_defs split: if_splits sum.splits option.splits sampler.splits)+

text \<open>Every state that is not yet dropped can take a step that is no time-out.\<close>

definition next_event :: "tracker \<Rightarrow> tracker_event" where
  "next_event t =
     (case rt_sampler t of
        Some Memory \<Rightarrow> MemoryQueried (Inr 0) | Some (Peak m) \<Rightarrow> PeakStored | Some Cpu \<Rightarrow> CpuRead None
      | Some AtWait \<Rightarrow> StopChecked | Some (Waiting b) \<Rightarrow> Woken | _ \<Rightarrow> SamplerJoined)"

lemma joining_progress:
  assumes "stop_heard t" "rt_owner t = Joining"
  shows "\<exists>u. tracker_step rnd (next_event t) t = Some u"
  using assms by (auto simp: next_event_def stop_heard_def split: option.split sampler.split)

lemma joining_run:
  assumes "tracker_run rnd es t = Some u" "stop_heard t" "rt_owner t \<in> {Joining, Dropped}"
  shows "length es + owed u \<le> owed t \<and> TimedOut \<notin> set es
    \<and> length (filter queries_memory es) \<le> (if rt_sampler t = Some Memory then 1 else 0)"
  using assms
proof (induction es arbitrary: t)
  case (Cons e es)
  from Cons.prems(1) obtain s where s: "tracker_step rnd e t = Some s" "tracker_run rnd es s = Some u"
    by (auto simp: bind_eq_Some_conv)
  note j = joining_step [OF s(1) Cons.prems(2,3)]
  with Cons.IH [OF s(2) stop_heard_step [OF s(1) Cons.prems(2)]] show ?case by auto
qed simp

lemma joining_ends:
  assumes "stop_heard t" "rt_owner t = Joining"
  shows "\<exists>es u. tracker_run rnd es t = Some u \<and> rt_owner u = Dropped"
  using assms
proof (induction "owed t" arbitrary: t rule: less_induct)
  case less
  from joining_progress [OF less.prems] obtain s where s: "tracker_step rnd (next_event t) t = Some s" by blast
  have j: "owed s < owed t" "rt_owner s \<in> {Joining, Dropped}" "stop_heard s"
    using joining_step [OF s less.prems(1)] less.prems(2) stop_heard_step [OF s less.prems(1)] by auto
  show ?case
  proof (cases "rt_owner s = Dropped")
    case True
    with s show ?thesis by (intro exI [of _ "[next_event t]"] exI [of _ s]) simp
  next
    case False
    with j less.hyps [OF j(1)] obtain es u where "tracker_run rnd es s = Some u" "rt_owner u = Dropped" by auto
    with s show ?thesis by (intro exI [of _ "next_event t # es"] exI [of _ u]) simp
  qed
qed

text \<open>
  C20: Dropping a resource tracker ends the sampler promptly, with no wake-up lost. From the moment \<open>signal\<close> has
  returned, whatever the sampler was doing, the sampler and \<open>join\<close> together take at most five more steps, at most one of
  them a query of DuckDB's memory, and never the end of a sampling period: the sampler does not wait out the rest of its
  100 ms. And they are never stuck: \<open>drop\<close> returns. A tracker without a sampler has only the \<open>join\<close> to skip.
\<close>

theorem tracker_shutdown_prompt:
  assumes "tracker_run rnd es t = Some u" "t = tracker_start \<or> t = tracker_disabled" "rt_owner u = Joining"
  shows "(\<forall>es' v. tracker_run rnd es' u = Some v \<longrightarrow>
        length es' \<le> 5 \<and> length (filter queries_memory es') \<le> 1 \<and> TimedOut \<notin> set es')
    \<and> (\<exists>es' v. tracker_run rnd es' u = Some v \<and> rt_owner v = Dropped)"
proof (intro conjI allI impI)
  have h: "stop_heard u"
    by (rule stop_heard_run [OF assms(1)]) (use assms(2) in \<open>auto simp: stop_heard_def tracker_start_def tracker_disabled_def\<close>)
  have o: "owed u \<le> 5" by (cases "rt_sampler u" rule: steps_left.cases) auto
  from joining_ends [OF h assms(3)] show "\<exists>es' v. tracker_run rnd es' u = Some v \<and> rt_owner v = Dropped" .
  fix es' v assume "tracker_run rnd es' u = Some v"
  from joining_run [OF this h] assms(3) o
  show "length es' \<le> 5" "length (filter queries_memory es') \<le> 1" "TimedOut \<notin> set es'" by (auto split: if_splits)
qed

section \<open>What is sampled\<close>

text \<open>The usable answers of a run and what the counters hold of them.\<close>

fun memory_sample :: "tracker_event \<Rightarrow> nat option" where
  "memory_sample (MemoryQueried (Inr m)) = (if 0 \<le> m then Some (nat m) else None)"
| "memory_sample _ = None"

fun cpu_sample :: "(real \<Rightarrow> real) \<Rightarrow> tracker_event \<Rightarrow> nat option" where
  "cpu_sample rnd (CpuRead (Some s)) = (if 0 < s then Some (micros rnd s) else None)"
| "cpu_sample rnd _ = None"

definition memory_samples :: "tracker_event list \<Rightarrow> nat list" where
  "memory_samples es = somes (map memory_sample es)"

definition cpu_samples :: "(real \<Rightarrow> real) \<Rightarrow> tracker_event list \<Rightarrow> nat list" where
  "cpu_samples rnd es = somes (map (cpu_sample rnd) es)"

lemma samples_snoc:
  "memory_samples (es @ [e]) = memory_samples es @ (case memory_sample e of Some m \<Rightarrow> [m] | None \<Rightarrow> [])"
  "cpu_samples rnd (es @ [e]) = cpu_samples rnd es @ (case cpu_sample rnd e of Some m \<Rightarrow> [m] | None \<Rightarrow> [])"
  by (simp_all add: memory_samples_def cpu_samples_def somes_append split: option.split)

definition peak_of :: "nat list \<Rightarrow> nat" where
  "peak_of ms = foldl max 0 ms"

lemma peak_of_simps [simp]: "peak_of [] = 0" "peak_of [m] = m" "peak_of (ms @ [m]) = max (peak_of ms) m"
  by (simp_all add: peak_of_def)

lemma peak_of_upper: "m \<in> set ms \<Longrightarrow> m \<le> peak_of ms"
  by (induction ms rule: rev_induct) auto

lemma peak_of_append: "peak_of ms \<le> peak_of (ms @ ns)"
  by (induction ns rule: rev_induct) (auto simp flip: append_assoc)

text \<open>The sample whose maximum is not stored yet.\<close>

fun unstored :: "sampler option \<Rightarrow> nat" where
  "unstored (Some (Peak m)) = m"
| "unstored _ = 0"

definition counts :: "(real \<Rightarrow> real) \<Rightarrow> tracker_event list \<Rightarrow> tracker \<Rightarrow> bool" where
  "counts rnd es t \<longleftrightarrow>
     rt_current t = last (0 # memory_samples es)
     \<and> max (rt_peak t) (unstored (rt_sampler t)) = peak_of (memory_samples es)
     \<and> rt_cpu t = last (0 # cpu_samples rnd es)"

lemma counts_step: "tracker_step rnd e t = Some u \<Longrightarrow> counts rnd es t \<Longrightarrow> counts rnd (es @ [e]) u"
  by (cases "(rnd, e, t)" rule: tracker_step.cases)
    (auto simp: counts_def samples_snoc tracker_defs split: if_splits sum.splits option.splits sampler.splits)

lemma counts_run:
  assumes "tracker_run rnd es t = Some u" "t = tracker_start \<or> t = tracker_disabled"
  shows "counts rnd es u"
  using assms(1)
proof (induction es arbitrary: u rule: rev_induct)
  case Nil
  with assms(2) show ?case
    by (auto simp: counts_def memory_samples_def cpu_samples_def tracker_start_def tracker_disabled_def)
next
  case (snoc e es)
  then show ?case by (auto simp: tracker_run_snoc intro: counts_step)
qed

lemma memory_samples_append: "memory_samples (es @ es') = memory_samples es @ memory_samples es'"
  by (simp add: memory_samples_def)

lemma peak_holds_current:
  assumes "tracker_run rnd es t = Some u" "t = tracker_start \<or> t = tracker_disabled"
  shows "rt_sampler u = Some (Peak m) \<Longrightarrow> rt_current u = m"
  using assms(1)
proof (induction es arbitrary: u m rule: rev_induct)
  case Nil
  with assms(2) show ?case by (auto simp: tracker_start_def tracker_disabled_def)
next
  case (snoc e es)
  then obtain s where s: "tracker_run rnd es t = Some s" "tracker_step rnd e s = Some u" by (auto simp: tracker_run_snoc)
  show ?case
    using s(2) snoc.prems(1) snoc.IH [OF _ s(1)]
    by (cases "(rnd, e, s)" rule: tracker_step.cases)
      (auto simp: tracker_defs split: if_splits sum.splits option.splits sampler.splits)
qed

lemma unstored_cases: "unstored p = 0 \<or> p = Some (Peak (unstored p))"
  by (cases p rule: unstored.cases) auto

text \<open>
  What a snapshot reports was sampled. A tracker's counters hold the last memory sample, the largest memory sample
  and the last CPU sample taken so far, errors and negative answers left out. \<open>snapshot\<close> reads them at three moments: its
  peak is never above the largest sample of the time it was read and below it only between the sampler's two stores, its
  current usage is the last sample at its own moment, and the current usage does not exceed the peak unless memory was
  being sampled meanwhile.
\<close>

theorem snapshot_was_sampled:
  assumes "tracker_run rnd es t0 = Some t" "t0 = tracker_start \<or> t0 = tracker_disabled"
    and "tracker_run rnd es' t = Some u" "tracker_run rnd es'' u = Some v"
  defines "s \<equiv> snapshot_over t u v"
  shows "peak_memory_bytes s \<le> peak_of (memory_samples es)
    \<and> (peak_memory_bytes s < peak_of (memory_samples es) \<longrightarrow> rt_sampler t = Some (Peak (current_memory_bytes (snapshot_over t t t))))
    \<and> current_memory_bytes s = last (0 # memory_samples (es @ es'))
    \<and> cpu_time_us s = last (0 # cpu_samples rnd (es @ es' @ es''))
    \<and> (memory_samples es' = [] \<and> unstored (rt_sampler t) = 0 \<longrightarrow> current_memory_bytes s \<le> peak_memory_bytes s)"
proof -
  have r: "tracker_run rnd (es @ es') t0 = Some u" "tracker_run rnd (es @ es' @ es'') t0 = Some v"
    using assms(1,3,4) by (simp_all add: tracker_run_append)
  note c = counts_run [OF assms(1,2)] counts_run [OF r(1) assms(2)] counts_run [OF r(2) assms(2)]
  have p: "unstored (rt_sampler t) = 0 \<or> rt_sampler t = Some (Peak (rt_current t))"
    using unstored_cases [of "rt_sampler t"] peak_holds_current [OF assms(1,2)] by auto
  have m: "last (0 # memory_samples es) \<le> peak_of (memory_samples es)"
    by (simp add: peak_of_upper)
  show ?thesis
    using c p m by (auto simp: s_def snapshot_over_def counts_def memory_samples_append)
qed

text \<open>
  The three loads are no single moment: a reader that loads the peak just before the sampler's first store and the current
  usage just after it reports a current usage above the peak.
\<close>

lemma torn_snapshot:
  "\<exists>t u. tracker_run id [] tracker_start = Some t \<and> tracker_run id [MemoryQueried (Inr 7)] t = Some u
    \<and> peak_memory_bytes (snapshot_over t u u) < current_memory_bytes (snapshot_over t u u)"
  by (simp add: tracker_start_def sample_memory_def snapshot_over_def)

definition sampled_run :: "tracker_event list" where
  "sampled_run = [MemoryQueried (Inr 7), PeakStored, CpuRead None, StopChecked, FlagSet, Notified]"

definition sampled_end :: tracker where
  "sampled_end = tracker_start\<lparr>rt_peak := 7, rt_current := 7, rt_stopped := True, rt_sampler := Some (Waiting True), rt_owner := Joining\<rparr>"

lemma sampled_run: "tracker_run id sampled_run tracker_start = Some sampled_end"
  by (simp add: sampled_run_def sampled_end_def tracker_start_def tracker_defs)

theorem tracker_shutdown_prompt_witness:
  "\<exists>es v. tracker_run id es sampled_end = Some v \<and> rt_owner v = Dropped"
  using tracker_shutdown_prompt [OF sampled_run] by (simp add: sampled_end_def)

theorem snapshot_was_sampled_witness:
  "current_memory_bytes (snapshot_over sampled_end sampled_end sampled_end) = 7
    \<and> peak_memory_bytes (snapshot_over sampled_end sampled_end sampled_end) \<le> 7"
  using snapshot_was_sampled [OF sampled_run, of "[]" sampled_end "[]" sampled_end]
  by (simp add: sampled_run_def memory_samples_def)

section \<open>Query progress\<close>

text \<open>
  The interrupt handle holds the native connection behind a mutex; a closed connection is a null pointer. What
  \<open>duckdb_query_progress\<close> answers is a parameter.
\<close>

record 'c interrupt_handle =
  ih_poisoned :: bool
  ih_conn :: "'c option"

record query_progress =
  qp_percentage :: real
  qp_rows_processed :: nat
  qp_total_rows :: nat

definition query_progress :: "('c \<Rightarrow> query_progress) \<Rightarrow> 'c interrupt_handle \<Rightarrow> query_progress option" where
  "query_progress duckdb_query_progress handle =
     (if ih_poisoned handle then None
      else case ih_conn handle of
        None \<Rightarrow> None
      | Some conn \<Rightarrow>
          let progress = duckdb_query_progress conn in
          if qp_percentage progress < 0 then None
          else Some \<lparr>qp_percentage = qp_percentage progress, qp_rows_processed = qp_rows_processed progress,
            qp_total_rows = qp_total_rows progress\<rparr>)"

text \<open>One poll of the response stream over a handle and a tracker.\<close>

definition poll_of ::
    "('c \<Rightarrow> query_progress) \<Rightarrow> 'c interrupt_handle \<Rightarrow> resource_snapshot \<Rightarrow> ('s, 'b) channel_poll \<Rightarrow> bool \<Rightarrow> ('s, 'b) poll" where
  "poll_of duckdb_query_progress handle snapshot channel tick =
     \<lparr>p_channel = channel, p_tick = tick, p_percentage = map_option qp_percentage (query_progress duckdb_query_progress handle),
      p_snapshot = snapshot\<rparr>"

section \<open>Kernel telemetry\<close>

text \<open>
  The extension's three functions, loaded from the shared library, as functions of the calls made so far. A C string is
  the bytes before the first NUL; \<open>CString::new\<close> refuses a text with one. A read answers a pointer and the bytes behind it,
  or null.
\<close>

datatype kernel_call =
    SetContext nat "string option" u64
  | ReadUpdates u64 string "nat option"
  | FreeString nat

record kernel_library =
  kl_load :: "string \<Rightarrow> string + unit"
  kl_open :: "string \<Rightarrow> string + unit"
  kl_symbol :: "string \<Rightarrow> string + unit"
  kl_set_context :: "kernel_call list \<Rightarrow> nat \<Rightarrow> string option \<Rightarrow> u64"
  kl_read :: "kernel_call list \<Rightarrow> u64 \<Rightarrow> string \<Rightarrow> (nat \<times> string) option"

type_synonym 'a kernel_step = "(kernel_call list, server_error, 'a) step"

definition raw :: "nat interrupt_handle \<Rightarrow> nat kernel_step" where
  "raw handle =
     (if ih_poisoned handle then sfail (InternalError ''interrupt handle poisoned'')
      else sret (case ih_conn handle of None \<Rightarrow> 0 | Some conn \<Rightarrow> conn))"

definition cstring :: "string \<Rightarrow> string \<Rightarrow> string kernel_step" where
  "cstring complaint s = (if CHR 0x00 \<in> set s then sfail (InternalError complaint) else sret s)"

definition set_context :: "kernel_library \<Rightarrow> nat \<Rightarrow> string option \<Rightarrow> u64 kernel_step" where
  "set_context lib conn text l =
     (let scope = kl_set_context lib l conn text in sret scope (l @ [SetContext conn text scope]))"

definition abi_error :: "string \<Rightarrow> server_error" where
  "abi_error e = InternalError (''external_kernel lacks telemetry ABI v1: '' @ e)"

definition lib_result :: "(string \<Rightarrow> server_error) \<Rightarrow> string + unit \<Rightarrow> unit kernel_step" where
  "lib_result to_error r = (case r of Inl e \<Rightarrow> sfail (to_error e) | Inr _ \<Rightarrow> sret ())"

text \<open>\<open>KernelTelemetry::load\<close> answers the scope the later calls use.\<close>

definition telemetry_load :: "kernel_library \<Rightarrow> nat interrupt_handle \<Rightarrow> string \<Rightarrow> u64 kernel_step" where
  "telemetry_load lib handle path =
     sthen (lib_result DuckDb (kl_load lib (''LOAD '' @ [CHR 0x27] @ replace_char (CHR 0x27) [CHR 0x27, CHR 0x27] path @ [CHR 0x27])))
    (sthen (lib_result (\<lambda>e. InternalError (''load kernel telemetry: '' @ e)) (kl_open lib path))
    (sthen (lib_result abi_error (kl_symbol lib ''external_kernel_set_context''))
    (sthen (lib_result abi_error (kl_symbol lib ''external_kernel_read_updates''))
    (sthen (lib_result abi_error (kl_symbol lib ''external_kernel_free_string''))
    (sbind (raw handle) (\<lambda>conn.
     sbind (set_context lib conn None) (\<lambda>scope.
     if scope = 0 then sfail (InternalError ''kernel telemetry scope unavailable'') else sret scope)))))))"

definition telemetry_set :: "kernel_library \<Rightarrow> u64 \<Rightarrow> nat interrupt_handle \<Rightarrow> string option \<Rightarrow> unit kernel_step" where
  "telemetry_set lib scope handle context =
     sbind (cstring ''invalid execution context'' (case context of None \<Rightarrow> [] | Some c \<Rightarrow> c)) (\<lambda>text.
     sbind (raw handle) (\<lambda>conn.
     sbind (set_context lib conn (Some text)) (\<lambda>answered.
     if answered \<noteq> scope then sfail (InternalError ''kernel telemetry scope changed'') else sret ())))"

definition telemetry_read :: "kernel_library \<Rightarrow> u64 \<Rightarrow> string \<Rightarrow> string kernel_step" where
  "telemetry_read lib scope request =
     sbind (cstring ''invalid telemetry request'' request) (\<lambda>request l.
       case kl_read lib l scope request of
         None \<Rightarrow> sfail (InternalError ''kernel telemetry unavailable'') (l @ [ReadUpdates scope request None])
       | Some (ptr, result) \<Rightarrow> sret result (l @ [ReadUpdates scope request (Some ptr), FreeString ptr]))"

text \<open>\<open>Session::kernel_updates\<close>, for a connection with or without an extension.\<close>

definition kernel_updates :: "kernel_library \<Rightarrow> u64 option \<Rightarrow> string \<Rightarrow> string kernel_step" where \<open>
  kernel_updates lib telemetry request =
     (case telemetry of
        Some scope \<Rightarrow> telemetry_read lib scope request
      | None \<Rightarrow> sret ''{"version":1,"unsupported":true}'')\<close>

text \<open>The requests of a session to its extension; one that fails leaves the next ones to run.\<close>

datatype kernel_request = SetRequest "string option" | ReadRequest string

fun kernel_serve :: "kernel_library \<Rightarrow> u64 \<Rightarrow> nat interrupt_handle \<Rightarrow> kernel_request list \<Rightarrow> kernel_call list \<Rightarrow> kernel_call list run" where
  "kernel_serve lib scope handle [] l = Ret l"
| "kernel_serve lib scope handle (SetRequest c # rs) l =
     rbind (telemetry_set lib scope handle c l) (\<lambda>(_, l'). kernel_serve lib scope handle rs l')"
| "kernel_serve lib scope handle (ReadRequest q # rs) l =
     rbind (telemetry_read lib scope q l) (\<lambda>(_, l'). kernel_serve lib scope handle rs l')"

text \<open>Every string handed out is freed by the next call, and nothing else is.\<close>

fun released :: "kernel_call list \<Rightarrow> bool" where
  "released [] = True"
| "released (SetContext c t s # l) = released l"
| "released (ReadUpdates s r None # l) = released l"
| "released (ReadUpdates s r (Some p) # FreeString q # l) = (p = q \<and> released l)"
| "released _ = False"

definition in_scope :: "u64 \<Rightarrow> kernel_call \<Rightarrow> bool" where
  "in_scope scope c =
     (case c of ReadUpdates s r p \<Rightarrow> s = scope \<and> CHR 0x00 \<notin> set r
      | SetContext conn t s \<Rightarrow> (case t of None \<Rightarrow> True | Some x \<Rightarrow> CHR 0x00 \<notin> set x)
      | FreeString p \<Rightarrow> True)"

definition tidy :: "u64 \<Rightarrow> kernel_call list \<Rightarrow> bool" where
  "tidy scope l \<longleftrightarrow> released l \<and> list_all (in_scope scope) l"

lemma released_append: "released l \<Longrightarrow> released (l @ l') = released l'"
  by (induction l rule: released.induct) auto

lemmas kernel_defs = sbind_def sthen_def sret_def sfail_def cstring_def raw_def set_context_def lib_result_def

lemma telemetry_set_tidy: "telemetry_set lib scope handle c l = Ret (r, l') \<Longrightarrow> tidy scope l \<Longrightarrow> tidy scope l'"
  by (auto simp: telemetry_set_def kernel_defs Let_def tidy_def in_scope_def released_append split: if_splits option.splits)

lemma telemetry_read_tidy: "telemetry_read lib scope q l = Ret (r, l') \<Longrightarrow> tidy scope l \<Longrightarrow> tidy scope l'"
  by (auto simp: telemetry_read_def kernel_defs tidy_def in_scope_def released_append split: if_splits option.splits)

lemma kernel_serve_tidy: "kernel_serve lib scope handle rs l = Ret l' \<Longrightarrow> tidy scope l \<Longrightarrow> tidy scope l'"
  by (induction lib scope handle rs l rule: kernel_serve.induct)
    (fastforce simp: run_simps dest: telemetry_set_tidy telemetry_read_tidy)+

lemma kernel_serve_total: "\<exists>l'. kernel_serve lib scope handle rs l = Ret l'"
  by (induction lib scope handle rs l rule: kernel_serve.induct)
    (auto simp: telemetry_set_def telemetry_read_def kernel_defs Let_def split: if_splits option.splits)

text \<open>
  A session reads its own telemetry only, and leaks none of it. Loading succeeds only with a scope other than 0, found
  by one call for the session's connection. Whatever requests follow, none panics; every read the extension sees names
  that scope, no text with a NUL reaches it, and every string it hands out is freed by the very next call, once.
\<close>

theorem kernel_telemetry_scoped:
  assumes "telemetry_load lib handle path [] = Ret (Inr scope, l)"
  shows "scope \<noteq> 0 \<and> \<not> ih_poisoned handle
    \<and> l = [SetContext (case ih_conn handle of None \<Rightarrow> 0 | Some c \<Rightarrow> c) None scope]
    \<and> (\<exists>l'. kernel_serve lib scope handle' rs l = Ret l' \<and> released l' \<and> list_all (in_scope scope) l')"
proof -
  have l: "scope \<noteq> 0" "\<not> ih_poisoned handle"
      "l = [SetContext (case ih_conn handle of None \<Rightarrow> 0 | Some c \<Rightarrow> c) None scope]"
    using assms by (auto simp: telemetry_load_def kernel_defs Let_def split: sum.splits if_splits)
  then have "tidy scope l" by (simp add: tidy_def in_scope_def)
  with l kernel_serve_total [of lib scope handle' rs l] show ?thesis
    using kernel_serve_tidy [of lib scope handle' rs l] by (auto simp: tidy_def)
qed

definition sample_kernel :: kernel_library where
  "sample_kernel = \<lparr>kl_load = \<lambda>_. Inr (), kl_open = \<lambda>_. Inr (), kl_symbol = \<lambda>_. Inr (),
     kl_set_context = \<lambda>_ c _. of_nat c, kl_read = \<lambda>l s r. if r = ''none'' then None else Some (length l, ''{}'')\<rparr>"

definition sample_handle :: "nat interrupt_handle" where
  "sample_handle = \<lparr>ih_poisoned = False, ih_conn = Some 5\<rparr>"

lemma sample_kernel_loads:
  "telemetry_load sample_kernel sample_handle ''kernel.so'' [] = Ret (Inr 5, [SetContext 5 None 5])"
  by (simp add: telemetry_load_def kernel_defs Let_def sample_kernel_def sample_handle_def)

theorem kernel_telemetry_scoped_witness:
  "\<exists>l'. kernel_serve sample_kernel 5 sample_handle [SetRequest (Some ''run''), ReadRequest ''all'', ReadRequest ''none'']
      [SetContext 5 None 5] = Ret l' \<and> released l' \<and> list_all (in_scope 5) l'"
  using kernel_telemetry_scoped [OF sample_kernel_loads] by blast

end
