(* ===== verification/Client.thy ===== *)
theory Client
  imports Async_Pool
begin

text \<open>
  The client over an ADBC connection: \<^verbatim>\<open>swanlake-client/src/internal.rs\<close>, \<^verbatim>\<open>client.rs\<close>, \<^verbatim>\<open>driver.rs\<close> and the session
  handles of \<^verbatim>\<open>pool.rs\<close>. The ADBC driver is a parameter: every call is appended to the connection's log, and its answer is
  a function of the calls before it. Errors are their messages.
\<close>

section \<open>The driver's interface\<close>

datatype 'b adbc_call =
    NewStatement
  | SetSqlQuery string
  | PrepareCall
  | BindCall 'b
  | ExecuteCall
  | ExecuteUpdateCall
  | SetAutoCommit bool
  | CommitCall
  | RollbackCall

text \<open>A reader is the items it yields, each a batch or an error; \<open>ad_update\<close> answers the rows affected, when known.\<close>

record 'b adbc =
  ad_call :: "'b adbc_call list \<Rightarrow> 'b adbc_call \<Rightarrow> string + unit"
  ad_execute :: "'b adbc_call list \<Rightarrow> string + (string + 'b) list"
  ad_update :: "'b adbc_call list \<Rightarrow> string + int option"
  ad_rows_of :: "'b \<Rightarrow> nat"

type_synonym ('b, 'a) adbc_step = "('b adbc_call list, string, 'a) step"

definition adbc_answer :: "'b adbc_call \<Rightarrow> ('b adbc_call list \<Rightarrow> string + 'a) \<Rightarrow> ('b, 'a) adbc_step" where
  "adbc_answer c f l = (case f l of Inl e \<Rightarrow> sfail e | Inr x \<Rightarrow> sret x) (l @ [c])"

definition adbc_do :: "'b adbc \<Rightarrow> 'b adbc_call \<Rightarrow> ('b, unit) adbc_step" where
  "adbc_do ad c = adbc_answer c (\<lambda>l. ad_call ad l c)"

section \<open>Results\<close>

record 'b client_result =
  cr_batches :: "'b list"
  cr_total_rows :: nat
  cr_rows_affected :: "int option"

record update_result =
  ur_rows_affected :: "int option"

definition with_rows_affected :: "'b adbc \<Rightarrow> 'b list \<Rightarrow> int option \<Rightarrow> 'b client_result" where
  "with_rows_affected ad batches rows_affected =
     \<lparr>cr_batches = batches, cr_total_rows = sum_list (map (ad_rows_of ad) batches), cr_rows_affected = rows_affected\<rparr>"

definition client_result_new :: "'b adbc \<Rightarrow> 'b list \<Rightarrow> 'b client_result" where
  "client_result_new ad batches =
     \<lparr>cr_batches = batches, cr_total_rows = sum_list (map (ad_rows_of ad) batches), cr_rows_affected = None\<rparr>"

definition client_schema :: "('b \<Rightarrow> 's) \<Rightarrow> 'b client_result \<Rightarrow> 's option" where
  "client_schema schema_of r = (case cr_batches r of [] \<Rightarrow> None | b # bs \<Rightarrow> Some (schema_of b))"

definition client_is_empty :: "'b client_result \<Rightarrow> bool" where
  "client_is_empty r \<longleftrightarrow> cr_total_rows r = 0"

section \<open>Statements\<close>

text \<open>Pulling the reader's items stops at the first error.\<close>

fun read_batches :: "(string + 'b) list \<Rightarrow> string + 'b list" where
  "read_batches [] = Inr []"
| "read_batches (Inl e # items) = Inl e"
| "read_batches (Inr b # items) = try_ok (read_batches items) (\<lambda>bs. Inr (b # bs))"

definition execute_statement_query :: "'b adbc \<Rightarrow> ('b, 'b client_result) adbc_step" where
  "execute_statement_query ad =
     sbind (adbc_answer ExecuteCall (ad_execute ad)) (\<lambda>reader.
       case read_batches reader of Inl e \<Rightarrow> sfail e | Inr batches \<Rightarrow> sret (client_result_new ad batches))"

definition statement_update :: "'b adbc \<Rightarrow> ('b, update_result) adbc_step" where
  "statement_update ad =
     sbind (adbc_answer ExecuteUpdateCall (ad_update ad)) (\<lambda>rows_affected. sret \<lparr>ur_rows_affected = rows_affected\<rparr>)"

definition client_query :: "'b adbc \<Rightarrow> string \<Rightarrow> ('b, 'b client_result) adbc_step" where
  "client_query ad sql =
     sthen (adbc_do ad NewStatement) (sthen (adbc_do ad (SetSqlQuery sql)) (execute_statement_query ad))"

definition client_query_with_params :: "'b adbc \<Rightarrow> string \<Rightarrow> 'b \<Rightarrow> ('b, 'b client_result) adbc_step" where
  "client_query_with_params ad sql params =
     sthen (adbc_do ad NewStatement) (sthen (adbc_do ad (SetSqlQuery sql)) (sthen (adbc_do ad PrepareCall)
       (sthen (adbc_do ad (BindCall params)) (execute_statement_query ad))))"

definition client_update :: "'b adbc \<Rightarrow> string \<Rightarrow> ('b, update_result) adbc_step" where
  "client_update ad sql =
     sthen (adbc_do ad NewStatement) (sthen (adbc_do ad (SetSqlQuery sql)) (statement_update ad))"

definition client_update_with_batch :: "'b adbc \<Rightarrow> string \<Rightarrow> 'b \<Rightarrow> ('b, update_result) adbc_step" where
  "client_update_with_batch ad sql batch =
     sthen (adbc_do ad NewStatement) (sthen (adbc_do ad (SetSqlQuery sql)) (sthen (adbc_do ad PrepareCall)
       (sthen (adbc_do ad (BindCall batch)) (statement_update ad))))"

text \<open>A prepared query of a session, bound and run any number of times; a parametrized call is one round of it.\<close>

definition prepare_query :: "'b adbc \<Rightarrow> string \<Rightarrow> ('b, unit) adbc_step" where
  "prepare_query ad sql =
     sthen (adbc_do ad NewStatement) (sthen (adbc_do ad (SetSqlQuery sql)) (adbc_do ad PrepareCall))"

datatype 'b prepared_use = BindUse 'b | QueryUse | UpdateUse

fun prepared_do :: "'b adbc \<Rightarrow> 'b prepared_use \<Rightarrow> ('b, 'b client_result option \<times> update_result option) adbc_step" where
  "prepared_do ad (BindUse b) = sthen (adbc_do ad (BindCall b)) (sret (None, None))"
| "prepared_do ad QueryUse = sbind (execute_statement_query ad) (\<lambda>r. sret (Some r, None))"
| "prepared_do ad UpdateUse = sbind (statement_update ad) (\<lambda>r. sret (None, Some r))"

lemma sthen_assoc: "sthen (sthen m n) k = sthen m (sthen n k)"
proof (rule ext)
  fix s show "sthen (sthen m n) k s = sthen m (sthen n k) s"
    by (cases "m s") (auto simp: sthen_def sbind_def split: sum.split prod.split)
qed

lemma parametrized_is_prepared:
  "client_query_with_params ad sql ps = sthen (prepare_query ad sql) (sthen (adbc_do ad (BindCall ps)) (execute_statement_query ad))"
  "client_update_with_batch ad sql b = sthen (prepare_query ad sql) (sthen (adbc_do ad (BindCall b)) (statement_update ad))"
  by (simp_all add: client_query_with_params_def client_update_with_batch_def prepare_query_def sthen_assoc)

definition run_healthcheck :: "'b adbc \<Rightarrow> string \<Rightarrow> ('b, unit) adbc_step" where
  "run_healthcheck ad sql =
     (let sql = trim sql in
      if sql = [] then sret ()
      else sthen (adbc_do ad NewStatement) (sthen (adbc_do ad (SetSqlQuery sql))
        (sbind (adbc_answer ExecuteCall (ad_execute ad)) (\<lambda>reader.
          case read_batches reader of Inl e \<Rightarrow> sfail e | Inr _ \<Rightarrow> sret ()))))"

section \<open>Transactions\<close>

definition client_begin :: "'b adbc \<Rightarrow> ('b, unit) adbc_step" where
  "client_begin ad = adbc_do ad (SetAutoCommit False)"

definition client_commit :: "'b adbc \<Rightarrow> ('b, unit) adbc_step" where
  "client_commit ad = sthen (adbc_do ad CommitCall) (adbc_do ad (SetAutoCommit True))"

definition client_rollback :: "'b adbc \<Rightarrow> ('b, unit) adbc_step" where
  "client_rollback ad = sthen (adbc_do ad RollbackCall) (adbc_do ad (SetAutoCommit True))"

section \<open>The cached driver\<close>

text \<open>
  The driver is loaded by the first use in the process, and the outcome kept. \<open>load n\<close> answers the \<open>n\<close>-th attempt;
  \<open>dv_loads\<close> counts them. A \<open>CachedDriver\<close> makes a database handle under its lock and a connection from it outside.
\<close>

record driver_cache =
  dv_cached :: "(string + unit) option"
  dv_loads :: nat

definition get_cached_driver :: "(nat \<Rightarrow> string + unit) \<Rightarrow> driver_cache \<Rightarrow> (string + unit) \<times> driver_cache" where
  "get_cached_driver load d =
     (let (r, d') = (case dv_cached d of
            Some r \<Rightarrow> (r, d)
          | None \<Rightarrow> (let r = (case load (dv_loads d) of Inl e \<Rightarrow> Inl ''failed to load Flight SQL driver'' | Inr _ \<Rightarrow> Inr ())
              in (r, d\<lparr>dv_cached := Some r, dv_loads := dv_loads d + 1\<rparr>)))
      in (case r of Inr _ \<Rightarrow> Inr () | Inl e \<Rightarrow> Inl (''failed to load Flight SQL driver: '' @ e), d'))"

definition driver_connection ::
    "bool \<Rightarrow> (string \<Rightarrow> string + 'd) \<Rightarrow> ('d \<Rightarrow> string + 'c) \<Rightarrow> string \<Rightarrow> string + 'c" where
  "driver_connection poisoned new_database new_conn endpoint =
     (if poisoned then Inl ''Flight SQL driver mutex poisoned: poisoned lock: another task failed inside''
      else try_ok (case new_database endpoint of Inl e \<Rightarrow> Inl ''failed to create database handle'' | Inr db \<Rightarrow> Inr db)
        (\<lambda>db. case new_conn db of Inl e \<Rightarrow> Inl ''failed to create Flight SQL connection'' | Inr c \<Rightarrow> Inr c))"

text \<open>\<open>FlightSQLClient::connect\<close>: the connection is usable from its first health check on.\<close>

definition client_connect ::
    "(string + unit) \<Rightarrow> (string + 'b adbc) \<Rightarrow> string + ('b adbc \<times> 'b adbc_call list)" where
  "client_connect driver connection =
     try_ok driver (\<lambda>_. try_ok connection (\<lambda>ad.
       case run_healthcheck ad ''SELECT 1'' [] of
         Ret (Inr _, l) \<Rightarrow> Inr (ad, l) | Ret (Inl e, l) \<Rightarrow> Inl e | Panic \<Rightarrow> Inl []))"

text \<open>
  The process's driver is loaded once, and a failed load is never tried again: every later use gets the first outcome, its
  message twice the same context and nothing of the cause.
\<close>

fun driver_uses :: "(nat \<Rightarrow> string + unit) \<Rightarrow> nat \<Rightarrow> driver_cache \<Rightarrow> (string + unit) list" where
  "driver_uses load 0 d = []"
| "driver_uses load (Suc n) d = (case get_cached_driver load d of (r, d') \<Rightarrow> r # driver_uses load n d')"

lemma driver_uses_cached:
  "dv_cached d = Some r \<Longrightarrow> driver_uses load n d = replicate n (fst (get_cached_driver load d))"
  by (induction n) (auto simp: get_cached_driver_def)

lemma failed_load_is_final:
  "driver_uses load n \<lparr>dv_cached = None, dv_loads = 0\<rparr> = replicate n (case load 0 of Inr _ \<Rightarrow> Inr ()
     | Inl e \<Rightarrow> Inl ''failed to load Flight SQL driver: failed to load Flight SQL driver'')"
  by (cases n) (auto simp: get_cached_driver_def driver_uses_cached Let_def split: sum.splits prod.splits)

section \<open>What a call asks of the driver\<close>

datatype 'b client_call =
    Query string
  | QueryParams string 'b
  | Update string
  | UpdateBatch string 'b
  | Begin
  | Commit
  | Rollback

datatype 'b client_answer = Rows "'b client_result" | Affected update_result | Done

definition answer_as :: "('a \<Rightarrow> 'b client_answer) \<Rightarrow> ('b, 'a) adbc_step \<Rightarrow> ('b, 'b client_answer) adbc_step" where
  "answer_as f m = sbind m (\<lambda>x. sret (f x))"

fun client_do :: "'b adbc \<Rightarrow> 'b client_call \<Rightarrow> ('b, 'b client_answer) adbc_step" where
  "client_do ad (Query sql) = answer_as Rows (client_query ad sql)"
| "client_do ad (QueryParams sql ps) = answer_as Rows (client_query_with_params ad sql ps)"
| "client_do ad (Update sql) = answer_as Affected (client_update ad sql)"
| "client_do ad (UpdateBatch sql b) = answer_as Affected (client_update_with_batch ad sql b)"
| "client_do ad Begin = answer_as (\<lambda>_. Done) (client_begin ad)"
| "client_do ad Commit = answer_as (\<lambda>_. Done) (client_commit ad)"
| "client_do ad Rollback = answer_as (\<lambda>_. Done) (client_rollback ad)"

text \<open>The calls of each operation when all succeed.\<close>

fun script :: "'b client_call \<Rightarrow> 'b adbc_call list" where
  "script (Query sql) = [NewStatement, SetSqlQuery sql, ExecuteCall]"
| "script (QueryParams sql ps) = [NewStatement, SetSqlQuery sql, PrepareCall, BindCall ps, ExecuteCall]"
| "script (Update sql) = [NewStatement, SetSqlQuery sql, ExecuteUpdateCall]"
| "script (UpdateBatch sql b) = [NewStatement, SetSqlQuery sql, PrepareCall, BindCall b, ExecuteUpdateCall]"
| "script Begin = [SetAutoCommit False]"
| "script Commit = [CommitCall, SetAutoCommit True]"
| "script Rollback = [RollbackCall, SetAutoCommit True]"

text \<open>The answer of one call, with the value an operation's last call gives.\<close>

definition call_answer :: "'b adbc \<Rightarrow> 'b adbc_call list \<Rightarrow> 'b adbc_call \<Rightarrow> string + 'b client_answer" where
  "call_answer ad l c =
     (case c of
        ExecuteCall \<Rightarrow> try_ok (ad_execute ad l) (\<lambda>items.
          try_ok (read_batches items) (\<lambda>bs. Inr (Rows (client_result_new ad bs))))
      | ExecuteUpdateCall \<Rightarrow> try_ok (ad_update ad l) (\<lambda>n. Inr (Affected \<lparr>ur_rows_affected = n\<rparr>))
      | _ \<Rightarrow> try_ok (ad_call ad l c) (\<lambda>_. Inr Done))"

text \<open>Running calls one after the other up to the first error.\<close>

fun run_calls :: "'b adbc \<Rightarrow> 'b adbc_call list \<Rightarrow> 'b client_answer \<Rightarrow> 'b adbc_call list \<Rightarrow> (string + 'b client_answer) \<times> 'b adbc_call list" where
  "run_calls ad [] a l = (Inr a, l)"
| "run_calls ad (c # cs) a l =
     (case call_answer ad l c of Inl e \<Rightarrow> (Inl e, l @ [c]) | Inr a' \<Rightarrow> run_calls ad cs a' (l @ [c]))"

lemmas adbc_defs = adbc_answer_def adbc_do_def answer_as_def sthen_def sbind_def sret_def sfail_def call_answer_def

lemma client_do_runs: "client_do ad c l = Ret (run_calls ad (script c) Done l)"
  by (cases c)
    (simp_all add: adbc_defs client_query_def client_query_with_params_def client_update_def client_update_with_batch_def
      execute_statement_query_def statement_update_def client_begin_def client_commit_def client_rollback_def
      split: sum.split)

text \<open>
  Every operation of the client is its script. Queries and updates, with and without parameters, and the three
  transaction operations make exactly the calls of their script, in order, up to the first that fails or whose reader
  yields an error, whose message is the operation's; they succeed with what the last call adbc_answer. A query's rows are all
  batches of its reader, none left out, and nothing panics.
\<close>

theorem client_follows_script:
  "client_do ad call l = Ret (run_calls ad (script call) Done l)"
  by (rule client_do_runs)

section \<open>The autocommit flag\<close>

text \<open>The flag as the driver's accepted calls set it.\<close>

fun flag_after :: "'b adbc \<Rightarrow> 'b adbc_call list \<Rightarrow> 'b adbc_call list \<Rightarrow> bool \<Rightarrow> bool" where
  "flag_after ad l [] a = a"
| "flag_after ad l (c # cs) a =
     flag_after ad (l @ [c]) cs (case c of SetAutoCommit b \<Rightarrow> if ad_call ad l c = Inr () then b else a | _ \<Rightarrow> a)"

lemma flag_after_append: "flag_after ad l (cs @ ds) a = flag_after ad (l @ cs) ds (flag_after ad l cs a)"
  by (induction ad l cs a rule: flag_after.induct) simp_all

text \<open>What the pools see of an operation: only the driver's answers to the transaction calls.\<close>

definition driver_accepts :: "'b adbc \<Rightarrow> 'b adbc_call list \<Rightarrow> 'b adbc_call \<Rightarrow> bool" where
  "driver_accepts ad l c \<longleftrightarrow> ad_call ad l c = Inr ()"

fun pool_op :: "'b adbc \<Rightarrow> 'b adbc_call list \<Rightarrow> 'b client_call \<Rightarrow> conn_op" where
  "pool_op ad l Begin = BeginOp (driver_accepts ad l (SetAutoCommit False))"
| "pool_op ad l Commit = CommitOp (driver_accepts ad l CommitCall) (driver_accepts ad (l @ [CommitCall]) (SetAutoCommit True))"
| "pool_op ad l Rollback = RollbackOp (driver_accepts ad l RollbackCall) (driver_accepts ad (l @ [RollbackCall]) (SetAutoCommit True))"
| "pool_op ad l _ = PlainOp"

text \<open>A session's operations one after the other, whatever each answers, and the pools' view of them.\<close>

fun client_session :: "'b adbc \<Rightarrow> 'b client_call list \<Rightarrow> 'b adbc_call list \<Rightarrow> 'b adbc_call list run" where
  "client_session ad [] l = Ret l"
| "client_session ad (c # cs) l = rbind (client_do ad c l) (\<lambda>(_, l'). client_session ad cs l')"

fun pool_ops :: "'b adbc \<Rightarrow> 'b client_call list \<Rightarrow> 'b adbc_call list \<Rightarrow> conn_op list" where
  "pool_ops ad [] l = []"
| "pool_ops ad (c # cs) l = pool_op ad l c # pool_ops ad cs (snd (run_calls ad (script c) Done l))"

lemma call_refines:
  "\<exists>ds. snd (run_calls ad (script c) Done l) = l @ ds \<and> flag_after ad l ds a = run_op (pool_op ad l c) a"
  by (cases c)
    (auto simp: call_answer_def driver_accepts_def begin_manual_def commit_manual_def rollback_manual_def run_simps split: sum.split)

lemma session_refines:
  "\<exists>ds. client_session ad cs l = Ret (l @ ds) \<and> flag_after ad l ds a = fold run_op (pool_ops ad cs l) a"
proof (induction cs arbitrary: l a)
  case (Cons c cs)
  obtain ds where ds: "snd (run_calls ad (script c) Done l) = l @ ds" "flag_after ad l ds a = run_op (pool_op ad l c) a"
    using call_refines by blast
  from Cons.IH [of "l @ ds" "run_op (pool_op ad l c) a"] obtain es where
    "client_session ad cs (l @ ds) = Ret (l @ ds @ es)"
    "flag_after ad (l @ ds) es (run_op (pool_op ad l c) a) = fold run_op (pool_ops ad cs (l @ ds)) (run_op (pool_op ad l c) a)"
    by auto
  with ds show ?case
    by (intro exI [of _ "ds @ es"]) (simp add: client_do_runs case_prod_beta flag_after_append)
qed simp

text \<open>
  C29: The pools' account of a connection's transactions is what the driver was told. Whatever a session runs on its
  connection, in any order and with any answers, the autocommit flag left by the calls the driver accepted is the flag the
  pool models compute from the accepted transaction operations alone. Queries and updates never change it; a commit that the
  driver refuses leaves it off, and so the connection in its transaction.
\<close>

theorem transactions_refine_pool:
  "\<exists>calls. client_session ad ops l = Ret (l @ calls)
    \<and> flag_after ad l calls a = fold run_op (pool_ops ad ops l) a"
  by (rule session_refines)

text \<open>The health check a connection passes is the pools' \<open>healthcheck\<close>.\<close>

lemma healthcheck_agrees:
  "\<exists>r ds. run_healthcheck ad (healthcheck_sql c) l = Ret (r, l @ ds)
    \<and> (r = Inr () \<longleftrightarrow> healthcheck c (case run_calls ad (script (Query (trim (healthcheck_sql c)))) Done l of (s, _) \<Rightarrow> \<exists>x. s = Inr x))"
  by (simp add: run_healthcheck_def healthcheck_def adbc_defs Let_def split: sum.split)

text \<open>A client is connected only over a loaded driver and a connection that adbc_answer \<open>SELECT 1\<close> without an error.\<close>

lemma connected_client_answers:
  assumes "client_connect driver connection = Inr (ad, l)"
  shows "driver = Inr () \<and> connection = Inr ad \<and> l = script (Query ''SELECT 1'')
    \<and> (\<exists>rows. run_calls ad (script (Query ''SELECT 1'')) Done [] = (Inr (Rows rows), l))"
proof -
  have "trim ''SELECT 1'' = ''SELECT 1''" by code_simp
  moreover from assms obtain x where "driver = Inr ()" "connection = Inr ad" "run_healthcheck ad ''SELECT 1'' [] = Ret (Inr x, l)"
  proof -
    from assms obtain y where y: "driver = Inr ()" "connection = Inr y"
      by (cases driver; cases connection) (auto simp: client_connect_def)
    then show thesis
      using assms that
      by (cases "run_healthcheck y ''SELECT 1'' []" rule: run.exhaust [case_product sum.exhaust])
        (auto simp: client_connect_def split: sum.splits)
  qed
  ultimately show ?thesis
    by (auto simp: run_healthcheck_def Let_def adbc_defs split: sum.splits)
qed

end
