(* ===== verification/Shell.thy ===== *)
theory Shell
  imports Client Engine_Factory
begin

text \<open>
  The interactive client, \<^verbatim>\<open>swanlake-client/src/bin/cli.rs\<close>: how a statement is told from a query, what is sent to the
  server and printed for it, and the loop over the lines of the terminal. The line editor is the list of its answers, the
  table renderer and the clock are parameters; writing to the terminal does not fail. What is kept of the output is that of
  the statements, without prompts, greetings and the details of debug mode. Text is bytes: \<open>to_uppercase\<close> changes the
  ASCII letters.
\<close>

section \<open>One statement\<close>

fun before_comment :: "string \<Rightarrow> string" where
  "before_comment [] = []"
| "before_comment [c] = [c]"
| "before_comment (c # d # s) = (if c = CHR ''-'' \<and> d = CHR ''-'' then [] else c # before_comment (d # s))"

definition query_words :: "string list" where
  "query_words = [''SELECT'', ''WITH'', ''SHOW'', ''DESCRIBE'', ''DESC'', ''EXPLAIN'']"

definition is_query_statement :: "string \<Rightarrow> bool" where
  "is_query_statement sql =
     (let normalized = map to_upper (trim (join '' '' (map before_comment (text_lines sql))))
      in list_ex (\<lambda>w. prefix w normalized) query_words)"

definition plural :: "int \<Rightarrow> string" where
  "plural n = (if n = 1 then [] else ''s'')"

definition display_results :: "('b list \<Rightarrow> string + string) \<Rightarrow> 'b list \<Rightarrow> string + string list" where
  "display_results render batches = (if batches = [] then Inr [] else try_ok (render batches) (\<lambda>t. Inr [t]))"

text \<open>The lines printed for a statement; \<open>elapsed\<close> is the time as it is printed.\<close>

definition execute_and_display ::
    "'b adbc \<Rightarrow> ('b list \<Rightarrow> string + string) \<Rightarrow> string \<Rightarrow> string \<Rightarrow> ('b, string list) adbc_step" where
  "execute_and_display ad render elapsed sql =
     (if is_query_statement sql
      then sbind (client_query ad sql) (\<lambda>res.
        let tail = show_nat (cr_total_rows res) @ '' row'' @ plural (int (cr_total_rows res)) @ '' in '' @ elapsed @ ''s'' in
        if client_is_empty res then sret [''(No rows returned)'', tail]
        else (case display_results render (cr_batches res) of Inl e \<Rightarrow> sfail e | Inr table \<Rightarrow> sret (table @ [tail])))
      else sbind (client_update ad sql) (\<lambda>res.
        sret [(case ur_rows_affected res of
            Some rows \<Rightarrow> show_int rows @ '' row'' @ plural rows @ '' affected''
          | None \<Rightarrow> ''Query executed successfully''), elapsed @ ''s'']))"

section \<open>The loop\<close>

datatype readline = Line string | Interrupted | Eof | ReadError string

datatype shell_end = Goodbye | TwiceInterrupted | InputEnded | ReadFailed | StillReading

definition is_exit :: "string \<Rightarrow> bool" where
  "is_exit query \<longleftrightarrow> eq_ignore_ascii_case query ''exit'' \<or> eq_ignore_ascii_case query ''quit''"

text \<open>What a run did: its history, the statements executed, how it ended and the lines it left unread.\<close>

record 'b shell =
  sh_history :: "string list"
  sh_executed :: "string list"
  sh_printed :: "string list"
  sh_log :: "'b adbc_call list"
  sh_end :: shell_end
  sh_unread :: "readline list"

definition shell_ended :: "shell_end \<Rightarrow> readline list \<Rightarrow> 'b shell \<Rightarrow> 'b shell" where
  "shell_ended e rs s = s\<lparr>sh_end := e, sh_unread := rs\<rparr>"

definition shell_statement ::
    "'b adbc \<Rightarrow> ('b list \<Rightarrow> string + string) \<Rightarrow> string \<Rightarrow> string \<Rightarrow> 'b shell \<Rightarrow> 'b shell run" where
  "shell_statement ad render elapsed query s =
     rbind (execute_and_display ad render elapsed query (sh_log s)) (\<lambda>(r, l).
       Ret (s\<lparr>sh_executed := sh_executed s @ [query], sh_log := l,
         sh_printed := sh_printed s @ (case r of Inl e \<Rightarrow> [''Error: '' @ e] | Inr ls \<Rightarrow> ls) @ [[]]\<rparr>))"

fun interactive_mode ::
    "'b adbc \<Rightarrow> ('b list \<Rightarrow> string + string) \<Rightarrow> string \<Rightarrow> readline list \<Rightarrow> nat \<Rightarrow> 'b shell \<Rightarrow> 'b shell run" where
  "interactive_mode ad render elapsed [] n s = Ret (shell_ended StillReading [] s)"
| "interactive_mode ad render elapsed (Line line # rs) n s =
     (let query = trim line in
      if query = [] then interactive_mode ad render elapsed rs 0 s
      else (let s = s\<lparr>sh_history := sh_history s @ [query]\<rparr> in
        if is_exit query then Ret (shell_ended Goodbye rs s)
        else rbind (shell_statement ad render elapsed query s) (interactive_mode ad render elapsed rs 0)))"
| "interactive_mode ad render elapsed (Interrupted # rs) n s =
     (if 2 \<le> n + 1 then Ret (shell_ended TwiceInterrupted rs s)
      else interactive_mode ad render elapsed rs (n + 1) s)"
| "interactive_mode ad render elapsed (Eof # rs) n s = Ret (shell_ended InputEnded rs s)"
| "interactive_mode ad render elapsed (ReadError e # rs) n s = Ret (shell_ended ReadFailed rs s)"

definition shell_new :: "'b shell" where
  "shell_new = \<lparr>sh_history = [], sh_executed = [], sh_printed = [], sh_log = [], sh_end = StillReading, sh_unread = []\<rparr>"

section \<open>Properties\<close>

text \<open>The client operation of a statement.\<close>

definition shell_call :: "string \<Rightarrow> 'b client_call" where
  "shell_call sql = (if is_query_statement sql then client_call.Query sql else client_call.Update sql)"

lemma statement_runs:
  "\<exists>r. execute_and_display ad render elapsed sql l = Ret (r, snd (run_calls ad (script (shell_call sql)) Done l))"
  by (auto simp: execute_and_display_def shell_call_def client_query_def client_update_def execute_statement_query_def
      statement_update_def adbc_defs Let_def split: sum.split)

lemma session_snoc:
  "client_session ad cs l = Ret l' \<Longrightarrow>
    client_session ad (cs @ [c]) l = Ret (snd (run_calls ad (script c) Done l'))"
  by (induction cs arbitrary: l) (auto simp: client_do_runs case_prod_beta)

text \<open>The statements of some lines, up to the first that asks to leave.\<close>

definition typed :: "readline list \<Rightarrow> string list" where
  "typed rs = filter (\<lambda>q. q \<noteq> []) (somes (map (\<lambda>r. case r of Line l \<Rightarrow> Some (trim l) | _ \<Rightarrow> None) rs))"

text \<open>A run from some state: what it read, typed and executed, and how it ended.\<close>

definition shell_ran :: "'b adbc \<Rightarrow> readline list \<Rightarrow> 'b shell \<Rightarrow> 'b shell \<Rightarrow> bool" where
  "shell_ran ad rs s t \<longleftrightarrow> (\<exists>taken. rs = taken @ sh_unread t
     \<and> sh_history t = sh_history s @ typed taken
     \<and> sh_executed t = sh_executed s @ takeWhile (\<lambda>q. \<not> is_exit q) (typed taken)
     \<and> client_session ad (map shell_call (takeWhile (\<lambda>q. \<not> is_exit q) (typed taken))) (sh_log s) = Ret (sh_log t)
     \<and> (sh_end t = Goodbye \<longleftrightarrow> list_ex is_exit (typed taken))
     \<and> (sh_end t = StillReading \<longrightarrow> sh_unread t = []))"

lemma typed_Cons: "typed (r # rs) = (case r of Line l \<Rightarrow> (if trim l = [] then [] else [trim l]) | _ \<Rightarrow> []) @ typed rs"
  by (simp add: typed_def split: readline.split)

lemma shell_ran_skip:
  assumes "shell_ran ad rs s t" "typed [r] = []" shows "shell_ran ad (r # rs) s t"
proof -
  from assms(1) obtain taken where "rs = taken @ sh_unread t
     \<and> sh_history t = sh_history s @ typed taken
     \<and> sh_executed t = sh_executed s @ takeWhile (\<lambda>q. \<not> is_exit q) (typed taken)
     \<and> client_session ad (map shell_call (takeWhile (\<lambda>q. \<not> is_exit q) (typed taken))) (sh_log s) = Ret (sh_log t)
     \<and> (sh_end t = Goodbye \<longleftrightarrow> list_ex is_exit (typed taken))
     \<and> (sh_end t = StillReading \<longrightarrow> sh_unread t = [])" unfolding shell_ran_def by blast
  moreover have "typed (r # taken) = typed taken" using assms(2) by (simp add: typed_Cons)
  ultimately show ?thesis unfolding shell_ran_def by (intro exI [of _ "r # taken"]) simp
qed

lemma shell_ran_stop:
  "e \<noteq> Goodbye \<Longrightarrow> e \<noteq> StillReading \<Longrightarrow> typed [r] = [] \<Longrightarrow> shell_ran ad (r # rs) s (shell_ended e rs s)"
  unfolding shell_ran_def shell_ended_def by (intro exI [of _ "[r]"]) simp

lemma shell_ran_exit:
  assumes "trim line \<noteq> []" "is_exit (trim line)"
  shows "shell_ran ad (Line line # rs) s (shell_ended Goodbye rs (s\<lparr>sh_history := sh_history s @ [trim line]\<rparr>))"
  using assms unfolding shell_ran_def shell_ended_def by (intro exI [of _ "[Line line]"]) (simp add: typed_def)

lemma shell_ran_statement:
  assumes "trim line \<noteq> []" "\<not> is_exit (trim line)"
    and s': "shell_statement ad render elapsed (trim line) (s\<lparr>sh_history := sh_history s @ [trim line]\<rparr>) = Ret s'"
    and "shell_ran ad rs s' t"
  shows "shell_ran ad (Line line # rs) s t"
proof -
  let ?c = "shell_call (trim line)"
  from s' obtain r where r: "s' = s\<lparr>sh_history := sh_history s @ [trim line], sh_executed := sh_executed s @ [trim line],
      sh_log := snd (run_calls ad (script ?c) Done (sh_log s)), sh_printed := r\<rparr>"
    using statement_runs [of ad render elapsed "trim line" "sh_log s"] by (auto simp: shell_statement_def)
  from assms(4) obtain taken where t: "rs = taken @ sh_unread t
     \<and> sh_history t = sh_history s' @ typed taken
     \<and> sh_executed t = sh_executed s' @ takeWhile (\<lambda>q. \<not> is_exit q) (typed taken)
     \<and> client_session ad (map shell_call (takeWhile (\<lambda>q. \<not> is_exit q) (typed taken))) (sh_log s') = Ret (sh_log t)
     \<and> (sh_end t = Goodbye \<longleftrightarrow> list_ex is_exit (typed taken))
     \<and> (sh_end t = StillReading \<longrightarrow> sh_unread t = [])" unfolding shell_ran_def by blast
  show ?thesis
    unfolding shell_ran_def
    using t r assms(1,2) by (intro exI [of _ "Line line # taken"]) (simp add: typed_Cons client_do_runs case_prod_beta)
qed

lemma interactive_mode_ran:
  "interactive_mode ad render elapsed rs n s = Ret t \<Longrightarrow> shell_ran ad rs s t"
proof (induction ad render elapsed rs n s rule: interactive_mode.induct)
  case (1 ad render elapsed n s)
  then show ?case by (auto simp: shell_ran_def shell_ended_def typed_def)
next
  case (2 ad render elapsed line rs n s)
  show ?case
  proof (cases "trim line = []")
    case True
    with 2 show ?thesis by (auto intro: shell_ran_skip simp: typed_def)
  next
    case line: False
    with 2 show ?thesis
      by (cases "is_exit (trim line)") (auto simp: Let_def run_simps intro: shell_ran_exit shell_ran_statement)
  qed
next
  case (3 ad render elapsed rs n s)
  then show ?case
    by (cases "2 \<le> n + 1") (auto intro: shell_ran_skip shell_ran_stop simp: typed_def)
qed (auto intro: shell_ran_stop simp: typed_def)

lemma interactive_mode_total: "\<exists>t. interactive_mode ad render elapsed rs n s = Ret t"
proof (induction ad render elapsed rs n s rule: interactive_mode.induct)
  case (2 ad render elapsed line rs n s)
  show ?case
  proof (cases "trim line = [] \<or> is_exit (trim line)")
    case True
    with 2 show ?thesis by (auto simp: Let_def)
  next
    case False
    let ?s = "s\<lparr>sh_history := sh_history s @ [trim line]\<rparr>"
    from statement_runs [of ad render elapsed "trim line" "sh_log ?s"] obtain s' where
      "shell_statement ad render elapsed (trim line) ?s = Ret s'" by (auto simp: shell_statement_def)
    with False 2 show ?thesis by (simp add: Let_def)
  qed
qed auto

lemma interrupted_twice:
  "interactive_mode ad render elapsed (before @ Interrupted # Interrupted # after) n s = Ret t \<Longrightarrow>
    sh_end t \<noteq> StillReading \<and> length after \<le> length (sh_unread t)"
proof (induction ad render elapsed before n s rule: interactive_mode.induct)
  case (2 ad render elapsed line rs n s)
  then show ?case by (auto simp: Let_def run_simps shell_ended_def split: if_splits)
qed (auto simp: shell_ended_def split: if_splits)

lemma shell_ops_plain: "set (pool_ops ad (map shell_call qs) l) \<subseteq> {PlainOp}"
  by (induction qs arbitrary: l) (auto simp: shell_call_def)

lemma fold_plain: "set ops \<subseteq> {PlainOp} \<Longrightarrow> fold run_op ops a = a"
  by (induction ops) auto

lemma shell_keeps_flag:
  assumes "client_session ad (map shell_call qs) l = Ret l'"
  shows "\<exists>calls. l' = l @ calls \<and> flag_after ad l calls a = a"
proof -
  from session_refines [of ad "map shell_call qs" l a] assms show ?thesis
    by (auto simp: fold_plain [OF shell_ops_plain])
qed

text \<open>
  The shell runs what is typed, once and in order. Whatever the terminal delivers, the shell neither panics nor stops
  at a failing statement: it has read a first part of the input, its history is the lines of that part that are not blank,
  trimmed, it has executed exactly those before an \<open>exit\<close> or \<open>quit\<close>, each as one query or one update of the client, and none
  of it changed the connection's autocommit flag. It says goodbye exactly on such a line, and two interrupts in a row end it
  wherever they come.
\<close>

theorem shell_runs_what_is_typed:
  "\<exists>s. interactive_mode ad render elapsed inputs 0 shell_new = Ret s
    \<and> (\<exists>taken. inputs = taken @ sh_unread s
      \<and> sh_history s = typed taken
      \<and> sh_executed s = takeWhile (\<lambda>q. \<not> is_exit q) (typed taken)
      \<and> (sh_end s = Goodbye \<longleftrightarrow> list_ex is_exit (typed taken)))
    \<and> client_session ad (map shell_call (sh_executed s)) [] = Ret (sh_log s)
    \<and> flag_after ad [] (sh_log s) a = a
    \<and> (\<nexists>before after. inputs = before @ Interrupted # Interrupted # after \<and> sh_end s = StillReading)"
proof -
  obtain s where s: "interactive_mode ad render elapsed inputs 0 shell_new = Ret s"
    using interactive_mode_total by blast
  from interactive_mode_ran [OF s] obtain taken where t: "inputs = taken @ sh_unread s"
      "sh_history s = typed taken" "sh_executed s = takeWhile (\<lambda>q. \<not> is_exit q) (typed taken)"
      "client_session ad (map shell_call (sh_executed s)) [] = Ret (sh_log s)"
      "sh_end s = Goodbye \<longleftrightarrow> list_ex is_exit (typed taken)"
    by (auto simp: shell_ran_def shell_new_def)
  with s shell_keeps_flag [OF t(4), of a] show ?thesis
    by (intro exI [of _ s]) (auto dest: interrupted_twice)
qed

text \<open>A statement in parentheses or behind a block comment is sent as an update, and its rows are not shown.\<close>

lemma parenthesized_query_is_update:
  "is_query_statement ''select 1'' \<and> \<not> is_query_statement ''(SELECT 1)'' \<and> \<not> is_query_statement ''/* x */ SELECT 1''
    \<and> \<not> is_query_statement ''VALUES (1)'' \<and> \<not> is_query_statement ''FROM t''"
  by code_simp

end
