(* ===== verification/Interruptible.thy ===== *)
theory Interruptible
  imports Errors
begin

text \<open>
  \<open>run_interruptible\<close> of \<^verbatim>\<open>service/mod.rs\<close>: a blocking task, the request's future that awaits it, and a monitor task that
  interrupts the connection when the future's end of a channel is dropped unused. The three proceed in any order; a
  future may be dropped wherever it awaits.
\<close>

section \<open>The machine\<close>

text \<open>How the blocking task ends, and where the future, its sender and the monitor stand.\<close>

datatype 'a task_outcome = Completed "server_error + 'a" | Panicked

datatype 'a future = AwaitTask | AwaitMonitor "status + 'a" | Returned "status + 'a" | Abandoned

datatype sender = Unused | SentDone | DroppedUnused

datatype monitor = Listening | Quiet | Interrupting

record 'a interruptible =
  in_task :: "'a task_outcome option"
  in_future :: "'a future"
  in_sender :: sender
  in_monitor :: monitor

definition run_interruptible :: "'a interruptible" where
  "run_interruptible = \<lparr>in_task = None, in_future = AwaitTask, in_sender = Unused, in_monitor = Listening\<rparr>"

datatype 'a interrupt_event = TaskEnds "'a task_outcome" | FutureResumes | FutureDropped | MonitorWakes

text \<open>Dropping the sender leaves a sent value to be received.\<close>

definition drop_sender :: "sender \<Rightarrow> sender" where
  "drop_sender s = (if s = Unused then DroppedUnused else s)"

text \<open>
  The future resumes from the task: a panic returns early from the first \<open>?\<close>, with the sender unused; otherwise the
  sender is used. It resumes from the monitor when that has ended.
\<close>

definition future_resumes :: "(server_error \<Rightarrow> status) \<Rightarrow> status \<Rightarrow> 'a interruptible \<Rightarrow> 'a interruptible" where
  "future_resumes of_error of_join s =
     (case in_future s of
        AwaitTask \<Rightarrow>
          (case in_task s of
             None \<Rightarrow> s
           | Some Panicked \<Rightarrow> s\<lparr>in_future := Returned (Inl of_join), in_sender := drop_sender (in_sender s)\<rparr>
           | Some (Completed r) \<Rightarrow>
               s\<lparr>in_future := AwaitMonitor (case r of Inl e \<Rightarrow> Inl (of_error e) | Inr x \<Rightarrow> Inr x), in_sender := SentDone\<rparr>)
      | AwaitMonitor r \<Rightarrow> if in_monitor s = Listening then s else s\<lparr>in_future := Returned r\<rparr>
      | _ \<Rightarrow> s)"

definition future_dropped :: "'a interruptible \<Rightarrow> 'a interruptible" where
  "future_dropped s =
     (case in_future s of
        Returned r \<Rightarrow> s
      | _ \<Rightarrow> s\<lparr>in_future := Abandoned, in_sender := drop_sender (in_sender s)\<rparr>)"

definition monitor_wakes :: "'a interruptible \<Rightarrow> 'a interruptible" where
  "monitor_wakes s =
     (if in_monitor s = Listening then
        (case in_sender s of
           Unused \<Rightarrow> s
         | SentDone \<Rightarrow> s\<lparr>in_monitor := Quiet\<rparr>
         | DroppedUnused \<Rightarrow> s\<lparr>in_monitor := Interrupting\<rparr>)
      else s)"

fun interrupt_step :: "(server_error \<Rightarrow> status) \<Rightarrow> status \<Rightarrow> 'a interruptible \<Rightarrow> 'a interrupt_event \<Rightarrow> 'a interruptible" where
  "interrupt_step of_error of_join s (TaskEnds r) = (if in_task s = None then s\<lparr>in_task := Some r\<rparr> else s)"
| "interrupt_step of_error of_join s FutureResumes = future_resumes of_error of_join s"
| "interrupt_step of_error of_join s FutureDropped = future_dropped s"
| "interrupt_step of_error of_join s MonitorWakes = monitor_wakes s"

abbreviation interrupt_run ::
    "(server_error \<Rightarrow> status) \<Rightarrow> status \<Rightarrow> 'a interrupt_event list \<Rightarrow> 'a interruptible" where
  "interrupt_run of_error of_join \<equiv> foldl (interrupt_step of_error of_join) run_interruptible"

section \<open>Properties\<close>

text \<open>
  The sender is unused exactly while the task is awaited, sent exactly if the task's result was taken, and the monitor has
  ended as the sender says. A result that is returned or about to be is the task's.
\<close>

definition consistent :: "(server_error \<Rightarrow> status) \<Rightarrow> status \<Rightarrow> 'a interruptible \<Rightarrow> bool" where
  "consistent of_error of_join s \<longleftrightarrow>
     (case in_future s of
        AwaitTask \<Rightarrow> in_sender s = Unused
      | AwaitMonitor r \<Rightarrow> in_sender s = SentDone \<and> (\<exists>t. in_task s = Some (Completed t) \<and> r = (case t of Inl e \<Rightarrow> Inl (of_error e) | Inr x \<Rightarrow> Inr x))
      | Returned r \<Rightarrow>
          in_sender s = SentDone \<and> in_monitor s = Quiet
            \<and> (\<exists>t. in_task s = Some (Completed t) \<and> r = (case t of Inl e \<Rightarrow> Inl (of_error e) | Inr x \<Rightarrow> Inr x))
          \<or> in_sender s = DroppedUnused \<and> in_task s = Some Panicked \<and> r = Inl of_join
      | Abandoned \<Rightarrow> in_sender s \<noteq> Unused \<and> (in_sender s = SentDone \<longrightarrow> (\<exists>t. in_task s = Some (Completed t))))
     \<and> (in_monitor s = Quiet \<longrightarrow> in_sender s = SentDone)
     \<and> (in_monitor s = Interrupting \<longrightarrow> in_sender s = DroppedUnused)"

lemma consistent_step: "consistent of_error of_join s \<Longrightarrow> consistent of_error of_join (interrupt_step of_error of_join s e)"
  by (cases e; cases "in_future s"; cases "in_sender s"; cases "in_monitor s")
    (auto simp: consistent_def future_resumes_def future_dropped_def monitor_wakes_def drop_sender_def
      split: option.splits task_outcome.splits)

lemma consistent_run: "consistent of_error of_join (interrupt_run of_error of_join es)"
proof (induction es rule: rev_induct)
  case Nil
  show ?case by (simp add: consistent_def run_interruptible_def)
qed (simp add: consistent_step)

lemma quiet_stays:
  "in_monitor s = Quiet \<Longrightarrow> in_monitor (foldl (interrupt_step of_error of_join) s es) = Quiet"
proof (induction es arbitrary: s)
  case (Cons e es)
  have "in_monitor (interrupt_step of_error of_join s e) = Quiet"
    using Cons.prems by (cases e)
      (auto simp: future_resumes_def future_dropped_def monitor_wakes_def split: future.split option.split task_outcome.split)
  with Cons.IH show ?case by simp
qed simp


text \<open>
  The interrupt is for the connection, not for the statement: a future dropped just after its task has ended, or whose task
  panicked, leaves an interrupt that meets whatever the session runs next.
\<close>

lemma late_interrupt:
  "in_task (interrupt_run of_error of_join [TaskEnds (Completed (Inr x))]) = Some (Completed (Inr x))"
  "in_monitor (interrupt_run of_error of_join [TaskEnds (Completed (Inr x)), FutureDropped, MonitorWakes]) = Interrupting"
  "in_monitor (interrupt_run of_error of_join [TaskEnds Panicked, FutureResumes, MonitorWakes]) = Interrupting"
  by (simp_all add: run_interruptible_def future_dropped_def future_resumes_def monitor_wakes_def drop_sender_def)

definition sample_events :: "nat interrupt_event list" where
  "sample_events = [TaskEnds (Completed (Inr 7)), FutureResumes, MonitorWakes, FutureResumes]"

lemma sample_served:
  "in_future (interrupt_run of_error of_join sample_events) = Returned (Inr 7)
    \<and> in_task (interrupt_run of_error of_join sample_events) \<noteq> Some Panicked"
  by (simp add: sample_events_def run_interruptible_def future_dropped_def future_resumes_def monitor_wakes_def drop_sender_def)


end
