(* ===== verification/Server.thy ===== *)
theory Server
  imports Checkpoint Execution_Identity
begin

text \<open>
  The server process: \<^verbatim>\<open>swanlake-server/src/main.rs\<close> and \<^verbatim>\<open>status.rs\<close>, with \<open>CheckpointService::spawn_from_config\<close> and
  \<open>SessionRegistry::new\<close>. What start-up asks of its environment (files, name resolution, the database behind the
  checkpoints, the TLS library) is a record of answers; the result is what the process then serves. Errors are the contexts
  that \<open>main\<close> reports. The installation of the logger is left out.
\<close>

section \<open>The status page\<close>

text \<open>\<open>trim_matches('/')\<close>.\<close>

definition trim_both_slashes :: "string \<Rightarrow> string" where
  "trim_both_slashes s = rev (dropWhile ((=) CHR ''/'') (rev (dropWhile ((=) CHR ''/'') s)))"

definition normalize_prefix :: "string \<Rightarrow> string" where
  "normalize_prefix raw =
     (let trimmed = trim_both_slashes raw in if trimmed = [] then [] else CHR ''/'' # trimmed)"

record 'addr status_server =
  ss_addr :: 'addr
  ss_root_path :: string
  ss_json_path :: string

definition spawn_status_server :: "(string \<Rightarrow> 'addr option) \<Rightarrow> server_config \<Rightarrow> string + 'addr status_server option" where
  "spawn_status_server parse_addr c =
     (if \<not> sc_status_enabled c then Inr None
      else try_ok (ok_or ''invalid status server bind address''
          (parse_addr (sc_status_host c @ '':'' @ show_nat (sc_status_port c)))) (\<lambda>addr.
        let path = normalize_prefix (sc_status_path_prefix c) in
        Inr (Some \<lparr>ss_addr = addr, ss_root_path = path @ ''/'', ss_json_path = path @ ''/status.json''\<rparr>)))"

text \<open>\<open>as_millis() as u64\<close> of the time since the epoch, 0 before it.\<close>

definition now_millis :: "int \<Rightarrow> nat" where
  "now_millis since_epoch = nat since_epoch mod 2 ^ 64"

section \<open>Background tasks\<close>

text \<open>The checkpoint task starts only with databases to checkpoint, and then only over a database that has its table.\<close>

definition spawn_from_config :: "string + unit \<Rightarrow> server_config \<Rightarrow> string + checkpoint_config option" where
  "spawn_from_config ensure_table c =
     (case from_server_config c of
        None \<Rightarrow> Inr None
      | Some cfg \<Rightarrow> try_ok ensure_table (\<lambda>_. Inr (Some cfg)))"

text \<open>What one tick of the checkpoint loop runs, and what one tick of the cleanup task removes.\<close>

definition checkpoint_tick :: "checkpoint_config \<Rightarrow> (string \<Rightarrow> string + unit) \<Rightarrow> (string \<times> (string + unit)) list" where
  "checkpoint_tick cfg process_database = map (\<lambda>db. (db, process_database db)) (cp_databases cfg)"

definition registry_from_config :: "string \<Rightarrow> server_config \<Rightarrow> ('v, 'b, 's) registry" where
  "registry_from_config temp_dir c =
     registry_new (sc_max_sessions c) (sc_session_timeout_seconds c)
       \<lparr>scratch_directory = (case sc_scratch_directory c of Some d \<Rightarrow> d | None \<Rightarrow> path_join temp_dir ''swanlake-scratch''),
        scratch_max_size = (case sc_scratch_max_size c of Some n \<Rightarrow> n | None \<Rightarrow> ''10GB'')\<rparr>"

definition interrupt_all :: "('v, 'b, 's) registry \<Rightarrow> string list" where
  "interrupt_all r = map fst (sessions r)"

section \<open>Start-up\<close>

record 'addr start_env =
  se_settings :: "server_config \<Rightarrow> string + server_config"
  se_unbase :: "string \<Rightarrow> string option"
  se_uuid :: "string \<Rightarrow> bool"
  se_process :: nat
  se_new_owner :: string
  se_generation :: string
  se_started :: nat
  se_started_ms :: u64
  se_torn :: "nat option"
  se_owner_file :: "string \<Rightarrow> owner_file"
  se_resolve :: "string \<Rightarrow> string + 'addr list"
  se_files :: "string \<Rightarrow> string option"
  se_table :: "string + unit"
  se_temp_dir :: string
  se_http :: "string + unit"
  se_parse_addr :: "string \<Rightarrow> 'addr option"
  se_read :: "string \<Rightarrow> string option"
  se_tls :: "string \<Rightarrow> string \<Rightarrow> bool"

record ('addr, 'k, 'v, 'b, 's) server =
  sv_config :: server_config
  sv_identity :: execution_identity
  sv_addr :: 'addr
  sv_factory :: engine_factory
  sv_checkpoints :: "checkpoint_config option"
  sv_registry :: "('v, 'b, 's) registry"
  sv_metrics :: metrics
  sv_duckvis :: "'k duckvis_instance option"
  sv_location :: string
  sv_status :: "'addr status_server option"
  sv_tls :: "(string \<times> string) option"

definition with_context :: "string \<Rightarrow> 'e + 'a \<Rightarrow> string + 'a" where
  "with_context message r = (case r of Inl e \<Rightarrow> Inl message | Inr x \<Rightarrow> Inr x)"

definition after_colon :: "string \<Rightarrow> string + 'a \<Rightarrow> string + 'a" where
  "after_colon message r = (case r of Inl e \<Rightarrow> Inl (message @ '': '' @ e) | Inr x \<Rightarrow> Inr x)"

definition flight_location :: "server_config \<Rightarrow> string" where
  "flight_location c =
     (if tls_enabled c then ''grpc+tls'' else ''grpc'') @ ''://'' @ sc_advertise_host c @ '':'' @ show_nat (sc_port c)"

definition server_tls :: "(string \<Rightarrow> string option) \<Rightarrow> (string \<Rightarrow> string \<Rightarrow> bool) \<Rightarrow> server_config \<Rightarrow> string + (string \<times> string) option" where
  "server_tls read accepts c =
     (case (sc_tls_cert_path c, sc_tls_key_path c) of
        (Some cert_path, Some key_path) \<Rightarrow>
          try_ok (ok_or ''failed to read SWANLAKE_TLS_CERT_PATH'' (read cert_path)) (\<lambda>cert.
          try_ok (ok_or ''failed to read SWANLAKE_TLS_KEY_PATH'' (read key_path)) (\<lambda>key.
          if accepts cert key then Inr (Some (cert, key)) else Inl ''failed to configure Flight server TLS''))
      | _ \<Rightarrow> Inr None)"

definition start_identity :: "'addr start_env \<Rightarrow> server_config \<Rightarrow> owner_error + execution_identity" where
  "start_identity env c =
     fst (for_process (se_uuid env) (se_process env) (se_new_owner env) (se_generation env) (se_torn env)
       (map_option (se_owner_file env) (sc_execution_owner_path c)))"

definition main_start :: "'addr start_env \<Rightarrow> string + ('addr, 'k, 'v, 'b, 's) server" where
  "main_start env =
     try_ok (with_context ''failed to load configuration'' (load_config (se_unbase env) (se_settings env))) (\<lambda>c.
     try_ok (with_context ''failed to acquire execution owner'' (start_identity env c)) (\<lambda>identity.
     try_ok (with_context ''failed to resolve bind address'' (bind_addr (se_resolve env) c)) (\<lambda>addr.
     try_ok (with_context ''failed to initialize engine factory'' (factory_new (se_files env) c)) (\<lambda>fe.
     try_ok (with_context ''failed to start checkpoint service'' (spawn_from_config (se_table env) c)) (\<lambda>checkpoints.
     try_ok (after_colon ''failed to initialize duckvis mode'' (from_config (se_unbase env) (se_http env) c)) (\<lambda>duckvis.
     try_ok (spawn_status_server (se_parse_addr env) c) (\<lambda>status.
     try_ok (server_tls (se_read env) (se_tls env) c) (\<lambda>tls.
       Inr \<lparr>sv_config = c, sv_identity = identity, sv_addr = addr, sv_factory = fe, sv_checkpoints = checkpoints,
         sv_registry = registry_from_config (se_temp_dir env) c,
         sv_metrics = metrics_new (se_started env) (se_started_ms env)
           (case sc_metrics_slow_query_threshold_ms c of Some n \<Rightarrow> n | None \<Rightarrow> 5000)
           (case sc_metrics_history_size c of Some n \<Rightarrow> n | None \<Rightarrow> 200),
         sv_duckvis = duckvis, sv_location = flight_location c, sv_status = status, sv_tls = tls\<rparr>))))))))"

section \<open>Shutting down\<close>

text \<open>
  A signal handler that could not be installed never fires. After the first signal the sessions are interrupted, the health
  service reports that nothing is served, and the server is told to stop; the requests under way are then left to end.
\<close>

datatype signal_handler = NotInstalled | Fires nat | Silent

fun fires_at :: "signal_handler \<Rightarrow> nat option" where
  "fires_at (Fires t) = Some t"
| "fires_at _ = None"

definition shutdown_at :: "signal_handler \<Rightarrow> signal_handler \<Rightarrow> nat option" where
  "shutdown_at ctrl_c terminate =
     (case (fires_at ctrl_c, fires_at terminate) of
        (Some t, Some u) \<Rightarrow> Some (min t u) | (Some t, None) \<Rightarrow> Some t | (None, u) \<Rightarrow> u)"

datatype shutdown_action = InterruptSession string | NotServing | StopAccepting

definition shutdown_actions :: "('addr, 'k, 'v, 'b, 's) server \<Rightarrow> shutdown_action list" where
  "shutdown_actions sv = map InterruptSession (interrupt_all (sv_registry sv)) @ [NotServing, StopAccepting]"

section \<open>Properties\<close>

lemma with_context_Inr [simp]: "with_context m r = Inr x \<longleftrightarrow> r = Inr x"
  by (simp add: with_context_def split: sum.split)

lemma after_colon_Inr [simp]: "after_colon m r = Inr x \<longleftrightarrow> r = Inr x"
  by (simp add: after_colon_def split: sum.split)

lemma main_startD:
  assumes "main_start env = Inr sv"
  shows "load_config (se_unbase env) (se_settings env) = Inr (sv_config sv)"
    "spawn_from_config (se_table env) (sv_config sv) = Inr (sv_checkpoints sv)"
    "from_config (se_unbase env) (se_http env) (sv_config sv) = Inr (sv_duckvis sv)"
    "spawn_status_server (se_parse_addr env) (sv_config sv) = Inr (sv_status sv)"
    "sv_location sv = flight_location (sv_config sv)"
    "sv_registry sv = registry_from_config (se_temp_dir env) (sv_config sv)"
    "server_tls (se_read env) (se_tls env) (sv_config sv) = Inr (sv_tls sv)"
  using assms by (auto simp: main_start_def try_ok_Inr_iff split: sum.splits)

lemma server_tls_iff: "server_tls read accepts c = Inr t \<Longrightarrow> t \<noteq> None \<longleftrightarrow> tls_enabled c"
  by (auto simp: server_tls_def tls_enabled_def try_ok_Inr_iff split: option.splits if_splits)

lemma from_config_iff: "from_config unbase client c = Inr d \<Longrightarrow> d \<noteq> None \<longleftrightarrow> sc_duckvis_enabled c"
  by (cases client) (auto simp: from_config_def try_ok_Inr_iff split: if_splits)

text \<open>
  C30: A server that starts serves what its configuration says. Start-up succeeds only with a validated configuration,
  and then: the Flight server has a certificate and a key exactly when both paths are set, and exactly then the location it
  hands to clients asks for TLS; with duckvis mode on, requests meet an authenticator, and TLS ends here or in the
  configured proxy; with duckvis mode off there is none; no more sessions are admitted than configured; and checkpoints
  run exactly for the configured databases.
\<close>

theorem server_starts_as_configured:
  assumes "main_start env = Inr sv"
  defines "c \<equiv> sv_config sv"
  shows "validate_config (se_unbase env) c = Inr ()
    \<and> (sv_tls sv \<noteq> None \<longleftrightarrow> sc_tls_cert_path c \<noteq> None) \<and> (sv_tls sv \<noteq> None \<longleftrightarrow> sc_tls_key_path c \<noteq> None)
    \<and> (sv_tls sv \<noteq> None \<longleftrightarrow> sv_location sv = ''grpc+tls://'' @ sc_advertise_host c @ '':'' @ show_nat (sc_port c))
    \<and> (sv_duckvis sv \<noteq> None \<longleftrightarrow> sc_duckvis_enabled c)
    \<and> (sc_duckvis_enabled c \<longrightarrow> sv_tls sv \<noteq> None \<or> sc_tls_terminated_upstream c)
    \<and> sessions (sv_registry sv) = [] \<and> permits (sv_registry sv) = (case sc_max_sessions c of Some n \<Rightarrow> n | None \<Rightarrow> 100)
    \<and> map_option cp_databases (sv_checkpoints sv)
        = (let dbs = parse_checkpoint_databases (sc_checkpoint_databases c) in if dbs = [] then None else Some dbs)"
proof -
  note m = main_startD [OF assms(1), folded c_def]
  then have v: "validate_config (se_unbase env) c = Inr ()" by (simp add: load_config_def run_simps)
  then have paths: "sc_tls_cert_path c = None \<longleftrightarrow> sc_tls_key_path c = None"
    and tls: "sc_duckvis_enabled c \<longrightarrow> tls_enabled c \<or> sc_tls_terminated_upstream c"
    by (auto simp: validate_config_def validate_duckvis_def bail_if_def run_simps split: if_splits)
  note t = server_tls_iff [OF m(7)]
  have l: "sv_location sv = ''grpc+tls://'' @ sc_advertise_host c @ '':'' @ show_nat (sc_port c) \<longleftrightarrow> tls_enabled c"
    by (auto simp: m(5) flight_location_def)
  have dbs: "map_option cp_databases (sv_checkpoints sv)
      = (let dbs = parse_checkpoint_databases (sc_checkpoint_databases c) in if dbs = [] then None else Some dbs)"
    using m(2) by (cases "sv_checkpoints sv") (auto simp: spawn_from_config_def from_server_config_def Let_def run_simps split: if_splits)
  show ?thesis
    unfolding dbs l t
    using v paths tls from_config_iff [OF m(3)]
    by (auto simp: tls_enabled_def m(6) registry_from_config_def registry_new_def Let_def)
qed

definition sample_env :: "nat start_env" where
  "sample_env = \<lparr>se_settings = (\<lambda>_. Inr sample_checkpoints), se_unbase = (\<lambda>_. None), se_uuid = (\<lambda>_. True), se_process = 1,
     se_new_owner = ''u1'', se_generation = ''g1'', se_started = 0, se_started_ms = 0, se_torn = None,
     se_owner_file = (\<lambda>_. \<lparr>of_contents = [], of_holder = None\<rparr>), se_resolve = (\<lambda>_. Inr [4]), se_files = (\<lambda>_. None),
     se_table = Inr (), se_temp_dir = ''/tmp'', se_http = Inr (), se_parse_addr = (\<lambda>_. Some 5), se_read = (\<lambda>_. None),
     se_tls = (\<lambda>_ _. True)\<rparr>"

lemma sample_parts:
  "load_config (se_unbase sample_env) (se_settings sample_env) = Inr sample_checkpoints"
  "\<exists>i. start_identity sample_env sample_checkpoints = Inr i"
  "\<exists>a. bind_addr (se_resolve sample_env) sample_checkpoints = Inr a"
  "\<exists>k. spawn_from_config (se_table sample_env) sample_checkpoints = Inr k"
  "from_config (se_unbase sample_env) (se_http sample_env) sample_checkpoints = Inr None"
  "\<exists>p. spawn_status_server (se_parse_addr sample_env) sample_checkpoints = Inr p"
  "server_tls (se_read sample_env) (se_tls sample_env) sample_checkpoints = Inr None"
proof -
  show "load_config (se_unbase sample_env) (se_settings sample_env) = Inr sample_checkpoints"
    by (simp add: sample_env_def load_config_def sample_periods)
  show "\<exists>k. spawn_from_config (se_table sample_env) sample_checkpoints = Inr k"
    by (simp add: sample_env_def spawn_from_config_def sample_periods)
qed (simp_all add: sample_env_def start_identity_def for_process_def bind_addr_def
      from_config_def spawn_status_server_def server_tls_def sample_checkpoints_def default_config_def Let_def)

lemma sample_starts:
  "\<exists>sv :: (nat, unit, unit, unit, unit) server. main_start sample_env = Inr sv \<and> sv_config sv = sample_checkpoints"
proof -
  from sample_parts(2-4,6) obtain i a k p where
    "start_identity sample_env sample_checkpoints = Inr i" "bind_addr (se_resolve sample_env) sample_checkpoints = Inr a"
    "spawn_from_config (se_table sample_env) sample_checkpoints = Inr k"
    "spawn_status_server (se_parse_addr sample_env) sample_checkpoints = Inr p" by blast
  then show ?thesis
    by (simp add: main_start_def with_context_def after_colon_def factory_new_def sample_parts(1,5,7))
qed

theorem server_starts_as_configured_witness:
  "\<exists>sv :: (nat, unit, unit, unit, unit) server. main_start sample_env = Inr sv \<and> sv_tls sv = None \<and> sv_duckvis sv = None
    \<and> permits (sv_registry sv) = 100"
proof -
  obtain sv :: "(nat, unit, unit, unit, unit) server" where sv: "main_start sample_env = Inr sv"
      "sv_config sv = sample_checkpoints"
    using sample_starts by blast
  with server_starts_as_configured [OF sv(1)] show ?thesis by (auto simp: sample_checkpoints_def default_config_def)
qed

text \<open>The paths of the status page: slashes around the prefix do not matter, and each path has exactly one before its last part.\<close>

lemma trim_both_slashes_solid:
  "trim_both_slashes s = [] \<or> hd (trim_both_slashes s) \<noteq> CHR ''/'' \<and> last (trim_both_slashes s) \<noteq> CHR ''/''"
proof (cases "trim_both_slashes s = []")
  case False
  define u where "u = dropWhile ((=) CHR ''/'') s"
  define r where "r = dropWhile ((=) CHR ''/'') (rev u)"
  have t: "trim_both_slashes s = rev r" by (simp add: trim_both_slashes_def r_def u_def)
  with False have "r \<noteq> []" by simp
  then have r: "hd r \<noteq> CHR ''/''" using hd_dropWhile [of "(=) CHR ''/''" "rev u"] by (auto simp: r_def)
  from \<open>r \<noteq> []\<close> have "u \<noteq> []" by (auto simp: r_def)
  then have u: "hd u \<noteq> CHR ''/''" using hd_dropWhile [of "(=) CHR ''/''" s] by (auto simp: u_def)
  have "rev u = takeWhile ((=) CHR ''/'') (rev u) @ r" by (simp add: r_def)
  then have "last r = hd u" using \<open>r \<noteq> []\<close> by (metis last_appendR last_rev)
  with r u show ?thesis by (simp add: t hd_rev last_rev)
qed simp

lemma normalize_prefix_shape:
  "normalize_prefix s = [] \<or> (\<exists>t. normalize_prefix s = CHR ''/'' # t \<and> t \<noteq> [] \<and> hd t \<noteq> CHR ''/'' \<and> last t \<noteq> CHR ''/'')"
  using trim_both_slashes_solid [of s] by (auto simp: normalize_prefix_def Let_def)

end
