(* ===== verification/Spec2Isabelle.thy ===== *)
theory Spec2Isabelle
  imports Attach_Read_Only Session_Properties Gate Cancellation Async_Pool Batch Airport_Filters Flight_Stream Service_Actions Execution_Identity Metrics Checkpoint Service Admission_Limits Telemetry Shell Interruptible Server
begin

text \<open>
  A model of SwanLake, a Flight SQL server over DuckDB with DuckLake catalogs, and of its client library, with the theorems
  that make it correct. Source paths are relative to \<^verbatim>\<open>swanlake-core/src\<close> unless they start with another crate.

  \<^bold>\<open>The program.\<close> A request enters \<^verbatim>\<open>service/mod.rs\<close>. Its gate finds or makes the session the request belongs to: it reads
  the session id from the headers or the peer address, in duckvis mode validates the bearer token against a cached key set,
  has the project authorized by the duckvis API, and looks the session up in the registry, which holds at most a configured
  number of sessions, each with a DuckDB connection of its own. A handler under \<^verbatim>\<open>service/handlers\<close> then decodes the command,
  reads the statement with the SQL utilities, and calls the operations of the session: these admit the user's SQL, apply
  the engine lockdown once before the first user statement, recover from aborted transactions, keep the cache of result schemas
  and the prepared statements, and send everything else to the connection. Results are collected, or streamed by a blocking
  producer over a channel with progress and resource usage beside the data. Metrics, redaction of errors, cancellation,
  telemetry, checkpoints of the catalogs and the status page work beside this path. Clients use an ADBC connection, directly,
  through two connection pools, or in an interactive shell.

  \<^bold>\<open>How code is modelled.\<close> A Rust function is a function of its arguments and of the state it can change, which it returns;
  \<open>Result\<close> is a sum, a panic a value of \<open>run\<close> (Prelude). \<open>step\<close> composes the two, and \<open>triple\<close> states what a step keeps. A
  string is its UTF-8 bytes; loops over bytes are recursions over the bytes that are left, with their termination proofs, so no
  fuel is used anywhere. Integers whose width matters are words or carry their wrap-around. What the source calls and does
  not define is a parameter: DuckDB (\<open>engine\<close> in Session, \<open>duck\<close> in Duck, with one function per call whose answer may depend on
  all calls before it, so that a theorem over all such functions is one over all behaviours), the SQL parser (\<open>front\<close>),
  Arrow IPC, JSON and MessagePack, HTTP, PostgreSQL, the ADBC driver (\<open>adbc\<close> in Client), clocks, UUIDs and signatures.
  A section under one lock, or between two awaits, is one step; where threads or tasks meet (registry, pools, cancellation,
  checkpoints, resource tracker, interruptible requests) a machine runs their steps in every order, and its theorems are
  invariants of all runs.

  \<^bold>\<open>Text and admission.\<close> Sql_Text: the splitter, the leading keyword, comment stripping and the tokenizers of
  \<^verbatim>\<open>duckvis/attach.rs\<close>. Sql_Lexer: a one-pass automaton as their specification, and the splitter as the split at its top-level
  semicolons. Sql_Admission: the classifiers and \<open>Session::validate_user_sql\<close>; what an admitted statement cannot contain.
  Admission_Limits: evaluated texts that DuckDB reads otherwise and that are admitted. Attach and Attach_Read_Only: parsing and
  normalizing ATTACH; what is written is read back, and the option block of a non-writer ends in READ_ONLY. Scrub and Errors:
  \<^verbatim>\<open>scrub.rs\<close>, \<^verbatim>\<open>error.rs\<close> and the mapping to a status; no password value survives it.

  \<^bold>\<open>Sessions.\<close> Ids: handles and transaction ids of \<^verbatim>\<open>session/id.rs\<close>, their wire form as interpretations of the locale \<open>codec\<close>.
  Schema_Cache: the bounded cache, as an interpretation of \<open>cache\<close> that refines a map. Session: the operations of
  \<^verbatim>\<open>session/mod.rs\<close> over the log of engine calls. Session_Invariants: all of them as one step, and the locale \<open>session_invariant\<close>,
  which reduces an invariant of the operations to their state updates. Session_Properties: its interpretations: the lockdown
  precedes every user call and is never redone, transactions and prepared statements keep their tables apart and their handles
  fresh, cached schemas are the engine's; and abort recovery on every branch. Capacity and Registry: the locale \<open>capacity\<close> and
  \<^verbatim>\<open>session/registry.rs\<close>, whose sessions are bounded under all interleavings and never replaced.

  \<^bold>\<open>The gate.\<close> Json, Duckvis_Auth (\<^verbatim>\<open>duckvis/{jwt,jwks,mod}.rs\<close>: an accepted token was verified by a key of the cache), Duckvis_Api
  (\<^verbatim>\<open>duckvis/{api,sa}.rs\<close>: authorization fails closed, one repetition after a refusal), Gate (\<open>prepare_request\<close>: a session serves
  the subject and project it was made for).

  \<^bold>\<open>The connection.\<close> Duck: the interface to DuckDB and the state of one request. Result_Projection, Connection, Streaming and
  Flight_Stream: \<^verbatim>\<open>engine/{result_projection,connection}.rs\<close> and \<^verbatim>\<open>service/streaming.rs\<close>, from the statement to the
  \<open>FlightData\<close> a client polls: what arrives is the schema and the batches in order, or an error. Cancellation:
  \<^verbatim>\<open>engine/cancellation.rs\<close>; Interruptible: \<open>run_interruptible\<close>; Telemetry: the resource tracker, query progress and the kernel's
  telemetry, \<^verbatim>\<open>engine/{resource_tracker,progress,kernel_telemetry}.rs\<close>. Batch: \<^verbatim>\<open>engine/batch.rs\<close>. Types: \<^verbatim>\<open>types.rs\<close>.

  \<^bold>\<open>The handlers.\<close> Sql_Ast: \<^verbatim>\<open>sql/{parser,rewrite}.rs\<close> over the syntax tree. Handlers: tickets, statements, prepared
  statements, transactions. Handlers_Properties: the locale-free rules for invariants of handlers, the machine \<open>served\<close>, and that all
  SQL a client gets run was admitted. Handlers_Results: what a ticket, bound parameters and an upload put on the connection.
  Actions, Actions_Properties and Service_Actions: the actions of \<^verbatim>\<open>handlers/action.rs\<close>, with the locales \<open>call_invariant\<close> and
  \<open>attach_invariant\<close> for what a path may add to the log. Airport_Filters: predicate pushdown with three-valued logic. Metadata
  and Metadata_Properties: the catalog commands and uploads. Service: gate and handlers composed over the registry: every call on
  every connection was admitted for its session's user, and a session is changed by its owner's requests only.

  \<^bold>\<open>The process.\<close> Config, Engine_Factory (with Float64 for the share of the memory limit), Execution_Identity, Metrics,
  Checkpoint, and Server, which composes their constructors as \<open>main\<close> does and states what a started server is.

  \<^bold>\<open>The client.\<close> Client_Pool and Async_Pool: \<^verbatim>\<open>swanlake-client/src/{pool,pool_shared,async_pool}.rs\<close>, bounded under all
  interleavings, both interpreting \<open>capacity\<close>. Client: \<^verbatim>\<open>{client,internal,driver}.rs\<close> call by call over ADBC, which refines the
  pools' view of a connection's transactions. Shell: \<^verbatim>\<open>bin/cli.rs\<close>.

  \<^bold>\<open>Bounds.\<close> There is no fuel; every loop of the source that is modelled is a total function. Histories, caches, sessions,
  connections and retries are bounded by the source's constants or settings, which are arguments. Machines are not bounded in
  their number of steps; the resource tracker's shutdown is, by five.

  \<^bold>\<open>Not modelled.\<close> Logging and tracing spans; the installation of the logger and the accept loop in \<^verbatim>\<open>swanlake-server/src/main.rs\<close>;
  the HTML of the status page; the parsers and encoders of third-party crates; memory layouts and pointers behind the FFI calls
  (a string handed out by an extension is an identity that is freed); the text of panics; weak memory orders (the atomics of the
  tracker are interleaved). Real numbers stand for \<open>f64\<close> where no rounding matters, and Float64 rounds where it does. Module files
  that only declare and re-export, the example programs, scripts and tests are left out.
\<close>

end
